(* ===== verification/Prelude.thy ===== *)
theory Prelude
  imports Main "HOL-Library.Sublist"
begin

text \<open>
  The lemmas and small definitions every component theory shares: the lemma
  collections of the development, positional insertion and deletion on lists
  (Go's \<open>slices.Insert\<close> and \<open>slices.Delete\<close> for one element), the merge order of
  Go maps built by a loop of assignments, first-seen deduplication, and the
  \<open>error + value\<close> results that stand for Go's \<open>(value, error)\<close> pairs.
\<close>

section \<open>Lemma collections\<close>

named_theorems go_defs \<open>definitions that component proofs unfold together\<close>
named_theorems go_len \<open>length facts of the string and list operations\<close>

section \<open>Results\<close>

text \<open>A Go function that returns \<open>(value, error)\<close>: \<open>Inl\<close> is a non-nil error.\<close>

type_synonym 'a result = "string + 'a"

fun bind_result :: "'a result \<Rightarrow> ('a \<Rightarrow> 'b result) \<Rightarrow> 'b result" where
  "bind_result (Inl e) f = Inl e"
| "bind_result (Inr a) f = f a"

lemma bind_result_Inr:
  "bind_result r f = Inr b \<longleftrightarrow> (\<exists>a. r = Inr a \<and> f a = Inr b)"
  by (cases r) auto

section \<open>One-element insertion and deletion\<close>

text \<open>\<open>slices.Delete(xs, i, i+1)\<close> and \<open>slices.Insert(xs, i, x)\<close>, for indices in range.\<close>

definition delete_at :: "nat \<Rightarrow> 'a list \<Rightarrow> 'a list" where
  "delete_at i xs = take i xs @ drop (Suc i) xs"

definition insert_at :: "nat \<Rightarrow> 'a \<Rightarrow> 'a list \<Rightarrow> 'a list" where
  "insert_at i x xs = take i xs @ x # drop i xs"

lemma length_delete_at [simp]: "i < length xs \<Longrightarrow> length (delete_at i xs) = length xs - 1"
  by (simp add: delete_at_def)

lemma length_insert_at [simp]: "length (insert_at i x xs) = Suc (length xs)"
  by (simp add: insert_at_def)

lemma insert_delete_at [simp]: "i < length xs \<Longrightarrow> insert_at i (xs ! i) (delete_at i xs) = xs"
  by (simp add: insert_at_def delete_at_def min_absorb2 id_take_nth_drop [symmetric])

lemma delete_insert_at [simp]: "i \<le> length xs \<Longrightarrow> delete_at i (insert_at i x xs) = xs"
  by (simp add: insert_at_def delete_at_def)

lemma nth_insert_at [simp]: "i \<le> length xs \<Longrightarrow> insert_at i x xs ! i = x"
  by (simp add: insert_at_def nth_append)

lemma nth_insert_at_less: "j < i \<Longrightarrow> i \<le> length xs \<Longrightarrow> insert_at i x xs ! j = xs ! j"
  by (simp add: insert_at_def nth_append)

lemma nth_insert_at_greater:
  "i \<le> length xs \<Longrightarrow> i \<le> j \<Longrightarrow> j < length xs \<Longrightarrow> insert_at i x xs ! Suc j = xs ! j"
  by (simp add: insert_at_def nth_append min_def Suc_diff_le)

lemma set_insert_at [simp]: "set (insert_at i x xs) = insert x (set xs)"
  by (metis Un_insert_right append_take_drop_id insert_at_def list.simps(15) set_append)

lemma map_insert_at [simp]: "map f (insert_at i x xs) = insert_at i (f x) (map f xs)"
  by (simp add: insert_at_def take_map drop_map)

lemma map_delete_at [simp]: "map f (delete_at i xs) = delete_at i (map f xs)"
  by (simp add: delete_at_def take_map drop_map)

lemma set_delete_at_subset: "set (delete_at i xs) \<subseteq> set xs"
  by (auto simp: delete_at_def dest: in_set_takeD in_set_dropD)

lemma nth_delete_at_less: "j < i \<Longrightarrow> i < length xs \<Longrightarrow> delete_at i xs ! j = xs ! j"
  by (simp add: delete_at_def nth_append)

lemma nth_delete_at_ge: "i \<le> j \<Longrightarrow> Suc j < length xs \<Longrightarrow> delete_at i xs ! j = xs ! Suc j"
  by (simp add: delete_at_def nth_append min_def)

lemma distinct_delete_at: "distinct xs \<Longrightarrow> distinct (delete_at i xs)"
  using set_take_disj_set_drop_if_distinct [of xs i "Suc i"] by (simp add: delete_at_def)

section \<open>First-seen deduplication\<close>

text \<open>The \<open>seen\<close>-map loop that several components use: keep the first occurrence.\<close>

fun dedupe_from :: "'a list \<Rightarrow> 'a list \<Rightarrow> 'a list" where
  "dedupe_from seen [] = []"
| "dedupe_from seen (x # xs) =
     (if x \<in> set seen then dedupe_from seen xs else x # dedupe_from (x # seen) xs)"

lemma set_dedupe_from: "set (dedupe_from seen xs) = set xs - set seen"
  by (induction xs arbitrary: seen) auto

lemma distinct_dedupe_from: "distinct (dedupe_from seen xs)"
  by (induction xs arbitrary: seen) (auto simp: set_dedupe_from)

lemma dedupe_from_cong: "set a = set b \<Longrightarrow> dedupe_from a xs = dedupe_from b xs"
proof (induction xs arbitrary: a b)
  case (Cons x xs)
  from Cons.prems have "dedupe_from (x # a) xs = dedupe_from (x # b) xs"
    by (intro Cons.IH) simp
  with Cons.IH [OF Cons.prems] Cons.prems show ?case by simp
qed simp

section \<open>Maps built by assignment loops\<close>

text \<open>\<open>for _, p := range ps { m[p.k] = p.v }\<close>: a later pair overwrites an earlier one.\<close>

definition assign_all :: "('k \<times> 'v) list \<Rightarrow> 'k \<Rightarrow> 'v option" where
  "assign_all ps = map_of (rev ps)"

lemma assign_all_Nil [simp]: "assign_all [] = Map.empty"
  by (simp add: assign_all_def)

lemma assign_all_snoc [simp]: "assign_all (ps @ [(k, v)]) = (assign_all ps)(k \<mapsto> v)"
  by (simp add: assign_all_def)

lemma dom_assign_all: "dom (assign_all ps) = fst ` set ps"
  by (simp add: assign_all_def dom_map_of_conv_image_fst)

section \<open>Components driven by operations\<close>

text \<open>
  The shape several components share: a state that a client changes through a set of
  operations, each of which runs under the component's lock, and an invariant that every
  operation keeps. Whatever sequence of operations the clients issue, it holds.
\<close>

locale op_preserving =
  fixes apply_op :: "'op \<Rightarrow> 's \<Rightarrow> 's" and Inv :: "'s \<Rightarrow> bool"
  assumes op_inv: "Inv s \<Longrightarrow> Inv (apply_op o1 s)"
begin

lemma run_inv: "Inv s \<Longrightarrow> Inv (fold apply_op ops s)"
  by (induction ops arbitrary: s) (auto intro: op_inv)

end

locale op_system = op_preserving apply_op Inv
  for apply_op :: "'op \<Rightarrow> 's \<Rightarrow> 's" and Inv :: "'s \<Rightarrow> bool" +
  fixes start :: 's
  assumes start_inv: "Inv start"
begin

lemma reachable_inv: "Inv (fold apply_op ops start)"
  by (rule run_inv [OF start_inv])

end

text \<open>
  Two systems driven by the same operations, the second the specification of the first:
  \<open>sim\<close> relates their states, every operation keeps them related, and so does every sequence
  of operations.
\<close>

locale simulation =
  fixes cstep :: "'op \<Rightarrow> 'c \<Rightarrow> 'c" and astep :: "'op \<Rightarrow> 'a \<Rightarrow> 'a" and sim :: "'c \<Rightarrow> 'a \<Rightarrow> bool"
  assumes sim_step: "sim c a \<Longrightarrow> sim (cstep o1 c) (astep o1 a)"
begin

lemma sim_run: "sim c a \<Longrightarrow> sim (fold cstep ops c) (fold astep ops a)"
  by (induction ops arbitrary: c a) (auto intro: sim_step)

end

section \<open>Cells of a larger state\<close>

text \<open>
  A part of a state that is read with \<open>get\<close> and changed in place with \<open>put\<close>: what a Go
  pointer into a nested structure offers. Changes compose, and a change that is undone
  restores the whole state, not only the part.
\<close>

locale cell =
  fixes valid :: "'s \<Rightarrow> bool" and get :: "'s \<Rightarrow> 'a" and put :: "('a \<Rightarrow> 'a) \<Rightarrow> 's \<Rightarrow> 's"
  assumes get_put: "valid s \<Longrightarrow> get (put g s) = g (get s)"
    and put_get: "valid s \<Longrightarrow> put (\<lambda>_. get s) s = s"
    and put_put: "valid s \<Longrightarrow> put g (put h s) = put (\<lambda>x. g (h x)) s"
    and put_local: "valid s \<Longrightarrow> g (get s) = h (get s) \<Longrightarrow> put g s = put h s"
begin

lemma put_undo: "valid s \<Longrightarrow> h (g (get s)) = get s \<Longrightarrow> put h (put g s) = s"
  using put_local [of s "\<lambda>x. h (g x)" "\<lambda>_. get s"] by (simp add: put_put put_get)

lemma put_same: "valid s \<Longrightarrow> g (get s) = get s \<Longrightarrow> put g s = s"
  using put_local [of s g "\<lambda>_. get s"] by (simp add: put_get)

end

end
