(* ===== verification/GoStrings.thy ===== *)
theory GoStrings
  imports Prelude
begin

text \<open>
  The part of Go's \<open>strings\<close> and \<open>strconv\<close> packages that Helena calls, on byte
  strings: a Go \<open>string\<close> is a sequence of bytes and so is the \<open>char list\<close> of HOL.
  \<open>TrimSpace\<close> removes the UTF-8 encodings of every Unicode white-space rune, as Go
  does. \<open>ToLower\<close>, \<open>ToUpper\<close> and \<open>EqualFold\<close> are modelled on ASCII letters; bytes from
  128 up are left alone, where Go applies the Unicode case tables.
\<close>

section \<open>Prefixes, suffixes and searching\<close>

text \<open>\<open>strings.HasPrefix(s, p)\<close> and \<open>strings.HasSuffix(s, p)\<close>.\<close>

abbreviation has_prefix :: "string \<Rightarrow> string \<Rightarrow> bool" where
  "has_prefix s p \<equiv> prefix p s"

abbreviation has_suffix :: "string \<Rightarrow> string \<Rightarrow> bool" where
  "has_suffix s p \<equiv> suffix p s"

definition trim_prefix :: "string \<Rightarrow> string \<Rightarrow> string" where
  "trim_prefix s p = (if has_prefix s p then drop (length p) s else s)"

definition trim_suffix :: "string \<Rightarrow> string \<Rightarrow> string" where
  "trim_suffix s p = (if has_suffix s p then take (length s - length p) s else s)"

text \<open>\<open>strings.Index\<close>: the first position of \<open>p\<close> in \<open>s\<close> (Go's -1 is \<open>None\<close>).\<close>

fun index_of :: "string \<Rightarrow> string \<Rightarrow> nat option" where
  "index_of [] p = (if p = [] then Some 0 else None)"
| "index_of (c # s) p =
     (if has_prefix (c # s) p then Some 0 else map_option Suc (index_of s p))"

definition contains :: "string \<Rightarrow> string \<Rightarrow> bool" where
  "contains s p = (index_of s p \<noteq> None)"

fun index_byte :: "string \<Rightarrow> char \<Rightarrow> nat option" where
  "index_byte [] c = None"
| "index_byte (x # s) c = (if x = c then Some 0 else map_option Suc (index_byte s c))"

text \<open>\<open>strings.LastIndex(s, c)\<close> for a one-byte \<open>c\<close>.\<close>

fun last_index_byte :: "string \<Rightarrow> char \<Rightarrow> nat option" where
  "last_index_byte [] c = None"
| "last_index_byte (x # s) c =
     (case last_index_byte s c of
        Some i \<Rightarrow> Some (Suc i)
      | None \<Rightarrow> if x = c then Some 0 else None)"

text \<open>\<open>strings.Cut(s, c)\<close> for a one-byte separator: before, after, found.\<close>

definition cut :: "string \<Rightarrow> char \<Rightarrow> string \<times> string \<times> bool" where
  "cut s c =
     (case index_byte s c of
        Some i \<Rightarrow> (take i s, drop (Suc i) s, True)
      | None \<Rightarrow> (s, [], False))"

text \<open>\<open>strings.Split(s, c)\<close> for a one-byte separator, and \<open>strings.Join\<close>.\<close>

fun split_on :: "char \<Rightarrow> string \<Rightarrow> string list" where
  "split_on c [] = [[]]"
| "split_on c (x # s) =
     (if x = c then [] # split_on c s
      else (case split_on c s of [] \<Rightarrow> [[x]] | p # ps \<Rightarrow> (x # p) # ps))"

fun join :: "string \<Rightarrow> string list \<Rightarrow> string" where
  "join sep [] = []"
| "join sep [p] = p"
| "join sep (p # q # ps) = p @ sep @ join sep (q # ps)"

section \<open>White space and letter case\<close>

text \<open>
  \<open>unicode.IsSpace\<close> as UTF-8 byte sequences: the six ASCII characters, U+0085, U+00A0,
  U+1680, U+2000..U+200A, U+2028, U+2029, U+202F, U+205F and U+3000.
\<close>

definition ascii_space :: "char \<Rightarrow> bool" where
  "ascii_space c \<longleftrightarrow> c \<in> {CHR 0x09, CHR 0x0A, CHR 0x0B, CHR 0x0C, CHR 0x0D, CHR 0x20}"

definition wide_spaces :: "string list" where
  "wide_spaces =
     [[CHR 0xC2, CHR 0x85], [CHR 0xC2, CHR 0xA0], [CHR 0xE1, CHR 0x9A, CHR 0x80],
      [CHR 0xE2, CHR 0x80, CHR 0x80], [CHR 0xE2, CHR 0x80, CHR 0x81],
      [CHR 0xE2, CHR 0x80, CHR 0x82], [CHR 0xE2, CHR 0x80, CHR 0x83],
      [CHR 0xE2, CHR 0x80, CHR 0x84], [CHR 0xE2, CHR 0x80, CHR 0x85],
      [CHR 0xE2, CHR 0x80, CHR 0x86], [CHR 0xE2, CHR 0x80, CHR 0x87],
      [CHR 0xE2, CHR 0x80, CHR 0x88], [CHR 0xE2, CHR 0x80, CHR 0x89],
      [CHR 0xE2, CHR 0x80, CHR 0x8A], [CHR 0xE2, CHR 0x80, CHR 0xA8],
      [CHR 0xE2, CHR 0x80, CHR 0xA9], [CHR 0xE2, CHR 0x80, CHR 0xAF],
      [CHR 0xE2, CHR 0x81, CHR 0x9F], [CHR 0xE3, CHR 0x80, CHR 0x80]]"

text \<open>The width in bytes of the white-space rune that starts \<open>s\<close>, 0 when there is none.\<close>

definition space_width :: "string list \<Rightarrow> string \<Rightarrow> nat" where
  "space_width seqs s =
     (case s of
        [] \<Rightarrow> 0
      | c # _ \<Rightarrow>
          if ascii_space c then 1
          else (case find (\<lambda>w. prefix w s) seqs of Some w \<Rightarrow> length w | None \<Rightarrow> 0))"

function trim_left_with :: "string list \<Rightarrow> string \<Rightarrow> string" where
  "trim_left_with seqs s =
     (if s = [] \<or> space_width seqs s = 0 then s
      else trim_left_with seqs (drop (space_width seqs s) s))"
  by pat_completeness auto
termination
  by (relation "measure (\<lambda>(seqs, s). length s)") auto

declare trim_left_with.simps [simp del]

text \<open>
  \<open>strings.TrimSpace\<close>. The right end is trimmed on the reversed string: the last rune of
  a byte string is the white-space rune \<open>w\<close> exactly when \<open>w\<close>'s encoding is a suffix.
\<close>

definition trim_left :: "string \<Rightarrow> string" where
  "trim_left s = trim_left_with wide_spaces s"

definition trim_right :: "string \<Rightarrow> string" where
  "trim_right s = rev (trim_left_with (map rev wide_spaces) (rev s))"

definition trim_space :: "string \<Rightarrow> string" where
  "trim_space s = trim_right (trim_left s)"

text \<open>\<open>strings.Trim(s, cutset)\<close> for a one-byte cut set.\<close>

definition trim_byte :: "char \<Rightarrow> string \<Rightarrow> string" where
  "trim_byte c s = rev (dropWhile (\<lambda>x. x = c) (rev (dropWhile (\<lambda>x. x = c) s)))"

definition lower_char :: "char \<Rightarrow> char" where
  "lower_char c =
     (if 65 \<le> (of_char c :: nat) \<and> (of_char c :: nat) \<le> 90
      then char_of ((of_char c :: nat) + 32) else c)"

definition upper_char :: "char \<Rightarrow> char" where
  "upper_char c =
     (if 97 \<le> (of_char c :: nat) \<and> (of_char c :: nat) \<le> 122
      then char_of ((of_char c :: nat) - 32) else c)"

definition to_lower :: "string \<Rightarrow> string" where
  "to_lower s = map lower_char s"

definition to_upper :: "string \<Rightarrow> string" where
  "to_upper s = map upper_char s"

definition equal_fold :: "string \<Rightarrow> string \<Rightarrow> bool" where
  "equal_fold s t \<longleftrightarrow> to_lower s = to_lower t"

section \<open>Integers as text\<close>

definition digit_char :: "nat \<Rightarrow> char" where
  "digit_char d = char_of (48 + d)"

fun nat_digits :: "nat \<Rightarrow> string" where
  "nat_digits n =
     (if n < 10 then [digit_char n] else nat_digits (n div 10) @ [digit_char (n mod 10)])"

declare nat_digits.simps [simp del]

text \<open>\<open>strconv.Itoa\<close>.\<close>

definition itoa :: "int \<Rightarrow> string" where
  "itoa n = (if n < 0 then CHR ''-'' # nat_digits (nat (- n)) else nat_digits (nat n))"

definition is_digit :: "char \<Rightarrow> bool" where
  "is_digit c \<longleftrightarrow> 48 \<le> (of_char c :: nat) \<and> (of_char c :: nat) \<le> 57"

definition digit_val :: "char \<Rightarrow> nat" where
  "digit_val c = of_char c - 48"

definition digits_val :: "string \<Rightarrow> nat" where
  "digits_val s = fold (\<lambda>c n. 10 * n + digit_val c) s 0"

text \<open>
  \<open>strconv.Atoi\<close> on a 64-bit platform: an optional sign, then one or more decimal digits,
  whose value fits \<open>int64\<close>; anything else is an error (\<open>None\<close>).
\<close>

definition atoi :: "string \<Rightarrow> int option" where
  "atoi s =
     (let neg = has_prefix s ''-'';
          ds = (if neg \<or> has_prefix s ''+'' then drop 1 s else s);
          n = int (digits_val ds);
          v = (if neg then - n else n)
      in if ds = [] \<or> \<not> list_all is_digit ds then None
         else if - (2 ^ 63) \<le> v \<and> v < 2 ^ 63 then Some v else None)"

section \<open>Lemmas: searching, cutting and splitting\<close>

lemma index_byte_None [simp]: "index_byte s c = None \<longleftrightarrow> c \<notin> set s"
  by (induction s) auto

lemma index_byte_Some:
  "index_byte s c = Some i \<Longrightarrow> i < length s \<and> s ! i = c \<and> c \<notin> set (take i s)"
  by (induction s arbitrary: i) (auto split: if_splits)

lemma index_byte_append: "c \<notin> set a \<Longrightarrow> index_byte (a @ c # b) c = Some (length a)"
  by (induction a) auto

lemma last_index_byte_None [simp]: "last_index_byte s c = None \<longleftrightarrow> c \<notin> set s"
  by (induction s) (auto split: option.splits)

lemma last_index_byte_append: "c \<notin> set b \<Longrightarrow> last_index_byte (a @ c # b) c = Some (length a)"
  by (induction a) (auto split: option.splits)

lemma last_index_byte_Some:
  "last_index_byte s c = Some i \<Longrightarrow> i < length s \<and> s ! i = c \<and> c \<notin> set (drop (Suc i) s)"
  by (induction s arbitrary: i) (auto split: option.splits if_splits)

lemma index_of_Nil [simp]: "index_of s [] = Some 0"
  by (cases s) auto

lemma index_of_Some: "index_of s p = Some i \<Longrightarrow> i + length p \<le> length s \<and> prefix p (drop i s)"
  by (induction s arbitrary: i) (auto split: if_splits dest: prefix_length_le)

lemma contains_iff: "contains s p \<longleftrightarrow> (\<exists>a b. s = a @ p @ b)"
proof
  assume "contains s p"
  then obtain i where "index_of s p = Some i" by (auto simp: contains_def)
  then have "prefix p (drop i s)" by (rule index_of_Some [THEN conjunct2])
  then obtain b where "drop i s = p @ b" by (auto simp: prefix_def)
  then have "s = take i s @ p @ b" by (metis append_take_drop_id)
  then show "\<exists>a b. s = a @ p @ b" by blast
next
  assume "\<exists>a b. s = a @ p @ b"
  then obtain a b where "s = a @ p @ b" by blast
  moreover have "index_of (a @ p @ b) p \<noteq> None"
  proof (induction a)
    case Nil
    have "has_prefix (p @ b) p" by simp
    then show ?case by (cases "p @ b") (simp_all del: prefix_Cons)
  next
    case (Cons c a)
    then show ?case by auto
  qed
  ultimately show "contains s p" by (simp add: contains_def)
qed

lemma cut_append: "c \<notin> set a \<Longrightarrow> cut (a @ c # b) c = (a, b, True)"
  by (simp add: cut_def index_byte_append)

lemma cut_absent: "c \<notin> set a \<Longrightarrow> cut a c = (a, [], False)"
  by (auto simp: cut_def split: option.split dest: index_byte_Some)

lemma split_on_not_Nil [simp]: "split_on c s \<noteq> []"
  by (induction s) (auto split: list.splits)

lemma split_on_no_sep: "p \<in> set (split_on c s) \<Longrightarrow> c \<notin> set p"
  by (induction s arbitrary: p) (auto split: list.splits if_splits)

lemma join_split_on: "join [c] (split_on c s) = s"
proof (induction s)
  case Nil
  show ?case by simp
next
  case (Cons x s)
  obtain p ps where ps: "split_on c s = p # ps"
    by (cases "split_on c s") auto
  from Cons show ?case
    by (cases ps) (auto simp: ps)
qed

lemma split_on_absent: "c \<notin> set s \<Longrightarrow> split_on c s = [s]"
  by (induction s) auto

lemma split_on_append: "c \<notin> set p \<Longrightarrow> split_on c (p @ c # s) = p # split_on c s"
  by (induction p) auto

lemma split_on_join:
  "ps \<noteq> [] \<Longrightarrow> (\<And>p. p \<in> set ps \<Longrightarrow> c \<notin> set p) \<Longrightarrow> split_on c (join [c] ps) = ps"
proof (induction ps)
  case (Cons p ps)
  then show ?case
    by (cases ps) (auto simp: split_on_absent split_on_append)
qed simp

lemma join_Cons: "ps \<noteq> [] \<Longrightarrow> join sep (p # ps) = p @ sep @ join sep ps"
  by (cases ps) auto

lemma join_snoc: "ps \<noteq> [] \<Longrightarrow> join sep (ps @ [q]) = join sep ps @ sep @ q"
proof (induction ps)
  case (Cons p ps)
  then show ?case by (cases ps) (auto simp: join_Cons)
qed simp

lemma split_on_snoc_gen:
  "c \<notin> set q \<Longrightarrow> split_on c (s @ c # q) = split_on c s @ [q]"
proof (induction s)
  case (Cons x s)
  then show ?case by (cases "split_on c s") auto
qed (simp add: split_on_absent)

section \<open>Lemmas: trimming\<close>

lemma trim_left_with_stop: "space_width seqs s = 0 \<Longrightarrow> trim_left_with seqs s = s"
  by (subst trim_left_with.simps) simp

lemma trim_left_with_result: "space_width seqs (trim_left_with seqs s) = 0"
proof (induction seqs s rule: trim_left_with.induct)
  case (1 seqs s)
  show ?case
  proof (cases "s = [] \<or> space_width seqs s = 0")
    case True
    then show ?thesis by (subst trim_left_with.simps) (auto simp: space_width_def)
  next
    case False
    with "1.IH" show ?thesis by (subst trim_left_with.simps) simp
  qed
qed

lemma trim_left_with_suffix: "suffix (trim_left_with seqs s) s"
proof (induction seqs s rule: trim_left_with.induct)
  case (1 seqs s)
  show ?case
  proof (cases "s = [] \<or> space_width seqs s = 0")
    case True
    then show ?thesis by (subst trim_left_with.simps) simp
  next
    case False
    with "1.IH" have "suffix (trim_left_with seqs (drop (space_width seqs s) s)) s"
      by (meson suffix_drop suffix_order.trans)
    with False show ?thesis by (subst trim_left_with.simps) simp
  qed
qed

lemma find_prefix_None_mono:
  assumes "prefix t s" and "find (\<lambda>w. prefix w s) seqs = None"
  shows "find (\<lambda>w. prefix w t) seqs = None"
  using assms by (auto simp: find_None_iff intro: prefix_order.trans)

definition seqs_ok :: "string list \<Rightarrow> bool" where
  "seqs_ok seqs \<longleftrightarrow> [] \<notin> set seqs"

lemma space_width_0_prefix:
  assumes "prefix t s" and "space_width seqs s = 0" and "seqs_ok seqs"
  shows "space_width seqs t = 0"
proof (cases t)
  case Nil
  then show ?thesis by (simp add: space_width_def)
next
  case (Cons c t')
  with assms(1) obtain s' where s: "s = c # s'" by (auto simp: prefix_def)
  have "find (\<lambda>w. prefix w s) seqs = None"
    using assms(2,3) by (auto simp: space_width_def s seqs_ok_def find_Some_iff
        split: if_splits option.splits dest: nth_mem)
  then have "find (\<lambda>w. prefix w t) seqs = None"
    using assms(1) by (rule find_prefix_None_mono [rotated])
  with assms(2) show ?thesis
    by (auto simp: space_width_def s Cons split: if_splits)
qed

lemma seqs_ok_wide [simp]: "seqs_ok wide_spaces" "seqs_ok (map rev wide_spaces)"
  by (simp_all add: seqs_ok_def wide_spaces_def)

text \<open>No white-space rune at either end.\<close>

definition trimmed :: "string \<Rightarrow> bool" where
  "trimmed s \<longleftrightarrow>
     space_width wide_spaces s = 0 \<and> space_width (map rev wide_spaces) (rev s) = 0"

lemma trim_space_trimmed [simp]: "trimmed (trim_space s)"
proof -
  let ?t = "trim_left s"
  have "space_width wide_spaces ?t = 0"
    by (simp add: trim_left_def trim_left_with_result)
  moreover have "prefix (trim_right ?t) ?t"
    by (metis suffix_to_prefix rev_rev_ident trim_left_with_suffix trim_right_def)
  ultimately have "space_width wide_spaces (trim_right ?t) = 0"
    by (blast intro: space_width_0_prefix seqs_ok_wide)
  then show ?thesis
    by (simp add: trimmed_def trim_space_def trim_right_def trim_left_with_result)
qed

lemma trim_space_id: "trimmed s \<Longrightarrow> trim_space s = s"
  by (simp add: trimmed_def trim_space_def trim_right_def trim_left_def trim_left_with_stop)

lemma trim_space_idem [simp]: "trim_space (trim_space s) = trim_space s"
  by (simp add: trim_space_id)

lemma trim_space_Nil [simp]: "trim_space [] = []"
  by (rule trim_space_id) (simp add: trimmed_def space_width_def)

lemma trim_space_sublist: "\<exists>a b. s = a @ trim_space s @ b"
proof -
  obtain a where a: "s = a @ trim_left s"
    using trim_left_with_suffix [of wide_spaces s] by (auto simp: trim_left_def suffix_def)
  have "prefix (trim_right (trim_left s)) (trim_left s)"
    by (metis suffix_to_prefix rev_rev_ident trim_left_with_suffix trim_right_def)
  then obtain b where "trim_left s = trim_right (trim_left s) @ b" by (auto simp: prefix_def)
  with a have "s = a @ trim_space s @ b" by (simp add: trim_space_def)
  then show ?thesis by blast
qed

lemma set_trim_space: "set (trim_space s) \<subseteq> set s"
  using trim_space_sublist [of s] by (metis Un_upper1 Un_upper2 dual_order.trans set_append)

section \<open>Lemmas: integers as text\<close>

lemma of_char_digit: "d < 10 \<Longrightarrow> (of_char (digit_char d) :: nat) = 48 + d"
  by (simp add: digit_char_def)

lemma is_digit_digit_char [simp]: "d < 10 \<Longrightarrow> is_digit (digit_char d)"
  by (simp add: is_digit_def of_char_digit)

lemma digit_val_digit_char [simp]: "d < 10 \<Longrightarrow> digit_val (digit_char d) = d"
  by (simp add: digit_val_def of_char_digit)

lemma nat_digits_digits: "list_all is_digit (nat_digits n)"
proof (induction n rule: nat_digits.induct)
  case (1 n)
  then show ?case
    by (cases "n < 10") (simp_all add: nat_digits.simps [of n])
qed

lemma nat_digits_not_Nil [simp]: "nat_digits n \<noteq> []"
  by (subst nat_digits.simps) simp

lemma digits_val_nat_digits [simp]: "digits_val (nat_digits n) = n"
proof (induction n rule: nat_digits.induct)
  case (1 n)
  show ?case
  proof (cases "n < 10")
    case True
    then show ?thesis by (simp add: nat_digits.simps [of n] digits_val_def)
  next
    case False
    with 1 show ?thesis by (simp add: nat_digits.simps [of n] digits_val_def)
  qed
qed

lemma nat_digits_inject [simp]: "nat_digits m = nat_digits n \<longleftrightarrow> m = n"
  by (metis digits_val_nat_digits)

lemma digit_not_other:
  "is_digit c \<Longrightarrow> c \<noteq> CHR ''/''" "is_digit c \<Longrightarrow> c \<noteq> CHR ''-''" "is_digit c \<Longrightarrow> c \<noteq> CHR ''+''"
  "is_digit c \<Longrightarrow> c \<noteq> CHR ''f''" "is_digit c \<Longrightarrow> c \<noteq> CHR ''r''" "is_digit c \<Longrightarrow> c \<noteq> CHR ''c''"
  "is_digit c \<Longrightarrow> c \<noteq> CHR ''v''" "is_digit c \<Longrightarrow> c \<noteq> CHR ''e''"
  by (auto simp: is_digit_def)

lemma nat_digits_no_char: "\<not> is_digit c \<Longrightarrow> c \<notin> set (nat_digits n)"
  using nat_digits_digits [of n] by (auto simp: list_all_iff)

lemma nat_digits_hd: "\<exists>c s. nat_digits n = c # s \<and> is_digit c"
  using nat_digits_digits [of n] by (cases "nat_digits n") auto

lemma itoa_nat [simp]: "itoa (int n) = nat_digits n"
  by (simp add: itoa_def)

lemma atoi_nat_digits: "int n < 2 ^ 63 \<Longrightarrow> atoi (nat_digits n) = Some (int n)"
proof -
  assume n: "int n < 2 ^ 63"
  obtain c s where cs: "nat_digits n = c # s" "is_digit c"
    using nat_digits_hd [of n] by blast
  then have "\<not> has_prefix (nat_digits n) ''-''" "\<not> has_prefix (nat_digits n) ''+''"
    by (auto dest: digit_not_other)
  with n show ?thesis
    by (simp add: atoi_def Let_def nat_digits_digits)
qed

lemma atoi_itoa: "- (2 ^ 63) \<le> n \<Longrightarrow> n < 2 ^ 63 \<Longrightarrow> atoi (itoa n) = Some n"
proof (cases "n < 0")
  case True
  assume "- (2 ^ 63) \<le> n"
  with True show ?thesis
    by (simp add: itoa_def atoi_def Let_def nat_digits_digits)
next
  case False
  assume "n < 2 ^ 63"
  with False show ?thesis
    using atoi_nat_digits [of "nat n"] by (simp add: itoa_def)
qed

section \<open>Lemmas: trimming around ASCII bytes\<close>

definition ascii :: "char \<Rightarrow> bool" where
  "ascii c \<longleftrightarrow> (of_char c :: nat) < 128"

lemma wide_not_ascii:
  "w \<in> set wide_spaces \<Longrightarrow> c \<in> set w \<Longrightarrow> \<not> ascii c"
  "w \<in> set (map rev wide_spaces) \<Longrightarrow> c \<in> set w \<Longrightarrow> \<not> ascii c"
proof -
  have "list_all (\<lambda>w. list_all (\<lambda>c. \<not> ascii c) w) wide_spaces" by code_simp
  then have "\<not> ascii c" if "w \<in> set wide_spaces" "c \<in> set w" for w c
    using that by (auto simp: list_all_iff)
  then show "w \<in> set wide_spaces \<Longrightarrow> c \<in> set w \<Longrightarrow> \<not> ascii c"
    "w \<in> set (map rev wide_spaces) \<Longrightarrow> c \<in> set w \<Longrightarrow> \<not> ascii c"
    by auto
qed

lemma wide_not_Nil: "w \<in> set wide_spaces \<Longrightarrow> w \<noteq> []" "w \<in> set (map rev wide_spaces) \<Longrightarrow> w \<noteq> []"
  by (auto simp: wide_spaces_def)

lemma prefix_before: "c \<notin> set w \<Longrightarrow> prefix w (a @ c # s) \<longleftrightarrow> prefix w a"
proof
  assume c: "c \<notin> set w" and "prefix w (a @ c # s)"
  then consider "prefix w a" | us where "w = a @ us" "prefix us (c # s)"
    by (auto simp: prefix_append)
  then show "prefix w a"
  proof cases
    case 2
    with c show ?thesis by (cases us) auto
  qed
next
  assume "prefix w a"
  then show "prefix w (a @ c # s)" by (simp add: prefix_def) (metis append.assoc)
qed

lemma find_cong: "(\<And>x. x \<in> set xs \<Longrightarrow> P x = Q x) \<Longrightarrow> find P xs = find Q xs"
  by (induction xs) auto

lemma space_width_before:
  assumes "a \<noteq> []" and "\<And>w. w \<in> set seqs \<Longrightarrow> c \<notin> set w"
  shows "space_width seqs (a @ c # s) = space_width seqs a"
proof -
  have "find (\<lambda>w. prefix w (a @ c # s)) seqs = find (\<lambda>w. prefix w a) seqs"
    using assms(2) by (intro find_cong) (simp add: prefix_before)
  with assms(1) show ?thesis by (cases a) (simp_all add: space_width_def del: prefix_Cons)
qed

lemma space_width_ascii:
  assumes "\<not> ascii_space c" and "\<And>w. w \<in> set seqs \<Longrightarrow> w \<noteq> [] \<and> c \<notin> set w"
  shows "space_width seqs (c # s) = 0"
proof -
  have "find (\<lambda>w. prefix w (c # s)) seqs = None"
    using assms(2) by (fastforce simp: find_None_iff prefix_Cons)
  with assms(1) show ?thesis by (simp add: space_width_def)
qed

lemma trimmed_glue:
  assumes "trimmed a" "trimmed b" "a \<noteq> []" "b \<noteq> []" "ascii c" "ascii d"
  shows "trimmed (a @ c # m @ d # b)"
proof -
  have "space_width wide_spaces (a @ c # m @ d # b) = space_width wide_spaces a"
    using assms wide_not_ascii(1) by (intro space_width_before) auto
  moreover have "space_width (map rev wide_spaces) (rev b @ d # rev (a @ c # m)) =
      space_width (map rev wide_spaces) (rev b)"
    using assms wide_not_ascii(2) by (intro space_width_before) auto
  ultimately show ?thesis using assms(1,2) by (simp add: trimmed_def)
qed

lemma trimmed_ends:
  assumes "ascii c" "\<not> ascii_space c" "ascii d" "\<not> ascii_space d"
  shows "trimmed (c # m @ [d])" "trimmed [c]"
proof -
  have front: "space_width wide_spaces (x # s) = 0" if "ascii x" "\<not> ascii_space x" for x s
    using that wide_not_ascii(1) wide_not_Nil(1) by (intro space_width_ascii) auto
  have rear: "space_width (map rev wide_spaces) (x # s) = 0" if "ascii x" "\<not> ascii_space x" for x s
    using that wide_not_ascii(2) wide_not_Nil(2) by (intro space_width_ascii) auto
  show "trimmed (c # m @ [d])" using assms front [of c] rear [of d] by (simp add: trimmed_def)
  show "trimmed [c]" using assms front [of c] rear [of c] by (simp add: trimmed_def)
qed

lemma trimmed_tail:
  assumes "trimmed b" "b \<noteq> []" "ascii c" "\<not> ascii_space c" "ascii d"
  shows "trimmed (c # m @ d # b)"
proof -
  have "space_width wide_spaces (c # m @ d # b) = 0"
    using assms wide_not_ascii(1) wide_not_Nil(1) by (intro space_width_ascii) auto
  moreover have "space_width (map rev wide_spaces) (rev b @ d # rev (c # m)) =
      space_width (map rev wide_spaces) (rev b)"
    using assms wide_not_ascii(2) by (intro space_width_before) auto
  ultimately show ?thesis using assms(1) by (simp add: trimmed_def)
qed

lemma ascii_wide:
  "ascii c \<Longrightarrow> w \<in> set wide_spaces \<Longrightarrow> c \<notin> set w"
  "ascii c \<Longrightarrow> w \<in> set (map rev wide_spaces) \<Longrightarrow> c \<notin> set w"
  using wide_not_ascii by blast+

end
