(* ===== verification/ApiModel.thy ===== *)
theory ApiModel
  imports GoStrings
begin

text \<open>
  The data of \<open>internal/model\<close>: requests, folders, collections, environments, the nine
  authentication schemes and the settings, as records in the order of the Go structs.
  Go's named string types (\<open>Method\<close>, \<open>BodyType\<close>, \<open>AuthType\<close>, ...) stay strings, since
  any string can be stored in them. A nil pointer is \<open>None\<close>; nil and empty slices are
  both the empty list. A folder contains folders, so it is a datatype.
\<close>

section \<open>Methods and body types\<close>

definition Methods :: "string list" where
  "Methods =
     [''GET'', ''POST'', ''PUT'', ''PATCH'', ''DELETE'', ''QUERY'', ''HEAD'', ''OPTIONS'',
      ''TRACE'', ''CONNECT'']"

definition Method_Valid :: "string \<Rightarrow> bool" where
  "Method_Valid m = list_ex (\<lambda>k. m = k) Methods"

definition BodyNone :: string where "BodyNone = ''none''"
definition BodyJSON :: string where "BodyJSON = ''json''"
definition BodyXML :: string where "BodyXML = ''xml''"
definition BodyText :: string where "BodyText = ''text''"
definition BodyForm :: string where "BodyForm = ''form-urlencoded''"
definition BodyMultipart :: string where "BodyMultipart = ''multipart-form''"
definition BodyFile :: string where "BodyFile = ''file''"
definition BodyGraphQL :: string where "BodyGraphQL = ''graphql''"

lemmas body_type_defs [go_defs] =
  BodyNone_def BodyJSON_def BodyXML_def BodyText_def BodyForm_def BodyMultipart_def
  BodyFile_def BodyGraphQL_def

definition BodyTypes :: "string list" where
  "BodyTypes =
     [BodyNone, BodyJSON, BodyXML, BodyText, BodyGraphQL, BodyForm, BodyMultipart, BodyFile]"

definition BodyType_Valid :: "string \<Rightarrow> bool" where
  "BodyType_Valid t = list_ex (\<lambda>k. t = k) BodyTypes"

definition BodyType_ContentType :: "string \<Rightarrow> string" where
  "BodyType_ContentType t =
     (if t = BodyJSON \<or> t = BodyGraphQL then ''application/json''
      else if t = BodyXML then ''application/xml''
      else if t = BodyText then ''text/plain''
      else if t = BodyForm then ''application/x-www-form-urlencoded''
      else '''')"

section \<open>Authentication\<close>

definition AuthNone :: string where "AuthNone = ''none''"
definition AuthInherit :: string where "AuthInherit = ''inherit''"
definition AuthBasic :: string where "AuthBasic = ''basic''"
definition AuthBearer :: string where "AuthBearer = ''bearer''"
definition AuthAPIKey :: string where "AuthAPIKey = ''apikey''"
definition AuthOAuth2 :: string where "AuthOAuth2 = ''oauth2''"
definition AuthWSSE :: string where "AuthWSSE = ''wsse''"
definition AuthOAuth1 :: string where "AuthOAuth1 = ''oauth1''"
definition AuthAWSV4 :: string where "AuthAWSV4 = ''awsv4''"
definition AuthDigest :: string where "AuthDigest = ''digest''"
definition AuthNTLM :: string where "AuthNTLM = ''ntlm''"

lemmas auth_type_defs [go_defs] =
  AuthNone_def AuthInherit_def AuthBasic_def AuthBearer_def AuthAPIKey_def AuthOAuth2_def
  AuthWSSE_def AuthOAuth1_def AuthAWSV4_def AuthDigest_def AuthNTLM_def

record basic_auth =
  ba_Username :: string
  ba_Password :: string

record bearer_auth =
  be_Token :: string

record apikey_auth =
  ak_Name :: string
  ak_Value :: string
  ak_Placement :: string

record oauth2_auth =
  o2_Grant :: string
  o2_TokenURL :: string
  o2_AuthURL :: string
  o2_ClientID :: string
  o2_ClientSecret :: string
  o2_Scope :: string
  o2_RedirectURI :: string
  o2_UsePKCE :: bool
  o2_Audience :: string

record wsse_auth =
  ws_Username :: string
  ws_Password :: string

record oauth1_auth =
  o1_ConsumerKey :: string
  o1_ConsumerSecret :: string
  o1_Token :: string
  o1_TokenSecret :: string

record awsv4_auth =
  aw_AccessKeyID :: string
  aw_SecretAccessKey :: string
  aw_Region :: string
  aw_Service :: string
  aw_SessionToken :: string

record digest_auth =
  di_Username :: string
  di_Password :: string

record ntlm_auth =
  nt_Username :: string
  nt_Password :: string
  nt_Domain :: string
  nt_Workstation :: string

record auth =
  auth_Type :: string
  auth_Basic :: "basic_auth option"
  auth_Bearer :: "bearer_auth option"
  auth_APIKey :: "apikey_auth option"
  auth_OAuth2 :: "oauth2_auth option"
  auth_WSSE :: "wsse_auth option"
  auth_OAuth1 :: "oauth1_auth option"
  auth_AWSV4 :: "awsv4_auth option"
  auth_Digest :: "digest_auth option"
  auth_NTLM :: "ntlm_auth option"

text \<open>\<open>model.Auth{Type: t}\<close>: every scheme pointer nil.\<close>

definition auth_of_type :: "string \<Rightarrow> auth" where
  "auth_of_type t =
     \<lparr>auth_Type = t, auth_Basic = None, auth_Bearer = None, auth_APIKey = None,
      auth_OAuth2 = None, auth_WSSE = None, auth_OAuth1 = None, auth_AWSV4 = None,
      auth_Digest = None, auth_NTLM = None\<rparr>"

section \<open>Requests, folders, collections\<close>

record key_value =
  kv_Enabled :: bool
  kv_Key :: string
  kv_Value :: string
  kv_Description :: string

record body =
  body_Type :: string
  body_Content :: string
  body_Form :: "key_value list"
  body_FilePath :: string
  body_ContentType :: string
  body_GraphQLVariables :: string

record chain_step =
  cs_Alias :: string
  cs_Request :: string
  cs_RequestID :: string

record assertion =
  as_Enabled :: bool
  as_Source :: string
  as_Op :: string
  as_Expected :: string

record scripts =
  sc_PreRequest :: string
  sc_PostResponse :: string

definition Scripts_IsEmpty :: "scripts \<Rightarrow> bool" where
  "Scripts_IsEmpty s \<longleftrightarrow>
     trim_space (sc_PreRequest s) = [] \<and> trim_space (sc_PostResponse s) = []"

record var_row =
  vr_Enabled :: bool
  vr_Key :: string
  vr_Value :: string
  vr_Secret :: bool

record request =
  rq_ID :: string
  rq_Name :: string
  rq_Method :: string
  rq_URL :: string
  rq_Params :: "key_value list"
  rq_PathParams :: "key_value list"
  rq_Headers :: "key_value list"
  rq_Body :: body
  rq_Docs :: string
  rq_Auth :: auth
  rq_Scripts :: scripts
  rq_Chain :: "chain_step list"
  rq_Assertions :: "assertion list"
  rq_Variables :: "var_row list"

datatype folder = Folder
  (fo_ID: string)
  (fo_Name: string)
  (fo_Folders: "folder list")
  (fo_Requests: "request list")
  (fo_Auth: auth)
  (fo_Variables: "var_row list")

record environment =
  env_ID :: string
  env_Name :: string
  env_Variables :: "var_row list"

record collection =
  co_ID :: string
  co_Name :: string
  co_Folders :: "folder list"
  co_Requests :: "request list"
  co_Environments :: "environment list"
  co_Variables :: "var_row list"
  co_Auth :: auth

record settings =
  se_InsecureSkipVerify :: bool
  se_CORSWarning :: bool
  se_FollowRedirects :: bool
  se_TimeoutSeconds :: int
  se_MaxResponseBytes :: int
  se_Theme :: string

definition DefaultMaxResponseBytes :: int where
  "DefaultMaxResponseBytes = 100 * 2 ^ 20"

definition DefaultSettings :: settings where
  "DefaultSettings =
     \<lparr>se_InsecureSkipVerify = False, se_CORSWarning = True, se_FollowRedirects = True,
      se_TimeoutSeconds = 30, se_MaxResponseBytes = DefaultMaxResponseBytes,
      se_Theme = ''system''\<rparr>"

definition EnabledPairs :: "key_value list \<Rightarrow> key_value list" where
  "EnabledPairs kvs = filter kv_Enabled kvs"

section \<open>Zero values and field updates\<close>

text \<open>Go's zero values (\<open>model.Body{}\<close>, \<open>model.Request{}\<close>, ...), which literals leave in
  the fields they do not name.\<close>

definition zero_body :: body where
  "zero_body =
     \<lparr>body_Type = '''', body_Content = '''', body_Form = [], body_FilePath = '''',
      body_ContentType = '''', body_GraphQLVariables = ''''\<rparr>"

definition zero_request :: request where
  "zero_request =
     \<lparr>rq_ID = '''', rq_Name = '''', rq_Method = '''', rq_URL = '''', rq_Params = [],
      rq_PathParams = [], rq_Headers = [], rq_Body = zero_body, rq_Docs = '''',
      rq_Auth = auth_of_type '''', rq_Scripts = \<lparr>sc_PreRequest = '''', sc_PostResponse = ''''\<rparr>,
      rq_Chain = [], rq_Assertions = [], rq_Variables = []\<rparr>"

definition zero_folder :: folder where
  "zero_folder = Folder '''' '''' [] [] (auth_of_type '''') []"

definition zero_collection :: collection where
  "zero_collection =
     \<lparr>co_ID = '''', co_Name = '''', co_Folders = [], co_Requests = [], co_Environments = [],
      co_Variables = [], co_Auth = auth_of_type ''''\<rparr>"

text \<open>Assignments to one field of a folder.\<close>

fun set_fo_ID :: "string \<Rightarrow> folder \<Rightarrow> folder" where
  "set_fo_ID i (Folder _ n fs rs a vs) = Folder i n fs rs a vs"

fun set_fo_Name :: "string \<Rightarrow> folder \<Rightarrow> folder" where
  "set_fo_Name n (Folder i _ fs rs a vs) = Folder i n fs rs a vs"

fun set_fo_children :: "folder list \<Rightarrow> request list \<Rightarrow> folder \<Rightarrow> folder" where
  "set_fo_children fs rs (Folder i n _ _ a vs) = Folder i n fs rs a vs"

fun set_fo_Auth :: "auth \<Rightarrow> folder \<Rightarrow> folder" where
  "set_fo_Auth a (Folder i n fs rs _ vs) = Folder i n fs rs a vs"

fun set_fo_Variables :: "var_row list \<Rightarrow> folder \<Rightarrow> folder" where
  "set_fo_Variables vs (Folder i n fs rs a _) = Folder i n fs rs a vs"

lemma set_fo_simps [simp]:
  "fo_Folders (set_fo_children fs rs f) = fs" "fo_Requests (set_fo_children fs rs f) = rs"
  "fo_Name (set_fo_children fs rs f) = fo_Name f" "fo_ID (set_fo_children fs rs f) = fo_ID f"
  "fo_Folders (set_fo_Name n f) = fo_Folders f" "fo_Requests (set_fo_Name n f) = fo_Requests f"
  "fo_Name (set_fo_Name n f) = n" "fo_ID (set_fo_Name n f) = fo_ID f"
  "fo_ID (set_fo_ID i f) = i" "fo_Name (set_fo_ID i f) = fo_Name f"
  "fo_Folders (set_fo_ID i f) = fo_Folders f" "fo_Requests (set_fo_ID i f) = fo_Requests f"
  by (cases f; simp)+

lemma set_fo_children_again [simp]:
  "set_fo_children fs rs (set_fo_children fs' rs' f) = set_fo_children fs rs f"
  by (cases f) simp

lemma set_fo_children_same [simp]: "set_fo_children (fo_Folders f) (fo_Requests f) f = f"
  by (cases f) simp

section \<open>Recursion over folder trees\<close>

text \<open>Every request below a container, folders after the container's own requests.\<close>

fun folder_requests :: "folder \<Rightarrow> request list" where
  "folder_requests (Folder _ _ fs rs _ _) = rs @ concat (map folder_requests fs)"

definition tree_requests :: "folder list \<Rightarrow> request list \<Rightarrow> request list" where
  "tree_requests fs rs = rs @ concat (map folder_requests fs)"

fun folder_ids :: "folder \<Rightarrow> string list" where
  "folder_ids (Folder i _ fs _ _ _) = i # concat (map folder_ids fs)"

definition col_requests :: "collection \<Rightarrow> request list" where
  "col_requests c = tree_requests (co_Folders c) (co_Requests c)"

lemma folder_requests_sel: "folder_requests f = tree_requests (fo_Folders f) (fo_Requests f)"
  by (cases f) (simp add: tree_requests_def)

end
