(* ===== verification/GoNet.thy ===== *)
theory GoNet
  imports GoStrings
begin

text \<open>
  \<open>net.ParseIP\<close> as a recogniser: \<open>netip.ParseAddr\<close> with its zone rejected. The first dot or
  colon decides between the IPv4 and the IPv6 grammar; only success matters to the callers.
\<close>

section \<open>IPv4\<close>

text \<open>One decimal field: digits only, no leading zero, at most 255.\<close>

definition ipv4_field :: "string \<Rightarrow> bool" where
  "ipv4_field f \<longleftrightarrow>
     f \<noteq> [] \<and> list_all is_digit f \<and> (length f = 1 \<or> hd f \<noteq> CHR ''0'') \<and> digits_val f \<le> 255"

definition parse_ipv4 :: "string \<Rightarrow> bool" where
  "parse_ipv4 s \<longleftrightarrow> length (split_on CHR ''.'' s) = 4 \<and> list_all ipv4_field (split_on CHR ''.'' s)"

section \<open>IPv6\<close>

definition is_hex :: "char \<Rightarrow> bool" where
  "is_hex c \<longleftrightarrow> is_digit c \<or>
     (97 \<le> (of_char c :: nat) \<and> (of_char c :: nat) \<le> 102) \<or>
     (65 \<le> (of_char c :: nat) \<and> (of_char c :: nat) \<le> 70)"

text \<open>
  The loop of \<open>parseIPv6\<close>: \<open>n\<close> groups of two bytes still fit, \<open>ell\<close> says that the ellipsis was
  seen. The result is the number of groups left unfilled, the ellipsis flag and the unread
  text; a failed check is \<open>None\<close>.
\<close>

fun ipv6_loop :: "nat \<Rightarrow> bool \<Rightarrow> string \<Rightarrow> (nat \<times> bool \<times> string) option" where
  "ipv6_loop 0 ell s = Some (0, ell, s)"
| "ipv6_loop (Suc n) ell s =
     (let digits = takeWhile is_hex s; rest = dropWhile is_hex s
      in if digits = [] \<or> 4 < length digits then None
         else if has_prefix rest ''.'' then
           (if \<not> ell \<and> Suc n \<noteq> 2 then None
            else if Suc n < 2 then None
            else if parse_ipv4 s then Some (Suc n - 2, ell, []) else None)
         else (case rest of
             [] \<Rightarrow> Some (n, ell, [])
           | c # s1 \<Rightarrow>
               if c \<noteq> CHR '':'' \<or> s1 = [] then None
               else if has_prefix s1 '':'' then
                 (if ell then None
                  else if drop 1 s1 = [] then Some (n, True, [])
                  else ipv6_loop n True (drop 1 s1))
               else ipv6_loop n ell s1))"

definition parse_ipv6 :: "string \<Rightarrow> bool" where
  "parse_ipv6 s =
     (let ell = has_prefix s ''::''; s1 = (if ell then drop 2 s else s)
      in if ell \<and> s1 = [] then True
         else (case ipv6_loop 8 ell s1 of
             None \<Rightarrow> False
           | Some (n, ell', rest) \<Rightarrow> rest = [] \<and> (if 0 < n then ell' else \<not> ell')))"

definition ParseIP :: "string \<Rightarrow> bool" where
  "ParseIP s =
     (case find (\<lambda>c. c \<in> {CHR ''.'', CHR '':'', CHR ''%''}) s of
        None \<Rightarrow> False
      | Some c \<Rightarrow>
          if c = CHR ''.'' then parse_ipv4 s
          else if c = CHR '':'' then (CHR ''%'' \<notin> set s \<and> parse_ipv6 s) else False)"

lemma ParseIP_samples:
  "ParseIP ''127.0.0.1''" "\<not> ParseIP ''10.0.0''" "\<not> ParseIP ''01.2.3.4''" "ParseIP ''::1''"
  "ParseIP ''::ffff:1.2.3.4''" "\<not> ParseIP ''1::2::3''" "\<not> ParseIP ''example.com''"
  by code_simp+

end
