(* ===== verification/GoHttp.thy ===== *)
theory GoHttp
  imports GoStrings "HOL-Library.AList" "HOL-Library.Char_ord" "HOL-Library.List_Lexorder"
    "HOL-Library.Product_Lexorder"
begin

text \<open>
  The parts of \<open>net/http\<close>, \<open>net/url\<close>, \<open>encoding/base64\<close>, \<open>encoding/hex\<close> and \<open>fmt\<close> that the
  request pipeline uses: header maps with canonical keys, percent encoding and query strings,
  base64, hex and quoted strings.
\<close>

section \<open>Headers\<close>

definition between :: "nat \<Rightarrow> char \<Rightarrow> nat \<Rightarrow> bool" where
  "between a c b \<longleftrightarrow> a \<le> (of_char c :: nat) \<and> (of_char c :: nat) \<le> b"

definition alnum :: "char \<Rightarrow> bool" where
  "alnum c \<longleftrightarrow> between 48 c 57 \<or> between 65 c 90 \<or> between 97 c 122"

text \<open>The token characters of RFC 7230.\<close>

definition token_char :: "char \<Rightarrow> bool" where
  "token_char c \<longleftrightarrow> alnum c \<or> c \<in> set ''!#$%&*+-.^_|~'' \<or> c = CHR 0x27 \<or> c = CHR 0x60"

fun canonical_from :: "bool \<Rightarrow> string \<Rightarrow> string" where
  "canonical_from upper [] = []"
| "canonical_from upper (c # s) =
     (if upper then upper_char c else lower_char c) # canonical_from (c = CHR ''-'') s"

text \<open>\<open>textproto.CanonicalMIMEHeaderKey\<close>: a key with a non-token byte is left alone.\<close>

definition canonical_key :: "string \<Rightarrow> string" where
  "canonical_key k = (if list_all token_char k then canonical_from True k else k)"

type_synonym headers = "(string \<times> string list) list"

definition hdr_values :: "headers \<Rightarrow> string \<Rightarrow> string list" where
  "hdr_values h k = (case map_of h (canonical_key k) of Some vs \<Rightarrow> vs | None \<Rightarrow> [])"

definition hdr_get :: "headers \<Rightarrow> string \<Rightarrow> string" where
  "hdr_get h k = (case hdr_values h k of v # _ \<Rightarrow> v | [] \<Rightarrow> [])"

definition hdr_set :: "string \<Rightarrow> string \<Rightarrow> headers \<Rightarrow> headers" where
  "hdr_set k v h = AList.update (canonical_key k) [v] h"

definition hdr_add :: "string \<Rightarrow> string \<Rightarrow> headers \<Rightarrow> headers" where
  "hdr_add k v h = AList.update (canonical_key k) (hdr_values h k @ [v]) h"

definition hdr_del :: "string \<Rightarrow> headers \<Rightarrow> headers" where
  "hdr_del k h = AList.delete (canonical_key k) h"

lemma hdr_get_set: "hdr_get (hdr_set k v h) k = v"
  by (simp add: hdr_get_def hdr_set_def hdr_values_def update_conv')

lemma hdr_get_set_other:
  "canonical_key k \<noteq> canonical_key k' \<Longrightarrow> hdr_get (hdr_set k v h) k' = hdr_get h k'"
  by (simp add: hdr_get_def hdr_set_def hdr_values_def update_conv')

section \<open>Hex and base64\<close>

definition hex_digit :: "nat \<Rightarrow> char" where
  "hex_digit n = (if n < 10 then char_of (48 + n) else char_of (87 + n))"

definition upper_hex_digit :: "nat \<Rightarrow> char" where
  "upper_hex_digit n = (if n < 10 then char_of (48 + n) else char_of (55 + n))"

definition hex_encode :: "string \<Rightarrow> string" where
  "hex_encode s =
     concat (map (\<lambda>c. [hex_digit (of_char c div 16), hex_digit (of_char c mod 16)]) s)"

definition b64_char :: "nat \<Rightarrow> char" where
  "b64_char n =
     (if n < 26 then char_of (65 + n) else if n < 52 then char_of (71 + n)
      else if n < 62 then char_of (n - 4) else if n = 62 then CHR ''+'' else CHR ''/'')"

fun base64 :: "string \<Rightarrow> string" where
  "base64 [] = []"
| "base64 [a] =
     (let n = of_char a * 16
      in [b64_char (n div 64), b64_char (n mod 64), CHR ''='', CHR ''=''])"
| "base64 [a, b] =
     (let n = (of_char a * 256 + of_char b) * 4
      in [b64_char (n div 4096), b64_char (n div 64 mod 64), b64_char (n mod 64), CHR ''=''])"
| "base64 (a # b # c # s) =
     (let n = (of_char a * 256 + of_char b) * 256 + of_char c
      in [b64_char (n div 262144), b64_char (n div 4096 mod 64), b64_char (n div 64 mod 64),
          b64_char (n mod 64)] @ base64 s)"

section \<open>Percent encoding and query strings\<close>

definition unreserved :: "char \<Rightarrow> bool" where
  "unreserved c \<longleftrightarrow> alnum c \<or> c \<in> set ''-._~''"

definition percent_byte :: "char \<Rightarrow> string" where
  "percent_byte c =
     [CHR ''%'', upper_hex_digit (of_char c div 16), upper_hex_digit (of_char c mod 16)]"

text \<open>\<open>url.QueryEscape\<close>: a space becomes a plus sign.\<close>

definition QueryEscape :: "string \<Rightarrow> string" where
  "QueryEscape s =
     concat (map (\<lambda>c. if unreserved c then [c] else if c = CHR '' '' then ''+'' else percent_byte c) s)"

definition hex_val :: "char \<Rightarrow> nat option" where
  "hex_val c =
     (if between 48 c 57 then Some (of_char c - 48)
      else if between 65 c 70 then Some (of_char c - 55)
      else if between 97 c 102 then Some (of_char c - 87)
      else None)"

text \<open>\<open>url.QueryUnescape\<close>; a bad escape is an error.\<close>

fun QueryUnescape :: "string \<Rightarrow> string option" where
  "QueryUnescape [] = Some []"
| "QueryUnescape (c # s) =
     (if c = CHR ''%'' then
        (case s of
           a # b # s' \<Rightarrow>
             (case (hex_val a, hex_val b) of
                (Some x, Some y) \<Rightarrow> map_option (\<lambda>t. char_of (16 * x + y) # t) (QueryUnescape s')
              | _ \<Rightarrow> None)
         | _ \<Rightarrow> None)
      else map_option (\<lambda>t. (if c = CHR ''+'' then CHR '' '' else c) # t) (QueryUnescape s))"

text \<open>
  \<open>url.ParseQuery\<close> as the list of its pairs in order, \<open>None\<close> for each rejected part: the
  values of \<open>URL.Query()\<close> are the accepted pairs, and the error is that a part was rejected.
\<close>

definition query_part :: "string \<Rightarrow> (string \<times> string) option" where
  "query_part p =
     (if CHR '';'' \<in> set p then None
      else (case cut p CHR ''='' of
          (k, v, _) \<Rightarrow>
            (case (QueryUnescape k, QueryUnescape v) of
               (Some k', Some v') \<Rightarrow> Some (k', v') | _ \<Rightarrow> None)))"

definition query_parts :: "string \<Rightarrow> (string \<times> string) option list" where
  "query_parts q = map query_part (filter (\<lambda>p. p \<noteq> []) (split_on CHR ''&'' q))"

definition Query :: "string \<Rightarrow> (string \<times> string) list" where
  "Query q = List.map_filter id (query_parts q)"

definition ParseQuery :: "string \<Rightarrow> (string \<times> string) list option" where
  "ParseQuery q = (if None \<in> set (query_parts q) then None else Some (Query q))"

section \<open>Quoted strings\<close>

text \<open>
  \<open>fmt\<close>'s \<open>%q\<close>: quotes, backslashes and control characters are escaped. Bytes from 128 up
  are copied, which is what Go does for printable runes of valid UTF-8.
\<close>

definition quote_byte :: "char \<Rightarrow> string" where
  "quote_byte c =
     (if c = CHR 0x22 then [CHR 0x5C, CHR 0x22] else if c = CHR 0x5C then [CHR 0x5C, CHR 0x5C]
      else if c = CHR 0x07 then [CHR 0x5C, CHR ''a''] else if c = CHR 0x08 then [CHR 0x5C, CHR ''b'']
      else if c = CHR 0x0C then [CHR 0x5C, CHR ''f''] else if c = CHR 0x0A then [CHR 0x5C, CHR ''n'']
      else if c = CHR 0x0D then [CHR 0x5C, CHR ''r''] else if c = CHR 0x09 then [CHR 0x5C, CHR ''t'']
      else if c = CHR 0x0B then [CHR 0x5C, CHR ''v'']
      else if (of_char c :: nat) < 32 \<or> c = CHR 0x7F
      then [CHR 0x5C, CHR ''x'', hex_digit (of_char c div 16), hex_digit (of_char c mod 16)]
      else [c])"

definition quoted :: "string \<Rightarrow> string" where
  "quoted s = CHR 0x22 # concat (map quote_byte s) @ [CHR 0x22]"

section \<open>Round trips\<close>

lemma of_char_less [simp]: "(of_char c :: nat) < 256"
  using of_char_eq_iff [where 'a = nat] by (simp add: of_char_def)

lemma hex_val_upper: "n < 16 \<Longrightarrow> hex_val (upper_hex_digit n) = Some n"
  by (auto simp: hex_val_def upper_hex_digit_def between_def of_char_of)

lemma QueryUnescape_percent:
  "QueryUnescape (percent_byte c @ s) = map_option (\<lambda>t. c # t) (QueryUnescape s)"
proof -
  have "(of_char c :: nat) div 16 < 16" "(of_char c :: nat) mod 16 < 16"
    using of_char_less [of c] by (simp_all add: less_mult_imp_div_less)
  then have "hex_val (upper_hex_digit (of_char c div 16)) = Some (of_char c div 16)"
    "hex_val (upper_hex_digit (of_char c mod 16)) = Some (of_char c mod 16)"
    by (auto intro: hex_val_upper)
  moreover have "16 * ((of_char c :: nat) div 16) + (of_char c :: nat) mod 16 = of_char c" by simp
  ultimately show ?thesis by (simp add: percent_byte_def)
qed

lemma unreserved_plain: "unreserved c \<Longrightarrow> c \<noteq> CHR ''%'' \<and> c \<noteq> CHR ''+''"
  by (auto simp: unreserved_def alnum_def between_def)

lemma QueryUnescape_Escape: "QueryUnescape (QueryEscape s) = Some s"
proof (induction s)
  case (Cons c s)
  then show ?case
    by (auto simp: QueryEscape_def QueryUnescape_percent unreserved_plain)
qed (simp add: QueryEscape_def)

end
