(* ===== verification/GoScan.thy ===== *)
theory GoScan
  imports GoStrings
begin

text \<open>
  \<open>bufio.Scanner\<close> with its default split function \<open>ScanLines\<close>, as \<open>internal/sse\<close>, the shell
  tokenizer and the \<open>.env\<close> parser use it: lines end at a line feed, a carriage return before
  it is dropped, an unterminated last line counts when it is not empty, and scanning stops
  for good at the first line that does not fit the buffer.
\<close>

section \<open>Lines\<close>

definition drop_cr :: "string \<Rightarrow> string" where
  "drop_cr l = (if l \<noteq> [] \<and> last l = CHR 0x0D then butlast l else l)"

text \<open>The raw lines of a text; a final empty piece is not a line.\<close>

definition raw_lines :: "string \<Rightarrow> string list" where
  "raw_lines s =
     (let ps = split_on CHR 0x0A s in if last ps = [] then butlast ps else ps)"

text \<open>A line of \<open>lim\<close> bytes or more, without its line feed, fills the buffer: \<open>Scan\<close> fails.\<close>

definition scan_lines :: "nat \<Rightarrow> string \<Rightarrow> string list" where
  "scan_lines lim s = map drop_cr (takeWhile (\<lambda>l. length l < lim) (raw_lines s))"

section \<open>Lemmas\<close>

lemma raw_lines_Nil [simp]: "raw_lines [] = []"
  by (simp add: raw_lines_def)

lemma raw_lines_line: "CHR 0x0A \<notin> set l \<Longrightarrow> raw_lines (l @ CHR 0x0A # s) = l # raw_lines s"
  by (simp add: raw_lines_def split_on_append Let_def)

lemma raw_lines_concat:
  "(\<And>l. l \<in> set ls \<Longrightarrow> CHR 0x0A \<notin> set l) \<Longrightarrow> raw_lines (concat (map (\<lambda>l. l @ [CHR 0x0A]) ls)) = ls"
  by (induction ls) (auto simp: raw_lines_line)

lemma scan_lines_concat:
  assumes "\<And>l. l \<in> set ls \<Longrightarrow> CHR 0x0A \<notin> set l \<and> length l < lim \<and> (l = [] \<or> last l \<noteq> CHR 0x0D)"
  shows "scan_lines lim (concat (map (\<lambda>l. l @ [CHR 0x0A]) ls)) = ls"
proof -
  have "takeWhile (\<lambda>l. length l < lim) ls = ls" using assms by (simp add: takeWhile_eq_all_conv)
  then have "scan_lines lim (concat (map (\<lambda>l. l @ [CHR 0x0A]) ls)) = map drop_cr ls"
    using raw_lines_concat [of ls] assms by (simp only: scan_lines_def) metis
  moreover have "map drop_cr ls = ls"
    using assms by (intro map_idI) (fastforce simp: drop_cr_def)
  ultimately show ?thesis by simp
qed

lemma join_lines: "raw_lines (join [CHR 0x0A] ls @ [CHR 0x0A]) = ls"
  if "ls \<noteq> []" "\<And>l. l \<in> set ls \<Longrightarrow> CHR 0x0A \<notin> set l" for ls
proof -
  have "join [c] ls @ [c] = concat (map (\<lambda>l. l @ [c]) ls)" if "ls \<noteq> []" for c and ls :: "string list"
    using that by (induction "[c]" ls rule: join.induct) auto
  with that raw_lines_concat [of ls] show ?thesis by simp
qed

end
