(* ===== verification/GoJson.thy ===== *)
theory GoJson
  imports GoHttp "HOL-Library.List_Lexorder" "HOL-Library.Char_ord"
begin

text \<open>
  The part of \<open>encoding/json\<close> that Helena decodes with, on bytes: runes, string literals,
  numbers as their source text, a stack machine over one input that mirrors the scanner's
  parse states (with its depth limit), \<open>Decoder.Decode\<close> (one value, the rest of the input
  unread) and \<open>Unmarshal\<close> (white space only after the value). An object is the list of its
  members in source order: the map Go builds keeps the last of a key.
\<close>

section \<open>Runes\<close>

definition cont :: "string \<Rightarrow> nat \<Rightarrow> nat \<Rightarrow> nat \<Rightarrow> bool" where
  "cont s i lo hi \<longleftrightarrow> i < length s \<and> between lo (s ! i) hi"

text \<open>The width of the rune a byte string starts with, 0 where the encoding is invalid.\<close>

definition rune_width :: "string \<Rightarrow> nat" where
  "rune_width s =
     (case s of [] \<Rightarrow> 0
      | b # _ \<Rightarrow>
        (let tail = (\<lambda>i. cont s i 128 191) in
         if between 0 b 127 then 1
         else if between 194 b 223 then (if tail 1 then 2 else 0)
         else if b = char_of (224::nat) then (if cont s 1 160 191 \<and> tail 2 then 3 else 0)
         else if b = char_of (237::nat) then (if cont s 1 128 159 \<and> tail 2 then 3 else 0)
         else if between 225 b 239 then (if tail 1 \<and> tail 2 then 3 else 0)
         else if b = char_of (240::nat) then (if cont s 1 144 191 \<and> tail 2 \<and> tail 3 then 4 else 0)
         else if b = char_of (244::nat) then (if cont s 1 128 143 \<and> tail 2 \<and> tail 3 then 4 else 0)
         else if between 241 b 243 then (if tail 1 \<and> tail 2 \<and> tail 3 then 4 else 0)
         else 0))"

definition rune_error :: string where
  "rune_error = [char_of (239::nat), char_of (191::nat), char_of (189::nat)]"

text \<open>\<open>utf8.AppendRune\<close>.\<close>

definition append_rune :: "nat \<Rightarrow> string" where
  "append_rune r =
     (if r < 128 then [char_of r]
      else if r < 2048 then [char_of (192 + r div 64), char_of (128 + r mod 64)]
      else if 1114111 < r \<or> (55296 \<le> r \<and> r \<le> 57343) then rune_error
      else if r < 65536
      then [char_of (224 + r div 4096), char_of (128 + r div 64 mod 64), char_of (128 + r mod 64)]
      else [char_of (240 + r div 262144), char_of (128 + r div 4096 mod 64),
            char_of (128 + r div 64 mod 64), char_of (128 + r mod 64)])"

lemma rune_width_le: "rune_width s \<le> length s"
  by (cases s)
    (auto simp: rune_width_def cont_def Let_def length_greater_0_conv [symmetric] Suc_le_eq
      simp del: length_greater_0_conv)

section \<open>Literals\<close>

definition json_space :: "char \<Rightarrow> bool" where
  "json_space c \<longleftrightarrow> c = CHR '' '' \<or> c = CHR 0x09 \<or> c = CHR 0x0D \<or> c = CHR 0x0A"

definition skip_ws :: "string \<Rightarrow> string" where
  "skip_ws s = dropWhile json_space s"

lemma length_skip_ws: "length (skip_ws s) \<le> length s"
  by (simp add: skip_ws_def length_dropWhile_le)

text \<open>\<open>getu4\<close> after the \<open>\u\<close>.\<close>

definition hex4 :: "string \<Rightarrow> (nat \<times> string) option" where
  "hex4 s =
     (case s of
        a # b # c # d # rest \<Rightarrow>
          (case (hex_val a, hex_val b, hex_val c, hex_val d) of
             (Some w, Some x, Some y, Some z) \<Rightarrow> Some (4096 * w + 256 * x + 16 * y + z, rest)
           | _ \<Rightarrow> None)
      | _ \<Rightarrow> None)"

definition surrogate :: "nat \<Rightarrow> bool" where
  "surrogate r \<longleftrightarrow> 55296 \<le> r \<and> r < 57344"

text \<open>
  One escape, after the backslash: its text and the input left. A surrogate that does not
  start a pair is the replacement character and consumes only itself.
\<close>

definition json_escape :: "string \<Rightarrow> (string \<times> string) option" where
  "json_escape s =
     (case s of
        [] \<Rightarrow> None
      | c # rest \<Rightarrow>
          if c = CHR 0x22 \<or> c = CHR 0x5C \<or> c = CHR ''/'' then Some ([c], rest)
          else if c = CHR ''b'' then Some ([CHR 0x08], rest)
          else if c = CHR ''f'' then Some ([CHR 0x0C], rest)
          else if c = CHR ''n'' then Some ([CHR 0x0A], rest)
          else if c = CHR ''r'' then Some ([CHR 0x0D], rest)
          else if c = CHR ''t'' then Some ([CHR 0x09], rest)
          else if c = CHR ''u'' then
            (case hex4 rest of
               None \<Rightarrow> None
             | Some (r, rest1) \<Rightarrow>
                 if \<not> surrogate r then Some (append_rune r, rest1)
                 else if r < 56320 \<and> take 2 rest1 = [CHR 0x5C, CHR ''u'']
                 then (case hex4 (drop 2 rest1) of
                         Some (r1, rest2) \<Rightarrow>
                           if 56320 \<le> r1 \<and> r1 < 57344
                           then Some (append_rune (65536 + (r - 55296) * 1024 + (r1 - 56320)), rest2)
                           else Some (rune_error, rest1)
                       | None \<Rightarrow> Some (rune_error, rest1))
                 else Some (rune_error, rest1))
          else None)"

lemma hex4_length: "hex4 s = Some (r, rest) \<Longrightarrow> length rest < length s"
  by (auto simp: hex4_def split: list.splits option.splits)

lemma json_escape_length: "json_escape s = Some (t, rest) \<Longrightarrow> length rest < length s"
  unfolding json_escape_def
  by (auto split: list.splits option.splits prod.splits if_splits dest!: hex4_length)

text \<open>A string literal, after the opening quote: its value and the input after the closing one.\<close>

function json_string :: "string \<Rightarrow> (string \<times> string) option" where
  "json_string s =
     (case s of
        [] \<Rightarrow> None
      | c # rest \<Rightarrow>
          if c = CHR 0x22 then Some ([], rest)
          else if between 0 c 31 then None
          else if c = CHR 0x5C then
            (case json_escape rest of
               None \<Rightarrow> None
             | Some (t, rest1) \<Rightarrow> map_option (\<lambda>(u, r). (t @ u, r)) (json_string rest1))
          else if between 32 c 127 then map_option (\<lambda>(u, r). (c # u, r)) (json_string rest)
          else if rune_width s = 0 then map_option (\<lambda>(u, r). (rune_error @ u, r)) (json_string rest)
          else map_option (\<lambda>(u, r). (take (rune_width s) s @ u, r)) (json_string (drop (rune_width s) s)))"
  by pat_completeness auto
termination
  by (relation "measure length") (auto dest: json_escape_length)

declare json_string.simps [simp del]

lemma json_string_length: "json_string s = Some (t, rest) \<Longrightarrow> length rest < length s"
proof (induction s arbitrary: t rule: length_induct)
  case (1 s)
  then have IH: "length rest < length s'" if "length s' < length s" "json_string s' = Some (u, rest)" for s' u
    using that by blast
  show ?case
  proof (cases s)
    case (Cons c s')
    have "json_string (c # s') = Some (t, rest)" using 1(2) Cons by simp
    note eq = this [unfolded json_string.simps [of "c # s'"]]
    have IH': "json_string x = Some (u, rest) \<Longrightarrow> length x < length s \<Longrightarrow> length rest < length x" for x u
      using IH by blast
    from eq Cons show ?thesis
      by (auto split: if_splits option.splits dest: json_escape_length)
        (drule IH'; force dest: json_escape_length)+
  qed (use 1(2) in \<open>simp add: json_string.simps\<close>)
qed

text \<open>A number literal: its source text and the input after it.\<close>

definition span_digits :: "string \<Rightarrow> string \<times> string" where
  "span_digits s = (takeWhile is_digit s, dropWhile is_digit s)"

definition json_int :: "string \<Rightarrow> (string \<times> string) option" where
  "json_int s =
     (case s of
        [] \<Rightarrow> None
      | c # rest \<Rightarrow> if c = CHR ''0'' then Some ([c], rest)
                    else if is_digit c then Some (span_digits s) else None)"

definition json_frac :: "string \<Rightarrow> (string \<times> string) option" where
  "json_frac s =
     (case s of
        [] \<Rightarrow> Some ([], [])
      | c # rest \<Rightarrow>
          if c = CHR ''.'' then (case span_digits rest of
               (ds, rest1) \<Rightarrow> if ds = [] then None else Some (c # ds, rest1))
          else Some ([], s))"

definition json_exp :: "string \<Rightarrow> (string \<times> string) option" where
  "json_exp s =
     (case s of
        [] \<Rightarrow> Some ([], [])
      | c # rest \<Rightarrow>
          if c = CHR ''e'' \<or> c = CHR ''E'' then
            (let (sign, rest1) = (case rest of d # r \<Rightarrow> if d = CHR ''+'' \<or> d = CHR ''-'' then ([d], r) else ([], rest)
                                          | [] \<Rightarrow> ([], []))
             in (case span_digits rest1 of
                   (ds, rest2) \<Rightarrow> if ds = [] then None else Some (c # sign @ ds, rest2)))
          else Some ([], s))"

definition json_number :: "string \<Rightarrow> (string \<times> string) option" where
  "json_number s =
     (let (sign, s1) = (if has_prefix s ''-'' then (''-'', drop 1 s) else ([], s))
      in (case json_int s1 of
            None \<Rightarrow> None
          | Some (i, s2) \<Rightarrow>
              (case json_frac s2 of
                 None \<Rightarrow> None
               | Some (f, s3) \<Rightarrow>
                   (case json_exp s3 of
                      None \<Rightarrow> None
                    | Some (e, s4) \<Rightarrow> Some (sign @ i @ f @ e, s4)))))"

lemma json_int_length: "json_int s = Some (t, rest) \<Longrightarrow> length rest < length s"
  by (auto simp: json_int_def span_digits_def length_dropWhile_le less_Suc_eq_le split: list.splits if_splits)

lemma json_frac_length: "json_frac s = Some (t, rest) \<Longrightarrow> length rest \<le> length s"
  by (auto simp: json_frac_def span_digits_def split: list.splits if_splits intro: le_SucI length_dropWhile_le)

lemma json_exp_length: "json_exp s = Some (t, rest) \<Longrightarrow> length rest \<le> length s"
proof (cases s)
  case (Cons c s')
  have "length (dropWhile is_digit s') \<le> length s'" "length (dropWhile is_digit (tl s')) \<le> length s'"
    using length_dropWhile_le [of is_digit s'] order_trans [OF length_dropWhile_le [of is_digit "tl s'"], of "length s'"]
    by simp_all
  then show "json_exp s = Some (t, rest) \<Longrightarrow> length rest \<le> length s"
    by (cases s') (auto simp: Cons json_exp_def span_digits_def split: if_splits)
qed (simp add: json_exp_def)

lemma json_number_length: "json_number s = Some (t, rest) \<Longrightarrow> length rest < length s"
  unfolding json_number_def Let_def
  by (auto split: option.splits prod.splits if_splits
      dest!: json_int_length json_frac_length json_exp_length)

section \<open>Values\<close>

datatype json =
    JNull
  | JBool bool
  | JNum string
  | JStr string
  | JArr "json list"
  | JObj "(string \<times> json) list"

text \<open>
  The scanner's stack of parse states, each with what it has collected (newest first), and
  what it waits for. \<open>Done v\<close> is the state after a value.
\<close>

datatype frame = FArr "json list" | FObj "(string \<times> json) list" | FKey "(string \<times> json) list" string

datatype want = Value | ValueOrEnd | Key | KeyOrEnd | Done json

definition maxNestingDepth :: nat where "maxNestingDepth = 10000"

definition push_frame :: "frame \<Rightarrow> frame list \<Rightarrow> frame list option" where
  "push_frame f st = (if length st < maxNestingDepth then Some (f # st) else None)"

text \<open>A value other than an array or object.\<close>

definition json_scalar :: "string \<Rightarrow> (json \<times> string) option" where
  "json_scalar s =
     (case s of
        [] \<Rightarrow> None
      | c # rest \<Rightarrow>
          if c = CHR 0x22 then map_option (\<lambda>(t, r). (JStr t, r)) (json_string rest)
          else if has_prefix s ''true'' then Some (JBool True, drop 4 s)
          else if has_prefix s ''false'' then Some (JBool False, drop 5 s)
          else if has_prefix s ''null'' then Some (JNull, drop 4 s)
          else map_option (\<lambda>(t, r). (JNum t, r)) (json_number s))"

lemma json_scalar_length: "json_scalar s = Some (v, rest) \<Longrightarrow> length rest < length s"
  unfolding json_scalar_def
  by (auto split: list.splits if_splits dest!: json_string_length json_number_length)

text \<open>One step: a new state, or the value with the input after it, or a syntax error.\<close>

datatype step_result = Syntax | Complete json string | More want "frame list" string

definition json_step :: "want \<Rightarrow> frame list \<Rightarrow> string \<Rightarrow> step_result" where
  "json_step w st s =
     (case (w, st) of
        (Done v, []) \<Rightarrow> Complete v s
      | _ \<Rightarrow>
        (case skip_ws s of
           [] \<Rightarrow> Syntax
         | c # rest \<Rightarrow>
           (case w of
              Done v \<Rightarrow>
                (case st of
                   [] \<Rightarrow> Syntax
                 | FArr vs # st' \<Rightarrow>
                     if c = CHR '','' then More Value (FArr (v # vs) # st') rest
                     else if c = CHR '']'' then More (Done (JArr (rev (v # vs)))) st' rest
                     else Syntax
                 | FObj ms # st' \<Rightarrow> Syntax
                 | FKey ms k # st' \<Rightarrow>
                     if c = CHR '','' then More Key (FObj ((k, v) # ms) # st') rest
                     else if c = CHR 0x7D then More (Done (JObj (rev ((k, v) # ms)))) st' rest
                     else Syntax)
            | _ \<Rightarrow>
                if w = Key \<or> w = KeyOrEnd then
                  (case st of
                     FObj ms # st' \<Rightarrow>
                       if w = KeyOrEnd \<and> c = CHR 0x7D then More (Done (JObj (rev ms))) st' rest
                       else if c = CHR 0x22 then
                         (case json_string rest of
                            None \<Rightarrow> Syntax
                          | Some (k, r) \<Rightarrow>
                              (case skip_ws r of
                                 [] \<Rightarrow> Syntax
                               | d # r1 \<Rightarrow> if d = CHR '':'' then More Value (FKey ms k # st') r1 else Syntax))
                       else Syntax
                   | _ \<Rightarrow> Syntax)
                else if w = ValueOrEnd \<and> c = CHR '']'' then
                  (case st of FArr vs # st' \<Rightarrow> More (Done (JArr (rev vs))) st' rest | _ \<Rightarrow> Syntax)
                else if c = CHR ''['' then
                  (case push_frame (FArr []) st of None \<Rightarrow> Syntax | Some st' \<Rightarrow> More ValueOrEnd st' rest)
                else if c = CHR 0x7B then
                  (case push_frame (FObj []) st of None \<Rightarrow> Syntax | Some st' \<Rightarrow> More KeyOrEnd st' rest)
                else (case json_scalar (c # rest) of None \<Rightarrow> Syntax | Some (v, r) \<Rightarrow> More (Done v) st r))))"

lemma skip_ws_Cons: "skip_ws s = c # rest \<Longrightarrow> length rest < length s"
  using length_skip_ws [of s] by simp

lemma json_step_length: "json_step w st s = More w' st' s' \<Longrightarrow> length s' < length s"
  unfolding json_step_def
  by (auto split: list.splits want.splits frame.splits option.splits if_splits
      dest!: skip_ws_Cons json_scalar_length json_string_length)

function json_run :: "want \<Rightarrow> frame list \<Rightarrow> string \<Rightarrow> (json \<times> string) option" where
  "json_run w st s =
     (case json_step w st s of
        Syntax \<Rightarrow> None
      | Complete v rest \<Rightarrow> Some (v, rest)
      | More w' st' s' \<Rightarrow> json_run w' st' s')"
  by pat_completeness auto
termination
  by (relation "measure (\<lambda>(w, st, s). length s)") (auto dest: json_step_length)

declare json_run.simps [simp del]

text \<open>\<open>Decoder.Decode\<close> reads one value and leaves the rest; \<open>Unmarshal\<close> wants nothing after it.\<close>

definition Decode :: "string \<Rightarrow> json option" where
  "Decode s = map_option fst (json_run Value [] s)"

definition Unmarshal :: "string \<Rightarrow> json option" where
  "Unmarshal s =
     (case json_run Value [] s of
        Some (v, rest) \<Rightarrow> if skip_ws rest = [] then Some v else None
      | None \<Rightarrow> None)"

text \<open>
  Decoding numbers into another type: an \<open>Unmarshal\<close> into \<open>any\<close> fails when one of them does
  not convert, also one that a later member of the same key replaces.
\<close>

fun numbers :: "json \<Rightarrow> string list" where
  "numbers JNull = []"
| "numbers (JBool b) = []"
| "numbers (JNum n) = [n]"
| "numbers (JStr s) = []"
| "numbers (JArr vs) = concat (map numbers vs)"
| "numbers (JObj ms) = concat (map (\<lambda>(k, v). numbers v) ms)"

text \<open>A map holds the last member of a key.\<close>

definition member :: "(string \<times> json) list \<Rightarrow> string \<Rightarrow> json option" where
  "member ms k = map_of (rev ms) k"

section \<open>Encoding\<close>

text \<open>\<open>json.Marshal\<close> of a decoded value: HTML-escaped strings, the keys of a map sorted.\<close>

definition hex2 :: "nat \<Rightarrow> string" where
  "hex2 n = [hex_digit (n div 16 mod 16), hex_digit (n mod 16)]"

function json_quote_from :: "string \<Rightarrow> string" where
  "json_quote_from s =
     (case s of
        [] \<Rightarrow> []
      | c # rest \<Rightarrow>
          if c = CHR 0x22 \<or> c = CHR 0x5C then [CHR 0x5C, c] @ json_quote_from rest
          else if c = CHR 0x08 then [CHR 0x5C, CHR ''b''] @ json_quote_from rest
          else if c = CHR 0x0C then [CHR 0x5C, CHR ''f''] @ json_quote_from rest
          else if c = CHR 0x0A then [CHR 0x5C, CHR ''n''] @ json_quote_from rest
          else if c = CHR 0x0D then [CHR 0x5C, CHR ''r''] @ json_quote_from rest
          else if c = CHR 0x09 then [CHR 0x5C, CHR ''t''] @ json_quote_from rest
          else if between 0 c 31 \<or> c = CHR ''<'' \<or> c = CHR ''>'' \<or> c = CHR ''&''
          then [CHR 0x5C] @ ''u00'' @ hex2 (of_char c) @ json_quote_from rest
          else if between 0 c 127 then c # json_quote_from rest
          else if rune_width s = 0 then [CHR 0x5C] @ ''ufffd'' @ json_quote_from rest
          else if take 3 s = [char_of (226::nat), char_of (128::nat), char_of (168::nat)]
          then [CHR 0x5C] @ ''u2028'' @ json_quote_from (drop 3 s)
          else if take 3 s = [char_of (226::nat), char_of (128::nat), char_of (169::nat)]
          then [CHR 0x5C] @ ''u2029'' @ json_quote_from (drop 3 s)
          else take (rune_width s) s @ json_quote_from (drop (rune_width s) s))"
  by pat_completeness auto
termination
  by (relation "measure length") auto

declare json_quote_from.simps [simp del]

definition json_quote :: "string \<Rightarrow> string" where
  "json_quote s = [CHR 0x22] @ json_quote_from s @ [CHR 0x22]"

text \<open>The members of the map, sorted by key; \<open>num\<close> prints a number.\<close>

fun Marshal :: "(string \<Rightarrow> string) \<Rightarrow> json \<Rightarrow> string" where
  "Marshal num JNull = ''null''"
| "Marshal num (JBool b) = (if b then ''true'' else ''false'')"
| "Marshal num (JNum n) = num n"
| "Marshal num (JStr s) = json_quote s"
| "Marshal num (JArr vs) = ''['' @ join '','' (map (Marshal num) vs) @ '']''"
| "Marshal num (JObj ms) =
     (let texts = map (\<lambda>(k, v). (k, Marshal num v)) ms
      in [CHR 0x7B] @
         join '','' (map (\<lambda>k. json_quote k @ '':'' @ the (map_of (rev texts) k)) (sort (remdups (map fst ms)))) @
         [CHR 0x7D])"

end
