(* ===== verification/VarsRef.thy ===== *)
theory VarsRef
  imports Vars
begin

text \<open>
  The specification of the resolver: expansion without a memo table (\<open>ref_expand\<close>), the
  variables that reach no cycle (\<open>safe\<close>) and the names that resolve completely
  (\<open>resolvable\<close>). The main lemma \<open>expand_ref\<close> is a simulation: it carries an invariant on
  the memo table (its entries are cycle-free expansions closed under references) and on
  the no-cache set (its names do reach a cycle).
\<close>

section \<open>Expansion without a memo table\<close>

text \<open>The second component lists every unresolved or cyclic occurrence, in order.\<close>

function ref_expand :: "resolver \<Rightarrow> string list \<Rightarrow> piece list \<Rightarrow> string \<times> string list" where
  "ref_expand r vis [] = ([], [])"
| "ref_expand r vis (Lit c # ps) =
     (case ref_expand r vis ps of (out, ms) \<Rightarrow> (c # out, ms))"
| "ref_expand r vis (Tmpl inner # ps) =
     (let name = trim_space inner;
          (out1, ms1) =
            (if name = [] then (raw_piece (Tmpl inner), [])
             else (case lookupScope r name of
               Some v \<Rightarrow>
                 if name \<in> set vis then (raw_piece (Tmpl inner), [name])
                 else ref_expand r (name # vis) (scan v)
             | None \<Rightarrow>
                 (case (case rs_fallback r of Some fn \<Rightarrow> fn name | None \<Rightarrow> None) of
                    Some v \<Rightarrow> (v, [])
                  | None \<Rightarrow> (raw_piece (Tmpl inner), [name]))))
      in case ref_expand r vis ps of (out2, ms2) \<Rightarrow> (out1 @ out2, ms1 @ ms2))"
  by pat_completeness auto
termination
proof (relation "measures [\<lambda>(r, vis, ps). card (scope_names r - set vis),
                           \<lambda>(r, vis, ps). length ps]", goal_cases)
  case (3 r vis inner ps name v)
  then have "name \<in> scope_names r - set vis"
    by (auto dest: lookupScope_names)
  then have "card (scope_names r - insert name (set vis)) < card (scope_names r - set vis)"
    by (intro psubset_card_mono) auto
  then show ?case by simp
qed auto

text \<open>No cycle is hit while expanding \<open>ps\<close> below the stack \<open>vis\<close>.\<close>

function cycfree :: "resolver \<Rightarrow> string list \<Rightarrow> piece list \<Rightarrow> bool" where
  "cycfree r vis [] = True"
| "cycfree r vis (Lit c # ps) = cycfree r vis ps"
| "cycfree r vis (Tmpl inner # ps) =
     ((let name = trim_space inner
       in if name = [] then True
          else (case lookupScope r name of
                  Some v \<Rightarrow>
                    if name \<in> set vis then False else cycfree r (name # vis) (scan v)
                | None \<Rightarrow> True))
      \<and> cycfree r vis ps)"
  by pat_completeness auto
termination
proof (relation "measures [\<lambda>(r, vis, ps). card (scope_names r - set vis),
                           \<lambda>(r, vis, ps). length ps]", goal_cases)
  case (3 r vis inner ps name v)
  then have "name \<in> scope_names r - set vis"
    by (auto dest: lookupScope_names)
  then have "card (scope_names r - insert name (set vis)) < card (scope_names r - set vis)"
    by (intro psubset_card_mono) auto
  then show ?case by simp
qed auto

text \<open>The scoped names a piece list refers to, and those a variable's value refers to.\<close>

fun piece_deps :: "resolver \<Rightarrow> piece \<Rightarrow> string set" where
  "piece_deps r (Lit c) = {}"
| "piece_deps r (Tmpl inner) =
     (if trim_space inner = [] \<or> lookupScope r (trim_space inner) = None then {}
      else {trim_space inner})"

definition deps :: "resolver \<Rightarrow> piece list \<Rightarrow> string set" where
  "deps r ps = (\<Union>p\<in>set ps. piece_deps r p)"

definition edges :: "resolver \<Rightarrow> string \<Rightarrow> string set" where
  "edges r n = (case lookupScope r n of Some v \<Rightarrow> deps r (scan v) | None \<Rightarrow> {})"

lemma deps_Nil [simp]: "deps r [] = {}"
  by (simp add: deps_def)

lemma deps_Cons [simp]: "deps r (p # ps) = piece_deps r p \<union> deps r ps"
  by (simp add: deps_def)

lemma edges_Some: "lookupScope r n = Some v \<Longrightarrow> edges r n = deps r (scan v)"
  by (simp add: edges_def)

text \<open>A variable is safe when every chain of references from it ends.\<close>

inductive safe :: "resolver \<Rightarrow> string \<Rightarrow> bool" for r where
  safeI: "(\<And>m. m \<in> edges r n \<Longrightarrow> safe r m) \<Longrightarrow> safe r n"

lemma cycfree_safe: "cycfree r vis ps \<Longrightarrow> n \<in> deps r ps \<Longrightarrow> safe r n"
proof (induction r vis ps arbitrary: n rule: cycfree.induct)
  case (3 r vis inner ps)
  show ?case
  proof (cases "n \<in> deps r ps")
    case True
    with 3 show ?thesis by simp
  next
    case False
    with "3.prems"(2) obtain v where n: "n = trim_space inner" "n \<noteq> []" "lookupScope r n = Some v"
      by (auto split: if_splits)
    with "3.prems"(1) have "n \<notin> set vis" "cycfree r (n # vis) (scan v)"
      by (auto simp: Let_def split: if_splits)
    with n "3.IH"(1) [OF refl] have "\<And>m. m \<in> deps r (scan v) \<Longrightarrow> safe r m" by auto
    with n show ?thesis by (auto simp: edges_Some intro: safeI)
  qed
qed auto

text \<open>The stack is linked: every entry refers to another entry, the newest one excepted.\<close>

definition linked :: "resolver \<Rightarrow> string list \<Rightarrow> bool" where
  "linked r vis \<longleftrightarrow> (\<forall>x\<in>set (tl vis). edges r x \<inter> set vis \<noteq> {})"

definition below :: "resolver \<Rightarrow> string list \<Rightarrow> piece list \<Rightarrow> bool" where
  "below r vis ps \<longleftrightarrow> linked r vis \<and> (vis \<noteq> [] \<longrightarrow> deps r ps \<subseteq> edges r (hd vis))"

lemma below_Nil [simp]: "below r [] ps"
  by (simp add: below_def linked_def)

lemma below_tail: "below r vis (p # ps) \<Longrightarrow> below r vis ps"
  by (auto simp: below_def)

lemma below_push:
  assumes "below r vis (Tmpl inner # ps)" and "trim_space inner = n" "n \<noteq> []"
    and "lookupScope r n = Some v"
  shows "below r (n # vis) (scan v)"
proof -
  have "edges r x \<inter> set (n # vis) \<noteq> {}" if x: "x \<in> set vis" for x
  proof (cases "x = hd vis")
    case True
    with assms x show ?thesis by (cases vis) (auto simp: below_def)
  next
    case False
    with x have "x \<in> set (tl vis)" by (cases vis) auto
    with assms(1) show ?thesis by (auto simp: below_def linked_def)
  qed
  then show ?thesis
    using assms by (auto simp: below_def linked_def edges_Some)
qed

lemma no_escape_not_safe:
  assumes "safe r x" and "x \<in> S" and "\<And>y. y \<in> S \<Longrightarrow> edges r y \<inter> S \<noteq> {}"
  shows False
  using assms by (induction rule: safe.induct) blast

text \<open>A reference back into the stack makes every entry of the stack unsafe.\<close>

lemma cycle_not_safe:
  assumes "below r vis (Tmpl inner # ps)" and "trim_space inner = n" "n \<noteq> []"
    and "lookupScope r n = Some v" and "n \<in> set vis" and "x \<in> set vis"
  shows "\<not> safe r x"
proof
  assume "safe r x"
  moreover note \<open>x \<in> set vis\<close>
  moreover have "edges r y \<inter> set vis \<noteq> {}" if y: "y \<in> set vis" for y
  proof (cases "y = hd vis")
    case True
    with assms y show ?thesis by (cases vis) (auto simp: below_def)
  next
    case False
    with y have "y \<in> set (tl vis)" by (cases vis) auto
    with assms(1) show ?thesis by (auto simp: below_def linked_def)
  qed
  ultimately show False by (rule no_escape_not_safe)
qed

text \<open>
  A cycle-free expansion does not depend on the stack: another stack gives the same
  result as long as it adds none of the names the expansion can reach.
\<close>

lemma cycfree_stack:
  assumes "cycfree r vis ps" and "deps r ps \<subseteq> D"
    and "\<And>n. n \<in> D \<Longrightarrow> edges r n \<subseteq> D" and "set vis' \<inter> D \<subseteq> set vis"
  shows "cycfree r vis' ps \<and> ref_expand r vis' ps = ref_expand r vis ps"
  using assms
proof (induction r vis ps arbitrary: vis' rule: cycfree.induct)
  case (3 r vis inner ps)
  let ?n = "trim_space inner"
  have tail: "cycfree r vis' ps" "ref_expand r vis' ps = ref_expand r vis ps"
    using "3.IH"(2) [of vis'] "3.prems" by (simp_all add: Let_def)
  show ?case
  proof (cases "?n = [] \<or> lookupScope r ?n = None")
    case True
    with tail show ?thesis by (auto simp: Let_def)
  next
    case False
    then obtain v where v: "?n \<noteq> []" "lookupScope r ?n = Some v" by auto
    with "3.prems"(1) have c: "?n \<notin> set vis" "cycfree r (?n # vis) (scan v)"
      by (auto simp: Let_def split: if_splits)
    have d: "?n \<in> D" using "3.prems"(2) v by auto
    with "3.prems"(3) v have "deps r (scan v) \<subseteq> D" by (auto simp: edges_Some [OF v(2), symmetric])
    moreover have "set (?n # vis') \<inter> D \<subseteq> set (?n # vis)" using "3.prems"(4) by auto
    ultimately have "cycfree r (?n # vis') (scan v) \<and>
        ref_expand r (?n # vis') (scan v) = ref_expand r (?n # vis) (scan v)"
      using v c "3.prems"(3) by (intro "3.IH"(1) [OF refl]) auto
    moreover have "?n \<notin> set vis'" using c d "3.prems"(4) by auto
    ultimately show ?thesis using v c tail by (simp add: Let_def)
  qed
next
  case (2 r vis c ps)
  have "cycfree r vis' ps \<and> ref_expand r vis' ps = ref_expand r vis ps"
    by (rule "2.IH") (use "2.prems" in simp_all)
  then show ?case by simp
qed simp

section \<open>One piece at a time\<close>

lemma expand_Cons:
  "expand r vis (p # ps) st =
     (case expand r vis [p] st of (out1, st1) \<Rightarrow>
        case expand r vis ps st1 of (out2, st2) \<Rightarrow> (out1 @ out2, st2))"
  by (cases p) (auto simp: Let_def split: prod.splits)

lemma ref_expand_Cons:
  "ref_expand r vis (p # ps) =
     (fst (ref_expand r vis [p]) @ fst (ref_expand r vis ps),
      snd (ref_expand r vis [p]) @ snd (ref_expand r vis ps))"
  by (cases p) (auto simp: Let_def split: prod.splits)

lemma cycfree_Cons: "cycfree r vis (p # ps) \<longleftrightarrow> cycfree r vis [p] \<and> cycfree r vis ps"
  by (cases p) auto

text \<open>Recording missing names, first occurrence only.\<close>

definition note_missing :: "string list \<Rightarrow> string list \<Rightarrow> string list" where
  "note_missing ord ms = fold (\<lambda>n ns. if n \<in> set ns then ns else ns @ [n]) ms ord"

lemma note_missing_simps [simp]:
  "note_missing ord [] = ord"
  "note_missing ord (m # ms) = note_missing (if m \<in> set ord then ord else ord @ [m]) ms"
  "note_missing ord (ms @ ms') = note_missing (note_missing ord ms) ms'"
  by (simp_all add: note_missing_def)

lemma set_note_missing: "set (note_missing ord ms) = set ord \<union> set ms"
  by (induction ms arbitrary: ord) auto

lemma note_missing_known: "set ms \<subseteq> set ord \<Longrightarrow> note_missing ord ms = ord"
  by (induction ms) auto

lemma note_missing_dedupe: "note_missing ord ms = ord @ dedupe_from ord ms"
proof (induction ms arbitrary: ord)
  case (Cons m ms)
  have "dedupe_from (ord @ [m]) ms = dedupe_from (m # ord) ms"
    by (rule dedupe_from_cong) simp
  with Cons show ?case by simp
qed simp

section \<open>The invariant of the memo table\<close>

definition memo_entry :: "resolver \<Rightarrow> string list \<Rightarrow> string \<Rightarrow> string \<Rightarrow> bool" where
  "memo_entry r ord n out \<longleftrightarrow>
     (\<exists>v. lookupScope r n = Some v \<and> cycfree r [n] (scan v) \<and>
          fst (ref_expand r [n] (scan v)) = out \<and>
          set (snd (ref_expand r [n] (scan v))) \<subseteq> set ord)"

lemma memo_entry_mono: "memo_entry r ord n out \<Longrightarrow> set ord \<subseteq> set ord' \<Longrightarrow> memo_entry r ord' n out"
  by (auto simp: memo_entry_def)

definition memo_inv :: "resolver \<Rightarrow> string list \<Rightarrow> resolve_state \<Rightarrow> bool" where
  "memo_inv r vis st \<longleftrightarrow>
     (\<forall>n out. st_memo st n = Some out \<longrightarrow> memo_entry r (st_order st) n out)
     \<and> (\<forall>n\<in>dom (st_memo st). edges r n \<subseteq> dom (st_memo st))
     \<and> dom (st_memo st) \<inter> set vis = {}
     \<and> (\<forall>n\<in>st_noCache st. \<not> safe r n)
     \<and> st_missing st = set (st_order st)"

text \<open>What running the code on \<open>ps\<close> establishes, against the reference.\<close>

definition sim :: "resolver \<Rightarrow> string list \<Rightarrow> piece list \<Rightarrow> resolve_state \<Rightarrow> string \<times> resolve_state
    \<Rightarrow> bool" where
  "sim r vis ps st res \<longleftrightarrow>
     fst res = fst (ref_expand r vis ps)
     \<and> st_order (snd res) = note_missing (st_order st) (snd (ref_expand r vis ps))
     \<and> memo_inv r vis (snd res)
     \<and> dom (st_memo st) \<subseteq> dom (st_memo (snd res))
     \<and> st_noCache st \<subseteq> st_noCache (snd res)
     \<and> (\<not> cycfree r vis ps \<longrightarrow> set vis \<subseteq> st_noCache (snd res))
     \<and> (cycfree r vis ps \<longrightarrow> deps r ps \<subseteq> dom (st_memo (snd res)))"

lemma sim_Nil: "memo_inv r vis st \<Longrightarrow> sim r vis [] st ([], st)"
  by (simp add: sim_def)

lemma sim_Cons:
  assumes "sim r vis [p] st (out1, st1)" and "sim r vis ps st1 (out2, st2)"
  shows "sim r vis (p # ps) st (out1 @ out2, st2)"
  using assms unfolding sim_def cycfree_Cons [of r vis p ps] ref_expand_Cons [of r vis p ps]
  by (simp del: domIff) blast

lemma sim_markMissing:
  assumes "memo_inv r vis st" and "ref_expand r vis ps = (out, [n])"
    and "cycfree r vis ps" and "deps r ps = {}"
  shows "sim r vis ps st (out, markMissing n st)"
  using assms by (auto simp: sim_def memo_inv_def markMissing_def intro: memo_entry_mono [of r "st_order st"])

text \<open>A memo hit: the reference computes the cached text, below any stack.\<close>

lemma sim_cached:
  assumes inv: "memo_inv r vis st" and n: "trim_space inner = n" "n \<noteq> []"
    and v: "lookupScope r n = Some v" and hit: "st_memo st n = Some cached"
  shows "sim r vis [Tmpl inner] st (cached, st)"
proof -
  let ?D = "dom (st_memo st)"
  from inv hit have "memo_entry r (st_order st) n cached" by (simp add: memo_inv_def)
  with v have e: "cycfree r [n] (scan v)" "fst (ref_expand r [n] (scan v)) = cached"
      "set (snd (ref_expand r [n] (scan v))) \<subseteq> set (st_order st)"
    by (auto simp: memo_entry_def)
  from hit have nD: "n \<in> ?D" by blast
  with inv have "edges r n \<subseteq> ?D" by (simp add: memo_inv_def del: domIff)
  with v have "deps r (scan v) \<subseteq> ?D" by (simp add: edges_Some del: domIff)
  moreover have "\<And>m. m \<in> ?D \<Longrightarrow> edges r m \<subseteq> ?D" using inv by (simp add: memo_inv_def)
  moreover have "set (n # vis) \<inter> ?D \<subseteq> set [n]" using inv by (auto simp: memo_inv_def)
  ultimately have s: "cycfree r (n # vis) (scan v)"
      "ref_expand r (n # vis) (scan v) = ref_expand r [n] (scan v)"
    using cycfree_stack [OF e(1)] by blast+
  have "n \<notin> set vis" using inv nD by (auto simp: memo_inv_def)
  then have "ref_expand r vis [Tmpl inner] = ref_expand r [n] (scan v)"
      "cycfree r vis [Tmpl inner]"
    using n v s by (auto simp: Let_def split: prod.splits)
  with inv e n v nD \<open>n \<notin> set vis\<close> show ?thesis
    by (simp add: sim_def note_missing_known del: domIff)
qed

text \<open>A reference to a name on the stack: reported, and the whole stack leaves the cache.\<close>

lemma sim_cycle:
  assumes inv: "memo_inv r vis st" and below: "below r vis (Tmpl inner # ps)"
    and n: "trim_space inner = n" "n \<noteq> []" and v: "lookupScope r n = Some v"
    and vis: "n \<in> set vis"
  shows "sim r vis [Tmpl inner] st
    (raw_piece (Tmpl inner), markMissing n (st\<lparr>st_noCache := st_noCache st \<union> set vis\<rparr>))"
proof -
  have "\<forall>x\<in>set vis. \<not> safe r x"
    using cycle_not_safe [OF below n v vis] by blast
  then have "memo_inv r vis (markMissing n (st\<lparr>st_noCache := st_noCache st \<union> set vis\<rparr>))"
    using inv by (auto simp: memo_inv_def markMissing_def
        intro: memo_entry_mono [of r "st_order st"])
  moreover have "st_missing st = set (st_order st)" using inv by (simp add: memo_inv_def)
  ultimately show ?thesis
    using n v vis by (auto simp: sim_def markMissing_def)
qed

text \<open>A fresh expansion: the result is stored unless the name is on the no-cache list.\<close>

lemma sim_fresh:
  assumes inv: "memo_inv r vis st" and n: "trim_space inner = n" "n \<noteq> []"
    and v: "lookupScope r n = Some v" and fresh: "st_memo st n = None" and vis: "n \<notin> set vis"
    and sub: "sim r (n # vis) (scan v) st (out, st2)"
  shows "sim r vis [Tmpl inner] st
    (out, if n \<in> st_noCache st2 then st2 else st2\<lparr>st_memo := (st_memo st2)(n \<mapsto> out)\<rparr>)"
proof -
  let ?ref = "ref_expand r (n # vis) (scan v)"
  have ref: "ref_expand r vis [Tmpl inner] = ?ref"
    and cyc: "cycfree r vis [Tmpl inner] = cycfree r (n # vis) (scan v)"
    using n v vis by (auto simp: Let_def split: prod.splits)
  from sub have inv2: "memo_inv r (n # vis) st2" by (simp add: sim_def)
  then have inv2': "memo_inv r vis st2" by (auto simp: memo_inv_def)
  show ?thesis
  proof (cases "n \<in> st_noCache st2")
    case True
    with inv2 have "\<not> safe r n" by (simp add: memo_inv_def)
    then have "\<not> cycfree r vis [Tmpl inner]"
      using cycfree_safe [of r vis "[Tmpl inner]" n] n v by auto
    with True sub inv2' ref cyc show ?thesis by (simp add: sim_def)
  next
    case False
    with sub have c: "cycfree r (n # vis) (scan v)" by (auto simp: sim_def)
    then have s: "cycfree r [n] (scan v)" "ref_expand r [n] (scan v) = ?ref"
      using cycfree_stack [of r "n # vis" "scan v" UNIV "[n]"] by auto
    from sub c have d: "deps r (scan v) \<subseteq> dom (st_memo st2)" by (simp add: sim_def)
    from sub have o: "st_order st2 = note_missing (st_order st) (snd ?ref)" "fst ?ref = out"
      by (simp_all add: sim_def)
    have "memo_entry r (st_order st2) n out"
      using v s o by (auto simp: memo_entry_def set_note_missing)
    then have "memo_inv r vis (st2\<lparr>st_memo := (st_memo st2)(n \<mapsto> out)\<rparr>)"
      using inv2' d v vis by (auto simp: memo_inv_def edges_Some)
    with False sub ref cyc c n v show ?thesis
      by (auto simp: sim_def)
  qed
qed

lemma expand_sim:
  "memo_inv r vis st \<Longrightarrow> below r vis ps \<Longrightarrow> sim r vis ps st (expand r vis ps st)"
proof (induction r vis ps st rule: expand.induct)
  case (1 r vis st)
  then show ?case by (simp add: sim_Nil)
next
  case (2 r vis c ps st)
  obtain out st' where e: "expand r vis ps st = (out, st')" by force
  from 2 have "sim r vis ps st (out, st')" by (auto simp: e dest: below_tail)
  then have "sim r vis (Lit c # ps) st (c # out, st')"
    by (auto simp: sim_def split: prod.splits)
  then show ?case by (simp add: e)
next
  case (3 r vis inner ps st)
  let ?n = "trim_space inner"
  obtain out1 st1 where e1: "expand r vis [Tmpl inner] st = (out1, st1)" by force
  have sim1: "sim r vis [Tmpl inner] st (out1, st1)"
  proof (cases "?n = [] \<or> lookupScope r ?n = None")
    case True
    show ?thesis
    proof (cases "?n = [] \<or> (\<exists>fn v. rs_fallback r = Some fn \<and> fn ?n = Some v)")
      case True
      with \<open>?n = [] \<or> lookupScope r ?n = None\<close> e1 "3.prems"(1) show ?thesis
        by (auto simp: sim_def Let_def)
    next
      case False
      with \<open>?n = [] \<or> lookupScope r ?n = None\<close>
      have "(out1, st1) = (raw_piece (Tmpl inner), markMissing ?n st)"
        "ref_expand r vis [Tmpl inner] = (raw_piece (Tmpl inner), [?n])"
        "cycfree r vis [Tmpl inner]" "deps r [Tmpl inner] = {}"
        using e1 by (auto simp: Let_def split: option.splits)
      with "3.prems"(1) show ?thesis by (auto intro: sim_markMissing)
    qed
  next
    case False
    then obtain v where v: "?n \<noteq> []" "lookupScope r ?n = Some v" by auto
    consider (hit) cached where "st_memo st ?n = Some cached"
      | (cycle) "st_memo st ?n = None" "?n \<in> set vis"
      | (fresh) "st_memo st ?n = None" "?n \<notin> set vis" by blast
    then show ?thesis
    proof cases
      case hit
      with e1 v sim_cached [OF "3.prems"(1) refl v hit] show ?thesis by (simp add: Let_def)
    next
      case cycle
      with e1 v sim_cycle [OF "3.prems" refl v cycle(2)] show ?thesis by (simp add: Let_def)
    next
      case fresh
      obtain out st2 where s: "expand r (?n # vis) (scan v) st = (out, st2)" by force
      from "3.prems"(1) fresh have "memo_inv r (?n # vis) st" by (auto simp: memo_inv_def)
      moreover from "3.prems"(2) v have "below r (?n # vis) (scan v)"
        by (auto intro: below_push)
      ultimately have "sim r (?n # vis) (scan v) st (out, st2)"
        using "3.IH"(1) [OF refl v fresh] s by simp
      from sim_fresh [OF "3.prems"(1) refl v fresh this] e1 v s fresh show ?thesis
        by (auto simp: Let_def)
    qed
  qed
  then have inv1: "memo_inv r vis st1" by (simp add: sim_def)
  obtain out2 st2 where e2: "expand r vis ps st1 = (out2, st2)" by force
  have "sim r vis ps st1 (expand r vis ps st1)"
    by (rule "3.IH"(2) [OF refl refl _ inv1 below_tail [OF "3.prems"(2)], of out1])
      (use e1 in \<open>simp add: Let_def\<close>)
  with e2 have "sim r vis ps st1 (out2, st2)" by simp
  with sim1 have "sim r vis (Tmpl inner # ps) st (out1 @ out2, st2)" by (rule sim_Cons)
  then show ?case
    using expand_Cons [of r vis "Tmpl inner" ps st] by (simp only: e1 e2 prod.case)
qed

section \<open>Which names resolve\<close>

lemma memo_inv_init: "memo_inv r [] init_state"
  by (simp add: memo_inv_def init_state_def)

lemma Resolve_sim:
  "Resolve r s = (fst (ref_expand r [] (scan s)), dedupe_from [] (snd (ref_expand r [] (scan s))))"
proof -
  obtain out st where e: "expand r [] (scan s) init_state = (out, st)" by force
  with expand_sim [OF memo_inv_init below_Nil, of r "scan s"]
  have "sim r [] (scan s) init_state (out, st)" by simp
  then show ?thesis
    by (simp add: sim_def Resolve_def e note_missing_dedupe) (simp add: init_state_def)
qed

definition names_of :: "piece list \<Rightarrow> string set" where
  "names_of ps = set (concat (map piece_name ps)) - {[]}"

lemma names_of_simps [simp]:
  "names_of [] = {}" "names_of (Lit c # ps) = names_of ps"
  "names_of (Tmpl inner # ps) =
     (if trim_space inner = [] then names_of ps else insert (trim_space inner) (names_of ps))"
  by (auto simp: names_of_def)

definition fallback_value :: "resolver \<Rightarrow> string \<Rightarrow> string option" where
  "fallback_value r n = (case rs_fallback r of Some fn \<Rightarrow> fn n | None \<Rightarrow> None)"

text \<open>
  A name resolves when its value does, name by name: a scope variable needs every name
  of its value to resolve in a well-founded way, any other name needs a fallback value.
\<close>

inductive resolvable :: "resolver \<Rightarrow> string \<Rightarrow> bool" for r where
  scoped: "lookupScope r n = Some v \<Longrightarrow> (\<And>m. m \<in> names_of (scan v) \<Longrightarrow> resolvable r m) \<Longrightarrow>
    resolvable r n"
| dynamic: "lookupScope r n = None \<Longrightarrow> fallback_value r n = Some v \<Longrightarrow> resolvable r n"

inductive_simps resolvable_iff: "resolvable r n"

lemma deps_names: "deps r ps \<subseteq> names_of ps"
proof (induction ps)
  case (Cons p ps)
  then show ?case by (cases p) auto
qed simp

lemma resolvable_safe: "resolvable r n \<Longrightarrow> safe r n"
proof (induction rule: resolvable.induct)
  case (scoped n v)
  then show ?case using deps_names [of r "scan v"] by (blast intro: safeI dest: edges_Some [THEN equalityD1, THEN subsetD])
next
  case (dynamic n v)
  then show ?case by (auto simp: edges_def intro: safeI)
qed

lemma ref_complete:
  "below r vis ps \<Longrightarrow> (\<And>n. n \<in> names_of ps \<Longrightarrow> resolvable r n) \<Longrightarrow> snd (ref_expand r vis ps) = []"
proof (induction r vis ps rule: ref_expand.induct)
  case (2 r vis c ps)
  then show ?case by (auto dest: below_tail split: prod.splits)
next
  case (3 r vis inner ps)
  let ?n = "trim_space inner"
  have tail: "snd (ref_expand r vis ps) = []"
    by (rule "3.IH"(2) [OF refl refl prod.collapse below_tail [OF "3.prems"(1)]])
      (use "3.prems"(2) in simp)
  have "snd (ref_expand r vis [Tmpl inner]) = []"
  proof (cases "?n = []")
    case False
    then have res: "resolvable r ?n" by (intro "3.prems"(2)) simp
    show ?thesis
    proof (cases "lookupScope r ?n")
      case None
      with res obtain v where "fallback_value r ?n = Some v"
        by (auto simp: resolvable_iff [of r ?n])
      with None False show ?thesis by (auto simp: fallback_value_def Let_def)
    next
      case (Some v)
      have "?n \<notin> set vis"
        using cycle_not_safe [OF "3.prems"(1) refl False Some] resolvable_safe [OF res] by blast
      moreover from res Some have "\<And>m. m \<in> names_of (scan v) \<Longrightarrow> resolvable r m"
        by (auto simp: resolvable_iff [of r ?n])
      ultimately have "snd (ref_expand r (?n # vis) (scan v)) = []"
        using "3.IH"(1) [OF refl False Some] below_push [OF "3.prems"(1) refl False Some] by auto
      with \<open>?n \<notin> set vis\<close> Some False show ?thesis by (simp add: Let_def split: prod.splits)
    qed
  qed simp
  with tail show ?case using ref_expand_Cons [of r vis "Tmpl inner" ps] by simp
qed simp

lemma ref_sound:
  "snd (ref_expand r vis ps) = [] \<Longrightarrow> n \<in> names_of ps \<Longrightarrow> resolvable r n"
proof (induction r vis ps arbitrary: n rule: ref_expand.induct)
  case (2 r vis c ps)
  then show ?case by (auto split: prod.splits)
next
  case (3 r vis inner ps)
  let ?n = "trim_space inner"
  have parts: "snd (ref_expand r vis [Tmpl inner]) = []" "snd (ref_expand r vis ps) = []"
    using "3.prems"(1) ref_expand_Cons [of r vis "Tmpl inner" ps] by (auto simp del: ref_expand.simps)
  show ?case
  proof (cases "n \<in> names_of ps")
    case True
    show ?thesis by (rule "3.IH"(2) [OF refl refl prod.collapse parts(2) True])
  next
    case False
    with "3.prems"(2) have n: "n = ?n" "?n \<noteq> []" by (auto split: if_splits)
    show ?thesis
    proof (cases "lookupScope r ?n")
      case None
      with n parts(1) obtain v where "fallback_value r n = Some v"
        by (auto simp: fallback_value_def Let_def split: option.splits)
      with None n show ?thesis by (auto intro: resolvable.dynamic)
    next
      case (Some v)
      with n parts(1) have s: "?n \<notin> set vis" "snd (ref_expand r (?n # vis) (scan v)) = []"
        by (auto simp: Let_def split: if_splits prod.splits)
      then have "\<And>m. m \<in> names_of (scan v) \<Longrightarrow> resolvable r m"
        using "3.IH"(1) [OF refl n(2) Some] by blast
      with Some n show ?thesis by (auto intro: resolvable.scoped)
    qed
  qed
qed simp

lemma ref_reported:
  "below r vis ps \<Longrightarrow> n \<in> set (snd (ref_expand r vis ps)) \<Longrightarrow>
     (if lookupScope r n = None then fallback_value r n = None else \<not> safe r n)"
proof (induction r vis ps rule: ref_expand.induct)
  case (2 r vis c ps)
  then show ?case by (auto dest: below_tail split: prod.splits)
next
  case (3 r vis inner ps)
  let ?n = "trim_space inner"
  show ?case
  proof (cases "n \<in> set (snd (ref_expand r vis ps))")
    case True
    show ?thesis
      by (rule "3.IH"(2) [OF refl refl prod.collapse below_tail [OF "3.prems"(1)] True])
  next
    case False
    with "3.prems"(2) have n: "n \<in> set (snd (ref_expand r vis [Tmpl inner]))" "?n \<noteq> []"
      using ref_expand_Cons [of r vis "Tmpl inner" ps] by (auto simp: Let_def)
    show ?thesis
    proof (cases "lookupScope r ?n")
      case None
      with n show ?thesis by (auto simp: fallback_value_def Let_def split: option.splits)
    next
      case (Some v)
      show ?thesis
      proof (cases "?n \<in> set vis")
        case True
        with n Some have "n = ?n" by (simp add: Let_def)
        moreover have "\<not> safe r ?n"
          using cycle_not_safe [OF "3.prems"(1) refl n(2) Some True True] .
        ultimately show ?thesis using Some by simp
      next
        case False
        with n Some have "n \<in> set (snd (ref_expand r (?n # vis) (scan v)))"
          by (auto simp: Let_def split: prod.splits)
        with "3.IH"(1) [OF refl n(2) Some False] below_push [OF "3.prems"(1) refl n(2) Some]
        show ?thesis by blast
      qed
    qed
  qed
qed simp

section \<open>Properties\<close>


text \<open>
  \<open>Resolve\<close> reports nothing missing exactly when every non-empty name of the template
  resolves well-foundedly: a scope variable whose value's names all resolve, or a name
  outside every scope that the dynamic fallback knows.
\<close>

theorem Resolve_complete:
  "snd (Resolve r s) = [] \<longleftrightarrow> names_of (scan s) \<subseteq> {n. resolvable r n}"
proof -
  let ?ms = "snd (ref_expand r [] (scan s))"
  have "set (dedupe_from [] ?ms) = set ?ms" by (simp add: set_dedupe_from)
  then have "snd (Resolve r s) = [] \<longleftrightarrow> ?ms = []"
    unfolding Resolve_sim snd_conv by (metis set_empty)
  also have "\<dots> \<longleftrightarrow> names_of (scan s) \<subseteq> {n. resolvable r n}"
    using ref_sound [of r "[]" "scan s"] ref_complete [OF below_Nil, of "scan s" r] by blast
  finally show ?thesis .
qed

text \<open>
  A name in the missing list is reported once and for a reason: it is in no scope and the
  fallback does not know it, or its chain of references runs into a cycle.
\<close>

theorem Resolve_missing_justified:
  "distinct (snd (Resolve r s)) \<and>
   set (snd (Resolve r s)) \<subseteq>
     {n. if lookupScope r n = None then fallback_value r n = None else \<not> safe r n}"
  using ref_reported [of r "[]" "scan s"]
  by (auto simp: Resolve_sim set_dedupe_from distinct_dedupe_from)

text \<open>
  A value the fallback generates is inserted verbatim and not expanded again, whatever
  templates it contains; a scope of the same name would win over it.
\<close>

theorem Resolve_fallback_verbatim:
  assumes "lookupScope r (trim_space n) = None" and "rs_fallback r = Some fn"
    and "fn (trim_space n) = Some v" and "trim_space n \<noteq> []"
    and "CHR ''{'' \<notin> set n" and "CHR ''}'' \<notin> set n"
  shows "Resolve r (open2 @ n @ close2) = (v, [])"
proof -
  have "scan (open2 @ n @ close2) = [Tmpl n]"
    using assms(5,6) by (intro scan_template_only) (auto simp: brace_def)
  with assms show ?thesis by (simp add: Resolve_sim Let_def)
qed

lemma trim_space_sample: "trim_space ''$id'' = ''$id''"
  by code_simp

theorem Resolve_fallback_verbatim_witness:
  "Resolve (WithFallback (Some (\<lambda>n. if n = ''$id'' then Some ''{{x}}'' else None)) (New_resolver []))
     ''{{$id}}'' = (''{{x}}'', [])"
  using Resolve_fallback_verbatim
    [of "WithFallback (Some (\<lambda>n. if n = ''$id'' then Some ''{{x}}'' else None)) (New_resolver [])"
        "''$id''" "\<lambda>n. if n = ''$id'' then Some ''{{x}}'' else None" "''{{x}}''"]
  by (simp add: WithFallback_def New_resolver_def lookupScope_def open2_def close2_def
      trim_space_sample brace_def)

lemma prompt_loop_props:
  "distinct (prompt_loop seen ns) \<and> set (prompt_loop seen ns) =
     {n \<in> set ns. has_prefix n ''?'' \<and> trim_space (drop 1 n) \<noteq> [] \<and> n \<notin> set seen}"
  by (induction seen ns rule: prompt_loop.induct) auto

text \<open>
  \<open>PromptVars\<close> collects exactly the names that begin with a question mark and have a
  label, over all the texts, each once.
\<close>

theorem PromptVars_exact:
  "distinct (PromptVars texts) \<and> set (PromptVars texts) =
     {n \<in> \<Union> (set ` template_names ` set texts). has_prefix n ''?'' \<and> trim_space (drop 1 n) \<noteq> []}"
  using prompt_loop_props [of "[]" "concat (map template_names texts)"]
  by (auto simp: PromptVars_def)

end
