(* ===== verification/PathParam.thy ===== *)
theory PathParam
  imports Vars
begin

text \<open>
  \<open>internal/pathparam/pathparam.go\<close>: single-brace path parameters of a URL. \<open>walk\<close> takes
  the remaining text instead of an index into it, and the callback \<open>repl\<close> is a state
  transformer, since \<open>Names\<close> calls it for its effect on the list it collects.
\<close>

section \<open>The scanner\<close>

definition isNameByte :: "char \<Rightarrow> bool" where
  "isNameByte b \<longleftrightarrow>
     b \<notin> {CHR 0x7B, CHR 0x7D, CHR ''/'', CHR ''?'', CHR ''#'', CHR '' '', CHR 0x09, CHR 0x0A, CHR 0x0D}"

function walk :: "string \<Rightarrow> (string \<Rightarrow> 's \<Rightarrow> string \<times> 's) \<Rightarrow> 's \<Rightarrow> string \<times> 's" where
  "walk [] repl st = ([], st)"
| "walk (c # s) repl st =
     (if c \<noteq> CHR 0x7B then (case walk s repl st of (out, st') \<Rightarrow> (c # out, st'))
      else if has_prefix s [CHR 0x7B] then
        (case index_of (c # s) close2 of
           Some e \<Rightarrow>
             (case walk (drop (e + 2) (c # s)) repl st of
                (out, st') \<Rightarrow> (take (e + 2) (c # s) @ out, st'))
         | None \<Rightarrow> (c # s, st))
      else
        (let name = takeWhile isNameByte s; rest = drop (length name) s
         in if has_prefix rest [CHR 0x7D] \<and> name \<noteq> [] then
              (case repl name st of (v, st1) \<Rightarrow>
                 (case walk (drop 1 rest) repl st1 of (out, st') \<Rightarrow> (v @ out, st')))
            else (case walk s repl st of (out, st') \<Rightarrow> (c # out, st'))))"
  by pat_completeness auto
termination
  by (relation "measure (\<lambda>(s, repl, st). length s)") auto

declare walk.simps(2) [simp del]

text \<open>The two callbacks; \<open>seen\<close> of the code holds exactly the names in \<open>out\<close>.\<close>

definition Names :: "string \<Rightarrow> string list" where
  "Names s =
     snd (walk s (\<lambda>name out. ([CHR 0x7B] @ name @ [CHR 0x7D],
                              if name \<in> set out then out else out @ [name])) [])"

definition Apply :: "string \<Rightarrow> (string \<Rightarrow> string option) \<Rightarrow> string" where
  "Apply s lookup =
     fst (walk s (\<lambda>name st. (case lookup name of
                                 Some v \<Rightarrow> v | None \<Rightarrow> [CHR 0x7B] @ name @ [CHR 0x7D], st)) ())"

section \<open>The tokens of a text\<close>

text \<open>
  The specification of the scanner: the text as a list of verbatim runs (\<open>Inl\<close>) and
  parameter tokens (\<open>Inr\<close>). Both functions of the package are folds over it.
\<close>

type_synonym token = "string + string"

function tokens :: "string \<Rightarrow> token list" where
  "tokens [] = []"
| "tokens (c # s) =
     (if c \<noteq> CHR 0x7B then Inl [c] # tokens s
      else if has_prefix s [CHR 0x7B] then
        (case index_of (c # s) close2 of
           Some e \<Rightarrow> Inl (take (e + 2) (c # s)) # tokens (drop (e + 2) (c # s))
         | None \<Rightarrow> [Inl (c # s)])
      else
        (let name = takeWhile isNameByte s; rest = drop (length name) s
         in if has_prefix rest [CHR 0x7D] \<and> name \<noteq> [] then Inr name # tokens (drop 1 rest)
            else Inl [c] # tokens s))"
  by pat_completeness auto
termination
  by (relation "measure length") auto

declare tokens.simps(2) [simp del]

fun token_text :: "(string \<Rightarrow> string) \<Rightarrow> token \<Rightarrow> string" where
  "token_text f (Inl t) = t"
| "token_text f (Inr n) = f n"

definition token_names :: "token list \<Rightarrow> string list" where
  "token_names ts = concat (map (case_sum (\<lambda>_. []) (\<lambda>n. [n])) ts)"

lemma token_names_simps [simp]:
  "token_names [] = []" "token_names (Inl t # ts) = token_names ts"
  "token_names (Inr n # ts) = n # token_names ts"
  by (simp_all add: token_names_def)

fun run_tokens :: "(string \<Rightarrow> 's \<Rightarrow> string \<times> 's) \<Rightarrow> token list \<Rightarrow> 's \<Rightarrow> string \<times> 's" where
  "run_tokens repl [] st = ([], st)"
| "run_tokens repl (Inl t # ts) st = (case run_tokens repl ts st of (out, st') \<Rightarrow> (t @ out, st'))"
| "run_tokens repl (Inr n # ts) st =
     (case repl n st of (v, st1) \<Rightarrow>
        (case run_tokens repl ts st1 of (out, st') \<Rightarrow> (v @ out, st')))"

lemma walk_tokens: "walk s repl st = run_tokens repl (tokens s) st"
proof (induction s repl st rule: walk.induct)
  case (2 c s repl st)
  then show ?case
    by (auto simp: walk.simps(2) [of c s] tokens.simps(2) [of c s] Let_def
        split: prod.splits option.splits)
qed simp

lemma run_tokens_pure:
  "run_tokens (\<lambda>n st. (f n, g n st)) ts st =
     (concat (map (token_text f) ts), fold g (token_names ts) st)"
proof (induction ts arbitrary: st)
  case (Cons t ts)
  then show ?case by (cases t) auto
qed simp

lemma Apply_tokens:
  "Apply s lookup = concat (map (token_text (\<lambda>n. case lookup n of Some v \<Rightarrow> v
     | None \<Rightarrow> [CHR 0x7B] @ n @ [CHR 0x7D])) (tokens s))"
  by (simp add: Apply_def walk_tokens run_tokens_pure)

lemma fold_collect:
  "fold (\<lambda>n out. if n \<in> set out then out else out @ [n]) ns acc = acc @ dedupe_from acc ns"
proof (induction ns arbitrary: acc)
  case (Cons n ns)
  have "dedupe_from (acc @ [n]) ns = dedupe_from (n # acc) ns"
    by (rule dedupe_from_cong) simp
  with Cons show ?case by simp
qed simp

lemma Names_tokens: "Names s = dedupe_from [] (token_names (tokens s))"
  by (simp add: Names_def walk_tokens run_tokens_pure fold_collect)

lemma tokens_text: "concat (map (token_text (\<lambda>n. [CHR 0x7B] @ n @ [CHR 0x7D])) (tokens s)) = s"
proof (induction s rule: tokens.induct)
  case (2 c s)
  show ?case
  proof (cases "c = CHR 0x7B \<and> \<not> has_prefix s [CHR 0x7B] \<and> takeWhile isNameByte s \<noteq> []
      \<and> has_prefix (drop (length (takeWhile isNameByte s)) s) [CHR 0x7D]")
    case True
    let ?n = "takeWhile isNameByte s"
    from True obtain rest where "drop (length ?n) s = CHR 0x7D # rest" by (auto simp: prefix_def)
    moreover have "s = ?n @ drop (length ?n) s" by (simp add: dropWhile_eq_drop [symmetric])
    ultimately have s: "?n @ CHR 0x7D # rest = s" by simp
    have "concat (map (token_text (\<lambda>n. [CHR 0x7B] @ n @ [CHR 0x7D])) (tokens rest)) = rest"
      using 2 True \<open>drop (length ?n) s = CHR 0x7D # rest\<close> by simp
    with True \<open>drop (length ?n) s = CHR 0x7D # rest\<close> s show ?thesis
      by (simp add: tokens.simps(2) Let_def)
  next
    case False
    with 2 show ?thesis
      by (auto simp: tokens.simps(2) [of c s] Let_def split: option.splits)
  qed
qed simp

lemma token_name_ok: "Inr n \<in> set (tokens s) \<Longrightarrow> n \<noteq> [] \<and> list_all isNameByte n"
proof (induction s rule: tokens.induct)
  case (2 c s)
  then show ?case
    by (auto simp: tokens.simps(2) [of c s] Let_def list_all_iff
        split: if_splits option.splits dest: set_takeWhileD)
qed simp

lemma token_names_set: "n \<in> set (token_names ts) \<longleftrightarrow> Inr n \<in> set ts"
  by (auto simp: token_names_def split: sum.splits)

lemma set_Names: "set (Names s) = {n. Inr n \<in> set (tokens s)}"
  by (auto simp: Names_tokens set_dedupe_from token_names_set)

section \<open>Templates are copied whole\<close>

lemma index_of_close2:
  assumes "CHR 0x7D \<notin> set a"
  shows "index_of (a @ close2 @ b) close2 = Some (length a)"
  using assms
proof (induction a)
  case Nil
  show ?case by (simp add: close2_def)
next
  case (Cons x a)
  then show ?case by (auto simp: close2_def)
qed

lemma tokens_template:
  assumes "list_all (\<lambda>c. \<not> brace c) inner"
  shows "tokens (open2 @ inner @ close2 @ rest) = Inl (open2 @ inner @ close2) # tokens rest"
proof -
  from assms have "CHR 0x7D \<notin> set (open2 @ inner)"
    by (auto simp: open2_def brace_def list_all_iff)
  then have "index_of (open2 @ inner @ close2 @ rest) close2 = Some (2 + length inner)"
    using index_of_close2 [of "open2 @ inner" rest] by (simp add: open2_def)
  then show ?thesis
    by (simp add: open2_def close2_def tokens.simps(2))
qed

lemma scan_no_brace: "Tmpl inner \<in> set (scan s) \<Longrightarrow> list_all (\<lambda>c. \<not> brace c) inner"
proof (induction s rule: scan.induct)
  case (2 c s)
  then show ?case
    by (auto simp: list_all_iff split: option.splits dest: match_template_Some(2))
qed simp

lemma tokens_of_pieces:
  assumes "\<And>c. Lit c \<in> set ps \<Longrightarrow> c \<noteq> CHR 0x7B"
    and "\<And>t. Tmpl t \<in> set ps \<Longrightarrow> list_all (\<lambda>c. \<not> brace c) t"
  shows "Inr n \<notin> set (tokens (concat (map raw_piece ps)))"
  using assms
proof (induction ps)
  case (Cons p ps)
  then show ?case
  proof (cases p)
    case (Tmpl t)
    with Cons have "list_all (\<lambda>c. \<not> brace c) t" by simp
    with Cons Tmpl show ?thesis by (auto simp: tokens_template)
  qed (auto simp: tokens.simps(2))
qed simp

section \<open>Properties\<close>

text \<open>
  C33 An unfilled path parameter stays visible: with a lookup that knows no name, \<open>Apply\<close>
  returns the text unchanged, whatever braces it has.
\<close>

theorem Apply_unfilled: "Apply s (\<lambda>_. None) = s"
  using tokens_text [of s] by (simp add: Apply_tokens)

text \<open>
  \<open>Names\<close> lists every name \<open>Apply\<close> asks its lookup for: two lookups that agree on
  \<open>Names s\<close> produce the same text.
\<close>

theorem Apply_depends_on_Names:
  assumes "\<And>n. n \<in> set (Names s) \<Longrightarrow> f n = g n"
  shows "Apply s f = Apply s g"
proof -
  have "map (token_text (\<lambda>n. case f n of Some v \<Rightarrow> v | None \<Rightarrow> [CHR 0x7B] @ n @ [CHR 0x7D])) (tokens s)
      = map (token_text (\<lambda>n. case g n of Some v \<Rightarrow> v | None \<Rightarrow> [CHR 0x7B] @ n @ [CHR 0x7D])) (tokens s)"
  proof (rule map_cong [OF refl])
    fix t assume "t \<in> set (tokens s)"
    with assms show "token_text (\<lambda>n. case f n of Some v \<Rightarrow> v | None \<Rightarrow> [CHR 0x7B] @ n @ [CHR 0x7D]) t
        = token_text (\<lambda>n. case g n of Some v \<Rightarrow> v | None \<Rightarrow> [CHR 0x7B] @ n @ [CHR 0x7D]) t"
      by (cases t) (simp_all add: set_Names)
  qed
  then show ?thesis unfolding Apply_tokens by (rule arg_cong)
qed

theorem Apply_depends_on_Names_witness:
  "Apply ''/bag/{id}/x'' [''id'' \<mapsto> ''7''] = Apply ''/bag/{id}/x'' [''id'' \<mapsto> ''7'', ''other'' \<mapsto> ''8'']"
proof -
  have "set (Names ''/bag/{id}/x'') = {''id''}" by code_simp
  then show ?thesis by (intro Apply_depends_on_Names) auto
qed

text \<open>
  The names of a text are distinct and are valid: non-empty and without braces, URL
  delimiters or white space.
\<close>

theorem Names_wellformed:
  "distinct (Names s) \<and> list_all (\<lambda>n. n \<noteq> [] \<and> list_all isNameByte n) (Names s)"
  by (auto simp: Names_tokens distinct_dedupe_from list_all_iff [of _ "dedupe_from _ _"]
      set_dedupe_from token_names_set dest: token_name_ok)

text \<open>
  A variable template is never taken for a path parameter: a text whose characters
  outside its templates have no opening brace has no path parameter, and \<open>Apply\<close> leaves it
  alone under every lookup.
\<close>

theorem Apply_skips_templates:
  assumes "Lit CHR 0x7B \<notin> set (scan s)"
  shows "Names s = [] \<and> Apply s lookup = s"
proof -
  have "Inr n \<notin> set (tokens (concat (map raw_piece (scan s))))" for n
    using assms by (intro tokens_of_pieces scan_no_brace) auto
  then have none: "\<And>n. Inr n \<notin> set (tokens s)" by (simp add: unscan)
  then have "set (Names s) = {}" by (simp add: set_Names)
  moreover have "map (token_text f) (tokens s) = map (token_text g) (tokens s)" for f g
  proof (rule map_cong [OF refl])
    fix t assume "t \<in> set (tokens s)"
    with none show "token_text f t = token_text g t" by (cases t) auto
  qed
  then have "Apply s lookup = s"
    unfolding Apply_tokens by (rule trans [OF arg_cong [of _ _ concat] tokens_text])
  ultimately show ?thesis by simp
qed

theorem Apply_skips_templates_witness:
  "Names ''{{base}}/a'' = [] \<and> Apply ''{{base}}/a'' [''base'' \<mapsto> ''x''] = ''{{base}}/a''"
proof -
  have "Lit CHR 0x7B \<notin> set (scan ''{{base}}/a'')" by code_simp
  then show ?thesis by (rule Apply_skips_templates)
qed

end
