(* ===== verification/Chain.thy ===== *)
theory Chain
  imports ApiModel
begin

text \<open>
  \<open>internal/chain/chain.go\<close>: the before-hooks of a request. \<open>visiting\<close>, the console, the
  step counter and the calls of the progress callback are the threaded state
  \<open>chain_state\<close>, next to the world \<open>'w\<close> that the executor (HTTP and scripts, the Go
  interface \<open>Executor\<close>) acts on. \<open>Executor\<close> and \<open>RequestFinder\<close> are parameters, as they
  are in the code.
\<close>

section \<open>Views, interfaces and errors\<close>

record RequestView =
  rv_Method :: string
  rv_URL :: string
  rv_Body :: string

record ResponseView =
  pv_StatusCode :: int
  pv_Status :: string
  pv_Headers :: "(string \<times> string list) list"
  pv_Body :: string
  pv_Size :: int
  pv_Duration :: int
  pv_CORSWarning :: string

record View =
  vw_Request :: RequestView
  vw_Response :: ResponseView

type_synonym chain_map = "string \<Rightarrow> View option"

text \<open>\<open>ExecuteOnce\<close>: the view, the console lines and a non-nil error, in a new world.\<close>

type_synonym 'w executor =
  "request \<Rightarrow> chain_map \<Rightarrow> 'w \<Rightarrow> (View \<times> string list \<times> string option) \<times> 'w"

record RequestFinder =
  FindRequestByPath :: "string \<Rightarrow> request option"
  FindRequestByID :: "string \<Rightarrow> request option"

datatype chain_error =
  DepthExceeded
| MissingAliasAndRef
| MissingAlias string
| MissingRef string
| InvalidAlias string
| ReservedAlias string
| ObjectPropAlias string
| DuplicateAlias string
| Unresolved string string
| CycleDetected string string
| StepLimit
| StepFailed string string string

definition MaxChainDepth :: nat where "MaxChainDepth = 8"
definition MaxChainSteps :: nat where "MaxChainSteps = 32"
definition MaxChainConsoleLines :: nat where "MaxChainConsoleLines = 1024"

section \<open>Aliases\<close>

definition is_letter :: "char \<Rightarrow> bool" where
  "is_letter c \<longleftrightarrow>
     (65 \<le> (of_char c :: nat) \<and> (of_char c :: nat) \<le> 90) \<or>
     (97 \<le> (of_char c :: nat) \<and> (of_char c :: nat) \<le> 122)"

definition aliasRe :: "string \<Rightarrow> bool" where
  "aliasRe s =
     (case s of
        [] \<Rightarrow> False
      | c # cs \<Rightarrow> (is_letter c \<or> c = CHR ''_'' \<or> c = CHR ''$'') \<and>
          list_all (\<lambda>x. is_letter x \<or> is_digit x \<or> x = CHR ''_'' \<or> x = CHR ''$'') cs)"

definition reservedAliases :: "string list" where
  "reservedAliases =
     [''break'', ''case'', ''catch'', ''class'', ''const'',
      ''continue'', ''debugger'', ''default'', ''delete'', ''do'',
      ''else'', ''enum'', ''export'', ''extends'', ''false'',
      ''finally'', ''for'', ''function'', ''if'', ''import'',
      ''in'', ''instanceof'', ''new'', ''null'', ''return'',
      ''super'', ''switch'', ''this'', ''throw'', ''true'',
      ''try'', ''typeof'', ''var'', ''void'', ''while'',
      ''with'', ''yield'', ''let'', ''static'', ''await'']"

definition jsObjectProps :: "string list" where
  "jsObjectProps =
     [''__proto__'', ''constructor'', ''prototype'',
      ''hasOwnProperty'', ''isPrototypeOf'', ''propertyIsEnumerable'',
      ''toLocaleString'', ''toString'', ''valueOf'',
      ''__defineGetter__'', ''__defineSetter__'',
      ''__lookupGetter__'', ''__lookupSetter__'']"

definition stepRef :: "chain_step \<Rightarrow> string" where
  "stepRef step =
     (if cs_Request step \<noteq> [] then cs_Request step
      else if cs_RequestID step \<noteq> [] then ''id '' @ cs_RequestID step
      else [])"

text \<open>The checks at the head of the loop body, in the code's order.\<close>

definition check_step :: "chain_step \<Rightarrow> chain_map \<Rightarrow> chain_error option" where
  "check_step step out =
     (let blankAlias = (cs_Alias step = []);
          blankRef = (cs_Request step = [] \<and> cs_RequestID step = [])
      in if blankAlias \<and> blankRef then Some MissingAliasAndRef
         else if blankAlias then Some (MissingAlias (stepRef step))
         else if blankRef then Some (MissingRef (cs_Alias step))
         else if \<not> aliasRe (cs_Alias step) then Some (InvalidAlias (cs_Alias step))
         else if cs_Alias step \<in> set reservedAliases then Some (ReservedAlias (cs_Alias step))
         else if cs_Alias step \<in> set jsObjectProps then Some (ObjectPropAlias (cs_Alias step))
         else if out (cs_Alias step) \<noteq> None then Some (DuplicateAlias (cs_Alias step))
         else None)"

section \<open>Targets\<close>

definition visitKey :: "request \<Rightarrow> chain_step \<Rightarrow> string" where
  "visitKey sub step =
     (if rq_ID sub \<noteq> [] then rq_ID sub else CHR 0x00 # ''path:'' @ cs_Request step)"

definition resolveTarget :: "RequestFinder \<Rightarrow> chain_step \<Rightarrow> request option" where
  "resolveTarget finder step =
     (case (if cs_RequestID step \<noteq> [] then FindRequestByID finder (cs_RequestID step) else None) of
        Some r \<Rightarrow> Some r
      | None \<Rightarrow>
          if cs_Request step = [] then None else FindRequestByPath finder (cs_Request step))"

section \<open>The bounded console\<close>

definition truncated_marker :: string where
  "truncated_marker = ''[chain console truncated]''"

fun appendBounded :: "string list \<Rightarrow> string list \<Rightarrow> string list" where
  "appendBounded console [] = console"
| "appendBounded console (l # lines) =
     (if MaxChainConsoleLines \<le> length console then
        (if length console = MaxChainConsoleLines then console @ [truncated_marker] else console)
      else appendBounded (console @ [l]) lines)"

section \<open>Execution\<close>

record 'w chain_state =
  ch_visiting :: "string set"
  ch_console :: "string list"
  ch_stepCount :: nat
  ch_progress :: "(nat \<times> nat \<times> string \<times> string) list"
  ch_world :: 'w

definition traceLine :: "string \<Rightarrow> View \<Rightarrow> string" where
  "traceLine alias view =
     [CHR 0xE2, CHR 0x86, CHR 0x92] @ '' chain['' @ alias @ ''] '' @ rv_Method (vw_Request view)
       @ '' '' @ rv_URL (vw_Request view)"

text \<open>
  One call of \<open>ExecuteOnce\<close> with its bookkeeping: the step limit, the counter, the progress
  callback and the console. The view is \<open>Inr\<close>.
\<close>

definition run_step :: "'w executor \<Rightarrow> bool \<Rightarrow> nat \<Rightarrow> string \<Rightarrow> request \<Rightarrow> chain_map \<Rightarrow> 'w chain_state
    \<Rightarrow> (chain_error + View) \<times> 'w chain_state" where
  "run_step exec progress tot alias sub subChainMap st =
     (if MaxChainSteps \<le> ch_stepCount st then (Inl StepLimit, st)
      else
        (let n = Suc (ch_stepCount st);
             st1 = st\<lparr>ch_stepCount := n,
                      ch_progress := (if progress then ch_progress st @ [(n, tot, alias, rq_Name sub)]
                                      else ch_progress st)\<rparr>;
             ((view, lines, err), w) = exec sub subChainMap (ch_world st1);
             console1 = appendBounded (ch_console st1) lines;
             console2 = (if rv_URL (vw_Request view) \<noteq> []
                         then appendBounded console1 [traceLine alias view] else console1);
             st2 = st1\<lparr>ch_console := console2, ch_world := w\<rparr>
         in case err of
              Some e \<Rightarrow> (Inl (StepFailed alias (rq_Name sub) e), st2)
            | None \<Rightarrow> (Inr view, st2)))"

text \<open>
  The loop of \<open>resolveSteps\<close> with its accumulator \<open>out\<close>. The recursive call on the
  predecessor's own chain begins with the depth check, written in place here so that the
  recursion is bounded by the depth; \<open>resolveSteps\<close> below is the same check and the loop.
\<close>

function resolve_loop :: "RequestFinder \<Rightarrow> 'w executor \<Rightarrow> bool \<Rightarrow> nat \<Rightarrow> nat \<Rightarrow> chain_step list
    \<Rightarrow> chain_map \<Rightarrow> 'w chain_state \<Rightarrow> (chain_error + chain_map) \<times> 'w chain_state" where
  "resolve_loop finder exec progress tot depth [] out st = (Inr out, st)"
| "resolve_loop finder exec progress tot depth (step # steps) out st =
     (case check_step step out of
        Some e \<Rightarrow> (Inl e, st)
      | None \<Rightarrow>
     (case resolveTarget finder step of
        None \<Rightarrow> (Inl (Unresolved (stepRef step) (cs_Alias step)), st)
      | Some sub \<Rightarrow>
     (let key = visitKey sub step in
      if key \<in> ch_visiting st then (Inl (CycleDetected (rq_Name sub) (cs_Alias step)), st)
      else
     (case (if MaxChainDepth \<le> Suc depth
            then (Inl DepthExceeded, st\<lparr>ch_visiting := insert key (ch_visiting st)\<rparr>)
            else resolve_loop finder exec progress tot (Suc depth) (rq_Chain sub) Map.empty
                   (st\<lparr>ch_visiting := insert key (ch_visiting st)\<rparr>)) of
        (Inl e, st1) \<Rightarrow> (Inl e, st1)
      | (Inr subChainMap, st1) \<Rightarrow>
     (case run_step exec progress tot (cs_Alias step) sub subChainMap st1 of
        (Inl e, st2) \<Rightarrow> (Inl e, st2)
      | (Inr view, st2) \<Rightarrow>
          resolve_loop finder exec progress tot depth steps (out(cs_Alias step \<mapsto> view))
            (st2\<lparr>ch_visiting := ch_visiting st2 - {key}\<rparr>))))))"
  by pat_completeness auto
termination
  by (relation "measures [\<lambda>(f, e, p, t, depth, steps, out, st). MaxChainDepth - depth,
                          \<lambda>(f, e, p, t, depth, steps, out, st). length steps]") auto

definition resolveSteps :: "RequestFinder \<Rightarrow> 'w executor \<Rightarrow> bool \<Rightarrow> nat \<Rightarrow> nat \<Rightarrow> chain_step list
    \<Rightarrow> 'w chain_state \<Rightarrow> (chain_error + chain_map) \<times> 'w chain_state" where
  "resolveSteps finder exec progress tot depth steps st =
     (if MaxChainDepth \<le> depth then (Inl DepthExceeded, st)
      else resolve_loop finder exec progress tot depth steps Map.empty st)"

text \<open>\<open>countSteps\<close>: \<open>visiting\<close> is restored by every iteration, so it is an argument.\<close>

function count_loop :: "RequestFinder \<Rightarrow> string set \<Rightarrow> nat \<Rightarrow> chain_step list \<Rightarrow> nat \<Rightarrow> nat" where
  "count_loop finder visiting depth [] tot = tot"
| "count_loop finder visiting depth (step # steps) tot =
     (if cs_Request step = [] \<and> cs_RequestID step = []
      then count_loop finder visiting depth steps tot
      else
     (case resolveTarget finder step of
        None \<Rightarrow> count_loop finder visiting depth steps tot
      | Some sub \<Rightarrow>
     (let key = visitKey sub step in
      if key \<in> visiting then count_loop finder visiting depth steps tot
      else
     (let tot' = Suc (tot + (if MaxChainDepth \<le> Suc depth then 0
            else count_loop finder (insert key visiting) (Suc depth) (rq_Chain sub) 0))
      in if MaxChainSteps \<le> tot' then MaxChainSteps
         else count_loop finder visiting depth steps tot'))))"
  by pat_completeness auto
termination
  by (relation "measures [\<lambda>(f, v, depth, steps, t). MaxChainDepth - depth,
                          \<lambda>(f, v, depth, steps, t). length steps]") auto

definition countSteps :: "chain_step list \<Rightarrow> RequestFinder \<Rightarrow> string set \<Rightarrow> nat \<Rightarrow> nat" where
  "countSteps steps finder visiting depth =
     (if MaxChainDepth \<le> depth then 0 else count_loop finder visiting depth steps 0)"

definition leaf_visiting :: "request \<Rightarrow> string set" where
  "leaf_visiting leaf = (if rq_ID leaf \<noteq> [] then {rq_ID leaf} else {})"

definition start_state :: "request \<Rightarrow> 'w \<Rightarrow> 'w chain_state" where
  "start_state leaf w =
     \<lparr>ch_visiting = leaf_visiting leaf, ch_console = [], ch_stepCount = 0,
      ch_progress = [], ch_world = w\<rparr>"

definition chain_total :: "request \<Rightarrow> RequestFinder \<Rightarrow> bool \<Rightarrow> nat" where
  "chain_total leaf finder progress =
     (if progress then countSteps (rq_Chain leaf) finder (leaf_visiting leaf) 0 else 0)"

definition chain_Resolve :: "request \<Rightarrow> RequestFinder \<Rightarrow> 'w executor \<Rightarrow> bool \<Rightarrow> 'w
    \<Rightarrow> (chain_error + chain_map) \<times> 'w chain_state" where
  "chain_Resolve leaf finder exec progress w =
     resolveSteps finder exec progress (chain_total leaf finder progress) 0 (rq_Chain leaf)
       (start_state leaf w)"

section \<open>The loop as a relation\<close>

text \<open>
  The big-step reading of \<open>resolve_loop\<close>: one rule for each way an iteration can end. The
  two are equivalent (\<open>runs_iff\<close>), and the lemmas below are rule inductions.
\<close>

abbreviation push :: "string \<Rightarrow> 'w chain_state \<Rightarrow> 'w chain_state" where
  "push key st \<equiv> st\<lparr>ch_visiting := insert key (ch_visiting st)\<rparr>"

abbreviation pop :: "string \<Rightarrow> 'w chain_state \<Rightarrow> 'w chain_state" where
  "pop key st \<equiv> st\<lparr>ch_visiting := ch_visiting st - {key}\<rparr>"

definition selects :: "RequestFinder \<Rightarrow> chain_step \<Rightarrow> chain_map \<Rightarrow> request \<Rightarrow> string \<Rightarrow> bool" where
  "selects finder step out sub key \<longleftrightarrow>
     check_step step out = None \<and> resolveTarget finder step = Some sub \<and> key = visitKey sub step"

inductive runs :: "RequestFinder \<Rightarrow> 'w executor \<Rightarrow> bool \<Rightarrow> nat \<Rightarrow> nat \<Rightarrow> chain_step list \<Rightarrow> chain_map
    \<Rightarrow> 'w chain_state \<Rightarrow> chain_error + chain_map \<Rightarrow> 'w chain_state \<Rightarrow> bool" for f e p t where
  runs_done: "runs f e p t depth [] out st (Inr out) st"
| runs_reject: "check_step step out = Some err \<Longrightarrow>
    runs f e p t depth (step # steps) out st (Inl err) st"
| runs_unresolved: "check_step step out = None \<Longrightarrow> resolveTarget f step = None \<Longrightarrow>
    runs f e p t depth (step # steps) out st (Inl (Unresolved (stepRef step) (cs_Alias step))) st"
| runs_cycle: "selects f step out sub key \<Longrightarrow> key \<in> ch_visiting st \<Longrightarrow>
    runs f e p t depth (step # steps) out st (Inl (CycleDetected (rq_Name sub) (cs_Alias step))) st"
| runs_deep: "selects f step out sub key \<Longrightarrow> key \<notin> ch_visiting st \<Longrightarrow> MaxChainDepth \<le> Suc depth \<Longrightarrow>
    runs f e p t depth (step # steps) out st (Inl DepthExceeded) (push key st)"
| runs_sub_fails: "selects f step out sub key \<Longrightarrow> key \<notin> ch_visiting st \<Longrightarrow> Suc depth < MaxChainDepth \<Longrightarrow>
    runs f e p t (Suc depth) (rq_Chain sub) Map.empty (push key st) (Inl err) st1 \<Longrightarrow>
    runs f e p t depth (step # steps) out st (Inl err) st1"
| runs_step_fails: "selects f step out sub key \<Longrightarrow> key \<notin> ch_visiting st \<Longrightarrow> Suc depth < MaxChainDepth \<Longrightarrow>
    runs f e p t (Suc depth) (rq_Chain sub) Map.empty (push key st) (Inr m) st1 \<Longrightarrow>
    run_step e p t (cs_Alias step) sub m st1 = (Inl err, st2) \<Longrightarrow>
    runs f e p t depth (step # steps) out st (Inl err) st2"
| runs_step: "selects f step out sub key \<Longrightarrow> key \<notin> ch_visiting st \<Longrightarrow> Suc depth < MaxChainDepth \<Longrightarrow>
    runs f e p t (Suc depth) (rq_Chain sub) Map.empty (push key st) (Inr m) st1 \<Longrightarrow>
    run_step e p t (cs_Alias step) sub m st1 = (Inr view, st2) \<Longrightarrow>
    runs f e p t depth steps (out(cs_Alias step \<mapsto> view)) (pop key st2) res st3 \<Longrightarrow>
    runs f e p t depth (step # steps) out st res st3"

lemma runs_eq: "runs f e p t depth steps out st res st' \<Longrightarrow>
    resolve_loop f e p t depth steps out st = (res, st')"
  by (induction rule: runs.induct) (simp_all add: selects_def del: fun_upd_apply)

lemma resolve_loop_runs:
  "resolve_loop f e p t depth steps out st = (res, st') \<Longrightarrow> runs f e p t depth steps out st res st'"
proof (induction f e p t depth steps out st arbitrary: res st' rule: resolve_loop.induct)
  case (1 f e p t depth out st)
  then show ?case by (auto intro: runs_done)
next
  case (2 f e p t depth step steps out st)
  show ?case
  proof (cases "check_step step out")
    case (Some err)
    with 2 show ?thesis by (auto intro: runs_reject)
  next
    case None
    note chk = None
    show ?thesis
    proof (cases "resolveTarget f step")
      case None
      with chk 2 show ?thesis by (auto intro: runs_unresolved)
    next
      case (Some sub)
      define key where "key = visitKey sub step"
      have sel: "selects f step out sub key" using chk Some by (simp add: selects_def key_def)
      consider (cycle) "key \<in> ch_visiting st"
        | (deep) "key \<notin> ch_visiting st" "MaxChainDepth \<le> Suc depth"
        | (go) "\<not> (key \<in> ch_visiting st \<or> MaxChainDepth \<le> Suc depth)" by blast
      then show ?thesis
      proof cases
        case cycle
        with "2.prems" chk Some runs_cycle [OF sel cycle] show ?thesis by (simp add: key_def)
      next
        case deep
        with "2.prems" chk Some runs_deep [OF sel deep] show ?thesis by (simp add: key_def)
      next
        case False: go
        obtain r1 st1 where sub: "resolve_loop f e p t (Suc depth) (rq_Chain sub) Map.empty (push key st)
            = (r1, st1)" by force
        with 2 chk Some False have run1: "runs f e p t (Suc depth) (rq_Chain sub) Map.empty (push key st) r1 st1"
          by (auto simp: key_def)
        show ?thesis
        proof (cases r1)
          case (Inl err)
          with sel False sub run1 "2.prems" show ?thesis
            by (auto simp: selects_def intro!: runs_sub_fails [of f step out sub key])
        next
          case (Inr m)
          obtain r2 st2 where step: "run_step e p t (cs_Alias step) sub m st1 = (r2, st2)" by force
          show ?thesis
          proof (cases r2)
            case (Inl err)
            with sel False sub run1 step Inr "2.prems" show ?thesis
              by (auto simp: selects_def intro!: runs_step_fails [of f step out sub key])
          next
            case r2: (Inr view)
            let ?tail = "resolve_loop f e p t depth steps (out(cs_Alias step \<mapsto> view)) (pop key st2)"
            have "?tail = (res, st')"
              using sel False sub step Inr r2 "2.prems" by (simp add: selects_def)
            moreover have "?tail = (res, st') \<Longrightarrow>
                runs f e p t depth steps (out(cs_Alias step \<mapsto> view)) (pop key st2) res st'"
              using chk Some False sub step Inr r2
              by (intro "2.IH"(2) [OF chk Some key_def, of r1 st1 m r2 st2 view])
                (simp_all add: key_def del: fun_upd_apply)
            ultimately show ?thesis
              using sel False run1 step Inr r2
              by (intro runs_step [of f step out sub key]) auto
          qed
        qed
      qed
    qed
  qed
qed

lemma runs_iff: "runs f e p t depth steps out st res st' \<longleftrightarrow>
    resolve_loop f e p t depth steps out st = (res, st')"
  using runs_eq resolve_loop_runs by blast

section \<open>Invariants of a run\<close>

lemma run_step_simps:
  "run_step e p t al sub m st = (r, st') \<Longrightarrow> ch_visiting st' = ch_visiting st"
  "run_step e p t al sub m st = (r, st') \<Longrightarrow> ch_stepCount st \<le> MaxChainSteps \<Longrightarrow>
     ch_stepCount st' \<le> MaxChainSteps"
  "run_step e p t al sub m st = (Inr v, st') \<Longrightarrow> ch_stepCount st' = Suc (ch_stepCount st)"
  by (auto simp: run_step_def Let_def split: if_splits prod.splits option.splits)

lemma runs_visiting: "runs f e p t depth steps out st res st' \<Longrightarrow> res = Inr m \<Longrightarrow>
    ch_visiting st' = ch_visiting st"
  by (induction arbitrary: m rule: runs.induct) (auto dest!: run_step_simps(1))

lemma runs_stepCount: "runs f e p t depth steps out st res st' \<Longrightarrow>
    ch_stepCount st \<le> MaxChainSteps \<Longrightarrow> ch_stepCount st' \<le> MaxChainSteps"
  by (induction rule: runs.induct) (auto dest: run_step_simps(2))

lemma runs_mono: "runs f e p t depth steps out st res st' \<Longrightarrow> res = Inr m \<Longrightarrow>
    ch_stepCount st + length steps \<le> ch_stepCount st'"
  by (induction arbitrary: m rule: runs.induct) (fastforce dest!: run_step_simps(3))+

text \<open>On success the counting walk agrees with the executing walk.\<close>

lemma runs_count:
  "runs f e p t depth steps out st res st' \<Longrightarrow> res = Inr m \<Longrightarrow>
   acc + (ch_stepCount st' - ch_stepCount st) \<le> MaxChainSteps \<Longrightarrow>
   count_loop f (ch_visiting st) depth steps acc = acc + (ch_stepCount st' - ch_stepCount st)"
proof (induction arbitrary: m acc rule: runs.induct)
  case (runs_step step out sub key st depth m' st1 view st2 steps res st3)
  let ?d = "ch_stepCount st1 - ch_stepCount st"
  have c1: "ch_stepCount st \<le> ch_stepCount st1" using runs_mono [OF runs_step.hyps(4)] by auto
  have c2: "ch_stepCount st2 = Suc (ch_stepCount st1)" using runs_step.hyps(5) run_step_simps(3) by blast
  have c3: "ch_stepCount st2 + length steps \<le> ch_stepCount st3"
    using runs_mono [OF runs_step.hyps(6) runs_step.prems(1)] by simp
  have vis: "ch_visiting st2 = insert key (ch_visiting st)"
    using runs_visiting [OF runs_step.hyps(4)] run_step_simps(1) [OF runs_step.hyps(5)] by simp
  have sub: "count_loop f (insert key (ch_visiting st)) (Suc depth) (rq_Chain sub) 0 = ?d"
    using runs_step.IH(1) [OF refl, of 0] runs_step.prems(2) c1 c2 c3 by simp
  have key: "ch_visiting (pop key st2) = ch_visiting st"
    using vis runs_step.hyps(2) by auto
  have sel: "\<not> (cs_Request step = [] \<and> cs_RequestID step = [])" "resolveTarget f step = Some sub"
    "visitKey sub step = key"
    using runs_step.hyps(1) by (auto simp: selects_def check_step_def Let_def split: if_splits)
  show ?case
  proof (cases "MaxChainSteps \<le> Suc (acc + ?d)")
    case True
    with runs_step.prems(2) c1 c2 c3 have "Suc (acc + ?d) = MaxChainSteps"
      "ch_stepCount st3 = ch_stepCount st2" by auto
    with sel sub c1 c2 True runs_step.hyps(2,3) show ?thesis by (auto simp: Let_def)
  next
    case False
    have "count_loop f (ch_visiting (pop key st2)) depth steps (Suc (acc + ?d)) =
        Suc (acc + ?d) + (ch_stepCount st3 - ch_stepCount (pop key st2))"
      using runs_step.prems c1 c2 c3 by (intro runs_step.IH(2)) auto
    moreover have "count_loop f (ch_visiting st) depth (step # steps) acc =
        count_loop f (ch_visiting st) depth steps (Suc (acc + ?d))"
      unfolding count_loop.simps(2) if_not_P [OF sel(1)]
      using False sel(2,3) sub runs_step.hyps(2,3) by (simp add: Let_def)
    ultimately show ?thesis using c1 c2 c3 key by simp
  qed
qed auto

lemma runs_aliases:
  "runs f e p t depth steps out st res st' \<Longrightarrow> res = Inr m \<Longrightarrow>
   dom m = dom out \<union> cs_Alias ` set steps \<and> distinct (map cs_Alias steps) \<and>
   dom out \<inter> cs_Alias ` set steps = {} \<and>
   (\<forall>s\<in>set steps. aliasRe (cs_Alias s) \<and> cs_Alias s \<notin> set reservedAliases \<and>
      cs_Alias s \<notin> set jsObjectProps)"
proof (induction arbitrary: m rule: runs.induct)
  case (runs_step step out sub key st depth m' st1 view st2 steps res st3)
  from runs_step.hyps(1) have "aliasRe (cs_Alias step)" "cs_Alias step \<notin> set reservedAliases"
    "cs_Alias step \<notin> set jsObjectProps" "cs_Alias step \<notin> dom out"
    by (auto simp: selects_def check_step_def Let_def split: if_splits)
  moreover have "dom (out(cs_Alias step \<mapsto> view)) = insert (cs_Alias step) (dom out)" by simp
  note runs_step.IH(2) [OF runs_step.prems, unfolded this]
  ultimately show ?case by (simp del: domIff)
qed auto

lemma length_appendBounded:
  "length console \<le> Suc MaxChainConsoleLines \<Longrightarrow>
   length (appendBounded console lines) \<le> Suc MaxChainConsoleLines"
  by (induction console lines rule: appendBounded.induct) auto

lemma run_step_console:
  "run_step e p t al sub m st = (r, st') \<Longrightarrow> length (ch_console st) \<le> Suc MaxChainConsoleLines \<Longrightarrow>
   length (ch_console st') \<le> Suc MaxChainConsoleLines"
  by (auto simp: run_step_def Let_def length_appendBounded split: if_splits prod.splits option.splits)

lemma runs_console: "runs f e p t depth steps out st res st' \<Longrightarrow>
    length (ch_console st) \<le> Suc MaxChainConsoleLines \<Longrightarrow>
    length (ch_console st') \<le> Suc MaxChainConsoleLines"
  by (induction rule: runs.induct) (auto dest: run_step_console)

text \<open>The progress calls are numbered like the steps and all carry the total.\<close>

definition progress_ok :: "nat \<Rightarrow> 'w chain_state \<Rightarrow> bool" where
  "progress_ok t st \<longleftrightarrow>
     map (\<lambda>(n, tot, al, nm). (n, tot)) (ch_progress st) = map (\<lambda>i. (Suc i, t)) [0..<ch_stepCount st]"

lemma run_step_progress:
  "run_step e True t al sub m st = (r, st') \<Longrightarrow> progress_ok t st \<Longrightarrow> progress_ok t st'"
  by (auto simp: run_step_def Let_def progress_ok_def split: if_splits prod.splits option.splits)

lemma runs_progress: "runs f e p t depth steps out st res st' \<Longrightarrow> p \<Longrightarrow> progress_ok t st \<Longrightarrow>
    progress_ok t st'"
  by (induction rule: runs.induct) (auto simp: progress_ok_def [of t "push _ _"]
      progress_ok_def [of t "pop _ _"] simp flip: progress_ok_def dest: run_step_progress)

section \<open>Which requests are executed\<close>

text \<open>An executor that also records the requests it is called on.\<close>

definition logged :: "'w executor \<Rightarrow> ('w \<times> request list) executor" where
  "logged exec sub m wl = (case exec sub m (fst wl) of (r, w) \<Rightarrow> (r, (w, snd wl @ [sub])))"

definition log_of :: "('w \<times> request list) chain_state \<Rightarrow> request list" where
  "log_of st = snd (ch_world st)"

lemma run_step_log:
  "run_step (logged e) p t al sub m st = (r, st') \<Longrightarrow>
   \<exists>new. log_of st' = log_of st @ new \<and> set new \<subseteq> {sub} \<and>
     length new + ch_stepCount st = ch_stepCount st'"
  by (auto simp: run_step_def logged_def log_of_def Let_def split: if_splits prod.splits option.splits)

lemma runs_log:
  "runs f (logged e) p t depth steps out st res st' \<Longrightarrow>
   \<exists>new. log_of st' = log_of st @ new \<and> length new + ch_stepCount st = ch_stepCount st' \<and>
     (\<forall>s\<in>set new. rq_ID s = [] \<or> rq_ID s \<notin> ch_visiting st)"
proof (induction rule: runs.induct)
  case (runs_sub_fails step out sub key st depth err st1 steps)
  then show ?case by (auto simp: log_of_def)
next
  case (runs_step_fails step out sub key st depth m st1 err st2 steps)
  then obtain new1 where 1: "log_of st1 = log_of st @ new1"
    "length new1 + ch_stepCount st = ch_stepCount st1"
    "\<forall>s\<in>set new1. rq_ID s = [] \<or> rq_ID s \<notin> ch_visiting st"
    by (auto simp: log_of_def)
  from run_step_log [OF runs_step_fails.hyps(5)] obtain new2 where
    2: "log_of st2 = log_of st1 @ new2" "set new2 \<subseteq> {sub}"
    "length new2 + ch_stepCount st1 = ch_stepCount st2" by auto
  have "\<forall>s\<in>set new2. rq_ID s = [] \<or> rq_ID s \<notin> ch_visiting st"
    using 2(2) runs_step_fails.hyps(1,2) by (auto simp: selects_def visitKey_def split: if_splits)
  with 1 2 show ?case by (intro exI [of _ "new1 @ new2"]) auto
next
  case (runs_step step out sub key st depth m st1 view st2 steps res st3)
  then obtain new1 where 1: "log_of st1 = log_of st @ new1"
    "length new1 + ch_stepCount st = ch_stepCount st1"
    "\<forall>s\<in>set new1. rq_ID s = [] \<or> rq_ID s \<notin> ch_visiting st"
    by (auto simp: log_of_def)
  from run_step_log [OF runs_step.hyps(5)] obtain new2 where
    2: "log_of st2 = log_of st1 @ new2" "set new2 \<subseteq> {sub}"
    "length new2 + ch_stepCount st1 = ch_stepCount st2" by auto
  have 3: "\<forall>s\<in>set new2. rq_ID s = [] \<or> rq_ID s \<notin> ch_visiting st"
    using 2(2) runs_step.hyps(1,2) by (auto simp: selects_def visitKey_def split: if_splits)
  have "ch_visiting (pop key st2) = ch_visiting st"
    using runs_visiting [OF runs_step.hyps(4)] run_step_simps(1) [OF runs_step.hyps(5)]
      runs_step.hyps(2) by auto
  moreover have "log_of (pop key st2) = log_of st2" by (simp add: log_of_def)
  ultimately obtain new3 where 4: "log_of st3 = log_of st2 @ new3"
    "length new3 + ch_stepCount st2 = ch_stepCount st3"
    "\<forall>s\<in>set new3. rq_ID s = [] \<or> rq_ID s \<notin> ch_visiting st"
    using runs_step.IH(2) by auto
  from 1 2 3 4 show ?case by (intro exI [of _ "new1 @ new2 @ new3"]) auto
qed (auto simp: log_of_def)

section \<open>Interfaces\<close>

text \<open>
  What every implementation of \<open>RequestFinder\<close> promises: an empty ID finds nothing, and a
  request found by ID carries that ID.
\<close>

locale request_finder =
  fixes finder :: RequestFinder
  assumes by_empty_id: "FindRequestByID finder [] = None"
    and by_id: "FindRequestByID finder i = Some r \<Longrightarrow> rq_ID r = i"
begin

lemma target_by_id:
  "FindRequestByID finder (cs_RequestID step) = Some r \<Longrightarrow> resolveTarget finder step = Some r"
  using by_empty_id by (auto simp: resolveTarget_def)

lemma target_key:
  "FindRequestByID finder (cs_RequestID step) = Some r \<Longrightarrow> visitKey r step = cs_RequestID step"
  using by_empty_id by_id by (auto simp: visitKey_def)

text \<open>A step pinned to an ID follows the request through renames and moves of its path.\<close>

lemma target_ignores_path:
  "FindRequestByID finder i = Some r \<Longrightarrow>
   resolveTarget finder \<lparr>cs_Alias = a, cs_Request = p, cs_RequestID = i\<rparr> = Some r"
  by (rule target_by_id) simp

end

text \<open>An invariant of the executor's world that every \<open>ExecuteOnce\<close> keeps.\<close>

locale executor_invariant =
  fixes exec :: "'w executor" and Inv :: "'w \<Rightarrow> bool"
  assumes exec_inv: "Inv w \<Longrightarrow> Inv (snd (exec r m w))"
begin

lemma run_step_inv:
  "run_step exec p t al sub m st = (r, st') \<Longrightarrow> Inv (ch_world st) \<Longrightarrow> Inv (ch_world st')"
  using exec_inv [of "ch_world st" sub m]
  by (auto simp: run_step_def Let_def split: if_splits prod.splits option.splits)

lemma runs_inv:
  "runs f exec p t depth steps out st res st' \<Longrightarrow> Inv (ch_world st) \<Longrightarrow> Inv (ch_world st')"
  by (induction rule: runs.induct) (auto dest: run_step_inv)

lemma Resolve_inv: "Inv w \<Longrightarrow> Inv (ch_world (snd (chain_Resolve leaf f exec p w)))"
proof -
  assume w: "Inv w"
  obtain r st' where r: "resolve_loop f exec p (chain_total leaf f p) 0 (rq_Chain leaf) Map.empty
      (start_state leaf w) = (r, st')" by force
  then have "runs f exec p (chain_total leaf f p) 0 (rq_Chain leaf) Map.empty (start_state leaf w) r st'"
    by (simp add: runs_iff)
  from runs_inv [OF this] w r show ?thesis
    by (simp add: chain_Resolve_def resolveSteps_def MaxChainDepth_def start_state_def)
qed

end

section \<open>Properties\<close>

lemma chain_Resolve_runs:
  "chain_Resolve leaf f e p w = (res, st') \<longleftrightarrow>
   runs f e p (chain_total leaf f p) 0 (rq_Chain leaf) Map.empty (start_state leaf w) res st'"
  by (simp add: chain_Resolve_def resolveSteps_def runs_iff MaxChainDepth_def)

text \<open>
  C31 The fan-out cap: however the finder and the executor behave, one \<open>Resolve\<close> calls
  \<open>ExecuteOnce\<close> at most 32 times, and it never executes a request with the leaf's own
  non-empty ID, so a chain cannot run back into the request that started it.
\<close>

theorem chain_executions_bounded:
  "(case chain_Resolve leaf f (logged exec) p (w, []) of
      (res, st) \<Rightarrow> length (log_of st) \<le> 32 \<and>
        rq_ID leaf \<notin> set (map rq_ID (log_of st)) - {[]})"
proof -
  obtain res st where r: "chain_Resolve leaf f (logged exec) p (w, []) = (res, st)" by force
  then have run: "runs f (logged exec) p (chain_total leaf f p) 0 (rq_Chain leaf) Map.empty
      (start_state leaf (w, [])) res st"
    by (simp add: chain_Resolve_runs)
  from runs_log [OF run] obtain new where "log_of st = new" "length new = ch_stepCount st"
    "\<forall>s\<in>set new. rq_ID s = [] \<or> rq_ID s \<notin> leaf_visiting leaf"
    by (auto simp: start_state_def log_of_def)
  moreover have "ch_stepCount st \<le> MaxChainSteps"
    using runs_stepCount [OF run] by (simp add: start_state_def)
  ultimately show ?thesis
    by (cases "rq_ID leaf = []") (auto simp: r MaxChainSteps_def leaf_visiting_def)
qed

text \<open>
  When every step succeeds, the map the leaf's scripts see has exactly one entry per
  declared step, and the aliases are distinct identifiers that are neither reserved words
  nor members of \<open>Object.prototype\<close>.
\<close>

theorem chain_aliases:
  assumes "chain_Resolve leaf f e p w = (Inr m, st)"
  shows "dom m = cs_Alias ` set (rq_Chain leaf) \<and> distinct (map cs_Alias (rq_Chain leaf)) \<and>
    list_all (\<lambda>a. aliasRe a \<and> a \<notin> set reservedAliases \<and> a \<notin> set jsObjectProps)
      (map cs_Alias (rq_Chain leaf))"
  using runs_aliases [OF assms [unfolded chain_Resolve_runs] refl] by (auto simp: list_all_iff)

text \<open>
  C32 The upfront count is exact: when \<open>Resolve\<close> succeeds with a progress callback, the
  callback was called once per executed step, with step numbers 1, 2, ... in order and every
  time with the number of steps that really ran as the total.
\<close>

theorem chain_progress_exact:
  assumes "chain_Resolve leaf f e True w = (Inr m, st)"
  shows "map (\<lambda>(n, tot, al, nm). (n, tot)) (ch_progress st) =
    map (\<lambda>i. (Suc i, ch_stepCount st)) [0..<ch_stepCount st]"
proof -
  note run = assms [unfolded chain_Resolve_runs]
  have le: "ch_stepCount st \<le> MaxChainSteps"
    using runs_stepCount [OF run] by (simp add: start_state_def)
  have "count_loop f (leaf_visiting leaf) 0 (rq_Chain leaf) 0 = ch_stepCount st"
    using runs_count [OF run refl, of 0] le by (simp add: start_state_def)
  then have tot: "chain_total leaf f True = ch_stepCount st"
    by (simp add: chain_total_def countSteps_def MaxChainDepth_def)
  have "progress_ok (chain_total leaf f True) st"
    using runs_progress [OF run] by (simp add: start_state_def progress_ok_def)
  then show ?thesis by (simp add: progress_ok_def tot)
qed

text \<open>
  The console a chain run accumulates is bounded: at most 1024 lines and one truncation
  marker, on success and on every error path.
\<close>

theorem chain_console_bounded:
  "length (ch_console (snd (chain_Resolve leaf f e p w))) \<le> 1025"
proof -
  obtain res st where r: "chain_Resolve leaf f e p w = (res, st)" by force
  from runs_console [OF r [unfolded chain_Resolve_runs]] show ?thesis
    by (simp add: r start_state_def MaxChainConsoleLines_def)
qed

text \<open>A concrete chain: the leaf runs \<open>login\<close> first.\<close>

definition sample_login :: request where
  "sample_login = zero_request\<lparr>rq_ID := ''L'', rq_Name := ''login''\<rparr>"

definition sample_leaf :: request where
  "sample_leaf = zero_request\<lparr>rq_ID := ''A'',
     rq_Chain := [\<lparr>cs_Alias = ''auth'', cs_Request = ''login'', cs_RequestID = ''L''\<rparr>]\<rparr>"

definition sample_finder :: RequestFinder where
  "sample_finder =
     \<lparr>FindRequestByPath = (\<lambda>p. if p = ''login'' then Some sample_login else None),
      FindRequestByID = (\<lambda>i. if i = ''L'' then Some sample_login else None)\<rparr>"

definition sample_view :: View where
  "sample_view =
     \<lparr>vw_Request = \<lparr>rv_Method = ''GET'', rv_URL = ''u'', rv_Body = []\<rparr>,
      vw_Response = \<lparr>pv_StatusCode = 200, pv_Status = ''200 OK'', pv_Headers = [], pv_Body = [],
                     pv_Size = 0, pv_Duration = 0, pv_CORSWarning = []\<rparr>\<rparr>"

definition sample_exec :: "unit executor" where
  "sample_exec sub m w = ((sample_view, [], None), w)"

lemma sample_run:
  "chain_Resolve sample_leaf sample_finder sample_exec True () =
     (Inr [''auth'' \<mapsto> sample_view],
      \<lparr>ch_visiting = {''A''}, ch_console = [traceLine ''auth'' sample_view], ch_stepCount = 1,
       ch_progress = [(1, 1, ''auth'', ''login'')], ch_world = ()\<rparr>)"
  by (auto simp: chain_Resolve_def resolveSteps_def chain_total_def countSteps_def start_state_def
      leaf_visiting_def sample_leaf_def sample_login_def zero_request_def sample_finder_def
      sample_exec_def sample_view_def check_step_def resolveTarget_def visitKey_def run_step_def
      Let_def MaxChainDepth_def MaxChainSteps_def MaxChainConsoleLines_def aliasRe_def is_letter_def
      reservedAliases_def jsObjectProps_def)

theorem chain_aliases_witness:
  "dom [''auth'' \<mapsto> sample_view] = cs_Alias ` set (rq_Chain sample_leaf)"
  using chain_aliases [OF sample_run] by blast

theorem chain_progress_exact_witness:
  "map (\<lambda>(n, tot, al, nm). (n, tot))
     (ch_progress (snd (chain_Resolve sample_leaf sample_finder sample_exec True ()))) = [(1, 1)]"
  using chain_progress_exact [OF sample_run] by (simp add: sample_run)

end
