(* ===== verification/ChainVars.thy ===== *)
theory ChainVars
  imports Chain GoJson
begin

text \<open>
  \<open>internal/chain/chainvars.go\<close>: the fallback that resolves
  \<open>{{chain.<alias>.response.json.<path>}}\<close> template names against the results of a chain.
\<close>

section \<open>Walking a document\<close>

text \<open>
  \<open>scalarString\<close>: objects and arrays are not scalars, null is the empty string, and
  \<open>UseNumber\<close> keeps a number's source text.
\<close>

fun scalarString :: "json \<Rightarrow> string option" where
  "scalarString (JStr s) = Some s"
| "scalarString (JNum n) = Some n"
| "scalarString (JBool b) = Some (if b then ''true'' else ''false'')"
| "scalarString JNull = Some []"
| "scalarString (JArr vs) = None"
| "scalarString (JObj ms) = None"

text \<open>One path segment: a member of an object or an index of an array.\<close>

fun json_child :: "json \<Rightarrow> string \<Rightarrow> json option" where
  "json_child (JObj ms) seg = member ms seg"
| "json_child (JArr vs) seg =
     (case atoi seg of
        None \<Rightarrow> None
      | Some i \<Rightarrow> if i < 0 \<or> int (length vs) \<le> i then None else Some (vs ! nat i))"
| "json_child _ seg = None"

fun json_at :: "json \<Rightarrow> string list \<Rightarrow> json option" where
  "json_at v [] = Some v"
| "json_at v (seg # segs) = (case json_child v seg of None \<Rightarrow> None | Some w \<Rightarrow> json_at w segs)"

definition lookupJSONPath :: "string \<Rightarrow> string \<Rightarrow> string option" where
  "lookupJSONPath body path =
     (case Decode body of
        None \<Rightarrow> None
      | Some doc \<Rightarrow>
          (case (if path = [] then Some doc else json_at doc (split_on (CHR ''.'') path)) of
             None \<Rightarrow> None
           | Some v \<Rightarrow> scalarString v))"

section \<open>The lookup\<close>

definition lookupInResponse :: "ResponseView \<Rightarrow> string \<Rightarrow> string option" where
  "lookupInResponse r path =
     (let (field, rest, found) = cut path (CHR ''.'') in
      if field = ''status'' then Some (itoa (pv_StatusCode r))
      else if field = ''statusText'' then Some (pv_Status r)
      else if field = ''body'' \<or> field = ''text'' then Some (pv_Body r)
      else if field = ''headers'' then
        (if rest = [] then None
         else (case hdr_values (pv_Headers r) rest of v # _ \<Rightarrow> Some v | [] \<Rightarrow> None))
      else if field = ''json'' then lookupJSONPath (pv_Body r) rest
      else None)"

definition lookupInView :: "View \<Rightarrow> string \<Rightarrow> string option" where
  "lookupInView v path =
     (let (sec, rest, found) = cut path (CHR ''.'') in
      if sec = ''request'' then
        (if rest = ''method'' then Some (rv_Method (vw_Request v))
         else if rest = ''url'' then Some (rv_URL (vw_Request v))
         else if rest = ''body'' then Some (rv_Body (vw_Request v))
         else None)
      else if sec = ''response'' then lookupInResponse (vw_Response v) rest
      else None)"

definition VarLookup :: "chain_map \<Rightarrow> string \<Rightarrow> string option" where
  "VarLookup views name =
     (if has_prefix name ''chain.'' then
        (let (alias, path, found) = cut (drop 6 name) (CHR ''.'') in
         (case views alias of None \<Rightarrow> None | Some v \<Rightarrow> lookupInView v path))
      else None)"

end
