(* ===== verification/Config.thy ===== *)
theory Config
  imports ApiModel
begin

text \<open>
  \<open>internal/config/config.go\<close>: the persisted application state, its schema migration and
  the load path. The file system and the YAML decoder are parameters of \<open>Load_config\<close>.
\<close>

section \<open>Data\<close>

record Workspace =
  wk_Name :: string
  wk_Collections :: "string list"

record UIOpenRequest =
  uo_Collection :: string
  uo_NodePath :: string

record UIOpenTab =
  ut_Collection :: string
  ut_RequestID :: string

record UIState =
  ui_ActiveCollection :: string
  ui_ActiveEnv :: "string \<Rightarrow> string option"
  ui_OpenRequest :: "UIOpenRequest option"
  ui_OpenTabs :: "UIOpenTab list"
  ui_ActiveTab :: int
  ui_WindowWidth :: int
  ui_WindowHeight :: int
  ui_ResponseWrap :: bool

record Config =
  cf_Version :: int
  cf_Workspaces :: "Workspace list"
  cf_Active :: int
  cf_Settings :: settings
  cf_UI :: UIState
  cf_Variables :: "var_row list"

definition CurrentSchemaVersion :: int where "CurrentSchemaVersion = 1"

definition zero_UIState :: UIState where
  "zero_UIState =
     \<lparr>ui_ActiveCollection = '''', ui_ActiveEnv = Map.empty, ui_OpenRequest = None,
      ui_OpenTabs = [], ui_ActiveTab = 0, ui_WindowWidth = 0, ui_WindowHeight = 0,
      ui_ResponseWrap = False\<rparr>"

definition Default :: Config where
  "Default =
     \<lparr>cf_Version = CurrentSchemaVersion,
      cf_Workspaces = [\<lparr>wk_Name = ''Default'', wk_Collections = []\<rparr>],
      cf_Active = 0, cf_Settings = DefaultSettings, cf_UI = zero_UIState, cf_Variables = []\<rparr>"

section \<open>Migration\<close>

definition migrateTo1 :: "Config \<Rightarrow> Config" where
  "migrateTo1 c =
     (if se_TimeoutSeconds (cf_Settings c) \<le> 0
      then c\<lparr>cf_Settings := (cf_Settings c)\<lparr>se_TimeoutSeconds := se_TimeoutSeconds DefaultSettings\<rparr>\<rparr>
      else c)"

definition migrations :: "int \<Rightarrow> (Config \<Rightarrow> Config) option" where
  "migrations v = (if v = 1 then Some migrateTo1 else None)"

function migrate_loop :: "Config \<Rightarrow> Config" where
  "migrate_loop c =
     (if cf_Version c < CurrentSchemaVersion then
        (let next = cf_Version c + 1;
             c' = (case migrations next of Some m \<Rightarrow> m c | None \<Rightarrow> c)
         in migrate_loop (c'\<lparr>cf_Version := next\<rparr>))
      else c)"
  by pat_completeness auto
termination
  by (relation "measure (\<lambda>c. nat (CurrentSchemaVersion - cf_Version c))") auto

declare migrate_loop.simps [simp del]

text \<open>The flag says that the warning about a newer schema was emitted.\<close>

definition migrate :: "Config \<Rightarrow> Config \<times> bool" where
  "migrate c =
     (if CurrentSchemaVersion < cf_Version c then (c, True) else (migrate_loop c, False))"

section \<open>Loading\<close>

datatype file_result = Data string | NotExist | ReadError string

definition repair_workspaces :: "Config \<Rightarrow> Config" where
  "repair_workspaces c =
     (let c1 = (if cf_Workspaces c = [] then c\<lparr>cf_Workspaces := cf_Workspaces Default\<rparr> else c)
      in if cf_Active c1 < 0 \<or> int (length (cf_Workspaces c1)) \<le> cf_Active c1
         then c1\<lparr>cf_Active := 0\<rparr> else c1)"

definition Load_config ::
  "(string \<Rightarrow> file_result) \<Rightarrow> (string \<Rightarrow> Config \<Rightarrow> Config result) \<Rightarrow> string \<Rightarrow> Config result" where
  "Load_config readFile unmarshal path =
     (if path = [] then Inr Default
      else (case readFile path of
          NotExist \<Rightarrow> Inr Default
        | ReadError e \<Rightarrow> Inl e
        | Data d \<Rightarrow>
            bind_result (unmarshal d (Default\<lparr>cf_Workspaces := [], cf_Version := 0\<rparr>))
              (\<lambda>c. Inr (fst (migrate (repair_workspaces c))))))"

section \<open>Lemmas\<close>

lemma migrateTo1_frame [simp]:
  "cf_Workspaces (migrateTo1 c) = cf_Workspaces c" "cf_Active (migrateTo1 c) = cf_Active c"
  "cf_Version (migrateTo1 c) = cf_Version c" "cf_UI (migrateTo1 c) = cf_UI c"
  by (simp_all add: migrateTo1_def)

lemma migrateTo1_timeout: "0 < se_TimeoutSeconds (cf_Settings (migrateTo1 c))"
  by (simp add: migrateTo1_def DefaultSettings_def)

lemma migrate_loop_frame:
  "cf_Workspaces (migrate_loop c) = cf_Workspaces c \<and> cf_Active (migrate_loop c) = cf_Active c"
proof (induction c rule: migrate_loop.induct)
  case (1 c)
  then show ?case
    by (subst (1 2) migrate_loop.simps) (auto simp: Let_def migrations_def split: if_splits)
qed

lemma migrate_loop_version:
  "cf_Version c \<le> CurrentSchemaVersion \<Longrightarrow> cf_Version (migrate_loop c) = CurrentSchemaVersion"
proof (induction c rule: migrate_loop.induct)
  case (1 c)
  then show ?case by (subst migrate_loop.simps) (auto simp: Let_def)
qed

lemma migrate_loop_timeout:
  "cf_Version c \<le> 0 \<Longrightarrow> 0 < se_TimeoutSeconds (cf_Settings (migrate_loop c))"
proof (induction c rule: migrate_loop.induct)
  case (1 c)
  show ?case
  proof (cases "cf_Version c = 0")
    case True
    then show ?thesis
      by (subst migrate_loop.simps, subst migrate_loop.simps)
        (simp add: migrations_def CurrentSchemaVersion_def migrateTo1_timeout Let_def)
  next
    case False
    with "1.prems" have "cf_Version c + 1 \<le> 0" by simp
    with 1 show ?thesis
      by (subst migrate_loop.simps) (simp add: Let_def CurrentSchemaVersion_def)
  qed
qed

section \<open>Properties\<close>

text \<open>
  A loaded configuration can be indexed: whatever the file holds, a successful load has at
  least one workspace and an active index inside the list, and a file with no version (or an
  older one) comes out at the current version with a positive timeout.
\<close>

theorem Load_config_wellformed:
  assumes "Load_config readFile unmarshal path = Inr c"
  shows "cf_Workspaces c \<noteq> [] \<and> 0 \<le> cf_Active c \<and> cf_Active c < int (length (cf_Workspaces c))
    \<and> CurrentSchemaVersion \<le> cf_Version c"
proof (cases "path = [] \<or> readFile path = NotExist")
  case True
  with assms have "c = Default" by (auto simp: Load_config_def split: if_splits)
  then show ?thesis by (simp add: Default_def)
next
  case False
  with assms obtain c0 where c: "c = fst (migrate (repair_workspaces c0))"
    by (auto simp: Load_config_def bind_result_Inr split: file_result.splits)
  have "cf_Workspaces (repair_workspaces c0) \<noteq> [] \<and> 0 \<le> cf_Active (repair_workspaces c0)
      \<and> cf_Active (repair_workspaces c0) < int (length (cf_Workspaces (repair_workspaces c0)))"
    by (auto simp: repair_workspaces_def Let_def Default_def)
  then show ?thesis
    unfolding c using migrate_loop_frame [of "repair_workspaces c0"]
      migrate_loop_version [of "repair_workspaces c0"]
    by (auto simp: migrate_def)
qed

theorem Load_config_wellformed_witness:
  "cf_Workspaces (fst (migrate (Default\<lparr>cf_Version := 0\<rparr>))) \<noteq> []"
proof -
  have "Load_config (\<lambda>_. Data ''active: 7'') (\<lambda>d c. Inr (c\<lparr>cf_Active := 7\<rparr>)) ''p'' =
      Inr (fst (migrate (Default\<lparr>cf_Version := 0\<rparr>)))"
    by (simp add: Load_config_def repair_workspaces_def Default_def Let_def)
  from Load_config_wellformed [OF this] show ?thesis by blast
qed

text \<open>
  Migration: it is idempotent, leaves a newer file alone with a warning, and upgrades a
  file without a version to the current one with a positive request timeout.
\<close>

theorem migrate_upgrades:
  "fst (migrate (fst (migrate c))) = fst (migrate c)
   \<and> snd (migrate c) = (CurrentSchemaVersion < cf_Version c)
   \<and> (if CurrentSchemaVersion < cf_Version c then fst (migrate c) = c
      else cf_Version (fst (migrate c)) = CurrentSchemaVersion)
   \<and> (if cf_Version c \<le> 0 then 0 < se_TimeoutSeconds (cf_Settings (fst (migrate c))) else True)"
proof -
  have "migrate_loop (migrate_loop c) = migrate_loop c" if "cf_Version c \<le> CurrentSchemaVersion"
    using migrate_loop_version [OF that] by (subst migrate_loop.simps) simp
  then show ?thesis
    using migrate_loop_version [of c] migrate_loop_timeout [of c]
    by (auto simp: migrate_def CurrentSchemaVersion_def)
qed

end
