(* ===== verification/CookieJar.thy ===== *)
theory CookieJar
  imports GoNet "HOL-Library.AList" "HOL-Library.Char_ord" "HOL-Library.List_Lexorder"
    "HOL-Library.Product_Lexorder" "HOL-Library.Word" "HOL-Library.Multiset"
begin

text \<open>
  \<open>internal/cookiejar/cookiejar.go\<close>: the session's cookie jar. Every method runs under the
  jar's mutex, so each is one step on the state \<open>Jar\<close>; the clock \<open>j.now()\<close> is an argument.
  The map is an association list whose order stands for Go's unspecified iteration order.
  Times are nanoseconds since an epoch, the zero \<open>time.Time\<close> is \<open>None\<close>, and the product
  \<open>time.Duration(MaxAge) * time.Second\<close> is taken in 64-bit two's complement, as Go does.
\<close>

section \<open>Data\<close>

record Cookie =
  ck_Name :: string
  ck_Value :: string
  ck_Domain :: string
  ck_Path :: string
  ck_Expires :: "int option"
  ck_Secure :: bool
  ck_HTTPOnly :: bool
  ck_HostOnly :: bool

record entry =
  en_Cookie :: Cookie
  en_created :: int
  en_seq :: nat

record Jar =
  jr_m :: "(string \<times> entry) list"
  jr_seq :: nat

text \<open>The fields of \<open>url.URL\<close> and \<open>http.Cookie\<close> that the jar reads.\<close>

record url =
  ur_Scheme :: string
  ur_Hostname :: string
  ur_Path :: string

record http_cookie =
  hc_Name :: string
  hc_Value :: string
  hc_Path :: string
  hc_Domain :: string
  hc_Expires :: "int option"
  hc_MaxAge :: int
  hc_Secure :: bool
  hc_HttpOnly :: bool

definition New_jar :: Jar where
  "New_jar = \<lparr>jr_m = [], jr_seq = 0\<rparr>"

definition key :: "string \<Rightarrow> string \<Rightarrow> string \<Rightarrow> string" where
  "key domain path name = domain @ CHR 0x00 # path @ CHR 0x00 # name"

section \<open>Hosts and paths\<close>

definition canonicalHost :: "string \<Rightarrow> string" where
  "canonicalHost host = trim_suffix (to_lower (trim_space host)) ''.''"

definition isIP :: "string \<Rightarrow> bool" where
  "isIP host =
     ParseIP (case index_byte host CHR ''%'' of Some i \<Rightarrow> take i host | None \<Rightarrow> host)"

text \<open>The canonical domain and \<open>hostOnly\<close>; \<open>None\<close> when the host may not set it.\<close>

definition domainAttr :: "string \<Rightarrow> string \<Rightarrow> (string \<times> bool) option" where
  "domainAttr host attr =
     (if attr = [] then Some (host, True)
      else
        (let d = canonicalHost (trim_prefix attr ''.'')
         in if d = [] then None
            else if isIP host then (if d \<noteq> host then None else Some (host, True))
            else if host \<noteq> d \<and> \<not> has_suffix host (CHR ''.'' # d) then None
            else if \<not> contains d ''.'' then (if host \<noteq> d then None else Some (d, True))
            else Some (d, False)))"

definition domainMatch :: "string \<Rightarrow> string \<Rightarrow> bool \<Rightarrow> bool" where
  "domainMatch host domain hostOnly =
     (if host = domain then True
      else if hostOnly then False
      else has_suffix host (CHR ''.'' # domain))"

definition pathMatch :: "string \<Rightarrow> string \<Rightarrow> bool" where
  "pathMatch reqPath cookiePath =
     (if reqPath = cookiePath then True
      else if \<not> has_prefix reqPath cookiePath then False
      else has_suffix cookiePath ''/'' \<or> reqPath ! length cookiePath = CHR ''/'')"

definition defaultPath :: "string \<Rightarrow> string" where
  "defaultPath p =
     (if p = [] \<or> p ! 0 \<noteq> CHR ''/'' then ''/''
      else (case last_index_byte p CHR ''/'' of
              Some i \<Rightarrow> if i = 0 then ''/'' else take i p
            | None \<Rightarrow> p))"

section \<open>Lifetimes\<close>

definition after_seconds :: "int \<Rightarrow> int \<Rightarrow> int" where
  "after_seconds now secs = now + sint (word_of_int secs * word_of_int (10 ^ 9) :: 64 word)"

text \<open>The new expiry and \<open>deleteNow\<close>.\<close>

definition expiry :: "http_cookie \<Rightarrow> int \<Rightarrow> int option \<times> bool" where
  "expiry c now =
     (if hc_MaxAge c < 0 then (None, True)
      else if 0 < hc_MaxAge c then (Some (after_seconds now (hc_MaxAge c)), False)
      else (case hc_Expires c of
              Some t \<Rightarrow> if t \<le> now then (None, True) else (Some t, False)
            | None \<Rightarrow> (None, False)))"

definition live :: "int \<Rightarrow> entry \<Rightarrow> bool" where
  "live now e = (case ck_Expires (en_Cookie e) of Some t \<Rightarrow> now < t | None \<Rightarrow> True)"

section \<open>The operations\<close>

definition store :: "string \<Rightarrow> Cookie \<Rightarrow> int \<Rightarrow> Jar \<Rightarrow> Jar" where
  "store k c now j =
     (case map_of (jr_m j) k of
        Some old \<Rightarrow>
          j\<lparr>jr_m := AList.update k
              \<lparr>en_Cookie = c, en_created = en_created old, en_seq = en_seq old\<rparr> (jr_m j)\<rparr>
      | None \<Rightarrow>
          j\<lparr>jr_seq := Suc (jr_seq j),
            jr_m := AList.update k
              \<lparr>en_Cookie = c, en_created = now, en_seq = Suc (jr_seq j)\<rparr> (jr_m j)\<rparr>)"

definition delete_key :: "string \<Rightarrow> Jar \<Rightarrow> Jar" where
  "delete_key k j = j\<lparr>jr_m := AList.delete k (jr_m j)\<rparr>"

definition set_cookie :: "url \<Rightarrow> string \<Rightarrow> int \<Rightarrow> http_cookie option \<Rightarrow> Jar \<Rightarrow> Jar" where
  "set_cookie u host now oc j =
     (case oc of
        None \<Rightarrow> j
      | Some c \<Rightarrow>
          if hc_Name c = [] then j
          else (case domainAttr host (hc_Domain c) of
              None \<Rightarrow> j
            | Some (domain, hostOnly) \<Rightarrow>
                (let path = (if hc_Path c = [] \<or> hc_Path c ! 0 \<noteq> CHR ''/''
                             then defaultPath (ur_Path u) else hc_Path c);
                     (expires, deleteNow) = expiry c now;
                     k = key domain path (hc_Name c)
                 in if deleteNow then delete_key k j
                    else store k
                      \<lparr>ck_Name = hc_Name c, ck_Value = hc_Value c, ck_Domain = domain,
                       ck_Path = path, ck_Expires = expires, ck_Secure = hc_Secure c,
                       ck_HTTPOnly = hc_HttpOnly c, ck_HostOnly = hostOnly\<rparr> now j)))"

definition SetCookies :: "url option \<Rightarrow> http_cookie option list \<Rightarrow> int \<Rightarrow> Jar \<Rightarrow> Jar" where
  "SetCookies ou cookies now j =
     (case ou of
        None \<Rightarrow> j
      | Some u \<Rightarrow>
          if cookies = [] then j
          else (let host = canonicalHost (ur_Hostname u)
                in if host = [] then j else fold (set_cookie u host now) cookies j))"

definition liveEntries :: "(entry \<Rightarrow> bool) \<Rightarrow> int \<Rightarrow> Jar \<Rightarrow> entry list \<times> Jar" where
  "liveEntries keep now j =
     (let m' = filter (\<lambda>(k, e). live now e) (jr_m j)
      in (filter keep (map snd m'), j\<lparr>jr_m := m'\<rparr>))"

definition request_path :: "url \<Rightarrow> string" where
  "request_path u = (if ur_Path u = [] then ''/'' else ur_Path u)"

definition matches :: "url \<Rightarrow> entry \<Rightarrow> bool" where
  "matches u e =
     (if ck_Secure (en_Cookie e) \<and> \<not> equal_fold (ur_Scheme u) ''https'' then False
      else domainMatch (canonicalHost (ur_Hostname u)) (ck_Domain (en_Cookie e))
             (ck_HostOnly (en_Cookie e))
           \<and> pathMatch (request_path u) (ck_Path (en_Cookie e)))"

text \<open>\<open>sort.Slice\<close> by falling path length, then rising sequence number.\<close>

definition send_order :: "entry \<Rightarrow> int \<times> nat" where
  "send_order e = (- int (length (ck_Path (en_Cookie e))), en_seq e)"

definition Cookies :: "url option \<Rightarrow> int \<Rightarrow> Jar \<Rightarrow> (string \<times> string) list \<times> Jar" where
  "Cookies ou now j =
     (case ou of
        None \<Rightarrow> ([], j)
      | Some u \<Rightarrow>
          if canonicalHost (ur_Hostname u) = [] then ([], j)
          else (case liveEntries (matches u) now j of
                  (es, j') \<Rightarrow>
                    (map (\<lambda>e. (ck_Name (en_Cookie e), ck_Value (en_Cookie e)))
                       (sort_key send_order es), j')))"

definition All :: "int \<Rightarrow> Jar \<Rightarrow> Cookie list \<times> Jar" where
  "All now j =
     (case liveEntries (\<lambda>_. True) now j of
        (es, j') \<Rightarrow>
          (sort_key (\<lambda>c. (ck_Domain c, ck_Path c, ck_Name c)) (map en_Cookie es), j'))"

definition Len :: "int \<Rightarrow> Jar \<Rightarrow> nat" where
  "Len now j = length (fst (All now j))"

definition normalize :: "Cookie \<Rightarrow> Cookie option" where
  "normalize c =
     (let c1 = c\<lparr>ck_Domain := canonicalHost (trim_prefix (ck_Domain c) ''.'')\<rparr>
      in if ck_Domain c1 = [] \<or> ck_Name c1 = [] then None
         else if CHR 0x00 \<in> set (ck_Name c1) \<or> CHR 0x00 \<in> set (ck_Path c1)
                 \<or> CHR 0x00 \<in> set (ck_Domain c1) then None
         else
           (let c2 = (if ck_Path c1 = [] then c1\<lparr>ck_Path := ''/''\<rparr> else c1)
            in Some (if isIP (ck_Domain c2) then c2\<lparr>ck_HostOnly := True\<rparr> else c2)))"

definition cookie_key :: "Cookie \<Rightarrow> string" where
  "cookie_key c = key (ck_Domain c) (ck_Path c) (ck_Name c)"

definition Set_cookie :: "Cookie \<Rightarrow> int \<Rightarrow> Jar \<Rightarrow> Jar" where
  "Set_cookie c now j =
     (case normalize c of None \<Rightarrow> j | Some nc \<Rightarrow> store (cookie_key nc) nc now j)"

definition editor_key :: "string \<Rightarrow> string \<Rightarrow> string \<Rightarrow> string" where
  "editor_key domain path name =
     key (canonicalHost (trim_prefix domain ''.'')) (if path = [] then ''/'' else path) name"

definition Replace :: "string \<Rightarrow> string \<Rightarrow> string \<Rightarrow> Cookie \<Rightarrow> int \<Rightarrow> Jar \<Rightarrow> Jar" where
  "Replace oldDomain oldPath oldName c now j =
     (case normalize c of
        None \<Rightarrow> j
      | Some nc \<Rightarrow>
          (let oldKey = editor_key oldDomain oldPath oldName; newKey = cookie_key nc
           in store newKey nc now (if oldKey \<noteq> newKey then delete_key oldKey j else j)))"

definition Remove :: "string \<Rightarrow> string \<Rightarrow> string \<Rightarrow> Jar \<Rightarrow> Jar" where
  "Remove domain path name j = delete_key (editor_key domain path name) j"

definition Clear :: "Jar \<Rightarrow> Jar" where
  "Clear j = j\<lparr>jr_m := []\<rparr>"

section \<open>The jar as an object\<close>

text \<open>One constructor per exported method; the reads count, since they purge.\<close>

datatype jar_op =
  OpSetCookies "url option" "http_cookie option list" int
| OpCookies "url option" int
| OpAll int
| OpSet Cookie int
| OpReplace string string string Cookie int
| OpRemove string string string
| OpClear

fun jar_step :: "jar_op \<Rightarrow> Jar \<Rightarrow> Jar" where
  "jar_step (OpSetCookies u cs now) j = SetCookies u cs now j"
| "jar_step (OpCookies u now) j = snd (Cookies u now j)"
| "jar_step (OpAll now) j = snd (All now j)"
| "jar_step (OpSet c now) j = Set_cookie c now j"
| "jar_step (OpReplace d p n c now) j = Replace d p n c now j"
| "jar_step (OpRemove d p n) j = Remove d p n j"
| "jar_step OpClear j = Clear j"

section \<open>The store\<close>

definition entry_ok :: "nat \<Rightarrow> string \<Rightarrow> entry \<Rightarrow> bool" where
  "entry_ok n k e \<longleftrightarrow>
     k = cookie_key (en_Cookie e) \<and> ck_Name (en_Cookie e) \<noteq> [] \<and> ck_Domain (en_Cookie e) \<noteq> []
     \<and> 0 < en_seq e \<and> en_seq e \<le> n"

definition jar_ok :: "Jar \<Rightarrow> bool" where
  "jar_ok j \<longleftrightarrow>
     distinct (map fst (jr_m j))
     \<and> (\<forall>k e. map_of (jr_m j) k = Some e \<longrightarrow> entry_ok (jr_seq j) k e)
     \<and> (\<forall>k k' e e'. map_of (jr_m j) k = Some e \<longrightarrow> map_of (jr_m j) k' = Some e' \<longrightarrow>
          en_seq e = en_seq e' \<longrightarrow> k = k')"

lemma entry_ok_mono: "entry_ok n k e \<Longrightarrow> n \<le> n' \<Longrightarrow> entry_ok n' k e"
  by (simp add: entry_ok_def)

lemma jar_ok_New: "jar_ok New_jar"
  by (simp add: jar_ok_def New_jar_def)

lemma map_of_store:
  "map_of (jr_m (store k c now j)) =
     (map_of (jr_m j))(k \<mapsto>
        (case map_of (jr_m j) k of
           Some old \<Rightarrow> \<lparr>en_Cookie = c, en_created = en_created old, en_seq = en_seq old\<rparr>
         | None \<Rightarrow> \<lparr>en_Cookie = c, en_created = now, en_seq = Suc (jr_seq j)\<rparr>))"
  by (simp add: store_def update_conv' split: option.split)

lemma jr_seq_store:
  "jr_seq (store k c now j) = (if map_of (jr_m j) k = None then Suc (jr_seq j) else jr_seq j)"
  by (simp add: store_def split: option.split)

lemma distinct_store: "distinct (map fst (jr_m j)) \<Longrightarrow> distinct (map fst (jr_m (store k c now j)))"
  by (simp add: store_def distinct_update split: option.split)

lemma map_of_delete_key: "map_of (jr_m (delete_key k j)) = (map_of (jr_m j))(k := None)"
  by (simp add: delete_key_def delete_conv')

lemma jar_ok_store:
  assumes ok: "jar_ok j" and c: "k = cookie_key c" "ck_Name c \<noteq> []" "ck_Domain c \<noteq> []"
  shows "jar_ok (store k c now j)"
proof (cases "map_of (jr_m j) k")
  case None
  have old: "en_seq e \<le> jr_seq j" if "map_of (jr_m j) k' = Some e" for k' e
    using ok that by (auto simp: jar_ok_def entry_ok_def)
  have new: "en_seq e \<noteq> Suc (jr_seq j)" if "map_of (jr_m j) k' = Some e" for k' e
    using old [OF that] by simp
  have "entry_ok (Suc (jr_seq j)) k' e" if "map_of (jr_m j) k' = Some e" for k' e
    using ok that entry_ok_mono [of "jr_seq j" k' e "Suc (jr_seq j)"] by (auto simp: jar_ok_def)
  note mono = this
  let ?e = "\<lparr>en_Cookie = c, en_created = now, en_seq = Suc (jr_seq j)\<rparr>"
  have m: "map_of (jr_m (store k c now j)) = (map_of (jr_m j))(k \<mapsto> ?e)"
    by (simp add: map_of_store None)
  have "entry_ok (Suc (jr_seq j)) k ?e" using c by (simp add: entry_ok_def)
  with mono have "entry_ok (Suc (jr_seq j)) k' e'" if "map_of (jr_m (store k c now j)) k' = Some e'" for k' e'
    using that unfolding m by (auto split: if_splits)
  moreover have "k1 = k2" if "map_of (jr_m (store k c now j)) k1 = Some e1"
      "map_of (jr_m (store k c now j)) k2 = Some e2" "en_seq e1 = en_seq e2" for k1 k2 e1 e2
    using that ok new [of k1 e1] new [of k2 e2] unfolding m jar_ok_def
    by (auto split: if_splits)
  ultimately show ?thesis
    using ok by (simp add: jar_ok_def distinct_store jr_seq_store None)
next
  case (Some old)
  with ok c show ?thesis
    unfolding jar_ok_def map_of_store jr_seq_store
    by (auto simp: distinct_store entry_ok_def)
qed

lemma jar_ok_delete: "jar_ok j \<Longrightarrow> jar_ok (delete_key k j)"
  unfolding jar_ok_def map_of_delete_key by (auto simp: delete_key_def distinct_delete)

lemma map_of_filter_values:
  "distinct (map fst m) \<Longrightarrow>
   map_of (filter (\<lambda>(k, e). P e) m) k =
     (case map_of m k of Some e \<Rightarrow> if P e then Some e else None | None \<Rightarrow> None)"
  by (induction m) (auto simp: map_of_eq_None_iff image_iff split: option.splits)

lemma jar_ok_live: "jar_ok j \<Longrightarrow> jar_ok (snd (liveEntries P now j))"
  unfolding jar_ok_def
  by (auto simp: liveEntries_def Let_def map_of_filter_values distinct_map_filter
      split: option.splits if_splits)

lemma domainAttr_not_Nil: "domainAttr host attr = Some (d, h) \<Longrightarrow> host \<noteq> [] \<Longrightarrow> d \<noteq> []"
  by (auto simp: domainAttr_def Let_def split: if_splits)

lemma jar_ok_set_cookie: "jar_ok j \<Longrightarrow> host \<noteq> [] \<Longrightarrow> jar_ok (set_cookie u host now c j)"
  by (auto simp: set_cookie_def Let_def cookie_key_def split: option.splits prod.splits
      intro!: jar_ok_store jar_ok_delete dest: domainAttr_not_Nil)

lemma jar_ok_SetCookies: "jar_ok j \<Longrightarrow> jar_ok (SetCookies u cs now j)"
proof -
  have "jar_ok j \<Longrightarrow> host \<noteq> [] \<Longrightarrow> jar_ok (fold (set_cookie v host now) cs j)" for v host
    by (induction cs arbitrary: j) (auto intro: jar_ok_set_cookie)
  then show "jar_ok j \<Longrightarrow> jar_ok (SetCookies u cs now j)"
    by (auto simp: SetCookies_def Let_def split: option.splits)
qed

lemma normalize_Some:
  "normalize c = Some nc \<Longrightarrow> ck_Name nc \<noteq> [] \<and> ck_Domain nc \<noteq> [] \<and> ck_Path nc \<noteq> [] \<and>
     (isIP (ck_Domain nc) \<longrightarrow> ck_HostOnly nc)"
  by (auto simp: normalize_def Let_def split: if_splits)

lemma jar_ok_step: "jar_ok j \<Longrightarrow> jar_ok (jar_step op1 j)"
proof (cases op1)
  case (OpSetCookies u cs now)
  then show "jar_ok j \<Longrightarrow> ?thesis" by (simp add: jar_ok_SetCookies)
next
  case (OpCookies u now)
  then show "jar_ok j \<Longrightarrow> ?thesis"
    using jar_ok_live [of j _ now]
    by (auto simp: Cookies_def split: option.splits prod.splits) (metis snd_conv)
next
  case (OpAll now)
  then show "jar_ok j \<Longrightarrow> ?thesis"
    using jar_ok_live [of j _ now] by (auto simp: All_def split: prod.splits) (metis snd_conv)
next
  case (OpSet c now)
  then show "jar_ok j \<Longrightarrow> ?thesis"
    by (auto simp: Set_cookie_def split: option.splits intro!: jar_ok_store dest: normalize_Some)
next
  case (OpReplace d p n c now)
  then show "jar_ok j \<Longrightarrow> ?thesis"
    by (auto simp: Replace_def Let_def split: option.splits intro!: jar_ok_store jar_ok_delete
        dest: normalize_Some)
next
  case (OpRemove d p n)
  then show "jar_ok j \<Longrightarrow> ?thesis" by (simp add: Remove_def jar_ok_delete)
next
  case OpClear
  then show "jar_ok j \<Longrightarrow> ?thesis" by (simp add: Clear_def jar_ok_def)
qed

interpretation jar: op_system jar_step jar_ok New_jar
  by unfold_locales (auto intro: jar_ok_New jar_ok_step)

section \<open>Where a sent cookie comes from\<close>

text \<open>
  The operations of the wire path and the deletions of the viewer; \<open>OpSet\<close> and \<open>OpReplace\<close>
  are the user's own edits.
\<close>

fun wire_op :: "jar_op \<Rightarrow> bool" where
  "wire_op (OpSet c now) = False"
| "wire_op (OpReplace d p n c now) = False"
| "wire_op op1 = True"

text \<open>A response with this cookie and this host is in the history of the jar.\<close>

definition came_from :: "jar_op list \<Rightarrow> Cookie \<Rightarrow> string \<Rightarrow> http_cookie \<Rightarrow> bool" where
  "came_from ops ck host c \<longleftrightarrow>
     (\<exists>u cs now. OpSetCookies (Some u) cs now \<in> set ops \<and> Some c \<in> set cs \<and>
        host = canonicalHost (ur_Hostname u) \<and>
        domainAttr host (hc_Domain c) = Some (ck_Domain ck, ck_HostOnly ck) \<and>
        hc_Name c = ck_Name ck \<and> hc_Value c = ck_Value ck \<and> hc_Secure c = ck_Secure ck)"

definition traced :: "jar_op list \<Rightarrow> Jar \<Rightarrow> bool" where
  "traced ops j \<longleftrightarrow>
     (\<forall>k e. map_of (jr_m j) k = Some e \<longrightarrow> (\<exists>host c. came_from ops (en_Cookie e) host c))"

lemma traced_mono: "traced ops j \<Longrightarrow> set ops \<subseteq> set ops' \<Longrightarrow> traced ops' j"
  unfolding traced_def came_from_def by (meson subsetD)

lemma traced_delete: "traced ops j \<Longrightarrow> traced ops (delete_key k j)"
  unfolding traced_def map_of_delete_key by (auto split: if_splits)

lemma traced_store:
  "traced ops j \<Longrightarrow> came_from ops ck host c \<Longrightarrow> traced ops (store k ck now j)"
  unfolding traced_def map_of_store by (auto split: if_splits option.splits)

lemma traced_live:
  "jar_ok j \<Longrightarrow> traced ops j \<Longrightarrow> traced ops (snd (liveEntries P now j))"
  unfolding traced_def jar_ok_def
  by (auto simp: liveEntries_def Let_def map_of_filter_values split: option.splits if_splits)

lemma traced_set_cookie:
  assumes "traced ops j" and "OpSetCookies (Some u) cs now' \<in> set ops" and "oc \<in> set cs"
    and "host = canonicalHost (ur_Hostname u)"
  shows "traced ops (set_cookie u host now oc j)"
proof (cases oc)
  case None
  with assms show ?thesis by (simp add: set_cookie_def)
next
  case (Some c)
  show ?thesis
  proof (cases "domainAttr host (hc_Domain c)")
    case None
    with assms Some show ?thesis by (simp add: set_cookie_def)
  next
    case (Some dh)
    then have "came_from ops \<lparr>ck_Name = hc_Name c, ck_Value = hc_Value c, ck_Domain = fst dh,
        ck_Path = p, ck_Expires = x, ck_Secure = hc_Secure c, ck_HTTPOnly = hc_HttpOnly c,
        ck_HostOnly = snd dh\<rparr> host c" for p x
      using assms \<open>oc = Some c\<close> unfolding came_from_def by (auto intro!: exI [of _ u])
    with assms Some \<open>oc = Some c\<close> show ?thesis
      by (auto simp: set_cookie_def Let_def intro!: traced_delete traced_store
          split: prod.splits)
  qed
qed

lemma traced_fold:
  assumes "traced ops j" and "OpSetCookies (Some u) cs now' \<in> set ops" and "set xs \<subseteq> set cs"
    and "host = canonicalHost (ur_Hostname u)"
  shows "traced ops (fold (set_cookie u host now) xs j)"
  using assms
proof (induction xs arbitrary: j)
  case (Cons oc xs)
  then have "traced ops (set_cookie u host now oc j)" by (auto intro: traced_set_cookie)
  with Cons show ?case by simp
qed simp

lemma traced_reach: "list_all wire_op ops \<Longrightarrow> traced ops (fold jar_step ops New_jar)"
proof (induction ops rule: rev_induct)
  case Nil
  show ?case by (simp add: traced_def New_jar_def)
next
  case (snoc o1 ops)
  let ?j = "fold jar_step ops New_jar"
  have t: "traced (ops @ [o1]) ?j"
    using snoc by (intro traced_mono [OF snoc.IH]) auto
  have ok: "jar_ok ?j" by (rule jar.reachable_inv)
  show ?case
  proof (cases o1)
    case (OpSetCookies ou cs now)
    with t traced_fold [OF t, of _ cs now cs] show ?thesis
      by (auto simp: SetCookies_def Let_def split: option.split)
  next
    case (OpCookies ou now)
    with traced_live [OF ok t, of _ now] t show ?thesis
      by (auto simp: Cookies_def split: option.split prod.split) (metis snd_conv)
  next
    case (OpAll now)
    with traced_live [OF ok t, of _ now] show ?thesis
      by (auto simp: All_def split: prod.split) (metis snd_conv)
  next
    case (OpRemove d p n)
    with t show ?thesis by (simp add: Remove_def traced_delete)
  next
    case OpClear
    then show ?thesis by (simp add: traced_def Clear_def)
  qed (use snoc.prems in auto)
qed

lemma Cookies_entry:
  assumes "(n, v) \<in> set (fst (Cookies (Some u) now j))"
  obtains k e where "(k, e) \<in> set (jr_m j)" "n = ck_Name (en_Cookie e)" "v = ck_Value (en_Cookie e)"
    "matches u e" "live now e"
  using assms by (auto simp: Cookies_def liveEntries_def Let_def split: if_splits)

definition below_domain :: "string \<Rightarrow> string \<Rightarrow> bool" where
  "below_domain host d \<longleftrightarrow> host = d \<or> has_suffix host (CHR ''.'' # d)"

text \<open>What an accepted \<open>Domain\<close> attribute is.\<close>

lemma domainAttr_Some:
  assumes "domainAttr host attr = Some (d, hostOnly)"
  shows "below_domain host d \<and> (if hostOnly then d = host else contains d ''.'')
    \<and> (attr = [] \<or> isIP host \<longrightarrow> hostOnly)"
  using assms by (auto simp: domainAttr_def below_domain_def Let_def split: if_splits)

section \<open>Properties\<close>



definition sample_url :: url where
  "sample_url = \<lparr>ur_Scheme = ''https'', ur_Hostname = ''api.example.com'', ur_Path = ''/v1/login''\<rparr>"

definition sample_cookie :: http_cookie where
  "sample_cookie = \<lparr>hc_Name = ''sid'', hc_Value = ''42'', hc_Path = [], hc_Domain = [],
     hc_Expires = None, hc_MaxAge = 0, hc_Secure = True, hc_HttpOnly = True\<rparr>"

lemma sample_sent:
  "fst (Cookies (Some sample_url) 1
     (fold jar_step [OpSetCookies (Some sample_url) [Some sample_cookie] 0] New_jar)) = [(''sid'', ''42'')]"
  by code_simp


lemma inj_send_order:
  assumes "jar_ok j" shows "inj_on send_order (set (map snd (filter P (jr_m j))))"
proof (rule inj_onI)
  fix e e' assume e: "e \<in> set (map snd (filter P (jr_m j)))" "e' \<in> set (map snd (filter P (jr_m j)))"
    and eq: "send_order e = send_order e'"
  then obtain k k' where k: "(k, e) \<in> set (jr_m j)" "(k', e') \<in> set (jr_m j)" by auto
  with assms have m: "map_of (jr_m j) k = Some e" "map_of (jr_m j) k' = Some e'"
    by (simp_all add: jar_ok_def)
  with assms eq have "k = k'" unfolding jar_ok_def send_order_def by blast
  with m show "e = e'" by simp
qed

lemma selected_filter:
  "filter P (map snd (filter (\<lambda>(k, e). Q e) m)) = map snd (filter (\<lambda>(k, e). Q e \<and> P e) m)"
  by (induction m) auto

lemma Cookies_fst:
  "fst (Cookies (Some u) now j) =
     (if canonicalHost (ur_Hostname u) = [] then []
      else map (\<lambda>e. (ck_Name (en_Cookie e), ck_Value (en_Cookie e)))
             (sort_key send_order (fst (liveEntries (matches u) now j))))"
  "fst (Cookies None now j) = []"
  by (simp_all add: Cookies_def split: prod.split)

text \<open>
  The answer of \<open>Cookies\<close> does not depend on the iteration order of Go's map: two jars
  with the same entries in any order send the same cookies in the same order.
\<close>

theorem Cookies_map_order:
  assumes "jar_ok j" and "jar_ok j'" and "mset (jr_m j) = mset (jr_m j')"
  shows "fst (Cookies u now j) = fst (Cookies u now j')"
proof -
  have "sort_key send_order (fst (liveEntries P now j)) = sort_key send_order (fst (liveEntries P now j'))" for P
  proof (rule sort_key_inj_key_eq)
    show "mset (fst (liveEntries P now j)) = mset (sort_key send_order (fst (liveEntries P now j')))"
      using assms(3) by (simp add: liveEntries_def Let_def selected_filter mset_map mset_filter)
    show "inj_on send_order (set (fst (liveEntries P now j)))"
      using inj_send_order [OF assms(1)] by (simp add: liveEntries_def Let_def selected_filter)
  qed simp
  then show ?thesis by (cases u) (simp_all add: Cookies_fst)
qed

theorem Cookies_map_order_witness:
  "let j = fold jar_step [OpSetCookies (Some sample_url) [Some sample_cookie,
             Some (sample_cookie\<lparr>hc_Name := ''b''\<rparr>)] 0] New_jar
   in fst (Cookies (Some sample_url) 1 j) = fst (Cookies (Some sample_url) 1 (j\<lparr>jr_m := rev (jr_m j)\<rparr>))"
  unfolding Let_def
proof (rule Cookies_map_order)
  let ?j = "fold jar_step [OpSetCookies (Some sample_url) [Some sample_cookie,
             Some (sample_cookie\<lparr>hc_Name := ''b''\<rparr>)] 0] New_jar"
  show ok: "jar_ok ?j" by (rule jar.reachable_inv)
  then show "jar_ok (?j\<lparr>jr_m := rev (jr_m ?j)\<rparr>)"
    using map_of_inject_set [of "rev (jr_m ?j)" "jr_m ?j"]
    unfolding jar_ok_def by (simp add: rev_map [symmetric])
qed simp

lemma pathMatch_default:
  assumes "p = [] \<or> p ! 0 = CHR ''/''"
  shows "pathMatch (if p = [] then ''/'' else p) (defaultPath p)"
proof (cases "p = []")
  case True
  then show ?thesis by (simp add: pathMatch_def defaultPath_def)
next
  case False
  with assms have c: "CHR ''/'' \<in> set p" by (metis length_greater_0_conv nth_mem)
  then obtain i where i: "last_index_byte p CHR ''/'' = Some i"
    by (cases "last_index_byte p CHR ''/''") auto
  have "i < length p" "p ! i = CHR ''/''" using last_index_byte_Some [OF i] by auto
  moreover have "has_prefix p ''/''" using assms False by (cases p) auto
  ultimately show ?thesis
    using False assms i by (auto simp: pathMatch_def defaultPath_def take_is_prefix suffix_def)
qed

text \<open>
  C35 Set, then send: a cookie that a response sets without \<open>Domain\<close>, \<open>Path\<close> or lifetime is
  sent with the next request to the same URL, at any later time, as long as its \<open>Secure\<close>
  flag allows it.
\<close>

theorem SetCookies_then_Cookies:
  assumes "jar_ok j" and "canonicalHost (ur_Hostname u) \<noteq> []"
    and "ur_Path u = [] \<or> ur_Path u ! 0 = CHR ''/''"
    and "hc_Name c \<noteq> []" and "hc_Domain c = []" and "hc_Path c = []" and "hc_MaxAge c = 0"
    and "hc_Expires c = None" and "hc_Secure c \<longrightarrow> equal_fold (ur_Scheme u) ''https''"
  shows "(hc_Name c, hc_Value c) \<in> set (fst (Cookies (Some u) t' (SetCookies (Some u) [Some c] t j)))"
proof -
  let ?host = "canonicalHost (ur_Hostname u)"
  define ck where "ck = \<lparr>ck_Name = hc_Name c, ck_Value = hc_Value c, ck_Domain = ?host,
    ck_Path = defaultPath (ur_Path u), ck_Expires = None, ck_Secure = hc_Secure c,
    ck_HTTPOnly = hc_HttpOnly c, ck_HostOnly = True\<rparr>"
  have j': "SetCookies (Some u) [Some c] t j = store (cookie_key ck) ck t j"
    using assms by (simp add: SetCookies_def set_cookie_def domainAttr_def expiry_def Let_def
        ck_def cookie_key_def)
  obtain e where e: "map_of (jr_m (store (cookie_key ck) ck t j)) (cookie_key ck) = Some e"
    "en_Cookie e = ck"
    by (auto simp: map_of_store split: option.split)
  then have "(cookie_key ck, e) \<in> set (jr_m (store (cookie_key ck) ck t j))"
    by (simp add: map_of_SomeD)
  moreover have "matches u e"
    using assms pathMatch_default [OF assms(3)]
    by (auto simp: matches_def e ck_def domainMatch_def request_path_def)
  moreover have "live t' e" by (simp add: live_def e ck_def)
  ultimately have "e \<in> set (fst (liveEntries (matches u) t' (store (cookie_key ck) ck t j)))"
    by (force simp: liveEntries_def Let_def)
  then have "(ck_Name ck, ck_Value ck) \<in> set (fst (Cookies (Some u) t' (store (cookie_key ck) ck t j)))"
    using e(2) assms(2) by (force simp: Cookies_def split: prod.split)
  then show ?thesis by (simp add: j' ck_def)
qed

theorem SetCookies_then_Cookies_witness:
  "(''sid'', ''42'') \<in> set (fst (Cookies (Some sample_url) 99
      (SetCookies (Some sample_url) [Some sample_cookie] 0 New_jar)))"
proof -
  have "canonicalHost (ur_Hostname sample_url) \<noteq> []" by code_simp
  moreover have "ur_Path sample_url ! 0 = CHR ''/''" by code_simp
  moreover have "equal_fold (ur_Scheme sample_url) ''https''" by code_simp
  ultimately show ?thesis
    using SetCookies_then_Cookies [OF jar_ok_New, of sample_url sample_cookie 99 0]
    by (simp add: sample_cookie_def)
qed

text \<open>
  \<open>Replace\<close> stores the edited cookie under its new identity. An edit that keeps the
  identity keeps the cookie's place in the send order and its creation time; an edit that
  changes it leaves nothing under the old one; no other cookie changes.
\<close>

theorem Replace_correct:
  assumes "normalize c = Some nc" and "old = editor_key d p n" and "new = cookie_key nc"
  shows "map_option en_Cookie (map_of (jr_m (Replace d p n c now j)) new) = Some nc
    \<and> (old = new \<longrightarrow> map_of (jr_m j) old \<noteq> None \<longrightarrow>
         map_option (\<lambda>e. (en_created e, en_seq e)) (map_of (jr_m (Replace d p n c now j)) new) =
         map_option (\<lambda>e. (en_created e, en_seq e)) (map_of (jr_m j) old))
    \<and> (old \<noteq> new \<longrightarrow> map_of (jr_m (Replace d p n c now j)) old = None)
    \<and> map_of (jr_m (Replace d p n c now j)) |` (- {old, new}) = map_of (jr_m j) |` (- {old, new})"
  using assms
  by (auto simp: Replace_def Let_def map_of_store map_of_delete_key restrict_map_def
      split: option.splits)

definition sample_edit :: Cookie where
  "sample_edit = \<lparr>ck_Name = ''sid'', ck_Value = ''43'', ck_Domain = ''api.example.com'',
     ck_Path = ''/v1'', ck_Expires = None, ck_Secure = True, ck_HTTPOnly = True, ck_HostOnly = True\<rparr>"

theorem Replace_correct_witness:
  "map_option en_Cookie (map_of (jr_m (Replace ''api.example.com'' ''/v1'' ''sid'' sample_edit 5
     (SetCookies (Some sample_url) [Some sample_cookie] 0 New_jar))) (cookie_key sample_edit)) = Some sample_edit"
proof -
  have "normalize sample_edit = Some sample_edit" by code_simp
  from Replace_correct [OF this refl refl] show ?thesis by blast
qed

lemma after_seconds_exact:
  assumes "0 \<le> secs" and "secs \<le> 9223372036"
  shows "after_seconds now secs = now + secs * 10 ^ 9"
proof -
  have "sint (word_of_int secs * word_of_int (10 ^ 9) :: 64 word) =
      signed_take_bit 63 (secs * 10 ^ 9)"
    by (simp only: of_int_mult [symmetric] sint_sbintrunc') simp
  also have "\<dots> = secs * 10 ^ 9"
    using assms by (intro signed_take_bit_int_eq_self) simp_all
  finally show ?thesis by (simp add: after_seconds_def)
qed

text \<open>
  Lifetimes: a positive \<open>Max-Age\<close> up to 9223372036 seconds sets the expiry that many
  seconds ahead, whatever \<open>Expires\<close> says; one second more wraps the 64-bit nanosecond
  count, and the cookie that should live longest is stored already expired.
\<close>

theorem expiry_max_age:
  "(if hc_MaxAge c \<in> {1..9223372036} then expiry c now = (Some (now + hc_MaxAge c * 10 ^ 9), False)
    else True) \<and>
   (if hc_MaxAge c = 9223372037 then fst (expiry c now) = Some (now - 9223372036709551616) else True)"
proof -
  have "sint (word_of_int 9223372037 * word_of_int (10 ^ 9) :: 64 word) = - 9223372036709551616"
    by code_simp
  then show ?thesis
    by (simp add: expiry_def after_seconds_exact) (simp add: after_seconds_def)
qed

text \<open>
  The editor can create a scope the wire path refuses: no response can store a cookie
  for all hosts below a dotless domain, but \<open>Set\<close> stores one for the domain \<open>com\<close>, and it
  is then sent to an unrelated host.
\<close>

theorem editor_super_cookie:
  "(case domainAttr host attr of Some (d, False) \<Rightarrow> contains d ''.'' | _ \<Rightarrow> True) \<and>
   fst (Cookies (Some \<lparr>ur_Scheme = ''http'', ur_Hostname = ''other.com'', ur_Path = ''/''\<rparr>) 1
     (Set_cookie (sample_edit\<lparr>ck_Domain := ''com'', ck_Path := ''/'', ck_Secure := False,
        ck_HostOnly := False\<rparr>) 0 New_jar)) = [(''sid'', ''43'')]"
proof
  show "case domainAttr host attr of Some (d, False) \<Rightarrow> contains d ''.'' | _ \<Rightarrow> True"
    using domainAttr_Some [of host attr] by (auto split: option.split bool.split)
  show "fst (Cookies (Some \<lparr>ur_Scheme = ''http'', ur_Hostname = ''other.com'', ur_Path = ''/''\<rparr>) 1
     (Set_cookie (sample_edit\<lparr>ck_Domain := ''com'', ck_Path := ''/'', ck_Secure := False,
        ck_HostOnly := False\<rparr>) 0 New_jar)) = [(''sid'', ''43'')]"
    by code_simp
qed

end
