(* ===== verification/SessionTree.thy ===== *)
theory SessionTree
  imports ApiModel "HOL-Library.Sublist"
begin

text \<open>
  \<open>internal/session/tree.go\<close>: node IDs of the sidebar tree. An ID is a collection index
  followed by segments \<open>/f<i>\<close> (child folder) and a last \<open>/r<i>\<close> (request). The loaded
  collections \<open>t.cols\<close> are the first argument of every function; a failed navigation is
  \<open>None\<close> where the code returns nil slices or \<open>false\<close>.
\<close>

section \<open>Segments\<close>

type_synonym container = "folder list \<times> request list"

text \<open>\<open>strconv.Atoi\<close> with the range check against a slice of length \<open>n\<close>.\<close>

definition col_index :: "string \<Rightarrow> nat \<Rightarrow> nat option" where
  "col_index p n =
     (case atoi p of
        Some i \<Rightarrow> if i < 0 \<or> int n \<le> i then None else Some (nat i)
      | None \<Rightarrow> None)"

definition seg_index :: "char \<Rightarrow> string \<Rightarrow> nat \<Rightarrow> nat option" where
  "seg_index k p n = (if has_prefix p [k] then col_index (drop 1 p) n else None)"

definition lastSegment :: "string \<Rightarrow> string" where
  "lastSegment i = (case last_index_byte i CHR ''/'' of Some j \<Rightarrow> drop (Suc j) i | None \<Rightarrow> i)"

definition parentID :: "string \<Rightarrow> string" where
  "parentID i = (case last_index_byte i CHR ''/'' of Some j \<Rightarrow> take j i | None \<Rightarrow> i)"

section \<open>Navigation\<close>

fun walk_folders :: "string list \<Rightarrow> container \<Rightarrow> container option" where
  "walk_folders [] fr = Some fr"
| "walk_folders (p # ps) (fs, rs) =
     (case seg_index CHR ''f'' p (length fs) of
        None \<Rightarrow> None
      | Some i \<Rightarrow> walk_folders ps (fo_Folders (fs ! i), fo_Requests (fs ! i)))"

definition containerAt :: "collection list \<Rightarrow> string \<Rightarrow> container option" where
  "containerAt cols i =
     (case split_on CHR ''/'' i of
        [] \<Rightarrow> None
      | p # ps \<Rightarrow>
          (case col_index p (length cols) of
             None \<Rightarrow> None
           | Some ci \<Rightarrow> walk_folders ps (co_Folders (cols ! ci), co_Requests (cols ! ci))))"

definition ChildIDs :: "collection list \<Rightarrow> string \<Rightarrow> string list" where
  "ChildIDs cols i =
     (if i = [] then map (\<lambda>k. itoa (int k)) [0..<length cols]
      else (case containerAt cols i of
              None \<Rightarrow> []
            | Some (fs, rs) \<Rightarrow>
                map (\<lambda>k. i @ ''/f'' @ itoa (int k)) [0..<length fs] @
                map (\<lambda>k. i @ ''/r'' @ itoa (int k)) [0..<length rs]))"

definition IsBranch :: "string \<Rightarrow> bool" where
  "IsBranch i = (i = [] \<or> \<not> has_prefix (lastSegment i) ''r'')"

definition Tree_Request :: "collection list \<Rightarrow> string \<Rightarrow> request option" where
  "Tree_Request cols i =
     (case containerAt cols (parentID i) of
        None \<Rightarrow> None
      | Some (fs, rs) \<Rightarrow>
          (case seg_index CHR ''r'' (lastSegment i) (length rs) of
             None \<Rightarrow> None | Some k \<Rightarrow> Some (rs ! k)))"

definition nameAt :: "collection list \<Rightarrow> string \<Rightarrow> string" where
  "nameAt cols i =
     (if length (split_on CHR ''/'' i) = 1 then
        (case col_index i (length cols) of Some ci \<Rightarrow> co_Name (cols ! ci) | None \<Rightarrow> [])
      else (case containerAt cols (parentID i) of
              None \<Rightarrow> []
            | Some (fs, rs) \<Rightarrow>
                (case seg_index CHR ''f'' (lastSegment i) (length fs) of
                   Some k \<Rightarrow> fo_Name (fs ! k) | None \<Rightarrow> [])))"

definition Label :: "collection list \<Rightarrow> string \<Rightarrow> string" where
  "Label cols i =
     (if i = [] then []
      else if has_prefix (lastSegment i) ''r'' then
        (case Tree_Request cols i of
           Some r \<Rightarrow> (if rq_Method r \<noteq> [] then rq_Method r @ ''  '' @ rq_Name r else rq_Name r)
         | None \<Rightarrow> [])
      else nameAt cols i)"

definition CollectionIndex :: "collection list \<Rightarrow> string \<Rightarrow> int" where
  "CollectionIndex cols i =
     (case col_index (case index_byte i CHR ''/'' of Some j \<Rightarrow> take j i | None \<Rightarrow> i) (length cols) of
        Some ci \<Rightarrow> int ci | None \<Rightarrow> -1)"

section \<open>Ancestors\<close>

text \<open>The loop over the folders of a path, keeping the last folder reached.\<close>

fun walk_to_folder :: "string list \<Rightarrow> folder list \<Rightarrow> folder option \<Rightarrow> folder option" where
  "walk_to_folder [] fs cur = cur"
| "walk_to_folder (p # ps) fs cur =
     (case seg_index CHR ''f'' p (length fs) of
        None \<Rightarrow> None
      | Some i \<Rightarrow> walk_to_folder ps (fo_Folders (fs ! i)) (Some (fs ! i)))"

definition containerFolder :: "collection list \<Rightarrow> string \<Rightarrow> folder option" where
  "containerFolder cols i =
     (if i = [] then None
      else (case split_on CHR ''/'' i of
          [] \<Rightarrow> None
        | p # ps \<Rightarrow>
            (case col_index p (length cols) of
               None \<Rightarrow> None
             | Some ci \<Rightarrow>
                 if ps = [] then None else walk_to_folder ps (co_Folders (cols ! ci)) None)))"

definition containerAuth :: "collection list \<Rightarrow> string \<Rightarrow> auth option" where
  "containerAuth cols i =
     (if i = [] then None
      else (case split_on CHR ''/'' i of
          [] \<Rightarrow> None
        | p # ps \<Rightarrow>
            (case col_index p (length cols) of
               None \<Rightarrow> None
             | Some ci \<Rightarrow>
                 if ps = [] then Some (co_Auth (cols ! ci))
                 else map_option fo_Auth (walk_to_folder ps (co_Folders (cols ! ci)) None))))"

lemma parentID_shorter: "parentID i \<noteq> i \<Longrightarrow> length (parentID i) < length i"
  by (auto simp: parentID_def split: option.splits dest: last_index_byte_Some
      simp del: last_index_byte_None)

lemma parentID_no_slash: "CHR ''/'' \<notin> set s \<Longrightarrow> parentID s = s"
  unfolding parentID_def by (subst last_index_byte_None [THEN iffD2]) simp_all

text \<open>The parents the two walks visit, nearest first.\<close>

function parents :: "string \<Rightarrow> string list" where
  "parents i =
     (if parentID i = i then []
      else if parentID i = [] then [parentID i]
      else parentID i # parents (parentID i))"
  by pat_completeness auto
termination
  by (relation "measure length") (auto intro: parentID_shorter)

declare parents.simps [simp del]

definition AncestorAuths :: "collection list \<Rightarrow> string \<Rightarrow> auth list" where
  "AncestorAuths cols i =
     (if i = [] then [] else List.map_filter (containerAuth cols) (parents i))"

text \<open>A variable is only set when no nearer row has set it.\<close>

definition add_vars :: "var_row list \<Rightarrow> (string \<times> string) list \<Rightarrow> (string \<times> string) list" where
  "add_vars vs m =
     fold (\<lambda>v m. if vr_Enabled v \<and> map_of m (vr_Key v) = None then (vr_Key v, vr_Value v) # m else m) vs m"

definition AncestorVars :: "collection list \<Rightarrow> string \<Rightarrow> (string \<times> string) list" where
  "AncestorVars cols i =
     (if i = [] then []
      else fold (\<lambda>p m. case containerFolder cols p of
                         Some f \<Rightarrow> add_vars (fo_Variables f) m | None \<Rightarrow> m)
             (parents i) [])"

section \<open>Printed IDs parse back\<close>

text \<open>The size of the loaded tree; indices fit Go's \<open>int\<close> below the bound.\<close>

fun folder_size :: "folder \<Rightarrow> nat" where
  "folder_size (Folder _ _ fs rs _ _) = Suc (length rs + sum_list (map folder_size fs))"

definition container_size :: "container \<Rightarrow> nat" where
  "container_size fr = length (snd fr) + sum_list (map folder_size (fst fr))"

definition cols_size :: "collection list \<Rightarrow> nat" where
  "cols_size cols =
     length cols + sum_list (map (\<lambda>c. container_size (co_Folders c, co_Requests c)) cols)"

definition go_sized :: "collection list \<Rightarrow> bool" where
  "go_sized cols \<longleftrightarrow> int (cols_size cols) < 2 ^ 63"

lemma folder_size_sel: "folder_size f = Suc (container_size (fo_Folders f, fo_Requests f))"
  by (cases f) (simp add: container_size_def)

lemma length_le_folder_sizes: "length fs \<le> sum_list (map folder_size fs)"
proof (induction fs)
  case (Cons f fs)
  then show ?case by (cases f) auto
qed simp

lemma container_size_bounds:
  "length fs \<le> container_size (fs, rs)" "length rs \<le> container_size (fs, rs)"
  using length_le_folder_sizes [of fs] by (simp_all add: container_size_def)

lemma container_size_child:
  "i < length fs \<Longrightarrow> container_size (fo_Folders (fs ! i), fo_Requests (fs ! i)) < container_size (fs, rs)"
proof -
  assume i: "i < length fs"
  then have "folder_size (fs ! i) \<le> sum_list (map folder_size fs)"
    by (simp add: member_le_sum_list)
  then show ?thesis by (simp add: folder_size_sel container_size_def)
qed

lemma cols_size_bounds:
  "length cols \<le> cols_size cols"
  "ci < length cols \<Longrightarrow>
     container_size (co_Folders (cols ! ci), co_Requests (cols ! ci)) \<le> cols_size cols"
proof -
  assume "ci < length cols"
  then have "container_size (co_Folders (cols ! ci), co_Requests (cols ! ci)) \<le>
      sum_list (map (\<lambda>c. container_size (co_Folders c, co_Requests c)) cols)"
    by (intro member_le_sum_list) (force, simp)
  then show "container_size (co_Folders (cols ! ci), co_Requests (cols ! ci)) \<le> cols_size cols"
    by (simp add: cols_size_def)
qed (simp add: cols_size_def)

lemma col_index_print: "i < n \<Longrightarrow> int n \<le> 2 ^ 63 \<Longrightarrow> col_index (nat_digits i) n = Some i"
  by (simp add: col_index_def atoi_nat_digits)

lemma col_index_range: "col_index p n = Some i \<Longrightarrow> i < n"
  by (auto simp: col_index_def split: option.splits if_splits)

lemma seg_index_print: "i < n \<Longrightarrow> int n \<le> 2 ^ 63 \<Longrightarrow> seg_index k (k # nat_digits i) n = Some i"
  by (simp add: seg_index_def col_index_print)

lemma seg_index_range: "seg_index k p n = Some i \<Longrightarrow> i < n"
  by (auto simp: seg_index_def split: if_splits dest: col_index_range)

lemma seg_index_other: "k \<noteq> k' \<Longrightarrow> seg_index k (k' # s) n = None"
  by (simp add: seg_index_def)

lemma walk_folders_size:
  "walk_folders ps fr = Some fr' \<Longrightarrow> container_size fr' \<le> container_size fr"
proof (induction ps fr rule: walk_folders.induct)
  case (2 p ps fs rs)
  then obtain i where i: "seg_index CHR ''f'' p (length fs) = Some i" by (auto split: option.splits)
  with 2 have "container_size fr' \<le> container_size (fo_Folders (fs ! i), fo_Requests (fs ! i))" by simp
  with container_size_child [OF seg_index_range [OF i], of rs] show ?case by simp
qed simp

lemma containerAt_size: "containerAt cols i = Some fr \<Longrightarrow> container_size fr \<le> cols_size cols"
  by (auto simp: containerAt_def split: list.splits option.splits
      dest!: walk_folders_size col_index_range dest: cols_size_bounds(2) [THEN order_trans [rotated]])

lemma containerAt_lengths:
  assumes "containerAt cols i = Some (fs, rs)" and "go_sized cols"
  shows "int (length fs) \<le> 2 ^ 63" "int (length rs) \<le> 2 ^ 63"
  using containerAt_size [OF assms(1)] container_size_bounds(1) [of fs rs]
    container_size_bounds(2) [of rs fs] assms(2)
  by (auto simp: go_sized_def)

lemma walk_folders_append:
  "walk_folders (ps @ qs) fr = (case walk_folders ps fr of None \<Rightarrow> None | Some fr' \<Rightarrow> walk_folders qs fr')"
  by (induction ps fr rule: walk_folders.induct) (auto split: option.splits)

lemma containerAt_snoc:
  assumes "CHR ''/'' \<notin> set q"
  shows "containerAt cols (i @ CHR ''/'' # q) =
    (case containerAt cols i of None \<Rightarrow> None | Some fr \<Rightarrow> walk_folders [q] fr)"
  unfolding containerAt_def split_on_snoc_gen [OF assms]
  by (cases "split_on CHR ''/'' i") (auto simp: walk_folders_append split: option.splits)

lemma seg_no_slash: "CHR ''/'' \<notin> set (nat_digits k)"
  by (rule nat_digits_no_char) (auto dest: digit_not_other)

lemma lastSegment_snoc: "CHR ''/'' \<notin> set q \<Longrightarrow> lastSegment (i @ CHR ''/'' # q) = q"
  by (simp add: lastSegment_def last_index_byte_append)

lemma parentID_snoc: "CHR ''/'' \<notin> set q \<Longrightarrow> parentID (i @ CHR ''/'' # q) = i"
  by (simp add: parentID_def last_index_byte_append)

lemma containerAt_folder:
  assumes "containerAt cols i = Some (fs, rs)" and "k < length fs" and "go_sized cols"
  shows "containerAt cols (i @ ''/f'' @ itoa (int k)) = Some (fo_Folders (fs ! k), fo_Requests (fs ! k))"
  using assms containerAt_lengths [OF assms(1,3)] containerAt_snoc [of "CHR ''f'' # nat_digits k" cols i]
  by (simp add: seg_no_slash seg_index_print)

lemma containerAt_request:
  "containerAt cols i = Some (fs, rs) \<Longrightarrow> containerAt cols (i @ ''/r'' @ s) = None \<or> CHR ''/'' \<in> set s"
  using containerAt_snoc [of "CHR ''r'' # s" cols i] by (auto simp: seg_index_other)

lemma Tree_Request_child:
  assumes "containerAt cols i = Some (fs, rs)" and "k < length rs" and "go_sized cols"
  shows "Tree_Request cols (i @ ''/r'' @ itoa (int k)) = Some (rs ! k)"
  using assms containerAt_lengths [OF assms(1,3)]
    lastSegment_snoc [of "CHR ''r'' # nat_digits k" i] parentID_snoc [of "CHR ''r'' # nat_digits k" i]
  by (simp add: Tree_Request_def seg_no_slash seg_index_print)

lemma containerAt_col:
  assumes "ci < length cols" and "go_sized cols"
  shows "containerAt cols (itoa (int ci)) = Some (co_Folders (cols ! ci), co_Requests (cols ! ci))"
  using assms cols_size_bounds(1) [of cols] col_index_print [of ci "length cols"]
  by (simp add: containerAt_def split_on_absent seg_no_slash go_sized_def)

section \<open>IDs of index paths\<close>

definition path_id :: "nat \<Rightarrow> nat list \<Rightarrow> string" where
  "path_id ci ks = itoa (int ci) @ concat (map (\<lambda>k. ''/f'' @ itoa (int k)) ks)"

fun folders_along :: "folder list \<Rightarrow> nat list \<Rightarrow> folder list option" where
  "folders_along fs [] = Some []"
| "folders_along fs (k # ks) =
     (if k < length fs then map_option (\<lambda>along. fs ! k # along) (folders_along (fo_Folders (fs ! k)) ks)
      else None)"

lemma path_id_snoc: "path_id ci (ks @ [k]) = path_id ci ks @ CHR ''/'' # CHR ''f'' # nat_digits k"
  by (simp add: path_id_def)

lemma path_id_Nil: "path_id ci [] = nat_digits ci"
  by (simp add: path_id_def)

lemma split_path_id:
  "split_on CHR ''/'' (path_id ci ks) = nat_digits ci # map (\<lambda>k. CHR ''f'' # nat_digits k) ks"
proof (induction ks rule: rev_induct)
  case Nil
  show ?case by (simp add: path_id_Nil split_on_absent seg_no_slash)
next
  case (snoc k ks)
  have q: "CHR ''/'' \<notin> set (CHR ''f'' # nat_digits k)" by (simp add: seg_no_slash)
  from snoc show ?case unfolding path_id_snoc split_on_snoc_gen [OF q] by simp
qed

lemma path_id_not_Nil [simp]: "path_id ci ks \<noteq> []"
  using nat_digits_hd [of ci] by (auto simp: path_id_def)

lemma parents_path_id: "parents (path_id ci (ks @ [k])) = path_id ci ks # parents (path_id ci ks)"
proof -
  have "parentID (path_id ci (ks @ [k])) = path_id ci ks"
    unfolding path_id_snoc by (rule parentID_snoc) (simp add: seg_no_slash)
  then show ?thesis by (subst parents.simps) (simp add: path_id_snoc)
qed

lemma parents_request:
  "parents (path_id ci ks @ ''/r'' @ itoa (int k)) = path_id ci ks # parents (path_id ci ks)"
proof -
  have "parentID (path_id ci ks @ ''/r'' @ itoa (int k)) = path_id ci ks"
    using parentID_snoc [of "CHR ''r'' # nat_digits k" "path_id ci ks"] by (simp add: seg_no_slash)
  then show ?thesis by (subst parents.simps) simp
qed

lemma parents_root: "parents (path_id ci []) = []"
  by (subst parents.simps) (simp add: path_id_Nil parentID_no_slash [OF seg_no_slash])

lemma walk_to_folder_along:
  "folders_along fs ks = Some along \<Longrightarrow> int (container_size (fs, rs)) < 2 ^ 63 \<Longrightarrow>
   walk_to_folder (map (\<lambda>k. CHR ''f'' # nat_digits k) ks) fs cur =
     (if along = [] then cur else Some (last along))"
proof (induction ks arbitrary: fs rs cur along)
  case (Cons k ks)
  then obtain along' where a: "k < length fs" "folders_along (fo_Folders (fs ! k)) ks = Some along'"
    "along = fs ! k # along'" by (auto split: if_splits)
  have "int (container_size (fo_Folders (fs ! k), fo_Requests (fs ! k))) < 2 ^ 63"
    using container_size_child [OF a(1), of rs] Cons.prems(2) by simp
  from Cons.IH [OF a(2) this] have
    "walk_to_folder (map (\<lambda>k. CHR ''f'' # nat_digits k) ks) (fo_Folders (fs ! k)) (Some (fs ! k)) =
      (if along' = [] then Some (fs ! k) else Some (last along'))" .
  moreover have "seg_index CHR ''f'' (CHR ''f'' # nat_digits k) (length fs) = Some k"
    using a(1) Cons.prems(2) container_size_bounds(1) [of fs rs] by (intro seg_index_print) auto
  ultimately show ?case using a(3) by simp
qed simp

lemma folders_along_snoc:
  "folders_along fs (ks @ [k]) = Some along \<Longrightarrow>
   \<exists>pre f. folders_along fs ks = Some pre \<and> along = pre @ [f]"
proof (induction ks arbitrary: fs along)
  case (Cons j ks)
  then obtain along' where a: "j < length fs" "folders_along (fo_Folders (fs ! j)) (ks @ [k]) = Some along'"
    "along = fs ! j # along'" by (auto split: if_splits)
  from Cons.IH [OF a(2)] a show ?case by auto
qed (auto split: if_splits)

lemma containerAuth_path:
  assumes "ci < length cols" and "go_sized cols" and "folders_along (co_Folders (cols ! ci)) ks = Some along"
  shows "containerAuth cols (path_id ci ks) =
    Some (if along = [] then co_Auth (cols ! ci) else fo_Auth (last along))"
proof -
  have "int (container_size (co_Folders (cols ! ci), co_Requests (cols ! ci))) < 2 ^ 63"
    using cols_size_bounds(2) [OF assms(1)] assms(2) by (simp add: go_sized_def)
  note w = walk_to_folder_along [OF assms(3) this]
  have c: "col_index (nat_digits ci) (length cols) = Some ci"
    using assms(1,2) cols_size_bounds(1) [of cols] by (intro col_index_print) (auto simp: go_sized_def)
  have "(ks = []) = (along = [])" using assms(3) by (cases ks) (auto split: if_splits)
  with w c show ?thesis by (simp add: containerAuth_def split_path_id)
qed

lemma AncestorAuths_along:
  assumes "go_sized cols" and "ci < length cols"
    and "folders_along (co_Folders (cols ! ci)) ks = Some along"
  shows "AncestorAuths cols (path_id ci ks @ ''/r'' @ itoa (int k)) =
    rev (map fo_Auth along) @ [co_Auth (cols ! ci)]"
proof -
  have "List.map_filter (containerAuth cols) (path_id ci ks # parents (path_id ci ks)) =
      rev (map fo_Auth along) @ [co_Auth (cols ! ci)]"
    using assms(3)
  proof (induction ks arbitrary: along rule: rev_induct)
    case Nil
    then show ?case
      using containerAuth_path [OF assms(2,1), of "[]"]
      by (simp add: parents_root map_filter_simps)
  next
    case (snoc k ks)
    then obtain pre f where p: "folders_along (co_Folders (cols ! ci)) ks = Some pre" "along = pre @ [f]"
      using folders_along_snoc by blast
    with snoc.IH [OF p(1)] containerAuth_path [OF assms(2,1) snoc.prems] show ?case
      unfolding parents_path_id by (simp add: map_filter_simps)
  qed
  moreover have "path_id ci ks @ ''/r'' @ itoa (int k) \<noteq> []" by simp
  ultimately show ?thesis by (simp only: AncestorAuths_def parents_request if_False)
qed

section \<open>Properties\<close>

text \<open>
  The child IDs of a container are in tree order and parse back: the folder IDs address
  the child folders and the request IDs the child requests, each at its own position.
\<close>

theorem ChildIDs_resolve:
  assumes "go_sized cols" and "containerAt cols i = Some (fs, rs)"
  shows "map (containerAt cols) (take (length fs) (ChildIDs cols i)) =
      map (\<lambda>f. Some (fo_Folders f, fo_Requests f)) fs
    \<and> map (Tree_Request cols) (drop (length fs) (ChildIDs cols i)) = map Some rs"
proof -
  have "i \<noteq> []" using assms(2) by (auto simp: containerAt_def col_index_def atoi_def)
  with assms show ?thesis
    by (auto simp: ChildIDs_def map_nth intro!: nth_equalityI
        simp del: itoa_nat dest: containerAt_folder Tree_Request_child)
qed

text \<open>
  The auth walk of a request: \<open>AncestorAuths\<close> of a request ID is the auths of the
  folders on its path from the innermost out, then the collection's own.
\<close>

theorem AncestorAuths_path:
  assumes "go_sized cols" and "ci < length cols"
    and "folders_along (co_Folders (cols ! ci)) ks = Some along"
  shows "AncestorAuths cols (path_id ci ks @ ''/r'' @ itoa (int k)) =
    rev (map fo_Auth along) @ [co_Auth (cols ! ci)]"
  by (rule AncestorAuths_along [OF assms])

section \<open>Concrete instances\<close>

definition tree_example :: "collection list" where
  "tree_example = [zero_collection\<lparr>co_Name := ''API'', co_Auth := auth_of_type AuthBasic,
     co_Folders := [Folder ''F'' ''Users'' [Folder ''G'' ''Admin'' [] [zero_request, zero_request\<lparr>rq_Name := ''ban''\<rparr>]
       (auth_of_type AuthInherit) []] [zero_request\<lparr>rq_Name := ''list''\<rparr>] (auth_of_type AuthBearer) []]\<rparr>]"

lemma tree_example_sized: "go_sized tree_example"
  by code_simp

theorem ChildIDs_resolve_witness:
  "map (Tree_Request tree_example) (drop 1 (ChildIDs tree_example ''0/f0'')) =
     [Some (zero_request\<lparr>rq_Name := ''list''\<rparr>)]"
proof -
  let ?f = "hd (co_Folders (hd tree_example))"
  have "containerAt tree_example ''0/f0'' = Some (fo_Folders ?f, fo_Requests ?f)" by code_simp
  from ChildIDs_resolve [OF tree_example_sized this] show ?thesis
    by (simp add: tree_example_def zero_collection_def)
qed

theorem AncestorAuths_path_witness:
  "AncestorAuths tree_example ''0/f0/f0/r1'' =
     [auth_of_type AuthInherit, auth_of_type AuthBearer, auth_of_type AuthBasic]"
proof -
  let ?f = "hd (co_Folders (hd tree_example))"
  have "folders_along (co_Folders (tree_example ! 0)) [0, 0] = Some [?f, hd (fo_Folders ?f)]"
    by (simp add: tree_example_def zero_collection_def)
  from AncestorAuths_path [OF tree_example_sized _ this, of 1]
  have "AncestorAuths tree_example (path_id 0 [0, 0] @ ''/r'' @ itoa (int 1)) =
      [fo_Auth (hd (fo_Folders ?f)), fo_Auth ?f, co_Auth (tree_example ! 0)]"
    by (simp add: tree_example_def del: itoa_nat)
  moreover have "path_id 0 [0, 0] @ ''/r'' @ itoa (int 1) = ''0/f0/f0/r1''" by code_simp
  ultimately show ?thesis by (simp add: tree_example_def zero_collection_def)
qed

end
