(* ===== verification/SessionSearch.thy ===== *)
theory SessionSearch
  imports SessionTree
begin

text \<open>
  \<open>Search\<close>, \<open>markMatch\<close> and \<open>markSubtree\<close> of \<open>internal/session/tree.go\<close>: the sidebar filter.
  The set \<open>visible\<close> is threaded through the recursion, as the Go map is.
\<close>

section \<open>The recursion on node IDs\<close>

text \<open>The size of what lies below a node: the recursion over \<open>ChildIDs\<close> gets smaller.\<close>

definition below_size :: "collection list \<Rightarrow> string \<Rightarrow> nat" where
  "below_size cols i =
     (if i = [] then Suc (Suc (cols_size cols))
      else (case containerAt cols i of None \<Rightarrow> 0 | Some fr \<Rightarrow> Suc (container_size fr)))"

lemma itoa_no_slash: "CHR ''/'' \<notin> set (itoa (int k))"
  by (simp add: seg_no_slash)

lemma child_cases:
  assumes "c \<in> set (ChildIDs cols i)"
  obtains (col) k where "i = []" "c = itoa (int k)" "k < length cols"
  | (folder) fs rs k where "i \<noteq> []" "containerAt cols i = Some (fs, rs)" "k < length fs" "c = i @ ''/f'' @ itoa (int k)"
  | (request) fs rs k where "i \<noteq> []" "containerAt cols i = Some (fs, rs)" "k < length rs" "c = i @ ''/r'' @ itoa (int k)"
proof (cases "i = []")
  case True
  with assms col show ?thesis by (auto simp: ChildIDs_def simp del: itoa_nat)
next
  case False
  obtain fs rs where c: "containerAt cols i = Some (fs, rs)"
  proof (cases "containerAt cols i")
    case None
    with assms False show ?thesis by (simp add: ChildIDs_def)
  qed (use that in auto)
  from assms False consider k where "k < length fs" "c = i @ ''/f'' @ itoa (int k)"
    | k where "k < length rs" "c = i @ ''/r'' @ itoa (int k)"
    by (auto simp: ChildIDs_def c simp del: itoa_nat)
  then show ?thesis using folder [OF False c] request [OF False c] by cases auto
qed

lemma below_child: "c \<in> set (ChildIDs cols i) \<Longrightarrow> below_size cols c < below_size cols i"
proof (erule child_cases, goal_cases)
  case (1 k)
  have "containerAt cols c = Some fr \<Longrightarrow> container_size fr \<le> cols_size cols" for fr
    by (rule containerAt_size)
  with 1 show ?case by (auto simp: below_size_def split: option.split)
next
  case (2 fs rs k)
  have "containerAt cols c = walk_folders [CHR ''f'' # itoa (int k)] (fs, rs)"
    using containerAt_snoc [of "CHR ''f'' # itoa (int k)" cols i] itoa_no_slash 2 by simp
  then show ?case
    using 2 container_size_child [of _ fs rs]
    by (auto simp: below_size_def split: option.splits dest!: seg_index_range)
next
  case (3 fs rs k)
  have "containerAt cols c = walk_folders [CHR ''r'' # itoa (int k)] (fs, rs)"
    using containerAt_snoc [of "CHR ''r'' # itoa (int k)" cols i] itoa_no_slash 3 by simp
  then show ?case using 3 by (auto simp: below_size_def seg_index_other)
qed

section \<open>Search\<close>

function markSubtree :: "collection list \<Rightarrow> string \<Rightarrow> string set \<Rightarrow> string set" where
  "markSubtree cols i visible =
     (if \<not> IsBranch i then visible
      else fold (\<lambda>c v. markSubtree cols c (insert c v)) (ChildIDs cols i) visible)"
  by pat_completeness auto
termination
  by (relation "measure (\<lambda>(cols, i, v). below_size cols i)") (auto intro: below_child)

declare markSubtree.simps [simp del]

text \<open>The loop from a match up to the root of its collection.\<close>

function mark_up :: "string \<Rightarrow> string set \<Rightarrow> string set" where
  "mark_up p visible =
     (if p = [] \<or> p \<in> visible then visible
      else if parentID p \<noteq> p then mark_up (parentID p) (insert p visible)
      else insert p visible)"
  by pat_completeness auto
termination
  by (relation "measure (\<lambda>(p, v). length p)") (auto intro: parentID_shorter)

declare mark_up.simps [simp del]

definition markMatch :: "collection list \<Rightarrow> string \<Rightarrow> string set \<Rightarrow> string set" where
  "markMatch cols i visible = markSubtree cols i (mark_up i visible)"

definition label_matches :: "collection list \<Rightarrow> string \<Rightarrow> string \<Rightarrow> bool" where
  "label_matches cols q c = contains (to_lower (Label cols c)) q"

function search_dfs :: "collection list \<Rightarrow> string \<Rightarrow> string \<Rightarrow> string set \<Rightarrow> string set" where
  "search_dfs cols q i visible =
     fold (\<lambda>c v. search_dfs cols q c (if label_matches cols q c then markMatch cols c v else v))
       (ChildIDs cols i) visible"
  by pat_completeness auto
termination
  by (relation "measure (\<lambda>(cols, q, i, v). below_size cols i)") (auto intro: below_child)

declare search_dfs.simps [simp del]

definition Search :: "collection list \<Rightarrow> string \<Rightarrow> string set option" where
  "Search cols query =
     (let q = to_lower (trim_space query)
      in if q = [] then None else Some (search_dfs cols q [] {}))"

section \<open>What is visible\<close>

text \<open>A node, its children, and so on.\<close>

inductive under :: "collection list \<Rightarrow> string \<Rightarrow> string \<Rightarrow> bool" for cols where
  under_self: "under cols i i"
| under_child: "c \<in> set (ChildIDs cols i) \<Longrightarrow> under cols c j \<Longrightarrow> under cols i j"

text \<open>A node and its ancestors up to the root of its collection.\<close>

inductive above :: "string \<Rightarrow> string \<Rightarrow> bool" where
  above_self: "above i i"
| above_parent: "above p i \<Longrightarrow> parentID p \<noteq> p \<Longrightarrow> parentID p \<noteq> [] \<Longrightarrow> above (parentID p) i"

definition up_closed :: "string set \<Rightarrow> bool" where
  "up_closed V \<longleftrightarrow> (\<forall>p\<in>V. \<forall>a. above a p \<longrightarrow> a \<in> V)"

lemma above_parent_left: "above a (parentID p) \<Longrightarrow> parentID p \<noteq> p \<Longrightarrow> parentID p \<noteq> [] \<Longrightarrow> above a p"
  by (induction a "parentID p" rule: above.induct) (auto intro: above.intros)

lemma above_cases: "above a p \<Longrightarrow> a = p \<or> (parentID p \<noteq> p \<and> parentID p \<noteq> [] \<and> above a (parentID p))"
  by (induction rule: above.induct) (auto intro: above.intros)

lemma mark_up_from:
  assumes "up_closed V" and "p \<noteq> []" and "\<forall>x\<in>S. length p < length x"
  shows "mark_up p (V \<union> S) = V \<union> S \<union> {a. above a p}"
  using assms(2,3)
proof (induction p "V \<union> S" arbitrary: S rule: mark_up.induct)
  case (1 p)
  show ?case
  proof (cases "p \<in> V \<union> S")
    case True
    with 1(3) assms(1) have "{a. above a p} \<subseteq> V" by (auto simp: up_closed_def)
    with True show ?thesis by (subst mark_up.simps) auto
  next
    case False
    show ?thesis
    proof (cases "parentID p = p")
      case True
      then have "{a. above a p} = {p}" by (auto dest: above_cases intro: above_self)
      with True False 1(2) show ?thesis by (subst mark_up.simps) auto
    next
      case parent: False
      then have shorter: "length (parentID p) < length p" by (rule parentID_shorter)
      show ?thesis
      proof (cases "parentID p = []")
        case True
        then have "{a. above a p} = {p}" by (auto dest: above_cases intro: above_self)
        moreover have "mark_up [] W = W" for W by (subst mark_up.simps) simp
        ultimately show ?thesis using parent False 1(2) True by (subst mark_up.simps) auto
      next
        case ne: False
        have "mark_up (parentID p) (V \<union> insert p S) = V \<union> insert p S \<union> {a. above a (parentID p)}"
          using False parent ne 1(2,3) shorter by (intro 1(1)) auto
        moreover have "{a. above a p} = insert p {a. above a (parentID p)}"
          using parent ne by (auto dest: above_cases above_parent_left intro: above_self)
        ultimately show ?thesis using parent False 1(2) by (subst mark_up.simps) simp
      qed
    qed
  qed
qed

lemma mark_up_set: "up_closed V \<Longrightarrow> p \<noteq> [] \<Longrightarrow> mark_up p V = V \<union> {a. above a p}"
  using mark_up_from [of V p "{}"] by simp

lemma not_branch: "\<not> IsBranch i \<Longrightarrow> ChildIDs cols i = []"
proof -
  assume n: "\<not> IsBranch i"
  then have i: "i \<noteq> []" "has_prefix (lastSegment i) ''r''" by (auto simp: IsBranch_def)
  have "containerAt cols i = None"
  proof (cases "last_index_byte i CHR ''/''")
    case None
    then have slash: "CHR ''/'' \<notin> set i" by simp
    have "col_index i n = None" for n
      using i None by (auto simp: lastSegment_def col_index_def atoi_def is_digit_def prefix_def Let_def)
    then show ?thesis using slash by (simp add: containerAt_def split_on_absent)
  next
    case (Some j)
    then have "i = take j i @ CHR ''/'' # lastSegment i" "CHR ''/'' \<notin> set (lastSegment i)"
      using last_index_byte_Some [OF Some] id_take_nth_drop [of j i] by (auto simp: lastSegment_def)
    with containerAt_snoc [of "lastSegment i" cols "take j i"] i(2) show ?thesis
      by (auto simp: prefix_def seg_index_def split: option.split)
  qed
  with i show ?thesis by (simp add: ChildIDs_def)
qed

lemma fold_union:
  "(\<And>x W. x \<in> set xs \<Longrightarrow> P W \<Longrightarrow> f x W = W \<union> A x \<and> P (f x W)) \<Longrightarrow> P V \<Longrightarrow>
   fold f xs V = V \<union> \<Union> (A ` set xs) \<and> P (fold f xs V)"
proof (induction xs arbitrary: V)
  case (Cons x xs)
  have x: "f x V = V \<union> A x" "P (f x V)"
    using Cons.prems(1) [of x V] Cons.prems(2) by auto
  have "fold f xs (f x V) = f x V \<union> \<Union> (A ` set xs) \<and> P (fold f xs (f x V))"
    using x(2) by (intro Cons.IH Cons.prems(1)) auto
  with x show ?case by auto
qed simp

lemma under_iff: "under cols i j \<longleftrightarrow> i = j \<or> (\<exists>c\<in>set (ChildIDs cols i). under cols c j)"
  by (auto intro: under.intros elim: under.cases)

lemma markSubtree_set:
  "markSubtree cols i V = V \<union> {j. \<exists>c\<in>set (ChildIDs cols i). under cols c j}"
proof (induction cols i V rule: markSubtree.induct)
  case (1 cols i V)
  show ?case
  proof (cases "IsBranch i")
    case True
    have below: "{j. under cols c j} = insert c {j. \<exists>d\<in>set (ChildIDs cols c). under cols d j}" for c
      using under_iff [of cols c] by auto
    have "markSubtree cols c (insert c W) = W \<union> {j. under cols c j}" if "c \<in> set (ChildIDs cols i)" for c W
      using 1 [of c "insert c W"] True that by (simp add: below)
    then have "fold (\<lambda>c v. markSubtree cols c (insert c v)) (ChildIDs cols i) V =
        V \<union> \<Union> ((\<lambda>c. {j. under cols c j}) ` set (ChildIDs cols i))"
      using fold_union [of "ChildIDs cols i" "\<lambda>_. True" "\<lambda>c v. markSubtree cols c (insert c v)"
          "\<lambda>c. {j. under cols c j}" V] by blast
    moreover have "\<Union> ((\<lambda>c. {j. under cols c j}) ` set (ChildIDs cols i)) =
        {j. \<exists>c\<in>set (ChildIDs cols i). under cols c j}" by blast
    ultimately show ?thesis using True by (subst markSubtree.simps) simp
  qed (subst markSubtree.simps, simp add: not_branch)
qed

lemma child_not_Nil: "c \<in> set (ChildIDs cols i) \<Longrightarrow> c \<noteq> []"
  by (erule child_cases) auto

lemma child_parent: "c \<in> set (ChildIDs cols i) \<Longrightarrow> i \<noteq> [] \<Longrightarrow> parentID c = i"
proof (erule child_cases, goal_cases)
  case (2 fs rs k)
  then show ?case using parentID_snoc [of "CHR ''f'' # nat_digits k" i] by (simp add: seg_no_slash)
next
  case (3 fs rs k)
  then show ?case using parentID_snoc [of "CHR ''r'' # nat_digits k" i] by (simp add: seg_no_slash)
qed simp

lemma above_under:
  "under cols c j \<Longrightarrow> c \<noteq> [] \<Longrightarrow> above a j \<Longrightarrow> above a c \<or> under cols c a"
proof (induction rule: under.induct)
  case (under_child c' i j)
  have p: "parentID c' = i" using child_parent under_child.hyps(1) under_child.prems(1) by blast
  from under_child.IH child_not_Nil [OF under_child.hyps(1)] under_child.prems(2)
  consider "above a c'" | "under cols c' a" by blast
  then show ?case
  proof cases
    case 1
    with above_cases [of a c'] p under_child.hyps(1) show ?thesis
      by (auto intro: under.intros)
  next
    case 2
    with under_child.hyps(1) show ?thesis by (auto intro: under.intros)
  qed
qed simp

definition marked :: "collection list \<Rightarrow> string \<Rightarrow> string set" where
  "marked cols m = {p. above p m \<or> under cols m p}"

lemma above_trans: "above a p \<Longrightarrow> above p m \<Longrightarrow> above a m"
  by (induction rule: above.induct) (auto intro: above.intros)

lemma markMatch_set:
  assumes "up_closed V" and "m \<noteq> []"
  shows "markMatch cols m V = V \<union> marked cols m" "up_closed (V \<union> marked cols m)"
proof -
  show "markMatch cols m V = V \<union> marked cols m"
    using mark_up_set [OF assms] under_iff [of cols m] above_self [of m]
    by (auto simp: markMatch_def markSubtree_set marked_def)
  show "up_closed (V \<union> marked cols m)"
    using assms above_under [of cols m] above_trans by (fastforce simp: up_closed_def marked_def)
qed

lemma search_dfs_set:
  "up_closed V \<Longrightarrow>
   search_dfs cols q i V =
     V \<union> \<Union> (marked cols ` {m. label_matches cols q m \<and> (\<exists>c\<in>set (ChildIDs cols i). under cols c m)})
   \<and> up_closed (search_dfs cols q i V)"
proof (induction cols q i V rule: search_dfs.induct)
  case (1 cols q i V)
  let ?A = "\<lambda>c. \<Union> (marked cols ` {m. label_matches cols q m \<and> under cols c m})"
  let ?f = "\<lambda>c v. search_dfs cols q c (if label_matches cols q c then markMatch cols c v else v)"
  have "?f c W = W \<union> ?A c \<and> up_closed (?f c W)" if c: "c \<in> set (ChildIDs cols i)" and W: "up_closed W" for c W
  proof -
    let ?W = "if label_matches cols q c then markMatch cols c W else W"
    have up: "up_closed ?W" using markMatch_set [OF W child_not_Nil [OF c]] W by simp
    have A: "?A c = (if label_matches cols q c then marked cols c else {}) \<union>
        \<Union> (marked cols ` {m. label_matches cols q m \<and> (\<exists>d\<in>set (ChildIDs cols c). under cols d m)})"
      using under_iff [of cols c] by auto
    from 1(1) [OF c up] show ?thesis
      using A markMatch_set(1) [OF W child_not_Nil [OF c]] by auto
  qed
  from fold_union [of "ChildIDs cols i" up_closed ?f ?A V, OF this 1(2)] show ?case
    by (subst (1 2) search_dfs.simps) auto
qed

section \<open>Properties\<close>

text \<open>
  C36 The sidebar filter shows exactly what it should: the visible nodes are the nodes of the
  tree whose label contains the query, their ancestors, and everything below them; the early
  stop of the upward walk loses nothing.
\<close>

theorem Search_exact:
  "Search cols query =
    (let q = to_lower (trim_space query)
     in if q = [] then None
        else Some {p. \<exists>m. m \<noteq> [] \<and> under cols [] m \<and> contains (to_lower (Label cols m)) q
                       \<and> (above p m \<or> under cols m p)})"
proof -
  have "{m. label_matches cols q m \<and> (\<exists>c\<in>set (ChildIDs cols []). under cols c m)} =
      {m. m \<noteq> [] \<and> under cols [] m \<and> contains (to_lower (Label cols m)) q}" for q
  proof -
    have "m \<noteq> []" if "under cols c m" "c \<noteq> []" for c m
      using that by (induction rule: under.induct) (auto dest: child_not_Nil)
    then show ?thesis
      using under_iff [of cols "[]"] child_not_Nil [of _ cols "[]"] by (auto simp: label_matches_def)
  qed
  moreover have "up_closed {}" by (simp add: up_closed_def)
  ultimately show ?thesis
    using search_dfs_set [of "{}" cols _ "[]"] by (auto simp: Search_def Let_def marked_def)
qed

end
