(* ===== verification/Session.thy ===== *)
theory Session
  imports SessionTree Config
begin

text \<open>
  \<open>internal/session/session.go\<close> and \<open>workspace.go\<close>: the in-memory state of the active
  workspace and the operations on its list of collections. Disk effects go through the record
  \<open>session_io\<close>: \<open>storage.Load\<close>, \<open>storage.Save\<close>, \<open>config.Save\<close>, the reading of a \<open>.env\<close> file and
  the random IDs of \<open>model.NewID\<close>, over a disk of any type \<open>'d\<close>; the disk is part of the
  session state here, and a save returns its error and the new disk. Go maps whose keys a
  resolver enumerates are association lists, the first entry of a key being its value. The
  token cache, the cookie jar and the history of the session are components of their own.
\<close>

section \<open>State\<close>

record 'd session_io =
  io_Load :: "'d \<Rightarrow> string \<Rightarrow> collection result"
  io_Save :: "collection \<Rightarrow> string \<Rightarrow> 'd \<Rightarrow> string option \<times> 'd"
  io_SaveConfig :: "string \<Rightarrow> Config \<Rightarrow> 'd \<Rightarrow> string option \<times> 'd"
  io_ReadDotEnv :: "'d \<Rightarrow> string \<Rightarrow> string option"
  io_NewID :: "nat \<Rightarrow> string"

text \<open>
  \<open>deletedNode\<close>, with the node as a sum: a folder (kind \<open>f\<close>) or a request (kind \<open>r\<close>).
\<close>

record deletedNode =
  dn_parentFolderID :: string
  dn_index :: int
  dn_colIdx :: int
  dn_node :: "folder + request"

record 'd session =
  ss_cfgPath :: string
  ss_cfg :: Config
  ss_cols :: "collection list"
  ss_dirs :: "string list"
  ss_activeCol :: int
  ss_activeEnv :: "int \<Rightarrow> string option"
  ss_loadErrs :: "(string \<times> string) list"
  ss_overlay :: "(string \<times> string) list"
  ss_dotEnv :: "string \<Rightarrow> (string \<times> string) list option"
  ss_lastDeleted :: "deletedNode option"
  ss_ids :: nat
  ss_disk :: 'd

text \<open>An operation's result: \<open>Inl\<close> is a non-nil error.\<close>

type_synonym ('d, 'a) outcome = "'a result \<times> 'd session"

text \<open>\<open>model.NewID()\<close>: the next draw.\<close>

definition NewID :: "'d session_io \<Rightarrow> 'd session \<Rightarrow> string \<times> 'd session" where
  "NewID io s = (io_NewID io (ss_ids s), s\<lparr>ss_ids := Suc (ss_ids s)\<rparr>)"

section \<open>Loading and saving\<close>

definition activeWorkspace :: "'d session \<Rightarrow> Workspace" where
  "activeWorkspace s =
     (let c = ss_cfg s
      in if cf_Active c < 0 \<or> int (length (cf_Workspaces c)) \<le> cf_Active c
         then \<lparr>wk_Name = [], wk_Collections = []\<rparr>
         else cf_Workspaces c ! nat (cf_Active c))"

fun first_index :: "('a \<Rightarrow> bool) \<Rightarrow> 'a list \<Rightarrow> nat option" where
  "first_index P [] = None"
| "first_index P (x # xs) = (if P x then Some 0 else map_option Suc (first_index P xs))"

text \<open>
  The concurrent loads fill one slot per directory, so they are a map over the list; the
  second loop splits the slots into collections and errors, in order.
\<close>

definition reload :: "'d session_io \<Rightarrow> 'd session \<Rightarrow> 'd session" where
  "reload io s =
     (let slots = map (\<lambda>d. (d, io_Load io (ss_disk s) d)) (wk_Collections (activeWorkspace s));
          ok = List.map_filter (\<lambda>(d, r). case r of Inr c \<Rightarrow> Some (d, c) | Inl e \<Rightarrow> None) slots;
          errs = List.map_filter (\<lambda>(d, r). case r of Inr c \<Rightarrow> None | Inl e \<Rightarrow> Some (d, e)) slots;
          dirs = map fst ok;
          target = ui_ActiveCollection (cf_UI (ss_cfg s));
          act = (if ok = [] then -1
                 else if target = [] then 0
                 else (case first_index (\<lambda>d. d = target) dirs of Some i \<Rightarrow> int i | None \<Rightarrow> 0))
      in s\<lparr>ss_cols := map snd ok, ss_dirs := dirs, ss_loadErrs := errs, ss_dotEnv := Map.empty,
           ss_activeCol := act,
           ss_activeEnv := (\<lambda>i. if 0 \<le> i \<and> i < int (length dirs)
                                then ui_ActiveEnv (cf_UI (ss_cfg s)) (dirs ! nat i) else None)\<rparr>)"

definition in_range :: "int \<Rightarrow> 'a list \<Rightarrow> bool" where
  "in_range i xs \<longleftrightarrow> 0 \<le> i \<and> i < int (length xs)"

definition persistCollection :: "'d session_io \<Rightarrow> int \<Rightarrow> 'd session \<Rightarrow> string option \<times> 'd session" where
  "persistCollection io ci s =
     (if \<not> in_range ci (ss_cols s) then (None, s)
      else (case io_Save io (ss_cols s ! nat ci) (ss_dirs s ! nat ci) (ss_disk s) of
              (Some e, d) \<Rightarrow> (Some e, reload io (s\<lparr>ss_disk := d\<rparr>))
            | (None, d) \<Rightarrow> (None, s\<lparr>ss_disk := d\<rparr>)))"

definition persist :: "'d session_io \<Rightarrow> 'd session \<Rightarrow> string option \<times> 'd session" where
  "persist io s =
     (if ss_cfgPath s = [] then (None, s)
      else (case io_SaveConfig io (ss_cfgPath s) (ss_cfg s) (ss_disk s) of
              (e, d) \<Rightarrow> (e, s\<lparr>ss_disk := d\<rparr>)))"

text \<open>Returning a value unless the error is non-nil.\<close>

definition ret :: "'a \<Rightarrow> string option \<times> 'd session \<Rightarrow> ('d, 'a) outcome" where
  "ret v es = (case es of (Some e, s) \<Rightarrow> (Inl e, s) | (None, s) \<Rightarrow> (Inr v, s))"

definition New_session :: "'d session_io \<Rightarrow> string \<Rightarrow> Config \<Rightarrow> 'd \<Rightarrow> 'd session" where
  "New_session io path cfg d =
     reload io \<lparr>ss_cfgPath = path, ss_cfg = cfg, ss_cols = [], ss_dirs = [], ss_activeCol = -1,
       ss_activeEnv = Map.empty, ss_loadErrs = [], ss_overlay = [], ss_dotEnv = Map.empty,
       ss_lastDeleted = None, ss_ids = 0, ss_disk = d\<rparr>"

section \<open>Collections of the workspace\<close>

definition update_ui :: "(UIState \<Rightarrow> UIState) \<Rightarrow> 'd session \<Rightarrow> 'd session" where
  "update_ui f s = s\<lparr>ss_cfg := (ss_cfg s)\<lparr>cf_UI := f (cf_UI (ss_cfg s))\<rparr>\<rparr>"

definition update_workspace :: "(string list \<Rightarrow> string list) \<Rightarrow> 'd session \<Rightarrow> 'd session" where
  "update_workspace f s =
     (let c = ss_cfg s; i = nat (cf_Active c); w = cf_Workspaces c ! i
      in s\<lparr>ss_cfg := c\<lparr>cf_Workspaces := (cf_Workspaces c)[i := w\<lparr>wk_Collections := f (wk_Collections w)\<rparr>]\<rparr>\<rparr>)"

definition SetActive :: "'d session_io \<Rightarrow> int \<Rightarrow> 'd session \<Rightarrow> 'd session" where
  "SetActive io i s =
     (if \<not> in_range i (cf_Workspaces (ss_cfg s)) \<or> i = cf_Active (ss_cfg s) then s
      else snd (persist io (reload io (s\<lparr>ss_cfg := (ss_cfg s)\<lparr>cf_Active := i\<rparr>\<rparr>))))"

definition OpenCollection :: "'d session_io \<Rightarrow> string \<Rightarrow> 'd session \<Rightarrow> ('d, unit) outcome" where
  "OpenCollection io dir s =
     (case first_index (\<lambda>d. d = dir) (ss_dirs s) of
        Some i \<Rightarrow>
          ret () (persist io (update_ui (\<lambda>u. u\<lparr>ui_ActiveCollection := dir\<rparr>) (s\<lparr>ss_activeCol := int i\<rparr>)))
      | None \<Rightarrow>
          (case io_Load io (ss_disk s) dir of
             Inl e \<Rightarrow> (Inl e, s)
           | Inr c \<Rightarrow>
               (let s1 = update_workspace (\<lambda>ds. ds @ [dir]) s;
                    s2 = s1\<lparr>ss_cols := ss_cols s1 @ [c], ss_dirs := ss_dirs s1 @ [dir],
                            ss_activeCol := int (length (ss_cols s1))\<rparr>
                in ret () (persist io (update_ui (\<lambda>u. u\<lparr>ui_ActiveCollection := dir\<rparr>) s2)))))"

text \<open>\<open>slices.Delete(xs, j, j+1)\<close> at the first occurrence of an element, if any.\<close>

definition delete_first :: "'a \<Rightarrow> 'a list \<Rightarrow> 'a list" where
  "delete_first x xs =
     (case first_index (\<lambda>y. y = x) xs of Some j \<Rightarrow> delete_at j xs | None \<Rightarrow> xs)"

text \<open>The loop that shifts the index-keyed environment map down after slot \<open>i\<close> is removed.\<close>

definition shift_env :: "int \<Rightarrow> int \<Rightarrow> (int \<Rightarrow> string option) \<Rightarrow> (int \<Rightarrow> string option)" where
  "shift_env i n m =
     fold (\<lambda>j m. case m j of Some name \<Rightarrow> (m(j - 1 \<mapsto> name))(j := None) | None \<Rightarrow> m)
       [i + 1..n] (m(i := None))"

definition shared_elsewhere :: "string \<Rightarrow> Config \<Rightarrow> bool" where
  "shared_elsewhere dir c =
     (\<exists>wi\<in>set [0..<length (cf_Workspaces c)].
        int wi \<noteq> cf_Active c \<and> dir \<in> set (wk_Collections (cf_Workspaces c ! wi)))"

definition RemoveCollection :: "'d session_io \<Rightarrow> int \<Rightarrow> 'd session \<Rightarrow> ('d, unit) outcome" where
  "RemoveCollection io i s =
     (if \<not> in_range (cf_Active (ss_cfg s)) (cf_Workspaces (ss_cfg s))
      then (Inl ''no active workspace'', s)
      else if \<not> in_range i (ss_dirs s) then (Inl ''collection index out of range'', s)
      else
        (let dir = ss_dirs s ! nat i;
             s1 = update_workspace (delete_first dir) s;
             s2 = (if ui_ActiveCollection (cf_UI (ss_cfg s1)) = dir
                   then update_ui (\<lambda>u. u\<lparr>ui_ActiveCollection := []\<rparr>) s1 else s1);
             s3 = (if \<not> shared_elsewhere dir (ss_cfg s2)
                   then update_ui (\<lambda>u. u\<lparr>ui_ActiveEnv := (ui_ActiveEnv u)(dir := None)\<rparr>) s2 else s2);
             cols = delete_at (nat i) (ss_cols s3);
             dirs = delete_at (nat i) (ss_dirs s3);
             act = (if ss_activeCol s3 = i then (if cols = [] then -1 else 0)
                    else if i < ss_activeCol s3 then ss_activeCol s3 - 1
                    else ss_activeCol s3)
         in ret () (persist io (s3\<lparr>ss_cols := cols, ss_dirs := dirs, ss_activeCol := act,
              ss_dotEnv := (ss_dotEnv s3)(dir := None),
              ss_activeEnv := shift_env i (int (length dirs)) (ss_activeEnv s3)\<rparr>))))"

text \<open>Remove at \<open>from\<close>, insert at \<open>to\<close> clamped to the remaining length.\<close>

definition move_at :: "int \<Rightarrow> int \<Rightarrow> 'a list \<Rightarrow> 'a list" where
  "move_at from to xs =
     (let ys = delete_at (nat from) xs in insert_at (min (nat to) (length ys)) (xs ! nat from) ys)"

text \<open>
  The map built by \<open>for idx, name := range s.activeEnv\<close>, whose keys are the directories; two
  collections never share a directory, so the iteration order does not matter.
\<close>

definition env_by_dir :: "string list \<Rightarrow> (int \<Rightarrow> string option) \<Rightarrow> (string \<Rightarrow> string option)" where
  "env_by_dir dirs m d =
     (case first_index (\<lambda>i. dirs ! i = d \<and> m (int i) \<noteq> None) [0..<length dirs] of
        Some i \<Rightarrow> m (int i) | None \<Rightarrow> None)"

definition MoveCollection :: "'d session_io \<Rightarrow> int \<Rightarrow> int \<Rightarrow> 'd session \<Rightarrow> ('d, unit) outcome" where
  "MoveCollection io from to s =
     (if \<not> in_range (cf_Active (ss_cfg s)) (cf_Workspaces (ss_cfg s))
      then (Inl ''no active workspace'', s)
      else if \<not> in_range from (ss_cols s) \<or> \<not> in_range to (ss_cols s) \<or> from = to then (Inr (), s)
      else if length (wk_Collections (activeWorkspace s)) \<noteq> length (ss_cols s)
      then (Inl ''collection list out of sync; reopen the workspace'', s)
      else
        (let activeDir = (if in_range (ss_activeCol s) (ss_dirs s)
                          then ss_dirs s ! nat (ss_activeCol s) else []);
             envByDir = env_by_dir (ss_dirs s) (ss_activeEnv s);
             cols = move_at from to (ss_cols s);
             dirs = move_at from to (ss_dirs s);
             s1 = update_workspace (move_at from to) s;
             act = (if activeDir \<noteq> []
                    then (case first_index (\<lambda>d. d = activeDir) dirs of
                            Some i \<Rightarrow> int i | None \<Rightarrow> ss_activeCol s)
                    else ss_activeCol s)
         in ret () (persist io (s1\<lparr>ss_cols := cols, ss_dirs := dirs, ss_activeCol := act,
              ss_activeEnv := (\<lambda>i. if in_range i dirs then envByDir (dirs ! nat i) else None)\<rparr>))))"

definition SetActiveCollection :: "'d session_io \<Rightarrow> int \<Rightarrow> 'd session \<Rightarrow> 'd session" where
  "SetActiveCollection io i s =
     (if i < -1 \<or> int (length (ss_cols s)) \<le> i then s
      else
        (let dir = (if 0 \<le> i then ss_dirs s ! nat i else [])
         in if ss_activeCol s = i \<and> ui_ActiveCollection (cf_UI (ss_cfg s)) = dir then s
            else snd (persist io (update_ui (\<lambda>u. u\<lparr>ui_ActiveCollection := dir\<rparr>)
                                    (s\<lparr>ss_activeCol := i\<rparr>)))))"

end
