(* ===== verification/SessionItems.thy ===== *)
theory SessionItems
  imports Session
begin

text \<open>
  \<open>internal/session/items.go\<close>: adding, renaming, deleting, restoring, duplicating and moving
  the folders and requests of the loaded collections. A pointer into \<open>s.cols\<close> is the index
  path it was derived from (\<open>cptr\<close>); writing through it is \<open>assign\<close>.
\<close>

section \<open>Pointers to containers\<close>

type_synonym cptr = "nat \<times> nat list"

fun walk_ptr :: "string list \<Rightarrow> folder list \<Rightarrow> nat list option" where
  "walk_ptr [] fs = Some []"
| "walk_ptr (p # ps) fs =
     (case seg_index CHR ''f'' p (length fs) of
        None \<Rightarrow> None
      | Some i \<Rightarrow> map_option (\<lambda>ks. i # ks) (walk_ptr ps (fo_Folders (fs ! i))))"

definition containerAtPtr :: "collection list \<Rightarrow> string \<Rightarrow> cptr option" where
  "containerAtPtr cols i =
     (if i = [] then None
      else (case split_on CHR ''/'' i of
          [] \<Rightarrow> None
        | p # ps \<Rightarrow>
            (case col_index p (length cols) of
               None \<Rightarrow> None
             | Some ci \<Rightarrow> map_option (\<lambda>ks. (ci, ks)) (walk_ptr ps (co_Folders (cols ! ci))))))"

fun get_at :: "nat list \<Rightarrow> container \<Rightarrow> container" where
  "get_at [] fr = fr"
| "get_at (k # ks) (fs, rs) = get_at ks (fo_Folders (fs ! k), fo_Requests (fs ! k))"

fun put_at :: "nat list \<Rightarrow> (container \<Rightarrow> container) \<Rightarrow> container \<Rightarrow> container" where
  "put_at [] g fr = g fr"
| "put_at (k # ks) g (fs, rs) =
     (case put_at ks g (fo_Folders (fs ! k), fo_Requests (fs ! k)) of
        (fs', rs') \<Rightarrow> (fs[k := set_fo_children fs' rs' (fs ! k)], rs))"

definition deref :: "collection list \<Rightarrow> cptr \<Rightarrow> container" where
  "deref cols p = get_at (snd p) (co_Folders (cols ! fst p), co_Requests (cols ! fst p))"

definition assign :: "cptr \<Rightarrow> (container \<Rightarrow> container) \<Rightarrow> collection list \<Rightarrow> collection list" where
  "assign p g cols =
     (case put_at (snd p) g (co_Folders (cols ! fst p), co_Requests (cols ! fst p)) of
        (fs, rs) \<Rightarrow> cols[fst p := (cols ! fst p)\<lparr>co_Folders := fs, co_Requests := rs\<rparr>])"

definition write_cols :: "cptr \<Rightarrow> (container \<Rightarrow> container) \<Rightarrow> 'd session \<Rightarrow> 'd session" where
  "write_cols p g s = s\<lparr>ss_cols := assign p g (ss_cols s)\<rparr>"

section \<open>Node IDs\<close>

text \<open>\<open>parseLeaf\<close>: the parent, the kind and the index.\<close>

definition parseLeaf :: "string \<Rightarrow> (string \<times> char \<times> int) option" where
  "parseLeaf nodeID =
     (if nodeID = [] then None
      else (case last_index_byte nodeID CHR ''/'' of
          None \<Rightarrow> map_option (\<lambda>n. ([], CHR ''c'', n)) (atoi nodeID)
        | Some i \<Rightarrow>
            (let last = drop (Suc i) nodeID
             in if length last < 2 then None
                else if last ! 0 \<notin> {CHR ''c'', CHR ''f'', CHR ''r''} then None
                else map_option (\<lambda>n. (take i nodeID, last ! 0, n)) (atoi (drop 1 last)))))"

definition nodeCollectionIndex :: "string \<Rightarrow> int" where
  "nodeCollectionIndex nodeID =
     (case atoi (hd (split_on CHR ''/'' nodeID)) of Some ci \<Rightarrow> ci | None \<Rightarrow> -1)"

definition child_id :: "string \<Rightarrow> char \<Rightarrow> nat \<Rightarrow> string" where
  "child_id parent kind k = parent @ CHR ''/'' # kind # itoa (int k)"

definition clampIndex :: "int \<Rightarrow> nat \<Rightarrow> nat" where
  "clampIndex i n = (if i < 0 then 0 else if int n < i then n else nat i)"

section \<open>Adding\<close>

definition empty_name :: "'d session \<Rightarrow> ('d, 'a) outcome" where
  "empty_name s = (Inl ''name cannot be empty'', s)"

definition AddRequest :: "'d session_io \<Rightarrow> string \<Rightarrow> string \<Rightarrow> 'd session \<Rightarrow> ('d, string) outcome" where
  "AddRequest io parent name s =
     (case containerAtPtr (ss_cols s) parent of
        None \<Rightarrow> (Inl (''invalid parent: '' @ parent), s)
      | Some p \<Rightarrow>
          if trim_space name = [] then empty_name s
          else (case NewID io s of
              (i, s1) \<Rightarrow>
                (let r = zero_request\<lparr>rq_ID := i, rq_Name := name, rq_Method := ''GET'',
                                      rq_Body := zero_body\<lparr>body_Type := BodyNone\<rparr>\<rparr>;
                     s2 = write_cols p (\<lambda>(fs, rs). (fs, rs @ [r])) s1;
                     newID = child_id parent CHR ''r'' (length (snd (deref (ss_cols s2) p)) - 1)
                 in ret newID (persistCollection io (nodeCollectionIndex parent) s2))))"

definition AddRequestValue :: "'d session_io \<Rightarrow> string \<Rightarrow> request \<Rightarrow> 'd session \<Rightarrow> ('d, string) outcome"
where
  "AddRequestValue io parent r s =
     (case containerAtPtr (ss_cols s) parent of
        None \<Rightarrow> (Inl (''invalid parent: '' @ parent), s)
      | Some p \<Rightarrow>
          if trim_space (rq_Name r) = [] then empty_name s
          else (case NewID io s of
              (i, s1) \<Rightarrow>
                (let r' = r\<lparr>rq_ID := i, rq_Method := (if rq_Method r = [] then ''GET'' else rq_Method r)\<rparr>;
                     s2 = write_cols p (\<lambda>(fs, rs). (fs, rs @ [r'])) s1;
                     newID = child_id parent CHR ''r'' (length (snd (deref (ss_cols s2) p)) - 1)
                 in ret newID (persistCollection io (nodeCollectionIndex parent) s2))))"

definition AddFolder :: "'d session_io \<Rightarrow> string \<Rightarrow> string \<Rightarrow> 'd session \<Rightarrow> ('d, string) outcome" where
  "AddFolder io parent name s =
     (case containerAtPtr (ss_cols s) parent of
        None \<Rightarrow> (Inl (''invalid parent: '' @ parent), s)
      | Some p \<Rightarrow>
          if trim_space name = [] then empty_name s
          else (case NewID io s of
              (i, s1) \<Rightarrow>
                (let f = set_fo_Name name (set_fo_ID i zero_folder);
                     s2 = write_cols p (\<lambda>(fs, rs). (fs @ [f], rs)) s1;
                     newID = child_id parent CHR ''f'' (length (fst (deref (ss_cols s2) p)) - 1)
                 in ret newID (persistCollection io (nodeCollectionIndex parent) s2))))"

section \<open>Chain references\<close>

text \<open>\<open>splitChainPath\<close>: a \<open>.\<close> or \<open>..\<close> segment rejects the whole path (\<open>nil\<close>).\<close>

fun chain_segments :: "string list \<Rightarrow> string list option" where
  "chain_segments [] = Some []"
| "chain_segments (p # ps) =
     (let q = trim_space p
      in if q = [] then chain_segments ps
         else if q = ''.'' \<or> q = ''..'' then None
         else map_option (\<lambda>out. q # out) (chain_segments ps))"

definition splitChainPath :: "string \<Rightarrow> string list" where
  "splitChainPath ref =
     (case chain_segments (split_on CHR ''/'' (trim_prefix ref ''/'')) of Some out \<Rightarrow> out | None \<Rightarrow> [])"

definition rewrite_step :: "string list \<Rightarrow> string list \<Rightarrow> bool \<Rightarrow> chain_step \<Rightarrow> chain_step" where
  "rewrite_step oldParts newParts movedIsFolder step =
     (if cs_Request step = [] then step
      else
        (let parts = splitChainPath (cs_Request step);
             exact = (length parts = length oldParts)
         in if \<not> prefix oldParts parts then step
            else if movedIsFolder \<and> exact then step
            else if \<not> movedIsFolder \<and> \<not> exact then step
            else step\<lparr>cs_Request := join ''/'' (newParts @ drop (length oldParts) parts)\<rparr>))"

definition rewriteRequests :: "string list \<Rightarrow> string list \<Rightarrow> bool \<Rightarrow> request list \<Rightarrow> request list" where
  "rewriteRequests oldParts newParts movedIsFolder rs =
     map (\<lambda>r. r\<lparr>rq_Chain := map (rewrite_step oldParts newParts movedIsFolder) (rq_Chain r)\<rparr>) rs"

fun rewriteFolder :: "string list \<Rightarrow> string list \<Rightarrow> bool \<Rightarrow> folder \<Rightarrow> folder" where
  "rewriteFolder oldParts newParts movedIsFolder (Folder i n fs rs a vs) =
     Folder i n (map (rewriteFolder oldParts newParts movedIsFolder) fs)
       (rewriteRequests oldParts newParts movedIsFolder rs) a vs"

definition cascadeChainRefs :: "string list \<Rightarrow> string list \<Rightarrow> bool \<Rightarrow> collection \<Rightarrow> collection" where
  "cascadeChainRefs oldParts newParts movedIsFolder c =
     c\<lparr>co_Requests := rewriteRequests oldParts newParts movedIsFolder (co_Requests c),
       co_Folders := map (rewriteFolder oldParts newParts movedIsFolder) (co_Folders c)\<rparr>"

definition cascade_at :: "int \<Rightarrow> string list \<Rightarrow> string list \<Rightarrow> bool \<Rightarrow> 'd session \<Rightarrow> 'd session" where
  "cascade_at ci oldParts newParts movedIsFolder s =
     (if in_range ci (ss_cols s)
      then s\<lparr>ss_cols := (ss_cols s)[nat ci := cascadeChainRefs oldParts newParts movedIsFolder (ss_cols s ! nat ci)]\<rparr>
      else s)"

section \<open>Name paths\<close>

text \<open>
  The loop of \<open>nodeNamePath\<close>: a folder segment descends, a request segment does not, any
  other segment is skipped.
\<close>

fun name_parts :: "string list \<Rightarrow> container \<Rightarrow> string list option" where
  "name_parts [] fr = Some []"
| "name_parts (seg # segs) (fs, rs) =
     (if has_prefix seg ''f'' then
        (case seg_index CHR ''f'' seg (length fs) of
           None \<Rightarrow> None
         | Some i \<Rightarrow> map_option (\<lambda>ps. fo_Name (fs ! i) # ps)
                       (name_parts segs (fo_Folders (fs ! i), fo_Requests (fs ! i))))
      else if has_prefix seg ''r'' then
        (case seg_index CHR ''r'' seg (length rs) of
           None \<Rightarrow> None
         | Some i \<Rightarrow> map_option (\<lambda>ps. rq_Name (rs ! i) # ps) (name_parts segs (fs, rs)))
      else name_parts segs (fs, rs))"

definition nodeNamePath :: "collection list \<Rightarrow> string \<Rightarrow> string" where
  "nodeNamePath cols nodeID =
     (case split_on CHR ''/'' nodeID of
        p # q # segs \<Rightarrow>
          (case col_index p (length cols) of
             None \<Rightarrow> []
           | Some ci \<Rightarrow>
               (case name_parts (q # segs) (co_Folders (cols ! ci), co_Requests (cols ! ci)) of
                  Some ps \<Rightarrow> join ''/'' ps | None \<Rightarrow> []))
      | _ \<Rightarrow> [])"

fun folder_node_walk :: "string \<Rightarrow> folder list \<Rightarrow> string list \<Rightarrow> string option" where
  "folder_node_walk i fs [] = Some i"
| "folder_node_walk i fs (name # names) =
     (case first_index (\<lambda>f. fo_Name f = name) fs of
        None \<Rightarrow> None
      | Some k \<Rightarrow> folder_node_walk (child_id i CHR ''f'' k) (fo_Folders (fs ! k)) names)"

definition FolderNodeID :: "collection list \<Rightarrow> int \<Rightarrow> string \<Rightarrow> string option" where
  "FolderNodeID cols ci namePath =
     (if \<not> in_range ci cols then None
      else
        (let trimmed = trim_byte CHR ''/'' namePath
         in if trimmed = [] then Some (itoa ci)
            else folder_node_walk (itoa ci) (co_Folders (cols ! nat ci)) (split_on CHR ''/'' trimmed)))"

section \<open>Renaming\<close>

text \<open>\<open>nat idx\<close> when \<open>idx\<close> is in the range of the slice.\<close>

definition checked :: "int \<Rightarrow> 'a list \<Rightarrow> nat option" where
  "checked i xs = (if in_range i xs then Some (nat i) else None)"

definition rename_node :: "string \<Rightarrow> string \<Rightarrow> string \<Rightarrow> char \<Rightarrow> int \<Rightarrow> 'd session \<Rightarrow> ('d, unit) outcome"
where
  "rename_node nodeID name parent kind idx s =
     (if kind = CHR ''c'' then
        (case checked idx (ss_cols s) of
           None \<Rightarrow> (Inl ''invalid collection index'', s)
         | Some k \<Rightarrow> (Inr (), s\<lparr>ss_cols := (ss_cols s)[k := (ss_cols s ! k)\<lparr>co_Name := name\<rparr>]\<rparr>))
      else
        (case containerAtPtr (ss_cols s) parent of
           None \<Rightarrow> (Inl (''invalid node '' @ nodeID), s)
         | Some p \<Rightarrow>
             (case deref (ss_cols s) p of
                (fs, rs) \<Rightarrow>
                  if kind = CHR ''f'' then
                    (case checked idx fs of
                       None \<Rightarrow> (Inl (''invalid folder '' @ nodeID), s)
                     | Some k \<Rightarrow>
                         (Inr (), write_cols p (\<lambda>(fs, rs). (fs[k := set_fo_Name name (fs ! k)], rs)) s))
                  else
                    (case checked idx rs of
                       None \<Rightarrow> (Inl (''invalid request '' @ nodeID), s)
                     | Some k \<Rightarrow>
                         (Inr (), write_cols p (\<lambda>(fs, rs). (fs, rs[k := (rs ! k)\<lparr>rq_Name := name\<rparr>])) s)))))"

definition RenameItem :: "'d session_io \<Rightarrow> string \<Rightarrow> string \<Rightarrow> 'd session \<Rightarrow> ('d, unit) outcome" where
  "RenameItem io nodeID name s =
     (if trim_space name = [] then empty_name s
      else (case parseLeaf nodeID of
          None \<Rightarrow> (Inl (''invalid node: '' @ nodeID), s)
        | Some (parent, kind, idx) \<Rightarrow>
            (let oldPath = nodeNamePath (ss_cols s) nodeID
             in case rename_node nodeID name parent kind idx s of
                  (Inl e, s1) \<Rightarrow> (Inl e, s1)
                | (Inr u, s1) \<Rightarrow>
                    (let oldParts = split_on CHR ''/'' oldPath;
                         newParts = oldParts[length oldParts - 1 := name];
                         s2 = (if kind \<noteq> CHR ''c'' \<and> oldPath \<noteq> []
                               then cascade_at (nodeCollectionIndex nodeID) oldParts newParts
                                      (kind = CHR ''f'') s1
                               else s1)
                     in ret () (persistCollection io (nodeCollectionIndex nodeID) s2)))))"

section \<open>Stable identities\<close>

text \<open>
  \<open>folderIDForContainer\<close>: the folder's ID, with a missing one backfilled in place; the empty
  ID is the collection root.
\<close>

definition folderIDForContainer ::
  "'d session_io \<Rightarrow> string \<Rightarrow> int \<Rightarrow> 'd session \<Rightarrow> string option \<times> 'd session" where
  "folderIDForContainer io containerID ci s =
     (if containerID = itoa ci then (Some [], s)
      else (case parseLeaf containerID of
          None \<Rightarrow> (None, s)
        | Some (parent, kind, idx) \<Rightarrow>
            if kind \<noteq> CHR ''f'' then (None, s)
            else (case containerAtPtr (ss_cols s) parent of
                None \<Rightarrow> (None, s)
              | Some p \<Rightarrow>
                  (case checked idx (fst (deref (ss_cols s) p)) of
                     None \<Rightarrow> (None, s)
                   | Some k \<Rightarrow>
                       (let f = fst (deref (ss_cols s) p) ! k
                        in if fo_ID f \<noteq> [] then (Some (fo_ID f), s)
                           else (case NewID io s of
                               (i, s1) \<Rightarrow>
                                 (Some i, write_cols p (\<lambda>(fs, rs). (fs[k := set_fo_ID i (fs ! k)], rs)) s1)))))))"

fun find_folder :: "string \<Rightarrow> nat \<Rightarrow> folder list \<Rightarrow> nat list option" where
  "find_folder fid k [] = None"
| "find_folder fid k (Folder i n fs rs a vs # rest) =
     (if i = fid then Some [k]
      else (case find_folder fid 0 fs of
              Some ks \<Rightarrow> Some (k # ks)
            | None \<Rightarrow> find_folder fid (Suc k) rest))"

definition containerByFolderID :: "collection list \<Rightarrow> int \<Rightarrow> string \<Rightarrow> cptr option" where
  "containerByFolderID cols ci folderID =
     (if \<not> in_range ci cols then None
      else if folderID = [] then Some (nat ci, [])
      else map_option (\<lambda>ks. (nat ci, ks)) (find_folder folderID 0 (co_Folders (cols ! nat ci))))"

text \<open>The walk of \<open>nodeIDOfModel\<close>: a container's requests first, then its folders in order.\<close>

definition request_in :: "char \<Rightarrow> string \<Rightarrow> string \<Rightarrow> request list \<Rightarrow> string option" where
  "request_in kind modelID pre rs =
     (if kind = CHR ''r''
      then map_option (child_id pre CHR ''r'') (first_index (\<lambda>r. rq_ID r = modelID) rs)
      else None)"

fun node_in :: "char \<Rightarrow> string \<Rightarrow> string \<Rightarrow> nat \<Rightarrow> folder list \<Rightarrow> string option" where
  "node_in kind modelID pre k [] = None"
| "node_in kind modelID pre k (Folder i n fs rs a vs # rest) =
     (let nid = child_id pre CHR ''f'' k
      in if kind = CHR ''f'' \<and> i = modelID then Some nid
         else (case request_in kind modelID nid rs of
             Some x \<Rightarrow> Some x
           | None \<Rightarrow>
               (case node_in kind modelID nid 0 fs of
                  Some x \<Rightarrow> Some x
                | None \<Rightarrow> node_in kind modelID pre (Suc k) rest)))"

definition nodeIDOfModel :: "collection list \<Rightarrow> int \<Rightarrow> char \<Rightarrow> string \<Rightarrow> string" where
  "nodeIDOfModel cols ci kind modelID =
     (if \<not> in_range ci cols then []
      else (case request_in kind modelID (itoa ci) (co_Requests (cols ! nat ci)) of
          Some x \<Rightarrow> x
        | None \<Rightarrow>
            (case node_in kind modelID (itoa ci) 0 (co_Folders (cols ! nat ci)) of
               Some x \<Rightarrow> x | None \<Rightarrow> [])))"

section \<open>Deleting and restoring\<close>

text \<open>\<open>cloneFolderKeepID\<close> and \<open>cloneRequestKeepID\<close> copy a value; values are immutable here.\<close>

definition DeleteItem :: "'d session_io \<Rightarrow> string \<Rightarrow> 'd session \<Rightarrow> ('d, unit) outcome" where
  "DeleteItem io nodeID s =
     (case parseLeaf nodeID of
        None \<Rightarrow> (Inl (''invalid node: '' @ nodeID), s)
      | Some (parent, kind, idx) \<Rightarrow>
          (let ci = nodeCollectionIndex nodeID;
               (fid, s1) = folderIDForContainer io parent ci s;
               parentFolderID = (case fid of Some i \<Rightarrow> i | None \<Rightarrow> [])
           in if kind = CHR ''c'' then (Inl ''collections are removed via workspace management'', s1)
              else (case containerAtPtr (ss_cols s1) parent of
                  None \<Rightarrow> (Inl (''invalid node '' @ nodeID), s1)
                | Some p \<Rightarrow>
                    (case deref (ss_cols s1) p of
                       (fs, rs) \<Rightarrow>
                         (case (if kind = CHR ''f'' then map_option (\<lambda>k. (k, Inl (fs ! k))) (checked idx fs)
                                else map_option (\<lambda>k. (k, Inr (rs ! k))) (checked idx rs)) of
                            None \<Rightarrow> (Inl (''invalid node '' @ nodeID), s1)
                          | Some (k, node) \<Rightarrow>
                              (let d = \<lparr>dn_parentFolderID = parentFolderID, dn_index = idx,
                                        dn_colIdx = ci, dn_node = node\<rparr>;
                                   s2 = write_cols p (\<lambda>(fs, rs).
                                          if kind = CHR ''f'' then (delete_at k fs, rs)
                                          else (fs, delete_at k rs))
                                        (s1\<lparr>ss_lastDeleted := Some d\<rparr>)
                               in case persistCollection io ci s2 of
                                    (Some e, s3) \<Rightarrow> (Inl e, s3\<lparr>ss_lastDeleted := None\<rparr>)
                                  | (None, s3) \<Rightarrow> (Inr (), s3)))))))"

definition CanUndoDelete :: "'d session \<Rightarrow> bool" where
  "CanUndoDelete s = (ss_lastDeleted s \<noteq> None)"

definition LastDeletedName :: "'d session \<Rightarrow> string" where
  "LastDeletedName s =
     (case ss_lastDeleted s of
        None \<Rightarrow> [] | Some d \<Rightarrow> (case dn_node d of Inl f \<Rightarrow> fo_Name f | Inr r \<Rightarrow> rq_Name r))"

definition parent_gone :: "'d session \<Rightarrow> ('d, 'a) outcome" where
  "parent_gone s = (Inl ''cannot restore: parent container is gone'', s)"

definition RestoreLastDeleted :: "'d session_io \<Rightarrow> 'd session \<Rightarrow> ('d, string) outcome" where
  "RestoreLastDeleted io s =
     (case ss_lastDeleted s of
        None \<Rightarrow> (Inl ''nothing to undo'', s)
      | Some d \<Rightarrow>
          (let target = containerByFolderID (ss_cols s) (dn_colIdx d) (dn_parentFolderID d);
               parentPath = (if dn_parentFolderID d \<noteq> []
                             then nodeIDOfModel (ss_cols s) (dn_colIdx d) CHR ''f'' (dn_parentFolderID d)
                             else itoa (dn_colIdx d))
           in if parentPath = [] then parent_gone s
              else (case target of
                  None \<Rightarrow> parent_gone s
                | Some p \<Rightarrow>
                    (case deref (ss_cols s) p of
                       (fs, rs) \<Rightarrow>
                         (case dn_node d of
                            Inl f \<Rightarrow>
                              (let i = clampIndex (dn_index d) (length fs)
                               in ret (child_id parentPath CHR ''f'' i)
                                    (persistCollection io (dn_colIdx d)
                                      (write_cols p (\<lambda>(fs, rs). (insert_at i f fs, rs))
                                        (s\<lparr>ss_lastDeleted := None\<rparr>))))
                          | Inr r \<Rightarrow>
                              (let i = clampIndex (dn_index d) (length rs)
                               in ret (child_id parentPath CHR ''r'' i)
                                    (persistCollection io (dn_colIdx d)
                                      (write_cols p (\<lambda>(fs, rs). (fs, insert_at i r rs))
                                        (s\<lparr>ss_lastDeleted := None\<rparr>)))))))))"

section \<open>Duplicating\<close>

text \<open>The draws of \<open>NewID\<close> go through the counter \<open>n\<close>, in the order the code makes them.\<close>

definition deepCopyRequest :: "(nat \<Rightarrow> string) \<Rightarrow> nat \<Rightarrow> request \<Rightarrow> request \<times> nat" where
  "deepCopyRequest gen n r = (r\<lparr>rq_ID := gen n\<rparr>, Suc n)"

fun copy_requests :: "(nat \<Rightarrow> string) \<Rightarrow> nat \<Rightarrow> request list \<Rightarrow> request list \<times> nat" where
  "copy_requests gen n [] = ([], n)"
| "copy_requests gen n (r # rs) =
     (let (r', n1) = deepCopyRequest gen n r; (rs', n2) = copy_requests gen n1 rs in (r' # rs', n2))"

fun deepCopyFolder :: "(nat \<Rightarrow> string) \<Rightarrow> nat \<Rightarrow> folder \<Rightarrow> folder \<times> nat"
and copy_folders :: "(nat \<Rightarrow> string) \<Rightarrow> nat \<Rightarrow> folder list \<Rightarrow> folder list \<times> nat" where
  "deepCopyFolder gen n (Folder i nm fs rs a vs) =
     (let (rs', n1) = copy_requests gen (Suc n) rs; (fs', n2) = copy_folders gen n1 fs
      in (Folder (gen n) nm fs' rs' a vs, n2))"
| "copy_folders gen n [] = ([], n)"
| "copy_folders gen n (f # fs) =
     (let (f', n1) = deepCopyFolder gen n f; (fs', n2) = copy_folders gen n1 fs in (f' # fs', n2))"

definition copy_suffix :: string where "copy_suffix = '' (copy)''"

definition DuplicateItem :: "'d session_io \<Rightarrow> string \<Rightarrow> 'd session \<Rightarrow> ('d, string) outcome" where
  "DuplicateItem io nodeID s =
     (case parseLeaf nodeID of
        None \<Rightarrow> (Inl (''invalid node: '' @ nodeID), s)
      | Some (parent, kind, idx) \<Rightarrow>
          if kind = CHR ''c'' then (Inl (''not duplicable: '' @ nodeID), s)
          else (case containerAtPtr (ss_cols s) parent of
              None \<Rightarrow> (Inl (''invalid node '' @ nodeID), s)
            | Some p \<Rightarrow>
                (case deref (ss_cols s) p of
                   (fs, rs) \<Rightarrow>
                     if kind = CHR ''f'' then
                       (case checked idx fs of
                          None \<Rightarrow> (Inl (''invalid folder '' @ nodeID), s)
                        | Some k \<Rightarrow>
                            (let (cp, n) = deepCopyFolder (io_NewID io) (ss_ids s) (fs ! k);
                                 cp' = set_fo_Name (fo_Name (fs ! k) @ copy_suffix) cp;
                                 s1 = write_cols p (\<lambda>(fs, rs). (insert_at (Suc k) cp' fs, rs))
                                        (s\<lparr>ss_ids := n\<rparr>)
                             in ret (child_id parent CHR ''f'' (Suc k))
                                  (persistCollection io (nodeCollectionIndex nodeID) s1)))
                     else
                       (case checked idx rs of
                          None \<Rightarrow> (Inl (''invalid request '' @ nodeID), s)
                        | Some k \<Rightarrow>
                            (let (cp, n) = deepCopyRequest (io_NewID io) (ss_ids s) (rs ! k);
                                 cp' = cp\<lparr>rq_Name := rq_Name (rs ! k) @ copy_suffix\<rparr>;
                                 s1 = write_cols p (\<lambda>(fs, rs). (fs, insert_at (Suc k) cp' rs))
                                        (s\<lparr>ss_ids := n\<rparr>)
                             in ret (child_id parent CHR ''r'' (Suc k))
                                  (persistCollection io (nodeCollectionIndex nodeID) s1))))))"

section \<open>Moving\<close>

text \<open>The node taken out of its container, with an ID minted when it has none.\<close>

definition take_node :: "'d session_io \<Rightarrow> string \<Rightarrow> string \<Rightarrow> char \<Rightarrow> int \<Rightarrow> 'd session
    \<Rightarrow> (folder + request) result \<times> 'd session" where
  "take_node io srcID srcParent kind srcIdx s =
     (case containerAtPtr (ss_cols s) srcParent of
        None \<Rightarrow> (Inl (''invalid node '' @ srcID), s)
      | Some p \<Rightarrow>
          (case deref (ss_cols s) p of
             (fs, rs) \<Rightarrow>
               if kind = CHR ''f'' then
                 (case checked srcIdx fs of
                    None \<Rightarrow> (Inl (''invalid folder '' @ srcID), s)
                  | Some k \<Rightarrow>
                      (let (f, s1) = (if fo_ID (fs ! k) = []
                                      then (case NewID io s of (i, s1) \<Rightarrow> (set_fo_ID i (fs ! k), s1))
                                      else (fs ! k, s))
                       in (Inr (Inl f), write_cols p (\<lambda>(fs, rs). (delete_at k fs, rs)) s1)))
               else
                 (case checked srcIdx rs of
                    None \<Rightarrow> (Inl (''invalid request '' @ srcID), s)
                  | Some k \<Rightarrow>
                      (let (r, s1) = (if rq_ID (rs ! k) = []
                                      then (case NewID io s of (i, s1) \<Rightarrow> ((rs ! k)\<lparr>rq_ID := i\<rparr>, s1))
                                      else (rs ! k, s))
                       in (Inr (Inr r), write_cols p (\<lambda>(fs, rs). (fs, delete_at k rs)) s1)))))"

definition node_id :: "folder + request \<Rightarrow> string" where
  "node_id node = (case node of Inl f \<Rightarrow> fo_ID f | Inr r \<Rightarrow> rq_ID r)"

definition insert_node :: "int \<Rightarrow> folder + request \<Rightarrow> container \<Rightarrow> container" where
  "insert_node index node fr =
     (case fr of (fs, rs) \<Rightarrow>
        (case node of
           Inl f \<Rightarrow> (insert_at (clampIndex index (length fs)) f fs, rs)
         | Inr r \<Rightarrow> (fs, insert_at (clampIndex index (length rs)) r rs)))"

definition cascade_move :: "int \<Rightarrow> string \<Rightarrow> string \<Rightarrow> bool \<Rightarrow> 'd session \<Rightarrow> 'd session" where
  "cascade_move ci oldPath newID movedIsFolder s =
     (if oldPath = [] then s
      else
        (let newPath = nodeNamePath (ss_cols s) newID
         in if newPath \<noteq> [] \<and> newPath \<noteq> oldPath
            then cascade_at ci (split_on CHR ''/'' oldPath) (split_on CHR ''/'' newPath) movedIsFolder s
            else s))"

definition MoveNode :: "'d session_io \<Rightarrow> string \<Rightarrow> string \<Rightarrow> int \<Rightarrow> 'd session \<Rightarrow> ('d, string) outcome"
where
  "MoveNode io srcID dstParentID index s =
     (case parseLeaf srcID of
        None \<Rightarrow> (Inl (''not movable: '' @ srcID), s)
      | Some (srcParent, kind, srcIdx) \<Rightarrow>
          (let ci = nodeCollectionIndex srcID
           in if kind = CHR ''c'' then (Inl (''not movable: '' @ srcID), s)
              else if \<not> in_range ci (ss_cols s) then (Inl (''invalid node: '' @ srcID), s)
              else if ci \<noteq> nodeCollectionIndex dstParentID
              then (Inl ''cross-collection moves are not supported'', s)
              else if dstParentID = srcID \<or> has_prefix dstParentID (srcID @ ''/'')
              then (Inl ''cannot move a folder into itself'', s)
              else (case folderIDForContainer io dstParentID ci s of
                  (None, s1) \<Rightarrow> (Inl (''invalid drop target: '' @ dstParentID), s1)
                | (Some dstFolderID, s1) \<Rightarrow>
                    (let oldPath = nodeNamePath (ss_cols s1) srcID
                     in case take_node io srcID srcParent kind srcIdx s1 of
                          (Inl e, s2) \<Rightarrow> (Inl e, s2)
                        | (Inr node, s2) \<Rightarrow>
                            (let index' = (if srcParent = dstParentID \<and> srcIdx < index
                                           then index - 1 else index)
                             in case containerByFolderID (ss_cols s2) ci dstFolderID of
                                  None \<Rightarrow> (Inl ''drop target no longer exists'', s2)
                                | Some p \<Rightarrow>
                                    (let s3 = write_cols p (insert_node index' node) s2;
                                         newID = nodeIDOfModel (ss_cols s3) ci kind (node_id node);
                                         s4 = cascade_move ci oldPath newID (kind = CHR ''f'') s3
                                     in ret newID (persistCollection io ci s4)))))))"

end
