(* ===== verification/ItemLemmas.thy ===== *)
theory ItemLemmas
  imports SessionItems "HOL-Library.Multiset"
begin

text \<open>
  The library of the item operations: pointers as cells of the collection list, what a write
  does to the requests and the IDs of a collection, and the searches by stable ID.
\<close>

section \<open>Valid pointers\<close>

fun valid_path :: "nat list \<Rightarrow> folder list \<Rightarrow> bool" where
  "valid_path [] fs = True"
| "valid_path (k # ks) fs = (k < length fs \<and> valid_path ks (fo_Folders (fs ! k)))"

definition valid_ptr :: "cptr \<Rightarrow> collection list \<Rightarrow> bool" where
  "valid_ptr p cols \<longleftrightarrow> fst p < length cols \<and> valid_path (snd p) (co_Folders (cols ! fst p))"

lemma walk_ptr_valid: "walk_ptr ps fs = Some ks \<Longrightarrow> valid_path ks fs"
proof (induction ps fs arbitrary: ks rule: walk_ptr.induct)
  case (2 p ps fs)
  then show ?case by (auto split: option.splits dest: seg_index_range)
qed simp

lemma containerAtPtr_valid: "containerAtPtr cols i = Some p \<Longrightarrow> valid_ptr p cols"
  by (auto simp: containerAtPtr_def valid_ptr_def split: if_splits list.splits option.splits
      dest: walk_ptr_valid col_index_range)

lemma get_put_at:
  "valid_path ks (fst fr) \<Longrightarrow> get_at ks (put_at ks g fr) = g (get_at ks fr)"
  by (induction ks g fr rule: put_at.induct) (auto split: prod.split)

lemma put_at_get: "valid_path ks (fst fr) \<Longrightarrow> put_at ks (\<lambda>_. get_at ks fr) fr = fr"
proof (induction ks fr rule: get_at.induct)
  case (2 k ks fs rs)
  then show ?case by simp
qed simp

lemma valid_path_update:
  "k < length fs \<Longrightarrow> valid_path ks (fo_Folders (f)) \<Longrightarrow> valid_path (k # ks) (fs[k := f])"
  by simp

lemma put_put_at:
  "valid_path ks (fst fr) \<Longrightarrow> put_at ks g (put_at ks h fr) = put_at ks (\<lambda>x. g (h x)) fr"
proof (induction ks h fr rule: put_at.induct)
  case (2 k ks h fs rs)
  then show ?case by (auto split: prod.splits)
qed simp

lemma put_at_local:
  "valid_path ks (fst fr) \<Longrightarrow> g (get_at ks fr) = h (get_at ks fr) \<Longrightarrow> put_at ks g fr = put_at ks h fr"
  by (induction ks g fr rule: put_at.induct) auto

lemma cell_ptr: "cell (valid_ptr p) (\<lambda>cols. deref cols p) (assign p)"
proof
  fix cols :: "collection list" and g h :: "container \<Rightarrow> container"
  assume "valid_ptr p cols"
  then have v: "fst p < length cols" "valid_path (snd p) (co_Folders (cols ! fst p))"
    by (simp_all add: valid_ptr_def)
  let ?fr = "(co_Folders (cols ! fst p), co_Requests (cols ! fst p))"
  show "deref (assign p g cols) p = g (deref cols p)"
    using v get_put_at [of "snd p" ?fr g] by (auto simp: deref_def assign_def split: prod.split)
  show "assign p (\<lambda>_. deref cols p) cols = cols"
    using v put_at_get [of "snd p" ?fr] by (simp add: deref_def assign_def)
  show "assign p g (assign p h cols) = assign p (\<lambda>x. g (h x)) cols"
    using v put_put_at [of "snd p" ?fr g h] by (auto simp: assign_def split: prod.splits)
  show "g (deref cols p) = h (deref cols p) \<Longrightarrow> assign p g cols = assign p h cols"
    using v put_at_local [of "snd p" ?fr g h] by (simp add: deref_def assign_def)
qed

interpretation ptr: cell "valid_ptr p" "\<lambda>cols. deref cols p" "assign p" for p
  by (rule cell_ptr)

section \<open>What a write does to the requests and the folder IDs\<close>

definition mtree :: "container \<Rightarrow> request multiset" where
  "mtree fr = mset (tree_requests (fst fr) (snd fr))"

definition container_ids :: "container \<Rightarrow> string list" where
  "container_ids fr = concat (map folder_ids (fst fr))"

lemma mset_concat_update:
  "k < length xs \<Longrightarrow>
   mset (concat (map f (xs[k := y]))) + mset (f (xs ! k)) = mset (concat (map f xs)) + mset (f y)"
proof (induction xs arbitrary: k)
  case (Cons x xs)
  show ?case
  proof (cases k)
    case 0
    then show ?thesis by simp
  next
    case (Suc k')
    with Cons have "mset (concat (map f (xs[k' := y]))) + mset (f (xs ! k')) =
        mset (concat (map f xs)) + mset (f y)" by simp
    with Suc show ?thesis by (simp add: ac_simps)
  qed
qed simp

lemma mset_shuffle:
  assumes "A + C = D + B" and "B + G = C + H"
  shows "A + G = D + (H :: 'a multiset)"
proof -
  have "(A + C) + (B + G) = (D + B) + (C + H)" using assms by simp
  then have "(A + G) + (C + B) = (D + H) + (C + B)" by (simp only: ac_simps)
  then show ?thesis by (rule add_right_imp_eq)
qed

lemma mtree_put_at:
  "valid_path ks (fst fr) \<Longrightarrow>
   mtree (put_at ks g fr) + mtree (get_at ks fr) = mtree fr + mtree (g (get_at ks fr))"
proof (induction ks g fr rule: put_at.induct)
  case (2 k ks g fs rs)
  let ?sub = "(fo_Folders (fs ! k), fo_Requests (fs ! k))"
  obtain fs' rs' where p: "put_at ks g ?sub = (fs', rs')" by force
  let ?f = "set_fo_children fs' rs' (fs ! k)"
  from 2 have ih: "mtree (fs', rs') + mtree (get_at ks ?sub) = mtree ?sub + mtree (g (get_at ks ?sub))"
    by (simp add: p)
  have u: "mset (concat (map folder_requests (fs[k := ?f]))) + mset (folder_requests (fs ! k)) =
      mset (concat (map folder_requests fs)) + mset (folder_requests ?f)"
    using "2.prems" by (intro mset_concat_update) simp
  have "mset (folder_requests ?f) = mtree (fs', rs')" "mset (folder_requests (fs ! k)) = mtree ?sub"
    by (simp_all add: folder_requests_sel mtree_def)
  with u have "mset (concat (map folder_requests (fs[k := ?f]))) + mtree ?sub =
      mset (concat (map folder_requests fs)) + mtree (fs', rs')" by simp
  from mset_shuffle [OF this ih] show ?case
    by (simp add: p mtree_def [of "(fs[k := ?f], rs)"] mtree_def [of "(fs, rs)"] tree_requests_def)
qed simp

lemma ids_put_at:
  "valid_path ks (fst fr) \<Longrightarrow>
   mset (container_ids (put_at ks g fr)) + mset (container_ids (get_at ks fr)) =
   mset (container_ids fr) + mset (container_ids (g (get_at ks fr)))"
proof (induction ks g fr rule: put_at.induct)
  case (2 k ks g fs rs)
  let ?sub = "(fo_Folders (fs ! k), fo_Requests (fs ! k))"
  obtain fs' rs' where p: "put_at ks g ?sub = (fs', rs')" by force
  let ?f = "set_fo_children fs' rs' (fs ! k)"
  from 2 have ih: "mset (container_ids (fs', rs')) + mset (container_ids (get_at ks ?sub)) =
      mset (container_ids ?sub) + mset (container_ids (g (get_at ks ?sub)))"
    by (simp add: p)
  have u: "mset (concat (map folder_ids (fs[k := ?f]))) + mset (folder_ids (fs ! k)) =
      mset (concat (map folder_ids fs)) + mset (folder_ids ?f)"
    using "2.prems" by (intro mset_concat_update) simp
  have "folder_ids ?f = fo_ID (fs ! k) # container_ids (fs', rs')"
    by (cases "fs ! k") (simp add: container_ids_def)
  moreover have "folder_ids (fs ! k) = fo_ID (fs ! k) # container_ids ?sub"
    by (cases "fs ! k") (simp add: container_ids_def)
  ultimately have "mset (concat (map folder_ids (fs[k := ?f]))) + mset (container_ids ?sub) =
      mset (concat (map folder_ids fs)) + mset (container_ids (fs', rs'))"
    using u by simp
  from mset_shuffle [OF this ih] show ?case
    by (simp add: p container_ids_def [of "(fs[k := ?f], rs)"] container_ids_def [of "(fs, rs)"])
qed simp

definition col_container :: "collection \<Rightarrow> container" where
  "col_container c = (co_Folders c, co_Requests c)"

lemma assign_col:
  "valid_ptr p cols \<Longrightarrow>
   length (assign p g cols) = length cols \<and>
   col_container (assign p g cols ! fst p) = put_at (snd p) g (col_container (cols ! fst p)) \<and>
   (\<forall>i. i \<noteq> fst p \<longrightarrow> assign p g cols ! i = cols ! i)"
  by (auto simp: assign_def valid_ptr_def col_container_def split: prod.split)

lemma mtree_assign:
  "valid_ptr p cols \<Longrightarrow>
   mtree (col_container (assign p g cols ! fst p)) + mtree (deref cols p) =
   mtree (col_container (cols ! fst p)) + mtree (g (deref cols p))"
  using assign_col [of p cols g] mtree_put_at [of "snd p" "col_container (cols ! fst p)" g]
  by (simp add: valid_ptr_def deref_def col_container_def)

lemma ids_assign:
  "valid_ptr p cols \<Longrightarrow>
   mset (container_ids (col_container (assign p g cols ! fst p))) + mset (container_ids (deref cols p)) =
   mset (container_ids (col_container (cols ! fst p))) + mset (container_ids (g (deref cols p)))"
  using assign_col [of p cols g] ids_put_at [of "snd p" "col_container (cols ! fst p)" g]
  by (simp add: valid_ptr_def deref_def col_container_def)

lemma valid_path_put_at:
  "valid_path ks (fst fr) \<Longrightarrow> valid_path ks (fst (put_at ks g fr))"
  by (induction ks g fr rule: put_at.induct) (auto split: prod.split)

lemma valid_ptr_assign: "valid_ptr p cols \<Longrightarrow> valid_ptr p (assign p g cols)"
  using assign_col [of p cols g] valid_path_put_at [of "snd p" "col_container (cols ! fst p)" g]
  by (auto simp: valid_ptr_def col_container_def) (metis fst_conv)

section \<open>Searching by folder ID\<close>

text \<open>The folder a non-empty index path names.\<close>

fun folder_at :: "nat list \<Rightarrow> folder list \<Rightarrow> folder" where
  "folder_at [] fs = zero_folder"
| "folder_at (k # ks) fs = (if ks = [] then fs ! k else folder_at ks (fo_Folders (fs ! k)))"

definition ids_ok :: "collection \<Rightarrow> bool" where
  "ids_ok c \<longleftrightarrow> distinct (container_ids (col_container c)) \<and> [] \<notin> set (container_ids (col_container c))"

lemma folder_ids_sel: "folder_ids f = fo_ID f # concat (map folder_ids (fo_Folders f))"
  by (cases f) simp

lemma folder_at_id:
  "ks \<noteq> [] \<Longrightarrow> valid_path ks fs \<Longrightarrow> fo_ID (folder_at ks fs) \<in> set (concat (map folder_ids fs))"
proof (induction ks fs rule: folder_at.induct)
  case (2 k ks fs)
  then have k: "fs ! k \<in> set fs" by simp
  have "fo_ID (folder_at (k # ks) fs) \<in> set (folder_ids (fs ! k))"
    using 2 by (subst folder_ids_sel) (cases "ks = []"; simp)
  with k show ?case by auto
qed simp

lemma find_folder_None:
  "fid \<notin> set (concat (map folder_ids fs)) \<Longrightarrow> find_folder fid k fs = None"
  by (induction fid k fs rule: find_folder.induct) auto

lemma find_folder_path:
  assumes "ks \<noteq> []" and "valid_path ks fs" and "distinct (concat (map folder_ids fs))"
    and "fo_ID (folder_at ks fs) = fid"
  shows "find_folder fid j fs = Some ((j + hd ks) # tl ks)"
  using assms
proof (induction fid j fs arbitrary: ks rule: find_folder.induct)
  case (1 fid k)
  then show ?case by (cases ks) auto
next
  case (2 fid j i n fs rs a vs rest)
  obtain k ks' where ks: "ks = k # ks'" using "2.prems"(1) by (cases ks) auto
  show ?case
  proof (cases k)
    case 0
    show ?thesis
    proof (cases "ks' = []")
      case True
      with 0 ks 2 show ?thesis by simp
    next
      case False
      have fid: "fid = fo_ID (folder_at ks' fs)" and v: "valid_path ks' fs"
        using "2.prems" ks 0 False by auto
      have "fid \<in> set (concat (map folder_ids fs))" using folder_at_id [OF False v] fid by simp
      then have "i \<noteq> fid" using "2.prems"(3) by auto
      moreover have "find_folder fid 0 fs = Some ((0 + hd ks') # tl ks')"
        using "2.prems"(3) fid v by (intro "2.IH"(1) [OF \<open>i \<noteq> fid\<close> False]) auto
      ultimately show ?thesis using 0 ks False by simp
    qed
  next
    case (Suc k')
    let ?ks = "k' # ks'"
    have v: "valid_path ?ks rest" and fid: "fo_ID (folder_at ?ks rest) = fid"
      using "2.prems"(2,4) ks Suc by auto
    then have "fid \<in> set (concat (map folder_ids rest))" using folder_at_id [of ?ks rest] by simp
    then have n: "fid \<notin> set (i # concat (map folder_ids fs))" using "2.prems"(3) by auto
    then have "find_folder fid 0 fs = None" by (intro find_folder_None) simp
    moreover have "find_folder fid (Suc j) rest = Some ((Suc j + hd ?ks) # tl ?ks)"
      using n "2.prems"(3) v fid \<open>find_folder fid 0 fs = None\<close> by (intro "2.IH"(2)) auto
    ultimately show ?thesis using n ks Suc by auto
  qed
qed

end
