(* ===== verification/ItemProps.thy ===== *)
theory ItemProps
  imports ItemLemmas
begin

text \<open>
  The properties of the item operations: undoing a delete, moving a node, fresh copies and
  the rewriting of chain references.
\<close>

section \<open>Saving\<close>

lemma ret_Inr: "ret v es = (Inr w, s') \<longleftrightarrow> es = (None, s') \<and> w = v"
  by (auto simp: ret_def split: prod.splits option.splits)

lemma ret_Inl: "ret v es = (Inl e, s') \<longleftrightarrow> es = (Some e, s')"
  by (auto simp: ret_def split: prod.splits option.splits)

lemma persistCollection_None:
  "persistCollection io ci s = (None, s') \<Longrightarrow> \<exists>d. s' = s\<lparr>ss_disk := d\<rparr>"
  by (auto simp: persistCollection_def split: if_splits prod.splits option.splits)
    (rule exI [of _ "ss_disk s'"], simp)

lemma persistCollection_Some:
  "persistCollection io ci s = (Some e, s') \<Longrightarrow> \<exists>d. s' = reload io (s\<lparr>ss_disk := d\<rparr>)"
  by (auto simp: persistCollection_def split: if_splits prod.splits option.splits)

section \<open>Containers and their stable IDs\<close>

lemma folder_at_put:
  "valid_path ks (fst fr) \<Longrightarrow> ks \<noteq> [] \<Longrightarrow>
   fo_ID (folder_at ks (fst (put_at ks g fr))) = fo_ID (folder_at ks (fst fr))"
proof (induction ks g fr rule: put_at.induct)
  case (2 k ks g fs rs)
  then show ?case by (cases "ks = []") (auto split: prod.splits)
qed simp

lemma walk_ptr_snoc:
  "walk_ptr (ps @ [q]) fs = Some ks \<Longrightarrow>
   \<exists>ks' k. ks = ks' @ [k] \<and> walk_ptr ps fs = Some ks' \<and>
     seg_index CHR ''f'' q (length (fst (get_at ks' (fs, rs)))) = Some k"
proof (induction ps arbitrary: fs rs ks)
  case (Cons p ps)
  then obtain i ks1 where i: "seg_index CHR ''f'' p (length fs) = Some i"
    "walk_ptr (ps @ [q]) (fo_Folders (fs ! i)) = Some ks1" "ks = i # ks1"
    by (auto split: option.splits)
  from Cons.IH [OF i(2), of "fo_Requests (fs ! i)"] i show ?case by auto
qed (auto split: option.splits)

lemma containerAtPtr_snoc:
  assumes "containerAtPtr cols (i @ CHR ''/'' # q) = Some p" and "CHR ''/'' \<notin> set q"
  shows "\<exists>ks k. p = (fst p, ks @ [k]) \<and> containerAtPtr cols i = Some (fst p, ks) \<and>
    seg_index CHR ''f'' q (length (fst (deref cols (fst p, ks)))) = Some k"
proof -
  obtain hd1 tl1 where sp: "split_on CHR ''/'' i = hd1 # tl1" by (cases "split_on CHR ''/'' i") auto
  from assms(1) obtain ci ks where p: "col_index hd1 (length cols) = Some ci" "p = (ci, ks)"
    "walk_ptr (tl1 @ [q]) (co_Folders (cols ! ci)) = Some ks"
    unfolding containerAtPtr_def split_on_snoc_gen [OF assms(2)] sp
    by (auto split: option.splits)
  from walk_ptr_snoc [OF p(3), of "co_Requests (cols ! ci)"] obtain ks' k where
    k: "ks = ks' @ [k]" "walk_ptr tl1 (co_Folders (cols ! ci)) = Some ks'"
    "seg_index CHR ''f'' q (length (fst (get_at ks' (co_Folders (cols ! ci), co_Requests (cols ! ci))))) = Some k"
    by auto
  have "i \<noteq> []" using p(1) sp by (auto simp: col_index_def atoi_def)
  with p k sp show ?thesis by (auto simp: containerAtPtr_def deref_def)
qed

lemma nodeCollectionIndex_ptr:
  "containerAtPtr cols i = Some p \<Longrightarrow> nodeCollectionIndex i = int (fst p)"
  by (auto simp: containerAtPtr_def nodeCollectionIndex_def col_index_def
      split: if_splits list.splits option.splits)

lemma folder_at_snoc: "folder_at (ks @ [k]) fs = fst (get_at ks (fs, rs)) ! k"
  by (induction ks arbitrary: fs rs) auto

lemma split_last_slash:
  "last_index_byte s c = Some j \<Longrightarrow> s = take j s @ c # drop (Suc j) s \<and> c \<notin> set (drop (Suc j) s)"
  using last_index_byte_Some [of s c j] by (metis id_take_nth_drop)

lemma nodeCollectionIndex_take:
  "last_index_byte i CHR ''/'' = Some j \<Longrightarrow> nodeCollectionIndex (take j i) = nodeCollectionIndex i"
proof -
  assume "last_index_byte i CHR ''/'' = Some j"
  then have i: "i = take j i @ CHR ''/'' # drop (Suc j) i" "CHR ''/'' \<notin> set (drop (Suc j) i)"
    by (simp_all add: split_last_slash)
  have "split_on CHR ''/'' i = split_on CHR ''/'' (take j i) @ [drop (Suc j) i]"
    using split_on_snoc_gen [OF i(2), of "take j i"] i(1) by metis
  then show ?thesis by (simp add: nodeCollectionIndex_def)
qed

text \<open>
  The container an ID names is the one its stable folder ID finds, when the folder IDs of
  the collection are distinct; no backfill happens when none is missing.
\<close>

lemma container_stable:
  assumes p: "containerAtPtr (ss_cols s) i = Some (c, ks)" and ok: "ids_ok (ss_cols s ! c)"
  shows "\<exists>fid. folderIDForContainer io i (int c) s = (fid, s) \<and>
    (case fid of None \<Rightarrow> ks = [] | Some x \<Rightarrow> if ks = [] then x = []
       else x \<noteq> [] \<and> x = fo_ID (folder_at ks (co_Folders (ss_cols s ! c))))"
proof (cases "last_index_byte i CHR ''/''")
  case None
  then have ns: "CHR ''/'' \<notin> set i" by simp
  from p ns have ks: "ks = []"
    by (auto simp: containerAtPtr_def split_on_absent split: if_splits option.splits)
  show ?thesis
  proof (cases "i = itoa (int c)")
    case True
    with ks show ?thesis by (simp add: folderIDForContainer_def del: itoa_nat)
  next
    case False
    have "parseLeaf i = None \<or> (\<exists>n. parseLeaf i = Some ([], CHR ''c'', n))"
      unfolding parseLeaf_def None by (cases "atoi i") auto
    with False ks show ?thesis by (auto simp: folderIDForContainer_def simp del: itoa_nat)
  qed
next
  case (Some j)
  let ?q = "drop (Suc j) i"
  from Some have i: "i = take j i @ CHR ''/'' # ?q" "CHR ''/'' \<notin> set ?q"
    by (simp_all add: split_last_slash)
  from containerAtPtr_snoc [of "ss_cols s" "take j i" ?q "(c, ks)"] p i obtain ks' k where
    k: "ks = ks' @ [k]" "containerAtPtr (ss_cols s) (take j i) = Some (c, ks')"
    "seg_index CHR ''f'' ?q (length (fst (deref (ss_cols s) (c, ks')))) = Some k" by auto
  then obtain n where n: "?q ! 0 = CHR ''f''" "2 \<le> length ?q" "atoi (drop 1 ?q) = Some n" "n = int k"
    "k < length (fst (deref (ss_cols s) (c, ks')))"
    by (cases ?q; cases "tl ?q")
      (auto simp: seg_index_def col_index_def atoi_def [of "[]"] split: if_splits option.splits)
  have leaf: "parseLeaf i = Some (take j i, CHR ''f'', n)"
    using Some n by (auto simp: parseLeaf_def Let_def)
  have root: "i \<noteq> itoa (int c)"
    using i(1) seg_no_slash [of c] by (metis in_set_conv_decomp itoa_nat)
  let ?f = "fst (deref (ss_cols s) (c, ks')) ! k"
  have f: "?f = folder_at ks (co_Folders (ss_cols s ! c))"
    unfolding k(1) deref_def by (simp add: folder_at_snoc [of ks' k _ "co_Requests (ss_cols s ! c)"])
  have v: "valid_ptr (c, ks) (ss_cols s)" using p by (rule containerAtPtr_valid)
  then have "fo_ID ?f \<in> set (container_ids (col_container (ss_cols s ! c)))"
    using folder_at_id [of ks "co_Folders (ss_cols s ! c)"] k(1)
    unfolding f by (simp add: valid_ptr_def container_ids_def col_container_def)
  with ok have "fo_ID ?f \<noteq> []" by (auto simp: ids_ok_def)
  then show ?thesis
    using root leaf k n by (auto simp: folderIDForContainer_def checked_def in_range_def f)
qed

lemma containerByFolderID_path:
  assumes "valid_ptr (c, ks) cols" and "ids_ok (cols ! c)"
    and "if ks = [] then x = [] else x \<noteq> [] \<and> x = fo_ID (folder_at ks (co_Folders (cols ! c)))"
  shows "containerByFolderID cols (int c) x = Some (c, ks)"
proof (cases "ks = []")
  case True
  with assms show ?thesis by (simp add: containerByFolderID_def valid_ptr_def in_range_def)
next
  case False
  with assms find_folder_path [OF False, of "co_Folders (cols ! c)" x 0] show ?thesis
    by (auto simp: containerByFolderID_def valid_ptr_def in_range_def ids_ok_def container_ids_def
        col_container_def)
qed

lemma find_folder_valid: "find_folder fid j fs = Some ks \<Longrightarrow> \<exists>i ks'. ks = (j + i) # ks' \<and> valid_path (i # ks') fs"
proof (induction fid j fs arbitrary: ks rule: find_folder.induct)
  case (2 fid j i n fs rs a vs rest)
  show ?case
  proof (cases "i = fid")
    case True
    with 2 show ?thesis by (intro exI [of _ 0]) auto
  next
    case False
    show ?thesis
    proof (cases "find_folder fid 0 fs")
      case None
      with 2 False obtain i' ks' where "ks = (Suc j + i') # ks'" "valid_path (i' # ks') rest" by auto
      then show ?thesis by (intro exI [of _ "Suc i'"] exI [of _ ks']) auto
    next
      case (Some ks1)
      with 2 False have "valid_path ks1 fs" by fastforce
      with Some 2 False show ?thesis by (intro exI [of _ 0] exI [of _ ks1]) auto
    qed
  qed
qed simp

lemma containerByFolderID_valid: "containerByFolderID cols ci x = Some p \<Longrightarrow> valid_ptr p cols"
  by (auto simp: containerByFolderID_def valid_ptr_def in_range_def split: if_splits
      dest!: find_folder_valid)

section \<open>Delete, then restore\<close>

definition remove_node :: "bool \<Rightarrow> nat \<Rightarrow> container \<Rightarrow> container" where
  "remove_node isFolder k fr =
     (if isFolder then (delete_at k (fst fr), snd fr) else (fst fr, delete_at k (snd fr)))"

lemma mset_concat_delete:
  "k < length xs \<Longrightarrow> mset (concat (map f xs)) = mset (concat (map f (delete_at k xs))) + mset (f (xs ! k))"
proof -
  assume "k < length xs"
  then have "xs = take k xs @ xs ! k # drop (Suc k) xs" by (rule id_take_nth_drop)
  then have "concat (map f xs) = concat (map f (take k xs)) @ f (xs ! k) @ concat (map f (drop (Suc k) xs))"
    by (metis concat.simps(2) concat_append list.simps(9) map_append)
  then show ?thesis by (simp add: delete_at_def ac_simps)
qed

lemma ids_remove_node:
  "(isFolder \<Longrightarrow> k < length (fst fr)) \<Longrightarrow>
   mset (container_ids (remove_node isFolder k fr)) \<subseteq># mset (container_ids fr)"
  using mset_concat_delete [of k "fst fr" folder_ids]
  by (cases isFolder) (simp_all add: remove_node_def container_ids_def)

lemma distinct_submset: "mset xs \<subseteq># mset ys \<Longrightarrow> distinct ys \<Longrightarrow> distinct xs"
proof -
  assume "mset xs \<subseteq># mset ys" and d: "distinct ys"
  then obtain zs where "mset ys = mset (xs @ zs)"
    by (metis ex_mset mset_append subset_mset.le_iff_add)
  with d have "distinct (xs @ zs)" using mset_eq_imp_distinct_iff by blast
  then show ?thesis by simp
qed

lemma ids_ok_remove:
  assumes "valid_ptr p cols" and "ids_ok (cols ! fst p)"
    and "isFolder \<Longrightarrow> k < length (fst (deref cols p))"
  shows "ids_ok (assign p (remove_node isFolder k) cols ! fst p)"
proof -
  let ?new = "container_ids (col_container (assign p (remove_node isFolder k) cols ! fst p))"
  let ?old = "container_ids (col_container (cols ! fst p))"
  have "mset ?new + mset (container_ids (deref cols p)) \<subseteq># mset ?old + mset (container_ids (deref cols p))"
    using ids_assign [OF assms(1), of "remove_node isFolder k"]
      ids_remove_node [of isFolder k "deref cols p"] assms(3) by simp
  then have sub: "mset ?new \<subseteq># mset ?old" by simp
  then have "distinct ?new"
    using assms(2) by (auto simp: ids_ok_def intro: distinct_submset)
  moreover have "set ?new \<subseteq> set ?old" using sub by (metis set_mset_mono set_mset_mset)
  ultimately show ?thesis using assms(2) by (auto simp: ids_ok_def)
qed

definition put_back :: "int \<Rightarrow> folder + request \<Rightarrow> container \<Rightarrow> container" where
  "put_back i node = (\<lambda>(fs, rs). case node of
     Inl f \<Rightarrow> (insert_at (clampIndex i (length fs)) f fs, rs)
   | Inr r \<Rightarrow> (fs, insert_at (clampIndex i (length rs)) r rs))"

lemma DeleteItem_Inr:
  assumes "DeleteItem io nodeID s = (Inr (), s')"
  obtains parent kind idx fid s1 p k d where
    "parseLeaf nodeID = Some (parent, kind, idx)" "kind \<noteq> CHR ''c''"
    "folderIDForContainer io parent (nodeCollectionIndex nodeID) s = (fid, s1)"
    "containerAtPtr (ss_cols s1) parent = Some p"
    "if kind = CHR ''f'' then checked idx (fst (deref (ss_cols s1) p)) = Some k
     else checked idx (snd (deref (ss_cols s1) p)) = Some k"
    "s' = write_cols p (remove_node (kind = CHR ''f'') k)
        (s1\<lparr>ss_lastDeleted := Some \<lparr>dn_parentFolderID = (case fid of Some i \<Rightarrow> i | None \<Rightarrow> []),
           dn_index = idx, dn_colIdx = nodeCollectionIndex nodeID,
           dn_node = (if kind = CHR ''f'' then Inl (fst (deref (ss_cols s1) p) ! k)
                      else Inr (snd (deref (ss_cols s1) p) ! k))\<rparr>\<rparr>)\<lparr>ss_disk := d\<rparr>"
proof -
  obtain parent kind idx where leaf: "parseLeaf nodeID = Some (parent, kind, idx)"
    using assms by (auto simp: DeleteItem_def split: option.splits)
  obtain fid s1 where f: "folderIDForContainer io parent (nodeCollectionIndex nodeID) s = (fid, s1)"
    by force
  have g: "(\<lambda>(fs, rs). if isF then (delete_at k fs, rs) else (fs, delete_at k rs)) = remove_node isF k"
    for isF :: bool and k
    by (auto simp: remove_node_def)
  from assms leaf f have kind: "kind \<noteq> CHR ''c''" by (auto simp: DeleteItem_def)
  from assms leaf f kind obtain p where p: "containerAtPtr (ss_cols s1) parent = Some p"
    by (cases "containerAtPtr (ss_cols s1) parent") (simp_all add: DeleteItem_def Let_def)
  obtain fs rs where fr: "deref (ss_cols s1) p = (fs, rs)" by force
  show ?thesis
  proof (cases "kind = CHR ''f''")
    case True
    with assms leaf f p fr kind obtain k where k: "checked idx fs = Some k"
      by (cases "checked idx fs") (simp_all add: DeleteItem_def Let_def)
    let ?s2 = "write_cols p (remove_node (kind = CHR ''f'') k)
        (s1\<lparr>ss_lastDeleted := Some \<lparr>dn_parentFolderID = (case fid of Some i \<Rightarrow> i | None \<Rightarrow> []),
           dn_index = idx, dn_colIdx = nodeCollectionIndex nodeID, dn_node = Inl (fs ! k)\<rparr>\<rparr>)"
    have "persistCollection io (nodeCollectionIndex nodeID) ?s2 = (None, s')"
      using assms leaf f p fr k True
      by (simp add: DeleteItem_def Let_def g [of True, simplified] split: prod.splits option.splits)
    from persistCollection_None [OF this] that [OF leaf kind f p] True fr k show ?thesis by auto
  next
    case False
    with assms leaf f p fr kind obtain k where k: "checked idx rs = Some k"
      by (cases "checked idx rs") (simp_all add: DeleteItem_def Let_def)
    let ?s2 = "write_cols p (remove_node (kind = CHR ''f'') k)
        (s1\<lparr>ss_lastDeleted := Some \<lparr>dn_parentFolderID = (case fid of Some i \<Rightarrow> i | None \<Rightarrow> []),
           dn_index = idx, dn_colIdx = nodeCollectionIndex nodeID, dn_node = Inr (rs ! k)\<rparr>\<rparr>)"
    have "persistCollection io (nodeCollectionIndex nodeID) ?s2 = (None, s')"
      using assms leaf f p fr k False kind
      by (simp add: DeleteItem_def Let_def g [of False, simplified] split: prod.splits option.splits)
    from persistCollection_None [OF this] that [OF leaf kind f p] False fr k show ?thesis by auto
  qed
qed

lemma walk_ptr_extend:
  "walk_ptr ps fs = Some ks \<Longrightarrow> seg_index CHR ''f'' q (length (fst (get_at ks (fs, rs)))) = Some k \<Longrightarrow>
   walk_ptr (ps @ [q]) fs = Some (ks @ [k])"
proof (induction ps arbitrary: fs rs ks)
  case (Cons p ps)
  then obtain i ks1 where i: "seg_index CHR ''f'' p (length fs) = Some i"
    "walk_ptr ps (fo_Folders (fs ! i)) = Some ks1" "ks = i # ks1"
    by (auto split: option.splits)
  from Cons.IH [OF i(2), of "fo_Requests (fs ! i)"] Cons.prems i show ?case by simp
qed (auto split: option.splits)

lemma containerAtPtr_extend:
  assumes "containerAtPtr cols i = Some (c, ks)" and "CHR ''/'' \<notin> set q"
    and "seg_index CHR ''f'' q (length (fst (deref cols (c, ks)))) = Some k"
  shows "containerAtPtr cols (i @ CHR ''/'' # q) = Some (c, ks @ [k])"
proof -
  obtain hd1 tl1 where sp: "split_on CHR ''/'' i = hd1 # tl1" by (cases "split_on CHR ''/'' i") auto
  from assms(1) have w: "col_index hd1 (length cols) = Some c"
    "walk_ptr tl1 (co_Folders (cols ! c)) = Some ks"
    by (auto simp: containerAtPtr_def sp split: if_splits option.splits)
  from walk_ptr_extend [OF w(2), of q "co_Requests (cols ! c)" k] assms(3) w(1) show ?thesis
    unfolding containerAtPtr_def split_on_snoc_gen [OF assms(2)] sp by (simp add: deref_def)
qed

text \<open>With no ID missing, \<open>folderIDForContainer\<close> writes nothing.\<close>

lemma folderID_no_backfill:
  assumes "folderIDForContainer io i ci s = (fid, s1)" and "ci = nodeCollectionIndex i"
    and "ids_ok (ss_cols s ! nat ci)"
  shows "s1 = s"
proof (rule ccontr)
  assume ne: "s1 \<noteq> s"
  with assms(1) obtain parent kind idx where leaf: "parseLeaf i = Some (parent, kind, idx)"
    by (auto simp: folderIDForContainer_def split: if_splits option.splits)
  with assms(1) ne obtain p k where p: "containerAtPtr (ss_cols s) parent = Some p"
    "kind = CHR ''f''" "checked idx (fst (deref (ss_cols s) p)) = Some k"
    by (auto simp: folderIDForContainer_def split: if_splits option.splits)
  obtain c ks where ck: "p = (c, ks)" by force
  from leaf p(2) obtain j where j: "last_index_byte i CHR ''/'' = Some j" "parent = take j i"
    "drop (Suc j) i ! 0 = CHR ''f''" "2 \<le> length (drop (Suc j) i)" "atoi (drop 1 (drop (Suc j) i)) = Some idx"
    by (auto simp: parseLeaf_def Let_def not_less split: if_splits option.splits)
  from j(3,4) have "has_prefix (drop (Suc j) i) ''f''" by (cases "drop (Suc j) i") auto
  with j(5) p(3) have seg: "seg_index CHR ''f'' (drop (Suc j) i) (length (fst (deref (ss_cols s) p))) = Some k"
    by (auto simp: seg_index_def col_index_def checked_def in_range_def split: if_splits)
  have i: "i = take j i @ CHR ''/'' # drop (Suc j) i" "CHR ''/'' \<notin> set (drop (Suc j) i)"
    using split_last_slash [OF j(1)] by auto
  have "containerAtPtr (ss_cols s) i = Some (c, ks @ [k])"
    using containerAtPtr_extend [OF p(1) [unfolded ck j(2)] i(2), of k] seg i(1) ck by simp
  moreover from this have "ci = int c" using nodeCollectionIndex_ptr assms(2) by fastforce
  ultimately obtain fid' where "folderIDForContainer io i ci s = (fid', s)"
    using container_stable [of s i c "ks @ [k]" io] assms(3) by auto
  with assms(1) ne show False by simp
qed

lemma nodeCollectionIndex_parent:
  "parseLeaf i = Some (parent, kind, idx) \<Longrightarrow> kind \<noteq> CHR ''c'' \<Longrightarrow>
   nodeCollectionIndex parent = nodeCollectionIndex i"
  by (auto simp: parseLeaf_def Let_def nodeCollectionIndex_take split: if_splits option.splits)

lemma RestoreLastDeleted_Inr:
  assumes "RestoreLastDeleted io s = (Inr newID, s')" and "ss_lastDeleted s = Some d"
    and "containerByFolderID (ss_cols s) (dn_colIdx d) (dn_parentFolderID d) = Some p"
  shows "\<exists>x. s' = write_cols p (put_back (dn_index d) (dn_node d)) (s\<lparr>ss_lastDeleted := None\<rparr>)\<lparr>ss_disk := x\<rparr>"
proof -
  obtain fs rs where fr: "deref (ss_cols s) p = (fs, rs)" by force
  have valid_local: "write_cols p g (s\<lparr>ss_lastDeleted := None\<rparr>) = write_cols p h (s\<lparr>ss_lastDeleted := None\<rparr>)"
    if "g (fs, rs) = h (fs, rs)" "valid_ptr p (ss_cols s)" for g h
    using ptr.put_local [OF that(2), of g h] that(1) by (simp add: write_cols_def fr)
  show ?thesis
  proof (cases "dn_node d")
    case (Inl f)
    let ?i = "clampIndex (dn_index d) (length fs)"
    have "persistCollection io (dn_colIdx d) (write_cols p (\<lambda>(fs, rs). (insert_at ?i f fs, rs))
        (s\<lparr>ss_lastDeleted := None\<rparr>)) = (None, s')"
      using assms fr Inl by (simp add: RestoreLastDeleted_def Let_def ret_Inr parent_gone_def split: if_splits)
    from persistCollection_None [OF this] obtain x where
      "s' = write_cols p (\<lambda>(fs, rs). (insert_at ?i f fs, rs)) (s\<lparr>ss_lastDeleted := None\<rparr>)\<lparr>ss_disk := x\<rparr>"
      by blast
    then show ?thesis
      using valid_local [of "\<lambda>(fs, rs). (insert_at ?i f fs, rs)" "put_back (dn_index d) (dn_node d)"]
        containerByFolderID_valid [OF assms(3)] Inl by (auto simp: put_back_def)
  next
    case (Inr r)
    let ?i = "clampIndex (dn_index d) (length rs)"
    have "persistCollection io (dn_colIdx d) (write_cols p (\<lambda>(fs, rs). (fs, insert_at ?i r rs))
        (s\<lparr>ss_lastDeleted := None\<rparr>)) = (None, s')"
      using assms fr Inr by (simp add: RestoreLastDeleted_def Let_def ret_Inr parent_gone_def split: if_splits)
    from persistCollection_None [OF this] obtain x where
      "s' = write_cols p (\<lambda>(fs, rs). (fs, insert_at ?i r rs)) (s\<lparr>ss_lastDeleted := None\<rparr>)\<lparr>ss_disk := x\<rparr>"
      by blast
    then show ?thesis
      using valid_local [of "\<lambda>(fs, rs). (fs, insert_at ?i r rs)" "put_back (dn_index d) (dn_node d)"]
        containerByFolderID_valid [OF assms(3)] Inr by (auto simp: put_back_def)
  qed
qed

lemma put_back_remove:
  assumes "if isF then checked idx (fst fr) = Some k else checked idx (snd fr) = Some k"
  shows "put_back idx (if isF then Inl (fst fr ! k) else Inr (snd fr ! k)) (remove_node isF k fr) = fr"
proof -
  have k: "k = nat idx" "0 \<le> idx" "int k = idx" "if isF then k < length (fst fr) else k < length (snd fr)"
    using assms by (auto simp: checked_def in_range_def split: if_splits)
  then show ?thesis
    by (cases fr) (auto simp: put_back_def remove_node_def clampIndex_def split: if_splits)
qed

text \<open>
  C5 Undo restores: after a successful delete, \<open>RestoreLastDeleted\<close> gives back exactly the
  collections there were before, the node at its old place with its IDs, whenever the
  folder IDs of the collection are distinct and none is missing.
\<close>

theorem delete_then_restore:
  assumes "DeleteItem io nodeID s = (Inr (), s1)" and "RestoreLastDeleted io s1 = (Inr newID, s2)"
    and "ids_ok (ss_cols s ! nat (nodeCollectionIndex nodeID))"
  shows "ss_cols s2 = ss_cols s \<and> ss_lastDeleted s2 = None"
proof -
  let ?ci = "nodeCollectionIndex nodeID"
  from DeleteItem_Inr [OF assms(1)] obtain parent kind idx fid s0 p k x where
    leaf: "parseLeaf nodeID = Some (parent, kind, idx)" "kind \<noteq> CHR ''c''"
    and fid: "folderIDForContainer io parent ?ci s = (fid, s0)"
    and p: "containerAtPtr (ss_cols s0) parent = Some p"
    and k: "if kind = CHR ''f'' then checked idx (fst (deref (ss_cols s0) p)) = Some k
     else checked idx (snd (deref (ss_cols s0) p)) = Some k"
    and s1: "s1 = write_cols p (remove_node (kind = CHR ''f'') k)
        (s0\<lparr>ss_lastDeleted := Some \<lparr>dn_parentFolderID = (case fid of Some i \<Rightarrow> i | None \<Rightarrow> []),
           dn_index = idx, dn_colIdx = ?ci,
           dn_node = (if kind = CHR ''f'' then Inl (fst (deref (ss_cols s0) p) ! k)
                      else Inr (snd (deref (ss_cols s0) p) ! k))\<rparr>\<rparr>)\<lparr>ss_disk := x\<rparr>"
    by metis
  have ci: "?ci = nodeCollectionIndex parent" using nodeCollectionIndex_parent leaf by simp
  have s0: "s0 = s" using folderID_no_backfill [OF fid ci assms(3)] .
  obtain c ks where ck: "p = (c, ks)" by force
  have cc: "?ci = int c" using nodeCollectionIndex_ptr [OF p] ci ck by simp
  have v: "valid_ptr p (ss_cols s)" using p s0 by (auto intro: containerAtPtr_valid)
  have okc: "ids_ok (ss_cols s ! c)" using assms(3) cc by simp
  from container_stable [of s parent c ks io] p s0 ck okc fid cc
  have fid': "case fid of None \<Rightarrow> ks = [] | Some y \<Rightarrow> if ks = [] then y = []
      else y \<noteq> [] \<and> y = fo_ID (folder_at ks (co_Folders (ss_cols s ! c)))" by auto
  let ?rm = "remove_node (kind = CHR ''f'') k"
  let ?cols = "assign p ?rm (ss_cols s)"
  let ?fid = "case fid of Some i \<Rightarrow> i | None \<Rightarrow> []"
  have c1: "ss_cols s1 = ?cols" by (simp add: s1 s0 write_cols_def)
  have "ids_ok (?cols ! c)"
    using ids_ok_remove [OF v, of "kind = CHR ''f''" k] okc k s0 ck
    by (auto simp: checked_def in_range_def split: if_splits)
  moreover have "valid_ptr (c, ks) ?cols" using valid_ptr_assign [OF v] ck by simp
  moreover have "if ks = [] then ?fid = [] else ?fid \<noteq> [] \<and>
      ?fid = fo_ID (folder_at ks (co_Folders (?cols ! c)))"
  proof -
    have "fo_ID (folder_at ks (co_Folders (?cols ! c))) = fo_ID (folder_at ks (co_Folders (ss_cols s ! c)))"
      if "ks \<noteq> []"
      using assign_col [OF v, of ?rm] folder_at_put [of ks "col_container (ss_cols s ! c)" ?rm] that v ck
      by (simp add: col_container_def valid_ptr_def) (metis fst_conv)
    with fid' show ?thesis by (auto split: option.splits)
  qed
  ultimately have found: "containerByFolderID (ss_cols s1) ?ci ?fid = Some p"
    using containerByFolderID_path [of c ks ?cols ?fid] c1 cc ck by simp
  let ?d = "\<lparr>dn_parentFolderID = ?fid, dn_index = idx, dn_colIdx = ?ci,
      dn_node = (if kind = CHR ''f'' then Inl (fst (deref (ss_cols s) p) ! k)
                 else Inr (snd (deref (ss_cols s) p) ! k))\<rparr>"
  have "ss_lastDeleted s1 = Some ?d" by (simp add: s1 s0 write_cols_def)
  from RestoreLastDeleted_Inr [OF assms(2) this] found obtain y where
    s2: "s2 = write_cols p (put_back idx (dn_node ?d)) (s1\<lparr>ss_lastDeleted := None\<rparr>)\<lparr>ss_disk := y\<rparr>"
    by auto
  have "put_back idx (dn_node ?d) (?rm (deref (ss_cols s) p)) = deref (ss_cols s) p"
    using put_back_remove [of "kind = CHR ''f''" idx "deref (ss_cols s) p" k] k s0
    by (cases "kind = CHR ''f''") simp_all
  then have "assign p (put_back idx (dn_node ?d)) (assign p ?rm (ss_cols s)) = ss_cols s"
    by (intro ptr.put_undo [OF v])
  then show ?thesis by (simp add: s2 c1 write_cols_def)
qed

definition sample_req :: "string \<Rightarrow> string \<Rightarrow> request" where
  "sample_req i n = zero_request\<lparr>rq_ID := i, rq_Name := n\<rparr>"

definition sample_col :: collection where
  "sample_col = zero_collection\<lparr>co_Name := ''API'',
     co_Folders := [Folder ''F1'' ''Auth'' [] [sample_req ''R1'' ''Login'', sample_req ''R2'' ''Logout'']
                      (auth_of_type []) []],
     co_Requests := [(sample_req ''R3'' ''Home'')\<lparr>rq_Chain :=
        [\<lparr>cs_Alias = ''a'', cs_Request = ''Auth/Login'', cs_RequestID = []\<rparr>]\<rparr>]\<rparr>"

definition sample_io :: "unit session_io" where
  "sample_io = \<lparr>io_Load = (\<lambda>d dir. Inl ''missing''), io_Save = (\<lambda>c dir d. (None, d)),
     io_SaveConfig = (\<lambda>path c d. (None, d)), io_ReadDotEnv = (\<lambda>d dir. None), io_NewID = (\<lambda>n. ''id'' @ nat_digits n)\<rparr>"

definition sample_session :: "unit session" where
  "sample_session = \<lparr>ss_cfgPath = [], ss_cfg = Default, ss_cols = [sample_col], ss_dirs = [''/api''],
     ss_activeCol = 0, ss_activeEnv = Map.empty, ss_loadErrs = [], ss_overlay = [], ss_dotEnv = Map.empty,
     ss_lastDeleted = None, ss_ids = 0, ss_disk = ()\<rparr>"

theorem delete_then_restore_witness:
  "let s1 = snd (DeleteItem sample_io ''0/f0/r0'' sample_session)
   in ss_cols (snd (RestoreLastDeleted sample_io s1)) = [sample_col]"
proof -
  let ?s1 = "snd (DeleteItem sample_io ''0/f0/r0'' sample_session)"
  have "fst (DeleteItem sample_io ''0/f0/r0'' sample_session) = Inr ()" by code_simp
  then have d: "DeleteItem sample_io ''0/f0/r0'' sample_session = (Inr (), ?s1)"
    by (simp add: prod_eq_iff)
  have "fst (RestoreLastDeleted sample_io ?s1) = Inr ''0/f0/r0''" by code_simp
  then have r: "RestoreLastDeleted sample_io ?s1 = (Inr ''0/f0/r0'', snd (RestoreLastDeleted sample_io ?s1))"
    by (simp add: prod_eq_iff)
  have "ids_ok (ss_cols sample_session ! nat (nodeCollectionIndex ''0/f0/r0''))" by code_simp
  from delete_then_restore [OF d r this] show ?thesis by (simp add: sample_session_def)
qed

section \<open>Moving\<close>

definition node_requests :: "folder + request \<Rightarrow> request multiset" where
  "node_requests node = (case node of Inl f \<Rightarrow> mset (folder_requests f) | Inr r \<Rightarrow> {#r#})"

lemma mset_insert_at [simp]: "mset (insert_at i x xs) = add_mset x (mset xs)"
proof -
  have "mset xs = mset (take i xs) + mset (drop i xs)" by (metis append_take_drop_id mset_append)
  then show ?thesis by (simp add: insert_at_def)
qed

lemma mset_delete_at: "k < length xs \<Longrightarrow> mset xs = add_mset (xs ! k) (mset (delete_at k xs))"
  using mset_concat_delete [of k xs "\<lambda>x. [x]"] by (simp del: map_delete_at)

lemma mset_concat_insert_at:
  "mset (concat (map f (insert_at i x xs))) = mset (concat (map f xs)) + mset (f x)"
proof -
  have "mset (concat (map f xs)) = mset (concat (map f (take i xs))) + mset (concat (map f (drop i xs)))"
    by (metis append_take_drop_id concat_append map_append mset_append)
  then show ?thesis by (simp add: insert_at_def)
qed

lemma mtree_insert_node: "mtree (insert_node i node fr) = mtree fr + node_requests node"
  by (cases fr; cases node)
    (simp_all add: insert_node_def mtree_def tree_requests_def node_requests_def mset_concat_insert_at
      del: map_insert_at)

definition unchained :: "request \<Rightarrow> request" where
  "unchained r = r\<lparr>rq_Chain := []\<rparr>"

lemma unchained_rewrite: "map unchained (rewriteRequests old new b rs) = map unchained rs"
  by (simp add: rewriteRequests_def unchained_def)

lemma unchained_folder: "map unchained (folder_requests (rewriteFolder old new b f)) = map unchained (folder_requests f)"
proof (induction old new b f rule: rewriteFolder.induct)
  case (1 old new b i n fs rs a vs)
  then show ?case by (simp add: unchained_rewrite map_concat comp_def cong: map_cong)
qed

lemma unchained_cascade:
  "image_mset unchained (mtree (col_container (cascadeChainRefs old new b c))) =
   image_mset unchained (mtree (col_container c))"
proof -
  have "map unchained (concat (map folder_requests (map (rewriteFolder old new b) (co_Folders c)))) =
      map unchained (concat (map folder_requests (co_Folders c)))"
    by (simp add: map_concat comp_def unchained_folder)
  then have "mset (map unchained (concat (map folder_requests (map (rewriteFolder old new b) (co_Folders c)))))
      = mset (map unchained (concat (map folder_requests (co_Folders c))))" by simp
  moreover have "mset (map unchained (rewriteRequests old new b (co_Requests c))) =
      mset (map unchained (co_Requests c))" by (simp only: unchained_rewrite)
  ultimately show ?thesis
    by (simp add: mtree_def col_container_def cascadeChainRefs_def tree_requests_def
        del: map_map mset_map flip: mset_map)
qed

lemma take_node_Inr:
  assumes "take_node io srcID parent kind idx s = (Inr node, s')"
    and ids: "\<forall>r\<in>#mtree (col_container (ss_cols s ! nat (nodeCollectionIndex parent))). rq_ID r \<noteq> []"
  shows "\<exists>p g. containerAtPtr (ss_cols s) parent = Some p \<and> ss_cols s' = assign p g (ss_cols s) \<and>
    mtree (g (deref (ss_cols s) p)) + node_requests node = mtree (deref (ss_cols s) p)"
proof -
  from assms(1) obtain p where p: "containerAtPtr (ss_cols s) parent = Some p"
    by (auto simp: take_node_def split: option.splits)
  obtain fs rs where fr: "deref (ss_cols s) p = (fs, rs)" by force
  have ci: "nat (nodeCollectionIndex parent) = fst p" using nodeCollectionIndex_ptr [OF p] by simp
  show ?thesis
  proof (cases "kind = CHR ''f''")
    case True
    with assms(1) p fr obtain k where k: "checked idx fs = Some k"
      by (auto simp: take_node_def split: option.splits)
    then have "k < length fs" by (auto simp: checked_def in_range_def split: if_splits)
    then have "mset (concat (map folder_requests fs)) =
        mset (concat (map folder_requests (delete_at k fs))) + mset (folder_requests (fs ! k))"
      by (rule mset_concat_delete)
    moreover have "node_requests node = mset (folder_requests (fs ! k))"
      using assms(1) p fr True k
      by (auto simp: take_node_def Let_def NewID_def node_requests_def folder_requests_sel
          split: if_splits prod.splits)
    moreover have "ss_cols s' = assign p (\<lambda>(fs, rs). (delete_at k fs, rs)) (ss_cols s)"
      using assms(1) p fr True k
      by (auto simp: take_node_def Let_def NewID_def write_cols_def split: if_splits)
    ultimately show ?thesis
      using p fr by (intro exI [of _ p] exI [of _ "\<lambda>(fs, rs). (delete_at k fs, rs)"])
        (simp add: mtree_def tree_requests_def del: map_delete_at)
  next
    case False
    with assms(1) p fr obtain k where k: "checked idx rs = Some k"
      by (auto simp: take_node_def split: option.splits)
    then have kr: "k < length rs" by (auto simp: checked_def in_range_def split: if_splits)
    then have "rs ! k \<in># mtree (deref (ss_cols s) p)" by (simp add: fr mtree_def tree_requests_def)
    then have "rs ! k \<in># mtree (col_container (ss_cols s ! fst p))"
      using mtree_assign [OF containerAtPtr_valid [OF p], of "\<lambda>_. ([], [])"]
      by (metis (no_types, lifting) add_0_right fst_conv list.simps(8) concat.simps(1) mset.simps(1)
          mset_append mtree_def snd_conv tree_requests_def union_iff append_Nil)
    with ids ci have "rq_ID (rs ! k) \<noteq> []" by simp
    then have "node = Inr (rs ! k) \<and> ss_cols s' = assign p (\<lambda>(fs, rs). (fs, delete_at k rs)) (ss_cols s)"
      using assms(1) p fr False k by (auto simp: take_node_def Let_def write_cols_def)
    with mset_delete_at [OF kr] p fr show ?thesis
      by (intro exI [of _ p] exI [of _ "\<lambda>(fs, rs). (fs, delete_at k rs)"])
        (simp add: mtree_def tree_requests_def node_requests_def)
  qed
qed

lemma folderID_requests:
  assumes "folderIDForContainer io i ci s = (fid, s')" and "ci = nodeCollectionIndex i"
    and "in_range ci (ss_cols s)"
  shows "length (ss_cols s') = length (ss_cols s) \<and>
    mtree (col_container (ss_cols s' ! nat ci)) = mtree (col_container (ss_cols s ! nat ci)) \<and>
    (\<forall>j. j \<noteq> nat ci \<longrightarrow> ss_cols s' ! j = ss_cols s ! j)"
proof (cases "s' = s")
  case False
  with assms(1) obtain parent kind idx where leaf: "parseLeaf i = Some (parent, kind, idx)"
    by (auto simp: folderIDForContainer_def split: if_splits option.splits)
  with assms(1) False obtain p k where p: "containerAtPtr (ss_cols s) parent = Some p"
    "kind = CHR ''f''" "checked idx (fst (deref (ss_cols s) p)) = Some k"
    by (auto simp: folderIDForContainer_def split: if_splits option.splits)
  then obtain x where s': "ss_cols s' = assign p (\<lambda>(fs, rs). (fs[k := set_fo_ID x (fs ! k)], rs)) (ss_cols s)"
    using assms(1) False leaf
    by (auto simp: folderIDForContainer_def Let_def NewID_def write_cols_def split: if_splits)
  have k: "k < length (fst (deref (ss_cols s) p))"
    using p(3) by (auto simp: checked_def in_range_def split: if_splits)
  obtain fs rs where fr: "deref (ss_cols s) p = (fs, rs)" by force
  have "folder_requests (set_fo_ID x (fs ! k)) = map folder_requests fs ! k"
    using k by (cases "fs ! k") (simp add: fr)
  then have "map folder_requests (fs[k := set_fo_ID x (fs ! k)]) = map folder_requests fs"
    by (simp add: map_update)
  then have "mtree (fs[k := set_fo_ID x (fs ! k)], rs) = mtree (fs, rs)"
    by (simp add: mtree_def tree_requests_def)
  moreover have "nat ci = fst p"
    using nodeCollectionIndex_ptr [OF p(1)] nodeCollectionIndex_parent [OF leaf] p(2) assms(2) by simp
  ultimately show ?thesis
    using mtree_assign [OF containerAtPtr_valid [OF p(1)], of "\<lambda>(fs, rs). (fs[k := set_fo_ID x (fs ! k)], rs)"]
      assign_col [OF containerAtPtr_valid [OF p(1)]] s' fr by simp
qed simp

definition requests_of :: "collection list \<Rightarrow> nat \<Rightarrow> request multiset" where
  "requests_of cols c = mtree (col_container (cols ! c))"

lemma cascade_at_requests:
  "image_mset unchained (requests_of (ss_cols (cascade_at ci old new b s)) c) =
     image_mset unchained (requests_of (ss_cols s) c)
   \<and> length (ss_cols (cascade_at ci old new b s)) = length (ss_cols s)"
proof (cases "in_range ci (ss_cols s)")
  case True
  then show ?thesis
    by (cases "c = nat ci")
      (auto simp: cascade_at_def requests_of_def in_range_def unchained_cascade nth_list_update)
qed (simp add: cascade_at_def)

lemma cascade_move_requests:
  "image_mset unchained (requests_of (ss_cols (cascade_move ci old nid b s)) c) =
     image_mset unchained (requests_of (ss_cols s) c)
   \<and> length (ss_cols (cascade_move ci old nid b s)) = length (ss_cols s)"
  by (simp add: cascade_move_def Let_def cascade_at_requests)

text \<open>
  C4 A move loses nothing and duplicates nothing: after a successful \<open>MoveNode\<close> the
  collection holds the same requests as before, each as often and unchanged up to its
  rewritten chain references, and the number of loaded collections is the same.
\<close>

theorem MoveNode_conserves:
  assumes "MoveNode io srcID dstParentID index s = (Inr newID, s')"
    and "\<forall>r\<in>#requests_of (ss_cols s) (nat (nodeCollectionIndex srcID)). rq_ID r \<noteq> []"
  shows "image_mset unchained (requests_of (ss_cols s') (nat (nodeCollectionIndex srcID))) =
      image_mset unchained (requests_of (ss_cols s) (nat (nodeCollectionIndex srcID)))
    \<and> length (ss_cols s') = length (ss_cols s)"
proof -
  let ?ci = "nodeCollectionIndex srcID"
  from assms(1) obtain parent kind idx where leaf: "parseLeaf srcID = Some (parent, kind, idx)"
    by (auto simp: MoveNode_def split: option.splits)
  from assms(1) leaf have pre: "kind \<noteq> CHR ''c''" "in_range ?ci (ss_cols s)"
    "nodeCollectionIndex dstParentID = ?ci"
    "\<not> (dstParentID = srcID \<or> has_prefix dstParentID (srcID @ ''/''))"
    by (auto simp: MoveNode_def Let_def split: if_splits)
  obtain fid s1 where f: "folderIDForContainer io dstParentID ?ci s = (fid, s1)" by force
  with assms(1) leaf pre obtain dst where dst: "fid = Some dst"
    by (cases fid) (simp_all add: MoveNode_def Let_def)
  obtain tn s2 where t: "take_node io srcID parent kind idx s1 = (tn, s2)" by force
  with assms(1) leaf pre f dst obtain node where node: "tn = Inr node"
    by (cases tn) (simp_all add: MoveNode_def Let_def)
  let ?index = "if parent = dstParentID \<and> idx < index then index - 1 else index"
  from assms(1) leaf pre f dst t node obtain p where p: "containerByFolderID (ss_cols s2) ?ci dst = Some p"
    by (cases "containerByFolderID (ss_cols s2) ?ci dst") (simp_all add: MoveNode_def Let_def)
  let ?s3 = "write_cols p (insert_node ?index node) s2"
  have "persistCollection io ?ci (cascade_move ?ci (nodeNamePath (ss_cols s1) srcID) newID (kind = CHR ''f'') ?s3) = (None, s')"
    using assms(1) leaf pre f dst t node p by (auto simp: MoveNode_def Let_def ret_Inr)
  from persistCollection_None [OF this] have fin: "ss_cols s' =
      ss_cols (cascade_move ?ci (nodeNamePath (ss_cols s1) srcID) newID (kind = CHR ''f'') ?s3)"
    by auto
  have r1: "requests_of (ss_cols s1) (nat ?ci) = requests_of (ss_cols s) (nat ?ci)"
    "length (ss_cols s1) = length (ss_cols s)"
    using folderID_requests [OF f] pre by (simp_all add: requests_of_def)
  have par: "nodeCollectionIndex parent = ?ci" using nodeCollectionIndex_parent [OF leaf pre(1)] .
  from take_node_Inr [OF t [unfolded node]] assms(2) r1(1) obtain q g where
    q: "containerAtPtr (ss_cols s1) parent = Some q" "ss_cols s2 = assign q g (ss_cols s1)"
    "mtree (g (deref (ss_cols s1) q)) + node_requests node = mtree (deref (ss_cols s1) q)"
    unfolding requests_of_def par by auto
  have qc: "fst q = nat ?ci" using nodeCollectionIndex_ptr [OF q(1)] par by simp
  have vq: "valid_ptr q (ss_cols s1)" by (rule containerAtPtr_valid [OF q(1)])
  let ?G = "mtree (g (deref (ss_cols s1) q))"
  have "requests_of (ss_cols s2) (nat ?ci) + (?G + node_requests node) =
      requests_of (ss_cols s1) (nat ?ci) + ?G"
    using mtree_assign [OF vq, of g] q(2) qc unfolding requests_of_def q(3) by simp
  then have "(requests_of (ss_cols s2) (nat ?ci) + node_requests node) + ?G =
      requests_of (ss_cols s1) (nat ?ci) + ?G"
    by (simp only: ac_simps)
  then have "requests_of (ss_cols s2) (nat ?ci) + node_requests node = requests_of (ss_cols s1) (nat ?ci)"
    by (rule add_right_imp_eq)
  moreover have pc: "fst p = nat ?ci" using p by (auto simp: containerByFolderID_def split: if_splits)
  moreover have "requests_of (ss_cols ?s3) (nat ?ci) = requests_of (ss_cols s2) (nat ?ci) + node_requests node"
    using mtree_assign [OF containerByFolderID_valid [OF p], of "insert_node ?index node"] pc
    by (simp add: requests_of_def write_cols_def mtree_insert_node)
  moreover have "length (ss_cols ?s3) = length (ss_cols s)"
    using assign_col [OF containerByFolderID_valid [OF p]] assign_col [OF vq] q(2) r1(2)
    by (simp add: write_cols_def)
  ultimately show ?thesis
    using cascade_move_requests [of ?ci "nodeNamePath (ss_cols s1) srcID" newID "kind = CHR ''f''" ?s3 "nat ?ci"]
      r1(1) fin by simp
qed

theorem MoveNode_conserves_witness:
  "image_mset unchained (requests_of (ss_cols (snd (MoveNode sample_io ''0/f0/r0'' ''0'' 0 sample_session))) 0) =
   image_mset unchained (requests_of [sample_col] 0)"
proof -
  let ?r = "MoveNode sample_io ''0/f0/r0'' ''0'' 0 sample_session"
  have "fst ?r = Inr ''0/r0''" by code_simp
  then have r: "?r = (Inr ''0/r0'', snd ?r)" by (simp add: prod_eq_iff)
  have ci: "nodeCollectionIndex ''0/f0/r0'' = 0" by code_simp
  have "\<forall>r\<in>#requests_of (ss_cols sample_session) (nat (nodeCollectionIndex ''0/f0/r0'')). rq_ID r \<noteq> []"
    unfolding ci by (simp add: requests_of_def sample_session_def sample_col_def col_container_def mtree_def
        tree_requests_def sample_req_def)
  from MoveNode_conserves [OF r this] show ?thesis by (simp add: ci sample_session_def)
qed

end
