(* ===== verification/ItemIds.thy ===== *)
theory ItemIds
  imports ItemProps
begin

text \<open>
  Three more properties of the item operations: the ID searches against the tree's own
  addressing, fresh copies, and the rewriting of chain references as paths.
\<close>

section \<open>Searches and addresses\<close>

lemma first_index_Some: "first_index P xs = Some i \<Longrightarrow> i < length xs \<and> P (xs ! i)"
  by (induction xs arbitrary: i) (auto split: if_splits)

lemma first_index_None: "first_index P xs = None \<longleftrightarrow> (\<forall>x\<in>set xs. \<not> P x)"
  by (induction xs) auto

lemma request_in_sound:
  assumes "containerAt cols pre = Some (fs, rs)" and "go_sized cols"
    and "request_in CHR ''r'' mid pre rs = Some i"
  shows "\<exists>r. Tree_Request cols i = Some r \<and> rq_ID r = mid"
  using assms Tree_Request_child [OF assms(1) _ assms(2)]
  by (auto simp: request_in_def child_id_def dest!: first_index_Some)

lemma node_in_sound:
  assumes "go_sized cols" and "node_in CHR ''r'' mid pre k fs = Some i"
    and "containerAt cols pre = Some (pf @ fs, rs0)" and "k = length pf"
  shows "\<exists>r. Tree_Request cols i = Some r \<and> rq_ID r = mid"
  using assms
proof (induction "CHR ''r''" mid pre k fs arbitrary: pf rs0 rule: node_in.induct)
  case (2 mid pre k i' n fs rs a vs rest)
  let ?nid = "child_id pre CHR ''f'' k"
  have c: "containerAt cols ?nid = Some (fs, rs)"
    using containerAt_folder [OF "2.prems"(3) _ "2.prems"(1), of k] "2.prems"(4)
    by (simp add: child_id_def nth_append)
  show ?case
  proof (cases "request_in CHR ''r'' mid ?nid rs")
    case (Some x)
    with "2.prems"(2) request_in_sound [OF c "2.prems"(1) Some] show ?thesis by (simp add: Let_def)
  next
    case None
    show ?thesis
    proof (cases "node_in CHR ''r'' mid ?nid 0 fs")
      case (Some x)
      with "2.prems"(2) None have x: "node_in CHR ''r'' mid ?nid 0 fs = Some i" by (simp add: Let_def)
      show ?thesis
        by (rule "2.hyps"(1) [OF refl _ None "2.prems"(1) x, of "[]" rs]) (simp_all add: c)
    next
      case None': None
      with "2.prems"(2) None have r: "node_in CHR ''r'' mid pre (Suc k) rest = Some i"
        by (simp add: Let_def)
      show ?thesis
        by (rule "2.hyps"(2) [OF refl _ None None' "2.prems"(1) r,
              of "pf @ [Folder i' n fs rs a vs]" rs0])
          (simp_all add: "2.prems")
    qed
  qed
qed simp

lemma node_in_complete:
  "node_in CHR ''r'' mid pre k fs = None \<Longrightarrow> mid \<notin> rq_ID ` set (concat (map folder_requests fs))"
proof (induction "CHR ''r''" mid pre k fs rule: node_in.induct)
  case (2 mid pre k i' n fs rs a vs rest)
  then show ?case
    by (auto simp: Let_def request_in_def first_index_None split: option.splits)
qed simp

lemma Tree_Request_Nil: "Tree_Request cols [] = None"
  by (simp add: Tree_Request_def parentID_def containerAt_def col_index_def atoi_def)

text \<open>
  The stable-ID search and the positional addresses agree: \<open>nodeIDOfModel\<close> finds a request
  ID exactly when the collection has such a request, and the node ID it returns addresses a
  request with that ID in the tree.
\<close>

theorem nodeIDOfModel_addresses:
  assumes "go_sized cols" and "ci < length cols"
  shows "(case nodeIDOfModel cols (int ci) CHR ''r'' mid of
      [] \<Rightarrow> mid \<notin> rq_ID ` set (col_requests (cols ! ci))
    | i \<Rightarrow> map_option rq_ID (Tree_Request cols i) = Some mid)"
proof -
  let ?c = "cols ! ci" and ?root = "itoa (int ci)"
  have root: "containerAt cols ?root = Some (co_Folders ?c, co_Requests ?c)"
    by (rule containerAt_col [OF assms(2,1)])
  have rng: "in_range (int ci) cols" using assms(2) by (simp add: in_range_def)
  show ?thesis
  proof (cases "request_in CHR ''r'' mid ?root (co_Requests ?c)")
    case (Some i)
    from request_in_sound [OF root assms(1) Some] obtain r where
      "Tree_Request cols i = Some r" "rq_ID r = mid" by auto
    with Some rng show ?thesis
      by (auto simp: nodeIDOfModel_def request_in_def child_id_def simp del: itoa_nat split: list.split)
  next
    case None
    then have n: "\<forall>r\<in>set (co_Requests ?c). rq_ID r \<noteq> mid"
      by (simp add: request_in_def first_index_None)
    show ?thesis
    proof (cases "node_in CHR ''r'' mid ?root 0 (co_Folders ?c)")
      case (Some i)
      from node_in_sound [OF assms(1) Some, of "[]"] root obtain r where
        r: "Tree_Request cols i = Some r" "rq_ID r = mid" by auto
      then have "i \<noteq> []" by (auto simp: Tree_Request_Nil)
      with None Some rng r show ?thesis
        by (auto simp: nodeIDOfModel_def simp del: itoa_nat split: list.split)
    next
      case None': None
      then have "mid \<notin> rq_ID ` set (concat (map folder_requests (co_Folders ?c)))"
        using node_in_complete by blast
      with n have "mid \<notin> rq_ID ` set (col_requests ?c)"
        by (auto simp: col_requests_def tree_requests_def)
      with None None' rng show ?thesis by (simp add: nodeIDOfModel_def del: itoa_nat)
    qed
  qed
qed

lemma sample_sized: "go_sized [sample_col]"
  by code_simp

theorem nodeIDOfModel_addresses_witness:
  "map_option rq_ID (Tree_Request [sample_col] (nodeIDOfModel [sample_col] 0 CHR ''r'' ''R2'')) = Some ''R2''"
proof -
  have "nodeIDOfModel [sample_col] 0 CHR ''r'' ''R2'' = ''0/f0/r1''" by code_simp
  with nodeIDOfModel_addresses [OF sample_sized, of 0 "''R2''"] show ?thesis by simp
qed

section \<open>Fresh copies\<close>

definition content :: "request \<Rightarrow> request" where
  "content r = r\<lparr>rq_ID := [], rq_Name := []\<rparr>"

lemma copy_requests_props:
  "copy_requests gen n rs = (rs', n') \<Longrightarrow>
   n' = n + length rs \<and> map rq_ID rs' = map gen [n..<n'] \<and> map content rs' = map content rs"
proof (induction gen n rs arbitrary: rs' n' rule: copy_requests.induct)
  case (2 gen n r rs)
  obtain rs1 n1 where "copy_requests gen (Suc n) rs = (rs1, n1)" by force
  with 2 show ?case
    by (auto simp: deepCopyRequest_def content_def upt_conv_Cons)
qed simp

lemma copy_folder_props:
  "deepCopyFolder gen n f = (f', n') \<Longrightarrow>
     n \<le> n' \<and> rq_ID ` set (folder_requests f') \<subseteq> gen ` {n..<n'} \<and>
     set (folder_ids f') \<subseteq> gen ` {n..<n'} \<and>
     map content (folder_requests f') = map content (folder_requests f)"
  "copy_folders gen n fs = (fs', n') \<Longrightarrow>
     n \<le> n' \<and> rq_ID ` set (concat (map folder_requests fs')) \<subseteq> gen ` {n..<n'} \<and>
     set (concat (map folder_ids fs')) \<subseteq> gen ` {n..<n'} \<and>
     map content (concat (map folder_requests fs')) = map content (concat (map folder_requests fs))"
proof (induction gen n f and gen n fs arbitrary: f' n' and fs' n' rule: deepCopyFolder_copy_folders.induct)
  case (1 gen n i nm fs rs a vs)
  obtain rs1 n1 where r: "copy_requests gen (Suc n) rs = (rs1, n1)" by force
  obtain fs1 n2 where f: "copy_folders gen n1 fs = (fs1, n2)" by force
  have f': "f' = Folder (gen n) nm fs1 rs1 a vs" "n' = n2" using "1.prems" r f by auto
  note rp = copy_requests_props [OF r]
  note fp = "1.IH" [OF r [symmetric] refl f]
  have fp1: "rq_ID ` set (concat (map folder_requests fs1)) \<subseteq> gen ` {n1..<n2}"
    and fp2: "set (concat (map folder_ids fs1)) \<subseteq> gen ` {n1..<n2}" using fp by blast+
  have ids: "rq_ID ` set rs1 = gen ` {Suc n..<n1}" and le: "Suc n \<le> n1" "n1 \<le> n2"
    using rp fp by (metis atLeastLessThan_upt set_map, simp, blast)
  have sub: "gen ` {Suc n..<n1} \<subseteq> gen ` {n..<n2}" "gen ` {n1..<n2} \<subseteq> gen ` {n..<n2}"
    by (rule image_mono, use le in auto)+
  have mem: "gen n \<in> gen ` {n..<n2}" using le by auto
  have "rq_ID ` set (folder_requests f') = rq_ID ` set rs1 \<union> rq_ID ` set (concat (map folder_requests fs1))"
    "set (folder_ids f') = insert (gen n) (set (concat (map folder_ids fs1)))"
    unfolding f' by auto
  then have "rq_ID ` set (folder_requests f') \<subseteq> gen ` {n..<n2}" "set (folder_ids f') \<subseteq> gen ` {n..<n2}"
    using ids sub mem order_trans [OF fp1 sub(2)] order_trans [OF fp2 sub(2)]
    by (simp_all only: Un_subset_iff insert_subset simp_thms)
  moreover have "map content (folder_requests f') = map content (folder_requests (Folder i nm fs rs a vs))"
    unfolding f' using rp fp by simp
  ultimately show ?case using le f'(2) by simp
next
  case (3 gen n f fs)
  obtain f1 n1 where f: "deepCopyFolder gen n f = (f1, n1)" by force
  obtain fs1 n2 where fs: "copy_folders gen n1 fs = (fs1, n2)" by force
  have e: "fs' = f1 # fs1" "n' = n2" using "3.prems" f fs by auto
  note a = "3.IH"(1) [OF f] and b = "3.IH"(2) [OF f [symmetric] refl fs]
  have le: "n \<le> n1" "n1 \<le> n2" using a b by blast+
  have a1: "rq_ID ` set (folder_requests f1) \<subseteq> gen ` {n..<n1}"
    and a2: "set (folder_ids f1) \<subseteq> gen ` {n..<n1}" using a by blast+
  have b1: "rq_ID ` set (concat (map folder_requests fs1)) \<subseteq> gen ` {n1..<n2}"
    and b2: "set (concat (map folder_ids fs1)) \<subseteq> gen ` {n1..<n2}" using b by blast+
  have sub: "gen ` {n..<n1} \<subseteq> gen ` {n..<n2}" "gen ` {n1..<n2} \<subseteq> gen ` {n..<n2}"
    by (rule image_mono, use le in auto)+
  have "rq_ID ` set (concat (map folder_requests fs')) =
      rq_ID ` set (folder_requests f1) \<union> rq_ID ` set (concat (map folder_requests fs1))"
    "set (concat (map folder_ids fs')) = set (folder_ids f1) \<union> set (concat (map folder_ids fs1))"
    unfolding e by auto
  then have "rq_ID ` set (concat (map folder_requests fs')) \<subseteq> gen ` {n..<n2}"
    "set (concat (map folder_ids fs')) \<subseteq> gen ` {n..<n2}"
    using sub order_trans [OF a1 sub(1)] order_trans [OF a2 sub(1)]
      order_trans [OF b1 sub(2)] order_trans [OF b2 sub(2)]
    by (simp_all only: Un_subset_iff simp_thms)
  moreover have "map content (concat (map folder_requests fs')) =
      map content (concat (map folder_requests (f # fs)))"
    unfolding e using a b by simp
  ultimately show ?case using le e(2) by simp
qed simp

lemma requests_of_write:
  "valid_ptr p (ss_cols s) \<Longrightarrow>
   requests_of (ss_cols (write_cols p g s)) (fst p) + mtree (deref (ss_cols s) p) =
   requests_of (ss_cols s) (fst p) + mtree (g (deref (ss_cols s) p))"
  by (simp add: requests_of_def write_cols_def mtree_assign)

text \<open>
  A duplicate is a copy with fresh identities: the collection keeps every request it had
  and gains copies of the duplicated node's requests, equal to them up to ID and name, whose
  IDs are all new draws.
\<close>

theorem DuplicateItem_fresh:
  assumes "DuplicateItem io nodeID s = (Inr newID, s')"
  shows "\<exists>orig copies. requests_of (ss_cols s') (nat (nodeCollectionIndex nodeID)) =
      requests_of (ss_cols s) (nat (nodeCollectionIndex nodeID)) + mset copies
    \<and> map content copies = map content orig
    \<and> set orig \<subseteq> set_mset (requests_of (ss_cols s) (nat (nodeCollectionIndex nodeID)))
    \<and> rq_ID ` set copies \<subseteq> io_NewID io ` {ss_ids s..<ss_ids s'}"
proof -
  from assms obtain parent kind idx where leaf: "parseLeaf nodeID = Some (parent, kind, idx)" "kind \<noteq> CHR ''c''"
    by (auto simp: DuplicateItem_def split: option.splits if_splits)
  with assms obtain p where p: "containerAtPtr (ss_cols s) parent = Some p"
    by (cases "containerAtPtr (ss_cols s) parent") (simp_all add: DuplicateItem_def)
  obtain fs rs where fr: "deref (ss_cols s) p = (fs, rs)" by force
  have ci: "nat (nodeCollectionIndex nodeID) = fst p"
    using nodeCollectionIndex_ptr [OF p] nodeCollectionIndex_parent [OF leaf] by simp
  have v: "valid_ptr p (ss_cols s)" by (rule containerAtPtr_valid [OF p])
  have below: "mtree (fs, rs) \<subseteq># requests_of (ss_cols s) (fst p)"
    using mtree_assign [OF v, of "\<lambda>_. ([], [])"] unfolding requests_of_def fr
    by (simp add: mtree_def tree_requests_def) (metis mset_subset_eq_add_right)
  show ?thesis
  proof (cases "kind = CHR ''f''")
    case True
    with assms leaf p fr obtain k where k: "checked idx fs = Some k"
      by (cases "checked idx fs") (simp_all add: DuplicateItem_def)
    then have kl: "k < length fs" by (auto simp: checked_def in_range_def split: if_splits)
    obtain cp n where cp: "deepCopyFolder (io_NewID io) (ss_ids s) (fs ! k) = (cp, n)" by force
    let ?cp = "set_fo_Name (fo_Name (fs ! k) @ copy_suffix) cp"
    let ?s1 = "write_cols p (\<lambda>(fs, rs). (insert_at (Suc k) ?cp fs, rs)) (s\<lparr>ss_ids := n\<rparr>)"
    have "persistCollection io (nodeCollectionIndex nodeID) ?s1 = (None, s')"
      using assms leaf p fr True k cp by (simp add: DuplicateItem_def ret_Inr)
    from persistCollection_None [OF this] have s': "ss_cols s' = ss_cols ?s1" "ss_ids s' = n"
      by (auto simp: write_cols_def)
    have fc: "folder_requests ?cp = folder_requests cp" by (cases cp) simp
    have "requests_of (ss_cols ?s1) (fst p) + mtree (fs, rs) =
        (requests_of (ss_cols s) (fst p) + mset (folder_requests cp)) + mtree (fs, rs)"
      using requests_of_write [of p "s\<lparr>ss_ids := n\<rparr>" "\<lambda>(fs, rs). (insert_at (Suc k) ?cp fs, rs)"] v
      by (simp add: fr mtree_def tree_requests_def mset_concat_insert_at fc ac_simps del: map_insert_at)
    then have "requests_of (ss_cols s') (fst p) = requests_of (ss_cols s) (fst p) + mset (folder_requests cp)"
      unfolding s' by (rule add_right_imp_eq)
    moreover have "set (folder_requests (fs ! k)) \<subseteq> set_mset (requests_of (ss_cols s) (fst p))"
    proof -
      have "set (folder_requests (fs ! k)) \<subseteq> set_mset (mtree (fs, rs))"
        using kl by (auto simp: mtree_def tree_requests_def)
      then show ?thesis using set_mset_mono [OF below] by simp
    qed
    ultimately show ?thesis
      using copy_folder_props(1) [OF cp] ci s'(2)
      by (intro exI [of _ "folder_requests (fs ! k)"] exI [of _ "folder_requests cp"]) simp
  next
    case False
    with assms leaf p fr obtain k where k: "checked idx rs = Some k"
      by (cases "checked idx rs") (simp_all add: DuplicateItem_def)
    then have kl: "k < length rs" by (auto simp: checked_def in_range_def split: if_splits)
    let ?cp = "(rs ! k)\<lparr>rq_ID := io_NewID io (ss_ids s), rq_Name := rq_Name (rs ! k) @ copy_suffix\<rparr>"
    let ?s1 = "write_cols p (\<lambda>(fs, rs). (fs, insert_at (Suc k) ?cp rs)) (s\<lparr>ss_ids := Suc (ss_ids s)\<rparr>)"
    have "persistCollection io (nodeCollectionIndex nodeID) ?s1 = (None, s')"
      using assms leaf p fr False k by (simp add: DuplicateItem_def deepCopyRequest_def ret_Inr)
    from persistCollection_None [OF this] have s': "ss_cols s' = ss_cols ?s1" "ss_ids s' = Suc (ss_ids s)"
      by (auto simp: write_cols_def)
    have "requests_of (ss_cols ?s1) (fst p) + mtree (fs, rs) =
        (requests_of (ss_cols s) (fst p) + mset [?cp]) + mtree (fs, rs)"
      using requests_of_write [of p "s\<lparr>ss_ids := Suc (ss_ids s)\<rparr>" "\<lambda>(fs, rs). (fs, insert_at (Suc k) ?cp rs)"] v
      by (simp add: fr mtree_def tree_requests_def)
    then have "requests_of (ss_cols s') (fst p) = requests_of (ss_cols s) (fst p) + mset [?cp]"
      unfolding s' by (rule add_right_imp_eq)
    moreover have "rs ! k \<in># requests_of (ss_cols s) (fst p)"
      using kl set_mset_mono [OF below] by (auto simp: mtree_def tree_requests_def)
    ultimately show ?thesis
      using ci s'(2) by (intro exI [of _ "[rs ! k]"] exI [of _ "[?cp]"]) (simp add: content_def)
  qed
qed

theorem DuplicateItem_fresh_witness:
  "\<exists>orig copies. requests_of (ss_cols (snd (DuplicateItem sample_io ''0/f0'' sample_session))) 0 =
      requests_of [sample_col] 0 + mset copies \<and> map content copies = map content orig"
proof -
  let ?r = "DuplicateItem sample_io ''0/f0'' sample_session"
  have "fst ?r = Inr ''0/f1''" by code_simp
  then have r: "?r = (Inr ''0/f1'', snd ?r)" by (simp add: prod_eq_iff)
  have "nodeCollectionIndex ''0/f0'' = 0" by code_simp
  with DuplicateItem_fresh [OF r] show ?thesis by (auto simp: sample_session_def)
qed

section \<open>Rewritten references as paths\<close>

text \<open>A name that survives the split of a chain path: trimmed, without slash, not a dot.\<close>

definition clean_seg :: "string \<Rightarrow> bool" where
  "clean_seg p \<longleftrightarrow> p \<noteq> [] \<and> trim_space p = p \<and> CHR ''/'' \<notin> set p \<and> p \<noteq> ''.'' \<and> p \<noteq> ''..''"

lemma chain_segments_clean: "list_all clean_seg ps \<Longrightarrow> chain_segments ps = Some ps"
  by (induction ps) (auto simp: clean_seg_def Let_def)

lemma splitChainPath_join:
  assumes "list_all clean_seg ps" and "ps \<noteq> []"
  shows "splitChainPath (join ''/'' ps) = ps"
proof -
  have "split_on CHR ''/'' (join ''/'' ps) = ps"
    using assms by (intro split_on_join) (auto simp: list_all_iff clean_seg_def)
  moreover obtain c cs rest where ps: "ps = (c # cs) # rest" "c \<noteq> CHR ''/''"
    using assms by (cases ps; cases "hd ps") (auto simp: clean_seg_def)
  then have "\<not> has_prefix (join ''/'' ps) ''/''" by (cases rest) auto
  ultimately show ?thesis
    using chain_segments_clean [OF assms(1)] by (simp add: splitChainPath_def trim_prefix_def)
qed

lemma chain_segments_out:
  "chain_segments ps = Some out \<Longrightarrow> (\<And>p. p \<in> set ps \<Longrightarrow> CHR ''/'' \<notin> set p) \<Longrightarrow> list_all clean_seg out"
proof (induction ps arbitrary: out)
  case (Cons p ps)
  have "CHR ''/'' \<notin> set (trim_space p)" using set_trim_space [of p] Cons.prems(2) [of p] by auto
  with Cons show ?case by (auto simp: Let_def clean_seg_def split: if_splits)
qed simp

lemma splitChainPath_clean: "list_all clean_seg (splitChainPath ref)"
  using chain_segments_out [of "split_on CHR ''/'' (trim_prefix ref ''/'')"] split_on_no_sep
  by (auto simp: splitChainPath_def split: option.split)

text \<open>
  The cascade of a rename or a move, seen as paths: a step's reference that points at the
  changed request (or strictly below the changed folder) points at the same place under the
  new path afterwards, and every other reference reads as before.
\<close>

theorem rewrite_step_paths:
  assumes "list_all clean_seg newParts" and "newParts \<noteq> []"
  shows "splitChainPath (cs_Request (rewrite_step oldParts newParts isFolder step)) =
    (let parts = splitChainPath (cs_Request step)
     in if cs_Request step \<noteq> [] \<and> prefix oldParts parts \<and>
           (if isFolder then length oldParts < length parts else parts = oldParts)
        then newParts @ drop (length oldParts) parts else parts)"
proof (cases "cs_Request step \<noteq> [] \<and> prefix oldParts (splitChainPath (cs_Request step)) \<and>
    (if isFolder then length oldParts < length (splitChainPath (cs_Request step))
     else splitChainPath (cs_Request step) = oldParts)")
  case True
  let ?parts = "splitChainPath (cs_Request step)"
  have "list_all clean_seg (newParts @ drop (length oldParts) ?parts)"
    using assms(1) splitChainPath_clean [of "cs_Request step"]
    by (auto simp: list_all_iff dest: in_set_dropD)
  from splitChainPath_join [OF this] True assms(2) show ?thesis
    by (auto simp: rewrite_step_def Let_def split: if_splits)
next
  case False
  then show ?thesis
    by (auto simp: rewrite_step_def Let_def prefix_def split: if_splits)
qed

theorem rewrite_step_paths_witness:
  "splitChainPath (cs_Request (rewrite_step [''Auth'', ''Login''] [''Auth'', ''Sign in''] False
     \<lparr>cs_Alias = ''a'', cs_Request = ''/Auth/ Login'', cs_RequestID = []\<rparr>)) = [''Auth'', ''Sign in'']"
proof -
  have "list_all clean_seg [''Auth'', ''Sign in'']" by code_simp
  moreover have "splitChainPath ''/Auth/ Login'' = [''Auth'', ''Login'']" by code_simp
  ultimately show ?thesis by (subst rewrite_step_paths) simp_all
qed

end
