(* ===== verification/Auth.thy ===== *)
theory Auth
  imports ApiModel GoHttp "HOL-Library.Multiset"
begin

text \<open>
  \<open>internal/auth\<close>: the inheritance of auth settings, the substitution of variables in
  credentials, and the headers each scheme produces (\<open>auth.go\<close>, \<open>digest.go\<close>, \<open>oauth1.go\<close>,
  \<open>awssigv4.go\<close>). The hash functions of \<open>crypto\<close>, the random nonces and the clock are
  parameters.
\<close>

section \<open>Inheritance and values\<close>

definition concrete :: "auth \<Rightarrow> bool" where
  "concrete a \<longleftrightarrow> auth_Type a \<noteq> AuthInherit \<and> auth_Type a \<noteq> []"

definition auth_Resolve :: "auth \<Rightarrow> auth list \<Rightarrow> auth" where
  "auth_Resolve reqAuth ancestors =
     (if concrete reqAuth then reqAuth
      else (case find concrete ancestors of Some a \<Rightarrow> a | None \<Rightarrow> auth_of_type AuthNone))"

definition ResolveValues :: "auth \<Rightarrow> (string \<Rightarrow> string) option \<Rightarrow> auth" where
  "ResolveValues a resolve =
     (case resolve of
        None \<Rightarrow> a
      | Some f \<Rightarrow>
          (let t = auth_Type a in
           if t = AuthBasic then
             a\<lparr>auth_Basic := map_option (\<lambda>c. c\<lparr>ba_Username := f (ba_Username c),
                 ba_Password := f (ba_Password c)\<rparr>) (auth_Basic a)\<rparr>
           else if t = AuthBearer then
             a\<lparr>auth_Bearer := map_option (\<lambda>c. c\<lparr>be_Token := f (be_Token c)\<rparr>) (auth_Bearer a)\<rparr>
           else if t = AuthAPIKey then
             a\<lparr>auth_APIKey := map_option (\<lambda>c. c\<lparr>ak_Name := f (ak_Name c),
                 ak_Value := f (ak_Value c)\<rparr>) (auth_APIKey a)\<rparr>
           else if t = AuthOAuth2 then
             a\<lparr>auth_OAuth2 := map_option (\<lambda>c. c\<lparr>o2_TokenURL := f (o2_TokenURL c),
                 o2_AuthURL := f (o2_AuthURL c), o2_ClientID := f (o2_ClientID c),
                 o2_ClientSecret := f (o2_ClientSecret c), o2_Scope := f (o2_Scope c),
                 o2_RedirectURI := f (o2_RedirectURI c), o2_Audience := f (o2_Audience c)\<rparr>) (auth_OAuth2 a)\<rparr>
           else if t = AuthWSSE then
             a\<lparr>auth_WSSE := map_option (\<lambda>c. c\<lparr>ws_Username := f (ws_Username c),
                 ws_Password := f (ws_Password c)\<rparr>) (auth_WSSE a)\<rparr>
           else if t = AuthOAuth1 then
             a\<lparr>auth_OAuth1 := map_option (\<lambda>c. c\<lparr>o1_ConsumerKey := f (o1_ConsumerKey c),
                 o1_ConsumerSecret := f (o1_ConsumerSecret c), o1_Token := f (o1_Token c),
                 o1_TokenSecret := f (o1_TokenSecret c)\<rparr>) (auth_OAuth1 a)\<rparr>
           else if t = AuthAWSV4 then
             a\<lparr>auth_AWSV4 := map_option (\<lambda>c. c\<lparr>aw_AccessKeyID := f (aw_AccessKeyID c),
                 aw_SecretAccessKey := f (aw_SecretAccessKey c), aw_Region := f (aw_Region c),
                 aw_Service := f (aw_Service c), aw_SessionToken := f (aw_SessionToken c)\<rparr>) (auth_AWSV4 a)\<rparr>
           else if t = AuthDigest then
             a\<lparr>auth_Digest := map_option (\<lambda>c. c\<lparr>di_Username := f (di_Username c),
                 di_Password := f (di_Password c)\<rparr>) (auth_Digest a)\<rparr>
           else if t = AuthNTLM then
             a\<lparr>auth_NTLM := map_option (\<lambda>c. c\<lparr>nt_Username := f (nt_Username c),
                 nt_Password := f (nt_Password c), nt_Domain := f (nt_Domain c),
                 nt_Workstation := f (nt_Workstation c)\<rparr>) (auth_NTLM a)\<rparr>
           else a))"

section \<open>Requests on the wire\<close>

text \<open>
  The fields of \<open>http.Request\<close> that signing reads: \<open>rurl_Path\<close> is the decoded path,
  \<open>rurl_EscapedPath\<close> the path as sent; \<open>hr_Body\<close> is \<open>None\<close> when \<open>Body\<close> or \<open>GetBody\<close> is nil, and
  otherwise what reading \<open>GetBody\<close> gives.
\<close>

record req_url =
  rurl_Scheme :: string
  rurl_Host :: string
  rurl_Path :: string
  rurl_EscapedPath :: string
  rurl_RawQuery :: string

record http_request =
  hr_Method :: string
  hr_URL :: req_url
  hr_Host :: string
  hr_Header :: headers
  hr_Body :: "string result option"

record crypto =
  cr_sha1 :: "string \<Rightarrow> string"
  cr_md5 :: "string \<Rightarrow> string"
  cr_sha256 :: "string \<Rightarrow> string"
  cr_hmac_sha1 :: "string \<Rightarrow> string \<Rightarrow> string"
  cr_hmac_sha256 :: "string \<Rightarrow> string \<Rightarrow> string"

section \<open>WSSE\<close>

definition wsseDigest :: "crypto \<Rightarrow> string \<Rightarrow> string \<Rightarrow> string \<Rightarrow> string" where
  "wsseDigest cr nonce created password = base64 (cr_sha1 cr (nonce @ created @ password))"

definition dquote :: string where "dquote = [CHR 0x22]"

definition wsseHeader :: "crypto \<Rightarrow> string \<Rightarrow> string \<Rightarrow> string \<Rightarrow> string \<Rightarrow> string" where
  "wsseHeader cr username password nonce created =
     ''UsernameToken Username='' @ dquote @ username @ dquote @
     '', PasswordDigest='' @ dquote @ wsseDigest cr nonce created password @ dquote @
     '', Nonce='' @ dquote @ base64 nonce @ dquote @
     '', Created='' @ dquote @ created @ dquote"

section \<open>OAuth 1.0a\<close>

definition oauthEncode :: "string \<Rightarrow> string" where
  "oauthEncode s = concat (map (\<lambda>c. if unreserved c then [c] else percent_byte c) s)"

definition oauth1BaseURL :: "req_url \<Rightarrow> string" where
  "oauth1BaseURL u =
     (let scheme = to_lower (rurl_Scheme u);
          host = to_lower (rurl_Host u);
          host' = (case last_index_byte host CHR '':'' of
                     Some i \<Rightarrow>
                       (let port = drop (Suc i) host
                        in if (scheme = ''http'' \<and> port = ''80'') \<or> (scheme = ''https'' \<and> port = ''443'')
                           then take i host else host)
                   | None \<Rightarrow> host)
      in scheme @ ''://'' @ host' @ rurl_Path u)"

definition oauth1Sign :: "crypto \<Rightarrow> string \<Rightarrow> string \<Rightarrow> (string \<times> string) list \<Rightarrow> string \<Rightarrow> string \<Rightarrow> string"
where
  "oauth1Sign cr method baseURL params consumerSecret tokenSecret =
     (let enc = sort (map (\<lambda>(k, v). (oauthEncode k, oauthEncode v)) params);
          parts = map (\<lambda>(k, v). k @ ''='' @ v) enc;
          base = to_upper method @ ''&'' @ oauthEncode baseURL @ ''&'' @ oauthEncode (join ''&'' parts);
          key = oauthEncode consumerSecret @ ''&'' @ oauthEncode tokenSecret
      in base64 (cr_hmac_sha1 cr key base))"

definition oauth1FormBody :: "http_request \<Rightarrow> (string \<times> string) list result" where
  "oauth1FormBody req =
     (if \<not> has_prefix (to_lower (hdr_get (hr_Header req) ''Content-Type'')) ''application/x-www-form-urlencoded''
      then Inr []
      else (case hr_Body req of
          None \<Rightarrow> Inr []
        | Some (Inl e) \<Rightarrow> Inl (''oauth1: read body: '' @ e)
        | Some (Inr raw) \<Rightarrow> Inr (case ParseQuery raw of Some ps \<Rightarrow> ps | None \<Rightarrow> [])))"

definition oauth1Params :: "oauth1_auth \<Rightarrow> string \<Rightarrow> string \<Rightarrow> (string \<times> string) list" where
  "oauth1Params a nonce timestamp =
     [(''oauth_consumer_key'', o1_ConsumerKey a), (''oauth_nonce'', nonce),
      (''oauth_signature_method'', ''HMAC-SHA1''), (''oauth_timestamp'', timestamp),
      (''oauth_version'', ''1.0'')] @
     (if o1_Token a \<noteq> [] then [(''oauth_token'', o1_Token a)] else [])"

definition oauth1Header :: "crypto \<Rightarrow> http_request \<Rightarrow> oauth1_auth \<Rightarrow> string \<Rightarrow> string \<Rightarrow> string result" where
  "oauth1Header cr req a nonce timestamp =
     bind_result (oauth1FormBody req) (\<lambda>formParams.
       (let oauthParams = oauth1Params a nonce timestamp;
            params = oauthParams @ Query (rurl_RawQuery (hr_URL req)) @ formParams;
            sig = oauth1Sign cr (hr_Method req) (oauth1BaseURL (hr_URL req)) params
                    (o1_ConsumerSecret a) (o1_TokenSecret a);
            header = sort_key fst (oauthParams @ [(''oauth_signature'', sig)])
        in Inr (''OAuth '' @ join '', ''
             (map (\<lambda>(k, v). oauthEncode k @ ''='' @ dquote @ oauthEncode v @ dquote) header))))"

section \<open>AWS Signature Version 4\<close>

definition emptyPayloadHash :: string where
  "emptyPayloadHash = ''e3b0c44298fc1c149afbf4c8996fb92427ae41e4649b934ca495991b7852b855''"

definition awsURIEncode :: "string \<Rightarrow> bool \<Rightarrow> string" where
  "awsURIEncode s keepSlash =
     concat (map (\<lambda>c. if unreserved c \<or> (c = CHR ''/'' \<and> keepSlash) then [c] else percent_byte c) s)"

definition awsCanonicalURI :: "string \<Rightarrow> string" where
  "awsCanonicalURI path = (if path = [] then ''/'' else awsURIEncode path True)"

definition awsCanonicalQuery :: "(string \<times> string) list \<Rightarrow> string" where
  "awsCanonicalQuery q =
     join ''&'' (sort (map (\<lambda>(k, v). awsURIEncode k False @ ''='' @ awsURIEncode v False) q))"

text \<open>\<open>strings.Fields\<close> on ASCII white space.\<close>

fun fields_from :: "string \<Rightarrow> string \<Rightarrow> string list" where
  "fields_from cur [] = (if cur = [] then [] else [cur])"
| "fields_from cur (c # s) =
     (if ascii_space c then (if cur = [] then fields_from [] s else cur # fields_from [] s)
      else fields_from (cur @ [c]) s)"

definition awsTrimAll :: "string \<Rightarrow> string" where
  "awsTrimAll s = join '' '' (fields_from [] s)"

text \<open>
  The signed headers. Two spellings of one name do not occur: the header map has canonical
  keys, which differ when their lower-case forms do.
\<close>

definition awsHeaderValues :: "http_request \<Rightarrow> (string \<times> string) list" where
  "awsHeaderValues req =
     fold (\<lambda>(name, vs) m.
         (let ln = to_lower name
          in if ln = ''content-type'' \<or> has_prefix ln ''x-amz-'' then AList.update ln (join '','' vs) m else m))
       (hr_Header req)
       [(''host'', if hr_Host req = [] then rurl_Host (hr_URL req) else hr_Host req)]"

definition awsCanonicalHeaders :: "http_request \<Rightarrow> string \<times> string" where
  "awsCanonicalHeaders req =
     (let values = sort_key fst (awsHeaderValues req)
      in (concat (map (\<lambda>(n, v). n @ '':'' @ awsTrimAll v @ [CHR 0x0A]) values),
          join '';'' (map fst values)))"

definition awsSigningKey :: "crypto \<Rightarrow> string \<Rightarrow> string \<Rightarrow> string \<Rightarrow> string \<Rightarrow> string" where
  "awsSigningKey cr secret dateStamp region service =
     cr_hmac_sha256 cr (cr_hmac_sha256 cr (cr_hmac_sha256 cr
       (cr_hmac_sha256 cr (''AWS4'' @ secret) dateStamp) region) service) ''aws4_request''"

definition awsHashHex :: "crypto \<Rightarrow> string \<Rightarrow> string" where
  "awsHashHex cr b = hex_encode (cr_sha256 cr b)"

definition awsPayloadHash :: "crypto \<Rightarrow> http_request \<Rightarrow> string result" where
  "awsPayloadHash cr req =
     (case hr_Body req of
        None \<Rightarrow> Inr emptyPayloadHash
      | Some (Inl e) \<Rightarrow> Inl (''auth.Apply: awsv4 body: '' @ e)
      | Some (Inr body) \<Rightarrow> Inr (if body = [] then emptyPayloadHash else awsHashHex cr body))"

definition awsSigV4Header :: "crypto \<Rightarrow> http_request \<Rightarrow> awsv4_auth \<Rightarrow> string \<Rightarrow> string \<Rightarrow> string" where
  "awsSigV4Header cr req a amzDate payloadHash =
     (let region = (if aw_Region a = [] then ''us-east-1'' else aw_Region a);
          service = (if aw_Service a = [] then ''service'' else aw_Service a);
          dateStamp = take 8 amzDate;
          nl = [CHR 0x0A];
          (canonicalHeaders, signedHeaders) = awsCanonicalHeaders req;
          canonicalRequest = join nl
            [hr_Method req, awsCanonicalURI (rurl_EscapedPath (hr_URL req)),
             awsCanonicalQuery (Query (rurl_RawQuery (hr_URL req))), canonicalHeaders,
             signedHeaders, payloadHash];
          scope = dateStamp @ ''/'' @ region @ ''/'' @ service @ ''/aws4_request'';
          stringToSign = join nl
            [''AWS4-HMAC-SHA256'', amzDate, scope, awsHashHex cr canonicalRequest];
          signature = hex_encode (cr_hmac_sha256 cr
            (awsSigningKey cr (aw_SecretAccessKey a) dateStamp region service) stringToSign)
      in ''AWS4-HMAC-SHA256 Credential='' @ aw_AccessKeyID a @ ''/'' @ scope @
         '', SignedHeaders='' @ signedHeaders @ '', Signature='' @ signature)"

section \<open>Digest\<close>

text \<open>\<open>splitDigestParams\<close>: commas inside double quotes do not separate.\<close>

fun splitDigestParams :: "string \<Rightarrow> bool \<Rightarrow> string \<Rightarrow> string list" where
  "splitDigestParams cur inQuote [] = (if trim_space cur \<noteq> [] then [cur] else [])"
| "splitDigestParams cur inQuote (c # s) =
     (if c = CHR 0x22 then splitDigestParams (cur @ [c]) (\<not> inQuote) s
      else if c = CHR '','' \<and> \<not> inQuote then cur # splitDigestParams [] inQuote s
      else splitDigestParams (cur @ [c]) inQuote s)"

definition digest_param :: "string \<Rightarrow> (string \<times> string) option" where
  "digest_param part =
     (case index_byte part CHR ''='' of
        None \<Rightarrow> None
      | Some eq \<Rightarrow>
          (let k = to_lower (trim_space (take eq part));
               v = trim_byte CHR 0x22 (trim_space (drop (Suc eq) part))
           in if k \<noteq> [] then Some (k, v) else None))"

definition parseDigestChallenge :: "string \<Rightarrow> (string \<Rightarrow> string option) option" where
  "parseDigestChallenge header =
     (let h = trim_space header
      in if length h < 7 \<or> \<not> equal_fold (take 6 h) ''Digest'' then None
         else Some (assign_all (List.map_filter digest_param (splitDigestParams [] False (drop 6 h)))))"

definition directive :: "(string \<Rightarrow> string option) \<Rightarrow> string \<Rightarrow> string" where
  "directive c k = (case c k of Some v \<Rightarrow> v | None \<Rightarrow> [])"

text \<open>\<open>%08x\<close> of a non-negative count.\<close>

fun hex_digits :: "nat \<Rightarrow> string" where
  "hex_digits n = (if n < 16 then [hex_digit n] else hex_digits (n div 16) @ [hex_digit (n mod 16)])"

declare hex_digits.simps [simp del]

definition hex8 :: "nat \<Rightarrow> string" where
  "hex8 n = replicate (8 - length (hex_digits n)) CHR ''0'' @ hex_digits n"

definition digest_hash :: "crypto \<Rightarrow> string \<Rightarrow> (string \<Rightarrow> string) option" where
  "digest_hash cr algorithm =
     (if has_prefix (to_upper algorithm) ''SHA-256'' then Some (\<lambda>s. hex_encode (cr_sha256 cr s))
      else if has_prefix (to_upper algorithm) ''MD5'' then Some (\<lambda>s. hex_encode (cr_md5 cr s))
      else None)"

definition digest_response :: "(string \<Rightarrow> string) \<Rightarrow> bool \<Rightarrow> string \<Rightarrow> string \<Rightarrow> string \<Rightarrow> string
    \<Rightarrow> string \<Rightarrow> digest_auth \<Rightarrow> string \<Rightarrow> nat \<Rightarrow> string" where
  "digest_response h sess qop realm nonce method uri d cnonce nc =
     (let ha1 = h (di_Username d @ '':'' @ realm @ '':'' @ di_Password d);
          ha1' = (if sess then h (ha1 @ '':'' @ nonce @ '':'' @ cnonce) else ha1);
          ha2 = h (method @ '':'' @ uri)
      in if qop = ''auth'' then h (join '':'' [ha1', nonce, hex8 nc, cnonce, qop, ha2])
         else h (ha1' @ '':'' @ nonce @ '':'' @ ha2))"

definition digestAuthorize :: "crypto \<Rightarrow> (string \<Rightarrow> string option) \<Rightarrow> string \<Rightarrow> string \<Rightarrow> digest_auth
    \<Rightarrow> string \<Rightarrow> nat \<Rightarrow> string result" where
  "digestAuthorize cr c method uri d cnonce nc =
     (let realm = directive c ''realm''; nonce = directive c ''nonce'';
          algorithm = (if directive c ''algorithm'' = [] then ''MD5'' else directive c ''algorithm'');
          sess = has_suffix (to_upper algorithm) ''-SESS''
      in case digest_hash cr algorithm of
           None \<Rightarrow> Inl (''auth.Digest: unsupported algorithm '' @ quoted algorithm)
         | Some h \<Rightarrow>
             (let qops = directive c ''qop'';
                  qop = (if list_ex (\<lambda>q. trim_space q = ''auth'') (split_on CHR '','' qops)
                         then ''auth'' else [])
              in if qops \<noteq> [] \<and> qop = [] then Inl (''auth.Digest: no supported qop in '' @ quoted qops)
                 else Inr (''Digest '' @ join '', ''
                   ([''username='' @ quoted (di_Username d), ''realm='' @ quoted realm,
                     ''nonce='' @ quoted nonce, ''uri='' @ quoted uri,
                     ''response='' @ quoted (digest_response h sess qop realm nonce method uri d cnonce nc),
                     ''algorithm='' @ algorithm] @
                    (if qop = ''auth'' then [''qop=auth'', ''nc='' @ hex8 nc, ''cnonce='' @ quoted cnonce] else []) @
                    (if directive c ''opaque'' \<noteq> [] then [''opaque='' @ quoted (directive c ''opaque'')] else [])))))"

text \<open>
  \<open>DigestRespond\<close>: the first Digest challenge decides; \<open>Inr None\<close> is \<open>ok = false\<close>. The nonce
  draw can fail.
\<close>

definition DigestRespond :: "crypto \<Rightarrow> string result \<Rightarrow> string list \<Rightarrow> string \<Rightarrow> string \<Rightarrow> digest_auth
    \<Rightarrow> string option result" where
  "DigestRespond cr randomCnonce wwwAuthenticate method uri d =
     (case List.map_filter parseDigestChallenge wwwAuthenticate of
        [] \<Rightarrow> Inr None
      | challenge # _ \<Rightarrow>
          if directive challenge ''nonce'' = [] then Inr None
          else bind_result randomCnonce (\<lambda>cnonce.
                 bind_result (digestAuthorize cr challenge method uri d cnonce 1) (\<lambda>hdr. Inr (Some hdr))))"

section \<open>Applying an auth to a request\<close>

text \<open>The draws of one \<open>Apply\<close>: random bytes and the clock in its three formats.\<close>

record draws =
  dr_Nonce :: "string result"
  dr_RFC3339 :: string
  dr_Unix :: string
  dr_AmzDate :: string

definition set_header :: "string \<Rightarrow> string \<Rightarrow> http_request \<Rightarrow> http_request" where
  "set_header k v req = req\<lparr>hr_Header := hdr_set k v (hr_Header req)\<rparr>"

definition has_auth :: "http_request \<Rightarrow> bool" where
  "has_auth req \<longleftrightarrow> hdr_get (hr_Header req) ''Authorization'' \<noteq> []"

definition apply_apikey :: "http_request \<Rightarrow> apikey_auth \<Rightarrow> string option \<times> http_request" where
  "apply_apikey req k =
     (if ak_Name k = [] then (None, req)
      else if ak_Placement k = ''query'' then
        (let pair = QueryEscape (ak_Name k) @ ''='' @ QueryEscape (ak_Value k);
             raw = rurl_RawQuery (hr_URL req)
         in (None, req\<lparr>hr_URL := (hr_URL req)\<lparr>rurl_RawQuery := (if raw = [] then pair else raw @ ''&'' @ pair)\<rparr>\<rparr>))
      else if ak_Placement k = ''header'' \<or> ak_Placement k = [] then
        (None, if hdr_get (hr_Header req) (ak_Name k) = [] then set_header (ak_Name k) (ak_Value k) req else req)
      else (Some (''auth.Apply: unknown api-key placement '' @ quoted (ak_Placement k)), req))"

definition apply_wsse :: "crypto \<Rightarrow> draws \<Rightarrow> http_request \<Rightarrow> wsse_auth \<Rightarrow> string option \<times> http_request" where
  "apply_wsse cr dr req w =
     (if hdr_get (hr_Header req) ''X-WSSE'' \<noteq> [] then (None, req)
      else (case dr_Nonce dr of
          Inl e \<Rightarrow> (Some (''auth.Apply: wsse nonce: '' @ e), req)
        | Inr nonce \<Rightarrow>
            (let req1 = set_header ''X-WSSE''
                          (wsseHeader cr (ws_Username w) (ws_Password w) nonce (dr_RFC3339 dr)) req
             in (None, if \<not> has_auth req1
                       then set_header ''Authorization'' (''WSSE profile='' @ dquote @ ''UsernameToken'' @ dquote) req1
                       else req1))))"

definition apply_awsv4 :: "crypto \<Rightarrow> draws \<Rightarrow> http_request \<Rightarrow> awsv4_auth \<Rightarrow> string option \<times> http_request" where
  "apply_awsv4 cr dr req w =
     (let req1 = set_header ''X-Amz-Date'' (dr_AmzDate dr) req;
          req2 = (if aw_SessionToken w \<noteq> [] then set_header ''X-Amz-Security-Token'' (aw_SessionToken w) req1
                  else req1)
      in case awsPayloadHash cr req2 of
           Inl e \<Rightarrow> (Some e, req2)
         | Inr h \<Rightarrow> (None, set_header ''Authorization'' (awsSigV4Header cr req2 w (dr_AmzDate dr) h) req2))"

definition ErrOAuth2NotImplemented :: string where
  "ErrOAuth2NotImplemented = ''oauth2 grant not supported''"

text \<open>Setting \<open>Authorization\<close> to a computed value, unless the user set one.\<close>

definition authorize :: "(unit \<Rightarrow> string result) \<Rightarrow> http_request \<Rightarrow> string option \<times> http_request" where
  "authorize compute req =
     (if has_auth req then (None, req)
      else (case compute () of
              Inl e \<Rightarrow> (Some e, req) | Inr v \<Rightarrow> (None, set_header ''Authorization'' v req)))"

definition with_some :: "'a option \<Rightarrow> ('a \<Rightarrow> string option \<times> http_request) \<Rightarrow> http_request
    \<Rightarrow> string option \<times> http_request" where
  "with_some x f req = (case x of None \<Rightarrow> (None, req) | Some v \<Rightarrow> f v)"

definition auth_Apply :: "crypto \<Rightarrow> draws \<Rightarrow> (oauth2_auth \<Rightarrow> string result) option \<Rightarrow> auth
    \<Rightarrow> http_request \<Rightarrow> string option \<times> http_request" where
  "auth_Apply cr dr resolver a req =
     (let t = auth_Type a in
      if t = [] \<or> t = AuthNone \<or> t = AuthInherit then (None, req)
      else if t = AuthBasic then
        with_some (auth_Basic a) (\<lambda>c. authorize
          (\<lambda>_. Inr (''Basic '' @ base64 (ba_Username c @ '':'' @ ba_Password c))) req) req
      else if t = AuthBearer then
        with_some (auth_Bearer a) (\<lambda>c. authorize (\<lambda>_. Inr (''Bearer '' @ be_Token c)) req) req
      else if t = AuthAPIKey then with_some (auth_APIKey a) (apply_apikey req) req
      else if t = AuthOAuth2 then
        with_some (auth_OAuth2 a) (\<lambda>c.
          (case resolver of
             None \<Rightarrow> (Some ErrOAuth2NotImplemented, req)
           | Some tok \<Rightarrow> authorize (\<lambda>_. bind_result (tok c) (\<lambda>token. Inr (''Bearer '' @ token))) req)) req
      else if t = AuthWSSE then with_some (auth_WSSE a) (apply_wsse cr dr req) req
      else if t = AuthOAuth1 then
        with_some (auth_OAuth1 a) (\<lambda>c. authorize (\<lambda>_.
          (case dr_Nonce dr of
             Inl e \<Rightarrow> Inl (''auth.Apply: oauth1 nonce: '' @ e)
           | Inr nonce \<Rightarrow> oauth1Header cr req c (hex_encode nonce) (dr_Unix dr))) req) req
      else if t = AuthAWSV4 then
        with_some (auth_AWSV4 a) (\<lambda>c. if has_auth req then (None, req) else apply_awsv4 cr dr req c) req
      else if t = AuthDigest \<or> t = AuthNTLM then (None, req)
      else (Some (''auth.Apply: unknown auth type '' @ quoted t), req))"

end
