(* ===== verification/SessionFinder.thy ===== *)
theory SessionFinder
  imports ItemIds Chain Auth
begin

text \<open>
  The lookups of \<open>internal/session/session.go\<close>: chain references by path, requests by stable
  ID, the pickers' listings, the effective auth of a node, and the snapshot finder that the
  chain runner works on. A Go copy of a value is the value itself here.
\<close>

section \<open>Chain references\<close>

fun findRequestInContainer :: "folder list \<Rightarrow> request list \<Rightarrow> string list \<Rightarrow> request option" where
  "findRequestInContainer fs rs [] = None"
| "findRequestInContainer fs rs [p] = find (\<lambda>r. rq_Name r = p) rs"
| "findRequestInContainer [] rs (p # q # ps) = None"
| "findRequestInContainer (f # fs) rs (p # q # ps) =
     (if fo_Name f = p then
        (case findRequestInContainer (fo_Folders f) (fo_Requests f) (q # ps) of
           Some r \<Rightarrow> Some r
         | None \<Rightarrow> findRequestInContainer fs rs (p # q # ps))
      else findRequestInContainer fs rs (p # q # ps))"

definition find_by_path :: "folder list \<Rightarrow> request list \<Rightarrow> string \<Rightarrow> request option" where
  "find_by_path fs rs ref =
     (let parts = splitChainPath ref
      in if parts = [] then None else findRequestInContainer fs rs parts)"

definition active_collection :: "'d session \<Rightarrow> collection option" where
  "active_collection s =
     (if ss_activeCol s < 0 \<or> int (length (ss_cols s)) \<le> ss_activeCol s then None
      else Some (ss_cols s ! nat (ss_activeCol s)))"

definition session_FindRequestByPath :: "'d session \<Rightarrow> string \<Rightarrow> request option" where
  "session_FindRequestByPath s ref =
     (case active_collection s of
        None \<Rightarrow> None | Some c \<Rightarrow> find_by_path (co_Folders c) (co_Requests c) ref)"

definition joinChainSegment :: "string \<Rightarrow> string \<Rightarrow> string" where
  "joinChainSegment pre name = (if pre = [] then name else pre @ ''/'' @ name)"

fun collectFolderPaths :: "string \<Rightarrow> folder \<Rightarrow> string list" where
  "collectFolderPaths pre (Folder i n fs rs a vs) =
     (let p = joinChainSegment pre n
      in map (\<lambda>r. joinChainSegment p (rq_Name r)) rs @ concat (map (collectFolderPaths p) fs))"

definition collectRequestPaths :: "folder list \<Rightarrow> request list \<Rightarrow> string \<Rightarrow> string list" where
  "collectRequestPaths fs rs pre =
     map (\<lambda>r. joinChainSegment pre (rq_Name r)) rs @ concat (map (collectFolderPaths pre) fs)"

definition AllRequestPaths :: "'d session \<Rightarrow> string list" where
  "AllRequestPaths s =
     (case active_collection s of
        None \<Rightarrow> [] | Some c \<Rightarrow> collectRequestPaths (co_Folders c) (co_Requests c) [])"

definition RequestIDForPath :: "'d session \<Rightarrow> string \<Rightarrow> string option" where
  "RequestIDForPath s ref = map_option rq_ID (session_FindRequestByPath s ref)"

section \<open>Stable IDs and containers\<close>

fun locate_requests :: "string \<Rightarrow> nat \<Rightarrow> request list \<Rightarrow> string \<Rightarrow> (string \<times> request) option" where
  "locate_requests pre k [] i = None"
| "locate_requests pre k (r # rs) i =
     (if rq_ID r = i then Some (pre @ ''/r'' @ itoa (int k), r) else locate_requests pre (Suc k) rs i)"

function locate_folders :: "string \<Rightarrow> nat \<Rightarrow> folder list \<Rightarrow> string \<Rightarrow> (string \<times> request) option" where
  "locate_folders pre k [] i = None"
| "locate_folders pre k (f # fs) i =
     (let p = pre @ ''/f'' @ itoa (int k)
      in case locate_requests p 0 (fo_Requests f) i of
           Some found \<Rightarrow> Some found
         | None \<Rightarrow>
             (case locate_folders p 0 (fo_Folders f) i of
                Some found \<Rightarrow> Some found
              | None \<Rightarrow> locate_folders pre (Suc k) fs i))"
  by pat_completeness auto
termination
proof (relation "measure (\<lambda>(p, k, fs, i). sum_list (map folder_size fs))", goal_cases)
  case (2 pre k f fs i p)
  then show ?case by (cases f) simp
next
  case (3 pre k f fs i p)
  then show ?case by (cases f) simp
qed simp

definition locateInContainer ::
    "string \<Rightarrow> folder list \<Rightarrow> request list \<Rightarrow> string \<Rightarrow> (string \<times> request) option" where
  "locateInContainer pre fs rs i =
     (case locate_requests pre 0 rs i of Some found \<Rightarrow> Some found | None \<Rightarrow> locate_folders pre 0 fs i)"

definition LocateRequest :: "'d session \<Rightarrow> string \<Rightarrow> string \<Rightarrow> (string \<times> request) option" where
  "LocateRequest s dir requestID =
     (if requestID = [] then None
      else (case first_index (\<lambda>d. d = dir) (ss_dirs s) of
              None \<Rightarrow> None
            | Some ci \<Rightarrow>
                (let c = ss_cols s ! ci
                 in locateInContainer (itoa (int ci)) (co_Folders c) (co_Requests c) requestID)))"

text \<open>\<open>ContainerRef\<close> is the pair of its label and its node ID.\<close>

function collectContainerPaths :: "string \<Rightarrow> string \<Rightarrow> nat \<Rightarrow> folder list \<Rightarrow> (string \<times> string) list" where
  "collectContainerPaths pre label k [] = []"
| "collectContainerPaths pre label k (f # fs) =
     (let nodeID = pre @ ''/f'' @ itoa (int k);
          l = label @ '' / '' @ fo_Name f
      in (l, nodeID) # collectContainerPaths nodeID l 0 (fo_Folders f)
           @ collectContainerPaths pre label (Suc k) fs)"
  by pat_completeness auto
termination
proof (relation "measure (\<lambda>(p, l, k, fs). sum_list (map folder_size fs))", goal_cases)
  case (2 pre label k f fs)
  then show ?case by (cases f) simp
next
  case (3 pre label k f fs)
  then show ?case by (cases f) simp
qed simp

definition ContainerPaths :: "'d session \<Rightarrow> (string \<times> string) list" where
  "ContainerPaths s =
     concat (map (\<lambda>ci. let c = ss_cols s ! ci; nodeID = itoa (int ci)
                       in (co_Name c, nodeID) # collectContainerPaths nodeID (co_Name c) 0 (co_Folders c))
               [0..<length (ss_cols s)])"

section \<open>Effective auth\<close>

definition EffectiveAuth :: "'d session \<Rightarrow> string \<Rightarrow> auth" where
  "EffectiveAuth s nodeID =
     auth_Resolve (case Tree_Request (ss_cols s) nodeID of Some r \<Rightarrow> rq_Auth r | None \<Rightarrow> auth_of_type [])
       (AncestorAuths (ss_cols s) nodeID)"

definition InheritedAuth :: "'d session \<Rightarrow> string \<Rightarrow> auth" where
  "InheritedAuth s nodeID =
     auth_Resolve (auth_of_type AuthInherit) (AncestorAuths (ss_cols s) nodeID)"

section \<open>The snapshot finder\<close>

definition cloneRequestsWithAuth :: "request list \<Rightarrow> auth list \<Rightarrow> request list" where
  "cloneRequestsWithAuth rs ancestors =
     map (\<lambda>r. r\<lparr>rq_Auth := auth_Resolve (rq_Auth r) (rev ancestors)\<rparr>) rs"

text \<open>The literal names neither \<open>Variables\<close>: the clone has none.\<close>

fun cloneFolderWithAuth :: "auth list \<Rightarrow> folder \<Rightarrow> folder" where
  "cloneFolderWithAuth ancestors (Folder i n fs rs a vs) =
     (let child = ancestors @ [a]
      in Folder i n (map (cloneFolderWithAuth child) fs) (cloneRequestsWithAuth rs child) a [])"

definition cloneFoldersWithAuth :: "folder list \<Rightarrow> auth list \<Rightarrow> folder list" where
  "cloneFoldersWithAuth fs ancestors = map (cloneFolderWithAuth ancestors) fs"

definition index_requests :: "request list \<Rightarrow> (string \<Rightarrow> request option) \<Rightarrow> (string \<Rightarrow> request option)" where
  "index_requests rs dst = fold (\<lambda>r m. if rq_ID r \<noteq> [] then m(rq_ID r \<mapsto> r) else m) rs dst"

fun index_folder :: "folder \<Rightarrow> (string \<Rightarrow> request option) \<Rightarrow> (string \<Rightarrow> request option)" where
  "index_folder (Folder i n fs rs a vs) dst = fold index_folder fs (index_requests rs dst)"

definition indexRequestsByID :: "(string \<Rightarrow> request option) \<Rightarrow> folder list \<Rightarrow> request list
    \<Rightarrow> (string \<Rightarrow> request option)" where
  "indexRequestsByID dst fs rs = fold index_folder fs (index_requests rs dst)"

record ChainFinderSnapshot =
  sn_folders :: "folder list"
  sn_requests :: "request list"
  sn_byID :: "string \<Rightarrow> request option"

definition SnapshotChainFinder :: "'d session \<Rightarrow> ChainFinderSnapshot option" where
  "SnapshotChainFinder s =
     (case active_collection s of
        None \<Rightarrow> None
      | Some col \<Rightarrow>
          (let fs = cloneFoldersWithAuth (co_Folders col) [co_Auth col];
               rs = cloneRequestsWithAuth (co_Requests col) [co_Auth col]
           in Some \<lparr>sn_folders = fs, sn_requests = rs, sn_byID = indexRequestsByID Map.empty fs rs\<rparr>))"

text \<open>The two methods on the snapshot; both accept the nil pointer.\<close>

definition snapshot_finder :: "ChainFinderSnapshot option \<Rightarrow> RequestFinder" where
  "snapshot_finder f =
     \<lparr>FindRequestByPath = (\<lambda>ref. case f of None \<Rightarrow> None
                                  | Some n \<Rightarrow> find_by_path (sn_folders n) (sn_requests n) ref),
      FindRequestByID = (\<lambda>i. case f of None \<Rightarrow> None
                                | Some n \<Rightarrow> if i = [] then None else sn_byID n i)\<rparr>"

section \<open>The finder's contract\<close>

definition keyed :: "(string \<Rightarrow> request option) \<Rightarrow> bool" where
  "keyed m \<longleftrightarrow> (\<forall>i r. m i = Some r \<longrightarrow> rq_ID r = i)"

lemma keyed_fold: "(\<And>x m. x \<in> set xs \<Longrightarrow> keyed m \<Longrightarrow> keyed (f x m)) \<Longrightarrow> keyed m \<Longrightarrow> keyed (fold f xs m)"
  by (induction xs arbitrary: m) auto

lemma keyed_requests: "keyed m \<Longrightarrow> keyed (index_requests rs m)"
  unfolding index_requests_def by (rule keyed_fold) (auto simp: keyed_def)

lemma keyed_folder: "keyed m \<Longrightarrow> keyed (index_folder f m)"
proof (induction f arbitrary: m)
  case (Folder i n fs rs a vs)
  then show ?case by (auto intro!: keyed_fold keyed_requests)
qed

lemma indexRequestsByID_id: "indexRequestsByID Map.empty fs rs i = Some r \<Longrightarrow> rq_ID r = i"
proof -
  have "keyed (indexRequestsByID Map.empty fs rs)"
    unfolding indexRequestsByID_def
    by (intro keyed_fold keyed_folder keyed_requests) (auto simp: keyed_def)
  then show "indexRequestsByID Map.empty fs rs i = Some r \<Longrightarrow> rq_ID r = i" by (simp add: keyed_def)
qed

text \<open>The snapshot keeps what the chain runner relies on.\<close>

interpretation snapshot: request_finder "snapshot_finder (SnapshotChainFinder s)" for s
proof
  show "FindRequestByID (snapshot_finder (SnapshotChainFinder s)) [] = None"
    by (simp add: snapshot_finder_def split: option.split)
  show "rq_ID r = i" if "FindRequestByID (snapshot_finder (SnapshotChainFinder s)) i = Some r" for i r
    using that indexRequestsByID_id
    by (fastforce simp: snapshot_finder_def SnapshotChainFinder_def Let_def split: option.splits if_splits)
qed

section \<open>Paths in tree order\<close>

text \<open>Every request of a container with its path of names, in tree order.\<close>

fun folder_entries :: "folder \<Rightarrow> (string list \<times> request) list" where
  "folder_entries (Folder i n fs rs a vs) =
     map (\<lambda>(p, r). (n # p, r)) (map (\<lambda>r. ([rq_Name r], r)) rs @ concat (map folder_entries fs))"

definition entries :: "folder list \<Rightarrow> request list \<Rightarrow> (string list \<times> request) list" where
  "entries fs rs = map (\<lambda>r. ([rq_Name r], r)) rs @ concat (map folder_entries fs)"

lemma folder_entries_sel:
  "folder_entries f = map (\<lambda>(p, r). (fo_Name f # p, r)) (entries (fo_Folders f) (fo_Requests f))"
  by (cases f) (simp add: entries_def)

lemma map_of_prefix:
  "map_of (map (\<lambda>(p, r). (n # p, r)) xs) (q # ps) = (if q = n then map_of xs ps else None)"
  by (induction xs) auto

lemma map_of_single: "map_of (map (\<lambda>r. ([rq_Name r], r)) rs) [p] = find (\<lambda>r. rq_Name r = p) rs"
  by (induction rs) auto

lemma map_of_single_long: "map_of (map (\<lambda>r. ([rq_Name r], r)) rs) (p # q # ps) = None"
  by (induction rs) auto

lemma entries_not_Nil: "([], r) \<notin> set (entries fs rs)"
proof -
  have "([], r) \<notin> set (folder_entries f)" for f by (auto simp: folder_entries_sel)
  then show ?thesis by (auto simp: entries_def)
qed

lemma map_of_entries_Nil: "map_of (entries fs rs) [] = None"
  by (metis entries_not_Nil map_of_SomeD not_Some_eq)

lemma folder_entries_single: "map_of (concat (map folder_entries fs)) [p] = None"
  by (induction fs) (auto simp: folder_entries_sel map_of_prefix map_of_entries_Nil map_add_def)

lemma findRequest_map_of: "findRequestInContainer fs rs parts = map_of (entries fs rs) parts"
proof (induction fs rs parts rule: findRequestInContainer.induct)
  case (1 fs rs)
  show ?case by (simp add: map_of_entries_Nil)
next
  case (2 fs rs p)
  then show ?case
    by (simp add: entries_def map_of_single map_add_def folder_entries_single split: option.split)
next
  case (4 f fs rs p q ps)
  have split: "map_of (entries (f # fs) rs) (p # q # ps) =
      (case map_of (folder_entries f) (p # q # ps) of
         Some r \<Rightarrow> Some r | None \<Rightarrow> map_of (entries fs rs) (p # q # ps))"
    by (simp add: entries_def map_add_def map_of_single_long split: option.splits)
  from 4 show ?case
    unfolding split by (auto simp: folder_entries_sel map_of_prefix split: option.split)
qed (simp add: entries_def map_of_single_long)

lemma entries_requests: "map snd (entries fs rs) = tree_requests fs rs"
proof -
  have "map snd (folder_entries f) = folder_requests f" for f
  proof (induction f)
    case (Folder i n fs rs a vs)
    then have "map (\<lambda>f. map snd (folder_entries f)) fs = map folder_requests fs" by simp
    then have "concat (map (\<lambda>f. map snd (folder_entries f)) fs) = concat (map folder_requests fs)"
      by (rule arg_cong)
    then show ?case by (simp only: folder_entries.simps folder_requests.simps map_append map_map map_concat
        comp_def case_prod_beta snd_conv) simp
  qed
  then have "map snd (concat (map folder_entries fs)) = concat (map folder_requests fs)"
    by (simp add: map_concat comp_def)
  then show ?thesis by (simp add: entries_def tree_requests_def comp_def)
qed

lemma join_step: "list_all clean_seg pre \<Longrightarrow> joinChainSegment (join ''/'' pre) n = join ''/'' (pre @ [n])"
proof (induction pre rule: rev_induct)
  case (snoc p ps)
  then have "p \<noteq> []" by (auto simp: clean_seg_def)
  then have "join ''/'' (ps @ [p]) \<noteq> []" by (cases "ps = []") (simp_all add: join_snoc)
  with join_snoc [of "ps @ [p]" "''/''" n] show ?case by (simp add: joinChainSegment_def)
qed (simp add: joinChainSegment_def)

lemma collect_paths:
  assumes "list_all clean_seg pre" and "\<forall>(p, r)\<in>set (entries fs rs). list_all clean_seg p"
  shows "collectRequestPaths fs rs (join ''/'' pre) = map (\<lambda>(p, r). join ''/'' (pre @ p)) (entries fs rs)"
proof -
  have folder: "collectFolderPaths (join ''/'' pre) f = map (\<lambda>(p, r). join ''/'' (pre @ p)) (folder_entries f)"
    if "list_all clean_seg pre" "\<forall>(p, r)\<in>set (folder_entries f). list_all clean_seg p" for pre f
    using that
  proof (induction f arbitrary: pre)
    case (Folder i n fs rs a vs)
    let ?es = "map (\<lambda>r. ([rq_Name r], r)) rs @ concat (map folder_entries fs)"
    show ?case
    proof (cases "?es = []")
      case True
      then have rs: "rs = []" and fs: "\<forall>f\<in>set fs. folder_entries f = []" by auto
      have empty: "folder_entries f = [] \<Longrightarrow> collectFolderPaths q f = []" for q f
      proof (induction f arbitrary: q)
        case (Folder i n fs rs a vs)
        then show ?case by (simp add: Let_def)
      qed
      from fs have "concat (map folder_entries fs) = []" by simp
      moreover from fs empty have "concat (map (collectFolderPaths q) fs) = []" for q by simp
      ultimately show ?thesis using rs by (simp add: Let_def del: concat_eq_Nil_conv)
    next
      case False
      then obtain p r where "(p, r) \<in> set ?es" by (cases ?es) force+
      then have "(n # p, r) \<in> (\<lambda>(p, r). (n # p, r)) ` set ?es" by (rule rev_image_eqI) simp
      then have "(n # p, r) \<in> set (folder_entries (Folder i n fs rs a vs))"
        by (simp only: folder_entries.simps set_map)
      with Folder.prems(2) have "list_all clean_seg (n # p)" by blast
      then have n: "clean_seg n" by simp
      have es: "list_all clean_seg q" if "(q, r) \<in> set ?es" for q r
      proof -
        have "(n # q, r) \<in> (\<lambda>(p, r). (n # p, r)) ` set ?es" using that by (rule rev_image_eqI) simp
        then have "(n # q, r) \<in> set (folder_entries (Folder i n fs rs a vs))"
          by (simp only: folder_entries.simps set_map)
        with Folder.prems(2) have "list_all clean_seg (n # q)" by blast
        then show ?thesis by simp
      qed
      have "collectFolderPaths (join ''/'' (pre @ [n])) f =
          map (\<lambda>(p, r). join ''/'' ((pre @ [n]) @ p)) (folder_entries f)" if "f \<in> set fs" for f
        using that es n Folder.prems(1) by (intro Folder.IH) auto
      then have "map (collectFolderPaths (join ''/'' (pre @ [n]))) fs =
          map (\<lambda>f. map (\<lambda>(p, r). join ''/'' ((pre @ [n]) @ p)) (folder_entries f)) fs" by simp
      then have "concat (map (collectFolderPaths (join ''/'' (pre @ [n]))) fs) =
          concat (map (\<lambda>f. map (\<lambda>(p, r). join ''/'' ((pre @ [n]) @ p)) (folder_entries f)) fs)"
        by (rule arg_cong)
      moreover have "joinChainSegment (join ''/'' (pre @ [n])) m = join ''/'' ((pre @ [n]) @ [m])" for m
        using n Folder.prems(1) by (intro join_step) auto
      ultimately show ?thesis
        using join_step [OF Folder.prems(1)]
        by (simp add: Let_def map_concat comp_def case_prod_beta')
    qed
  qed
  have "map (collectFolderPaths (join ''/'' pre)) fs =
      map (\<lambda>f. map (\<lambda>(p, r). join ''/'' (pre @ p)) (folder_entries f)) fs"
    using assms by (auto simp: entries_def intro!: folder)
  then have "concat (map (collectFolderPaths (join ''/'' pre)) fs) =
      concat (map (\<lambda>f. map (\<lambda>(p, r). join ''/'' (pre @ p)) (folder_entries f)) fs)"
    by (rule arg_cong)
  then show ?thesis
    using join_step [OF assms(1)]
    by (simp add: collectRequestPaths_def entries_def map_concat comp_def case_prod_beta')
qed

section \<open>Auth in the snapshot\<close>

lemma clone_nth:
  "i < length fs \<Longrightarrow> cloneFoldersWithAuth fs as ! i = cloneFolderWithAuth as (fs ! i)"
  "length (cloneFoldersWithAuth fs as) = length fs"
  by (simp_all add: cloneFoldersWithAuth_def)

lemma clone_sel:
  "fo_Folders (cloneFolderWithAuth as f) = cloneFoldersWithAuth (fo_Folders f) (as @ [fo_Auth f])"
  "fo_Requests (cloneFolderWithAuth as f) = cloneRequestsWithAuth (fo_Requests f) (as @ [fo_Auth f])"
  "fo_Name (cloneFolderWithAuth as f) = fo_Name f"
  by (cases f; simp add: Let_def cloneFoldersWithAuth_def)+

text \<open>The container an index path leads to.\<close>

fun container_along :: "folder list \<times> request list \<Rightarrow> nat list \<Rightarrow> (folder list \<times> request list) option" where
  "container_along fr [] = Some fr"
| "container_along (fs, rs) (k # ks) =
     (if k < length fs then container_along (fo_Folders (fs ! k), fo_Requests (fs ! k)) ks else None)"

lemma container_along_clone:
  "folders_along fs ks = Some along \<Longrightarrow> container_along (fs, rs) ks = Some (fs', rs') \<Longrightarrow>
   container_along (cloneFoldersWithAuth fs as, cloneRequestsWithAuth rs as) ks =
     Some (cloneFoldersWithAuth fs' (as @ map fo_Auth along), cloneRequestsWithAuth rs' (as @ map fo_Auth along))"
proof (induction ks arbitrary: fs rs as along)
  case (Cons k ks)
  then obtain along' where "k < length fs" "folders_along (fo_Folders (fs ! k)) ks = Some along'"
    "along = fs ! k # along'" "container_along (fo_Folders (fs ! k), fo_Requests (fs ! k)) ks = Some (fs', rs')"
    by (auto split: if_splits)
  with Cons.IH [of "fo_Folders (fs ! k)" along' "fo_Requests (fs ! k)" "as @ [fo_Auth (fs ! k)]"]
  show ?case by (simp add: clone_nth clone_sel)
qed auto

lemma walk_folders_along:
  "container_along (fs, rs) ks = Some fr \<Longrightarrow> int (container_size (fs, rs)) < 2 ^ 63 \<Longrightarrow>
   walk_folders (map (\<lambda>k. CHR ''f'' # nat_digits k) ks) (fs, rs) = Some fr"
proof (induction ks arbitrary: fs rs)
  case (Cons k ks)
  then have k: "k < length fs"
    and sub: "container_along (fo_Folders (fs ! k), fo_Requests (fs ! k)) ks = Some fr"
    by (auto split: if_splits)
  have "int (container_size (fo_Folders (fs ! k), fo_Requests (fs ! k))) < 2 ^ 63"
    using container_size_child [OF k, of rs] Cons.prems(2) by simp
  moreover have "seg_index CHR ''f'' (CHR ''f'' # nat_digits k) (length fs) = Some k"
    using k Cons.prems(2) container_size_bounds(1) [of fs rs] by (intro seg_index_print) auto
  ultimately show ?case using Cons.IH [OF sub] by simp
qed simp

lemma containerAt_along:
  assumes "ci < length cols" and "go_sized cols"
    and "container_along (co_Folders (cols ! ci), co_Requests (cols ! ci)) ks = Some fr"
  shows "containerAt cols (path_id ci ks) = Some fr"
proof -
  have "int (container_size (co_Folders (cols ! ci), co_Requests (cols ! ci))) < 2 ^ 63"
    using cols_size_bounds(2) [OF assms(1)] assms(2) by (simp add: go_sized_def)
  from walk_folders_along [OF assms(3) this] show ?thesis
    using assms(1,2) cols_size_bounds(1) [of cols]
    by (simp add: containerAt_def split_path_id col_index_print go_sized_def)
qed

lemma container_folders_along:
  "container_along (fs, rs) ks = Some fr \<Longrightarrow> \<exists>along. folders_along fs ks = Some along"
  by (induction ks arbitrary: fs rs) (auto split: if_splits)

section \<open>Locating by ID\<close>

lemma locate_requests_sound:
  "locate_requests pre k rs i = Some (n, r) \<Longrightarrow>
   \<exists>j < length rs. n = pre @ ''/r'' @ itoa (int (k + j)) \<and> r = rs ! j \<and> rq_ID r = i"
proof (induction rs arbitrary: k)
  case (Cons r' rs)
  show ?case
  proof (cases "rq_ID r' = i")
    case True
    with Cons.prems show ?thesis by (intro exI [of _ 0]) auto
  next
    case False
    then obtain j where "j < length rs" "n = pre @ ''/r'' @ itoa (int (Suc k + j))" "r = rs ! j" "rq_ID r = i"
      using Cons.IH [of "Suc k"] Cons.prems by (auto simp del: itoa_nat)
    then show ?thesis by (intro exI [of _ "Suc j"]) auto
  qed
qed simp

lemma locate_requests_None: "locate_requests pre k rs i = None \<longleftrightarrow> i \<notin> rq_ID ` set rs"
  by (induction rs arbitrary: k) auto

lemma locate_request_at:
  assumes "go_sized cols" and "containerAt cols pre = Some (fs, rs)"
    and "locate_requests pre 0 rs i = Some (n, r)"
  shows "Tree_Request cols n = Some r \<and> rq_ID r = i"
  using locate_requests_sound [OF assms(3)] Tree_Request_child [OF assms(2) _ assms(1)]
  by (auto simp del: itoa_nat)

lemma locate_folders_sound:
  assumes "go_sized cols" and "containerAt cols pre = Some (fs0 @ fs, rs)" and "length fs0 = k"
    and "locate_folders pre k fs i = Some (n, r)"
  shows "Tree_Request cols n = Some r \<and> rq_ID r = i"
  using assms
proof (induction pre k fs i arbitrary: fs0 rs rule: locate_folders.induct)
  case (2 pre k f fs i)
  let ?p = "pre @ ''/f'' @ itoa (int k)"
  have child: "containerAt cols ?p = Some (fo_Folders f, fo_Requests f)"
    using containerAt_folder [OF 2(4) _ 2(3), of k] 2(5) by (simp add: nth_append del: itoa_nat)
  have tail: "Tree_Request cols n = Some r \<and> rq_ID r = i"
    if "locate_requests ?p 0 (fo_Requests f) i = None" "locate_folders ?p 0 (fo_Folders f) i = None"
      "locate_folders pre (Suc k) fs i = Some (n, r)"
    using 2(2) [OF refl that(1,2) 2(3), of "fs0 @ [f]" rs] 2(4,5) that(3) by simp
  have inner: "Tree_Request cols n = Some r \<and> rq_ID r = i"
    if "locate_requests ?p 0 (fo_Requests f) i = None" "locate_folders ?p 0 (fo_Folders f) i = Some (n, r)"
    using 2(1) [OF refl that(1) 2(3), of "[]" "fo_Requests f"] child that(2) by simp
  show ?case
    using 2(6) locate_request_at [OF 2(3) child] inner tail
    by (auto simp: Let_def simp del: itoa_nat split: option.splits)
qed simp

lemma locate_folders_None:
  "locate_folders pre k fs i = None \<longleftrightarrow> i \<notin> rq_ID ` set (concat (map folder_requests fs))"
proof (induction pre k fs i rule: locate_folders.induct)
  case (2 pre k f fs i)
  have "rq_ID ` set (concat (map folder_requests (f # fs))) =
      rq_ID ` set (fo_Requests f) \<union> rq_ID ` set (concat (map folder_requests (fo_Folders f)))
        \<union> rq_ID ` set (concat (map folder_requests fs))"
    by (simp only: list.map concat.simps set_append folder_requests_sel [of f] tree_requests_def image_Un Un_assoc)
  then show ?case
    using 2 locate_requests_None [of "pre @ ''/f'' @ itoa (int k)" 0 "fo_Requests f" i]
    by (cases "locate_requests (pre @ ''/f'' @ itoa (int k)) 0 (fo_Requests f) i";
        cases "locate_folders (pre @ ''/f'' @ itoa (int k)) 0 (fo_Folders f) i")
      (simp_all add: Let_def del: itoa_nat set_concat concat.simps list.map)
qed simp

lemma locateInContainer_None: "locateInContainer pre fs rs i = None \<longleftrightarrow> i \<notin> rq_ID ` set (tree_requests fs rs)"
  using locate_requests_None [of pre 0 rs i] locate_folders_None [of pre 0 fs i]
  by (auto simp: locateInContainer_def tree_requests_def simp del: set_concat set_map split: option.splits)

section \<open>Properties\<close>

text \<open>
  The path search with its backtracking over folders of the same name is a lookup in tree
  order: it returns the first request, in the order of the sidebar, whose path of names is the
  reference, and nothing only if there is none.
\<close>

theorem FindRequestByPath_first:
  "find_by_path fs rs ref = map_of (entries fs rs) (splitChainPath ref)
    \<and> map snd (entries fs rs) = tree_requests fs rs"
proof -
  have "map_of (entries fs rs) (splitChainPath ref) = None" if "splitChainPath ref = []"
    using that by (simp add: map_of_entries_Nil)
  then show ?thesis
    by (auto simp: find_by_path_def Let_def findRequest_map_of entries_requests)
qed

text \<open>
  The picker's suggestions resolve: in a collection whose names survive the split of a path,
  and whose paths are distinct, looking up the listed paths one by one gives the collection's
  requests, each once and in tree order.
\<close>

theorem AllRequestPaths_resolve:
  assumes "active_collection s = Some c"
    and "list_all (\<lambda>(p, r). list_all clean_seg p) (entries (co_Folders c) (co_Requests c))"
    and "distinct (AllRequestPaths s)"
  shows "map (session_FindRequestByPath s) (AllRequestPaths s) = map Some (col_requests c)"
proof -
  let ?es = "entries (co_Folders c) (co_Requests c)"
  have paths: "AllRequestPaths s = map (\<lambda>(p, r). join ''/'' p) ?es"
    using collect_paths [of "[]" "co_Folders c" "co_Requests c"] assms(1,2)
    by (auto simp: AllRequestPaths_def list_all_iff)
  have split: "splitChainPath (join ''/'' p) = p" if "(p, r) \<in> set ?es" for p r
    using that assms(2) entries_not_Nil by (intro splitChainPath_join) (auto simp: list_all_iff)
  have "distinct (map fst ?es)"
  proof (rule distinct_map [THEN iffD2], intro conjI)
    show "distinct ?es" using assms(3) by (simp add: paths distinct_map)
    show "inj_on fst (set ?es)"
      using assms(3) by (force simp: paths distinct_map inj_on_def)
  qed
  then have "session_FindRequestByPath s (join ''/'' p) = Some r" if "(p, r) \<in> set ?es" for p r
    using that split [OF that] by (simp add: session_FindRequestByPath_def assms(1) FindRequestByPath_first)
  then have "map (session_FindRequestByPath s) (AllRequestPaths s) = map (\<lambda>(p, r). Some r) ?es"
    by (auto simp: paths)
  also have "\<dots> = map Some (map snd ?es)" by auto
  also have "\<dots> = map Some (col_requests c)" by (simp add: entries_requests col_requests_def)
  finally show ?thesis .
qed

text \<open>
  A tab finds its request again: what \<open>LocateRequest\<close> returns is a node ID that addresses,
  in the current tree, the request it returns with it, and that request carries the wanted ID;
  it returns nothing only when the collection opened from that directory has no such request.
\<close>

theorem LocateRequest_addresses:
  assumes "go_sized (ss_cols s)" and "length (ss_dirs s) = length (ss_cols s)" and "requestID \<noteq> []"
  shows "case LocateRequest s dir requestID of
      Some (n, r) \<Rightarrow> Tree_Request (ss_cols s) n = Some r \<and> rq_ID r = requestID
    | None \<Rightarrow> (case first_index (\<lambda>d. d = dir) (ss_dirs s) of
          None \<Rightarrow> dir \<notin> set (ss_dirs s)
        | Some ci \<Rightarrow> requestID \<notin> rq_ID ` set (col_requests (ss_cols s ! ci)))"
proof (cases "first_index (\<lambda>d. d = dir) (ss_dirs s)")
  case None
  then show ?thesis
    using assms(3) first_index_None [THEN iffD1, OF None] by (auto simp: LocateRequest_def)
next
  case (Some ci)
  let ?c = "ss_cols s ! ci"
  have ci: "ci < length (ss_cols s)" using first_index_Some [OF Some] assms(2) by simp
  note at = containerAt_col [OF ci assms(1)]
  have "Tree_Request (ss_cols s) n = Some r \<and> rq_ID r = requestID"
    if "locateInContainer (itoa (int ci)) (co_Folders ?c) (co_Requests ?c) requestID = Some (n, r)" for n r
    using that locate_request_at [OF assms(1) at]
      locate_folders_sound [OF assms(1), of "itoa (int ci)" "[]" "co_Folders ?c" "co_Requests ?c" 0 requestID n r] at
    by (auto simp: locateInContainer_def simp del: itoa_nat split: option.splits)
  then show ?thesis
    using Some assms(3) locateInContainer_None
    by (auto simp: LocateRequest_def Let_def col_requests_def simp del: itoa_nat split: option.split)
qed


text \<open>
  Renaming breaks references that have no pinned ID: \<open>RenameItem\<close> stores the name as it
  was typed and the lookup trims every segment, so after renaming a request to a name with a
  trailing space the rewritten reference of the chain step that pointed at it finds nothing,
  although it found the request before.
\<close>

theorem rename_breaks_reference:
  "(let s1 = snd (RenameItem sample_io ''0/f0/r0'' ''Sign in '' sample_session);
        ref = (\<lambda>s. cs_Request (hd (rq_Chain (hd (co_Requests (hd (ss_cols s)))))))
    in fst (RenameItem sample_io ''0/f0/r0'' ''Sign in '' sample_session) = Inr ()
       \<and> map_option rq_ID (session_FindRequestByPath sample_session (ref sample_session)) = Some ''R1''
       \<and> ref s1 = ''Auth/Sign in '' \<and> session_FindRequestByPath s1 (ref s1) = None)"
  by code_simp

section \<open>Concrete instances\<close>

theorem AllRequestPaths_resolve_witness:
  "AllRequestPaths sample_session = [''Home'', ''Auth/Login'', ''Auth/Logout'']
   \<and> map (map_option rq_Name) (map (session_FindRequestByPath sample_session) (AllRequestPaths sample_session)) =
       [Some ''Home'', Some ''Login'', Some ''Logout'']"
proof -
  have a: "active_collection sample_session = Some sample_col"
    by (simp add: active_collection_def sample_session_def)
  have b: "list_all (\<lambda>(p, r). list_all clean_seg p) (entries (co_Folders sample_col) (co_Requests sample_col))"
    by code_simp
  have p: "AllRequestPaths sample_session = [''Home'', ''Auth/Login'', ''Auth/Logout'']" by code_simp
  have "map rq_Name (col_requests sample_col) = [''Home'', ''Login'', ''Logout'']" by code_simp
  then have "map (map_option rq_Name) (map Some (col_requests sample_col)) =
      [Some ''Home'', Some ''Login'', Some ''Logout'']" by (auto simp: map_eq_Cons_conv)
  with AllRequestPaths_resolve [OF a b] p show ?thesis by simp
qed

theorem LocateRequest_addresses_witness:
  "LocateRequest sample_session ''/api'' ''R2'' = Some (''0/f0/r1'', sample_req ''R2'' ''Logout'')
   \<and> Tree_Request [sample_col] ''0/f0/r1'' = Some (sample_req ''R2'' ''Logout'')"
proof -
  have l: "LocateRequest sample_session ''/api'' ''R2'' = Some (''0/f0/r1'', sample_req ''R2'' ''Logout'')"
    by code_simp
  have "go_sized (ss_cols sample_session)" by code_simp
  from LocateRequest_addresses [OF this, of "''R2''" "''/api''"] l show ?thesis
    by (simp add: sample_session_def)
qed


end
