(* ===== verification/EnvText.thy ===== *)
theory EnvText
  imports ApiModel GoScan
begin

text \<open>
  The two environment text formats: the editor's \<open>key = value\<close> form
  (\<open>internal/session/env.go\<close>) and \<open>.env\<close> documents (\<open>internal/session/dotenv.go\<close>).
\<close>

section \<open>The editor's text\<close>

definition parse_env_line :: "string \<Rightarrow> var_row option" where
  "parse_env_line raw =
     (let line = trim_space raw
      in if line = [] then None
         else
           (let enabled = (\<not> has_prefix line ''#'');
                line' = (if enabled then line else trim_space (drop 1 line))
            in if line' = [] then None
               else (case cut line' CHR ''='' of
                   (k, v, found) \<Rightarrow>
                     if \<not> found then None
                     else Some \<lparr>vr_Enabled = enabled, vr_Key = trim_space k, vr_Value = trim_space v,
                                vr_Secret = False\<rparr>)))"

definition ParseEnvVars :: "string \<Rightarrow> var_row list" where
  "ParseEnvVars txt = List.map_filter parse_env_line (split_on CHR 0x0A txt)"

definition format_env_line :: "var_row \<Rightarrow> string" where
  "format_env_line v = (if vr_Enabled v then [] else ''# '') @ vr_Key v @ '' = '' @ vr_Value v"

definition FormatEnvVars :: "var_row list \<Rightarrow> string" where
  "FormatEnvVars vs = concat (map (\<lambda>v. format_env_line v @ [CHR 0x0A]) vs)"

section \<open>.env documents\<close>

text \<open>A Go map is an association list here: the first entry of a key is its value.\<close>

definition squote :: char where "squote = CHR 0x27"

definition unquoteDotEnv :: "string \<Rightarrow> string" where
  "unquoteDotEnv v =
     (if 2 \<le> length v \<and> (hd v = CHR 0x22 \<or> hd v = squote) \<and> last v = hd v
      then butlast (tl v) else v)"

definition dotenv_line :: "string \<Rightarrow> (string \<times> string) option" where
  "dotenv_line raw =
     (let line = trim_space raw
      in if line = [] \<or> has_prefix line ''#'' then None
         else
           (let line' = trim_prefix line ''export ''
            in case index_byte line' CHR ''='' of
                 None \<Rightarrow> None
               | Some eq \<Rightarrow>
                   if eq = 0 then None
                   else
                     (let k = trim_space (take eq line')
                      in if k = [] then None
                         else Some (k, unquoteDotEnv (trim_space (drop (Suc eq) line'))))))"

definition parseDotEnv :: "string \<Rightarrow> (string \<times> string) list" where
  "parseDotEnv data = rev (List.map_filter dotenv_line (scan_lines (2 ^ 20) data))"

section \<open>Lemmas\<close>

text \<open>A text that \<open>TrimSpace\<close> leaves alone and that has no line feed.\<close>

definition clean_text :: "string \<Rightarrow> bool" where
  "clean_text s \<longleftrightarrow> trim_space s = s \<and> CHR 0x0A \<notin> set s"

text \<open>A variable the text form can hold.\<close>

definition clean_var :: "var_row \<Rightarrow> bool" where
  "clean_var v \<longleftrightarrow>
     clean_text (vr_Key v) \<and> clean_text (vr_Value v) \<and> vr_Key v \<noteq> [] \<and> vr_Value v \<noteq> []
     \<and> CHR ''='' \<notin> set (vr_Key v) \<and> \<not> has_prefix (vr_Key v) ''#''"

lemma clean_text_trimmed: "clean_text s \<Longrightarrow> trimmed s"
  by (metis clean_text_def trim_space_trimmed)

lemma trim_snoc_space: "trimmed k \<Longrightarrow> trim_space (k @ '' '') = k"
proof -
  assume k: "trimmed k"
  show ?thesis
  proof (cases "k = []")
    case True
    show ?thesis unfolding True by code_simp
  next
    case False
    have "space_width wide_spaces (k @ '' '') = 0"
      using k space_width_before [OF False ascii_wide(1), where c = "CHR '' ''" and s = "[]"]
      by (simp add: trimmed_def ascii_def)
    then have "trim_left (k @ '' '') = k @ '' ''" by (simp add: trim_left_def trim_left_with_stop)
    moreover have "trim_left_with (map rev wide_spaces) (rev k) = rev k"
      using k by (simp add: trimmed_def trim_left_with_stop)
    then have "trim_left_with (map rev wide_spaces) (CHR '' '' # rev k) = rev k"
      by (subst trim_left_with.simps) (simp add: space_width_def ascii_space_def)
    ultimately show ?thesis by (simp add: trim_space_def trim_right_def)
  qed
qed

lemma trim_cons_space: "trimmed k \<Longrightarrow> trim_space (CHR '' '' # k) = k"
proof -
  assume k: "trimmed k"
  then have "trim_left (CHR '' '' # k) = k"
    unfolding trim_left_def
    by (subst trim_left_with.simps) (simp add: space_width_def ascii_space_def trim_left_with_stop trimmed_def)
  moreover have "trim_left k = k" using k by (simp add: trim_left_def trim_left_with_stop trimmed_def)
  ultimately show ?thesis using trim_space_id [OF k] by (simp add: trim_space_def)
qed

lemma parse_key_value:
  assumes "clean_text k" "clean_text x" "k \<noteq> []" "x \<noteq> []" "CHR ''='' \<notin> set k" "\<not> has_prefix k ''#''"
  shows "parse_env_line ((if e then [] else ''# '') @ k @ '' = '' @ x) =
    Some \<lparr>vr_Enabled = e, vr_Key = k, vr_Value = x, vr_Secret = False\<rparr>"
proof -
  let ?line = "k @ '' = '' @ x"
  have tr: "trimmed k" "trimmed x" using assms by (simp_all add: clean_text_trimmed)
  have line: "trimmed ?line"
    using trimmed_glue [of k x "CHR '' ''" "CHR '' ''" "''=''"] tr assms by (simp add: ascii_def)
  have t: "trim_space ?line = ?line" by (rule trim_space_id [OF line])
  have cut: "cut ?line CHR ''='' = (k @ '' '', '' '' @ x, True)"
    using cut_append [of "CHR ''=''" "k @ '' ''" "'' '' @ x"] assms by simp
  have kv: "trim_space (k @ '' '') = k" "trim_space ('' '' @ x) = x"
    using tr by (simp_all add: trim_snoc_space trim_cons_space)
  have ne: "?line \<noteq> []" by simp
  show ?thesis
  proof (cases e)
    case True
    have "\<not> has_prefix ?line ''#''" using assms(3,6) by (cases k) auto
    then show ?thesis using True t cut kv ne
      by (simp only: parse_env_line_def Let_def append_Nil if_True if_False simp_thms split prod.case)
  next
    case False
    have l: "trim_space (''# '' @ ?line) = ''# '' @ ?line"
      using trimmed_tail [of x "CHR ''#''" "CHR '' ''" "'' '' @ k @ '' =''"] tr assms(4)
      by (intro trim_space_id) (simp add: ascii_def ascii_space_def)
    moreover have "trim_space (drop 1 (''# '' @ ?line)) = ?line"
      using trim_cons_space [OF line] by simp
    moreover have "has_prefix (''# '' @ ?line) ''#''" "''# '' @ ?line \<noteq> []" by simp_all
    ultimately show ?thesis using False cut kv ne
      by (simp only: parse_env_line_def Let_def if_True if_False simp_thms split prod.case)
  qed
qed

lemma parse_format_line:
  assumes "clean_var v"
  shows "parse_env_line (format_env_line v) = Some (v\<lparr>vr_Secret := False\<rparr>)"
proof (cases v)
  case (fields e k x sct)
  with assms show ?thesis
    using parse_key_value [of k x e] by (simp add: clean_var_def format_env_line_def)
qed

lemma map_filter_append: "List.map_filter f (xs @ ys) = List.map_filter f xs @ List.map_filter f ys"
  by (induction xs) (auto simp: map_filter_simps split: option.split)

lemma map_filter_all: "(\<And>x. x \<in> set xs \<Longrightarrow> f x = Some (g x)) \<Longrightarrow> List.map_filter f xs = map g xs"
  by (induction xs) (auto simp: map_filter_simps)

lemma map_filter_map: "List.map_filter f (map g xs) = List.map_filter (\<lambda>x. f (g x)) xs"
  by (induction xs) (auto simp: map_filter_simps split: option.split)

lemma split_on_lines:
  "(\<And>l. l \<in> set ls \<Longrightarrow> c \<notin> set l) \<Longrightarrow> split_on c (concat (map (\<lambda>l. l @ [c]) ls)) = ls @ [[]]"
  by (induction ls) (auto simp: split_on_append)

section \<open>Properties\<close>

text \<open>
  The environment editor's text round-trips: a list of variables with non-empty, trimmed,
  one-line keys and values, keys without an equals sign and not starting with a hash, is
  read back from the text it is shown as, in order, disabled ones included; only the secret
  mark is not in the text.
\<close>

theorem env_text_roundtrip:
  assumes "list_all clean_var vs"
  shows "ParseEnvVars (FormatEnvVars vs) = map (\<lambda>v. v\<lparr>vr_Secret := False\<rparr>) vs"
proof -
  have "CHR 0x0A \<notin> set (format_env_line v)" if "v \<in> set vs" for v
    using that assms by (auto simp: list_all_iff format_env_line_def clean_var_def clean_text_def)
  then have "split_on CHR 0x0A (FormatEnvVars vs) = map format_env_line vs @ [[]]"
    using split_on_lines [of "map format_env_line vs" "CHR 0x0A"]
    by (auto simp: FormatEnvVars_def comp_def)
  moreover have "List.map_filter parse_env_line (map format_env_line vs) =
      map (\<lambda>v. v\<lparr>vr_Secret := False\<rparr>) vs"
    using assms map_filter_all [of vs "\<lambda>v. parse_env_line (format_env_line v)" "\<lambda>v. v\<lparr>vr_Secret := False\<rparr>"]
    by (simp add: list_all_iff parse_format_line map_filter_map)
  moreover have "parse_env_line [] = None" by (simp add: parse_env_line_def)
  ultimately show ?thesis
    by (simp add: ParseEnvVars_def map_filter_append map_filter_simps)
qed

text \<open>The line that sets a key to a quoted value.\<close>

definition dotenv_entry :: "string \<times> string \<Rightarrow> string" where
  "dotenv_entry kv = fst kv @ ''='' @ [CHR 0x22] @ snd kv @ [CHR 0x22]"

definition clean_key :: "string \<Rightarrow> bool" where
  "clean_key k \<longleftrightarrow> k \<noteq> [] \<and> clean_text k \<and> CHR ''='' \<notin> set k \<and> \<not> has_prefix k ''#''
     \<and> \<not> has_prefix (k @ ''='') ''export ''"

lemma no_export_prefix:
  "CHR ''='' \<notin> set k \<Longrightarrow> has_prefix (k @ CHR ''='' # s) ''export '' \<longleftrightarrow> has_prefix (k @ ''='') ''export ''"
  using prefix_before [of "CHR ''=''" "''export ''" k s] prefix_before [of "CHR ''=''" "''export ''" k "[]"]
  by simp

lemma dotenv_line_entry:
  assumes "clean_key k"
  shows "dotenv_line (dotenv_entry (k, v)) = Some (k, v)"
proof -
  let ?q = "[CHR 0x22] @ v @ [CHR 0x22]"
  have q: "trimmed ?q" using trimmed_ends(1) [of "CHR 0x22" "CHR 0x22" v] by (simp add: ascii_def ascii_space_def)
  have k: "trimmed k" "k \<noteq> []" using assms by (simp_all add: clean_key_def clean_text_trimmed)
  have "space_width wide_spaces (k @ CHR ''='' # ?q) = 0"
    using k space_width_before [OF k(2) ascii_wide(1), where c = "CHR ''=''" and s = ?q]
    by (simp add: trimmed_def ascii_def)
  moreover have "space_width (map rev wide_spaces) (rev ?q @ CHR ''='' # rev k) = 0"
    using q space_width_before [OF _ ascii_wide(2), where seqs = "map rev wide_spaces" and a = "rev ?q" and c = "CHR ''=''" and s = "rev k"]
    by (simp add: trimmed_def ascii_def)
  ultimately have "trimmed (k @ CHR ''='' # ?q)" by (simp add: trimmed_def)
  then have t: "trim_space (dotenv_entry (k, v)) = dotenv_entry (k, v)"
    by (simp add: dotenv_entry_def trim_space_id)
  have h: "\<not> has_prefix (dotenv_entry (k, v)) ''#''"
    using assms by (cases k) (auto simp: clean_key_def dotenv_entry_def)
  have e: "trim_prefix (dotenv_entry (k, v)) ''export '' = dotenv_entry (k, v)"
    using assms no_export_prefix [of k ?q] by (simp add: trim_prefix_def dotenv_entry_def clean_key_def del: prefix_Cons)
  have i: "index_byte (dotenv_entry (k, v)) CHR ''='' = Some (length k)"
    using assms index_byte_append [of "CHR ''=''" k ?q] by (simp add: clean_key_def dotenv_entry_def)
  have "unquoteDotEnv (trim_space ?q) = v"
    using trim_space_id [OF q] by (simp add: unquoteDotEnv_def)
  then have "unquoteDotEnv (trim_space (drop (Suc (length k)) (dotenv_entry (k, v)))) = v"
    by (simp add: dotenv_entry_def)
  moreover have "trim_space (take (length k) (dotenv_entry (k, v))) = k"
    using k by (simp add: dotenv_entry_def trim_space_id)
  moreover have "dotenv_entry (k, v) \<noteq> []" by (simp add: dotenv_entry_def)
  ultimately show ?thesis using t h e i k(2) by (simp add: dotenv_line_def)
qed

text \<open>
  A \<open>.env\<close> document of quoted entries is read exactly: every key gets the value that was
  written, byte for byte, and the last line of a repeated key wins; lines reach up to the
  scanner's limit of one mebibyte.
\<close>

theorem dotenv_roundtrip:
  assumes "list_all (\<lambda>(k, v). clean_key k \<and> CHR 0x0A \<notin> set v \<and> length k + length v + 3 < 2 ^ 20) kvs"
  shows "map_of (parseDotEnv (concat (map (\<lambda>kv. dotenv_entry kv @ [CHR 0x0A]) kvs))) = assign_all kvs"
proof -
  have "CHR 0x0A \<notin> set l \<and> length l < 2 ^ 20 \<and> (l = [] \<or> last l \<noteq> CHR 0x0D)"
    if "l \<in> set (map dotenv_entry kvs)" for l
    using that assms by (auto simp: list_all_iff dotenv_entry_def clean_key_def clean_text_def)
  then have "scan_lines (2 ^ 20) (concat (map (\<lambda>l. l @ [CHR 0x0A]) (map dotenv_entry kvs))) = map dotenv_entry kvs"
    by (rule scan_lines_concat)
  moreover have "dotenv_line (dotenv_entry kv) = Some kv" if "kv \<in> set kvs" for kv
    using that assms by (cases kv) (auto simp: list_all_iff dotenv_line_entry)
  then have "List.map_filter dotenv_line (map dotenv_entry kvs) = kvs"
    using map_filter_all [of kvs "\<lambda>kv. dotenv_line (dotenv_entry kv)" "\<lambda>kv. kv"]
    by (simp add: map_filter_map)
  ultimately show ?thesis by (simp add: parseDotEnv_def assign_all_def comp_def)
qed

section \<open>Concrete instances\<close>

definition sample_vars :: "var_row list" where
  "sample_vars = [\<lparr>vr_Enabled = True, vr_Key = ''host'', vr_Value = ''a=b # c'', vr_Secret = False\<rparr>,
     \<lparr>vr_Enabled = False, vr_Key = ''k'', vr_Value = ''v'', vr_Secret = True\<rparr>]"

theorem env_text_roundtrip_witness:
  "FormatEnvVars sample_vars = ''host = a=b # c'' @ [CHR 0x0A] @ ''# k = v'' @ [CHR 0x0A] \<and>
   map vr_Value (ParseEnvVars (FormatEnvVars sample_vars)) = [''a=b # c'', ''v'']"
proof -
  have "list_all clean_var sample_vars" by code_simp
  from env_text_roundtrip [OF this] show ?thesis
    by (simp add: sample_vars_def FormatEnvVars_def format_env_line_def)
qed

theorem dotenv_roundtrip_witness:
  "map_of (parseDotEnv (concat (map (\<lambda>kv. dotenv_entry kv @ [CHR 0x0A])
     [(''A'', ''1''), (''B'', ''x = y''), (''A'', ''2'')]))) ''A'' = Some ''2''"
proof -
  have "clean_key ''A''" "clean_key ''B''" by code_simp+
  then have "list_all (\<lambda>(k, v). clean_key k \<and> CHR 0x0A \<notin> set v \<and> length k + length v + 3 < 2 ^ 20)
      [(''A'', ''1''), (''B'', ''x = y''), (''A'', ''2'')]" by simp
  from dotenv_roundtrip [OF this] show ?thesis by (simp add: assign_all_def)
qed

end
