(* ===== verification/SessionEnv.thy ===== *)
theory SessionEnv
  imports SessionFinder EnvText Vars
begin

text \<open>
  The operations of \<open>internal/session\<close> on environments, variable scopes, the script overlay,
  folder and collection settings, workspaces (\<open>workspace.go\<close>) and the restorable UI state.
\<close>

section \<open>Accessors\<close>

definition ActiveCollectionDir :: "'d session \<Rightarrow> string" where
  "ActiveCollectionDir s =
     (if \<not> in_range (ss_activeCol s) (ss_dirs s) then [] else ss_dirs s ! nat (ss_activeCol s))"

definition CollectionDir :: "int \<Rightarrow> 'd session \<Rightarrow> string" where
  "CollectionDir i s = (if \<not> in_range i (ss_dirs s) then [] else ss_dirs s ! nat i)"

definition WorkspaceNames :: "'d session \<Rightarrow> string list" where
  "WorkspaceNames s = map wk_Name (cf_Workspaces (ss_cfg s))"

section \<open>Environments\<close>

definition CollectionEnvironmentNames :: "'d session \<Rightarrow> string list" where
  "CollectionEnvironmentNames s =
     (case active_collection s of None \<Rightarrow> [] | Some c \<Rightarrow> map env_Name (co_Environments c))"

definition ActiveEnvName :: "'d session \<Rightarrow> string" where
  "ActiveEnvName s = (case ss_activeEnv s (ss_activeCol s) of Some n \<Rightarrow> n | None \<Rightarrow> [])"

definition SetActiveEnv :: "'d session_io \<Rightarrow> string \<Rightarrow> 'd session \<Rightarrow> 'd session" where
  "SetActiveEnv io name s =
     (if \<not> in_range (ss_activeCol s) (ss_dirs s) then s
      else
        (let dir = ss_dirs s ! nat (ss_activeCol s);
             s1 = s\<lparr>ss_activeEnv := (ss_activeEnv s)(ss_activeCol s \<mapsto> name)\<rparr>;
             s2 = update_ui (\<lambda>u. u\<lparr>ui_ActiveEnv :=
                    (if name = [] then (ui_ActiveEnv u)(dir := None)
                     else (ui_ActiveEnv u)(dir \<mapsto> name))\<rparr>) s1
         in snd (persist io s2)))"

definition environmentIndex :: "string \<Rightarrow> 'd session \<Rightarrow> nat option" where
  "environmentIndex name s =
     (case active_collection s of
        None \<Rightarrow> None | Some c \<Rightarrow> first_index (\<lambda>e. env_Name e = name) (co_Environments c))"

text \<open>A pointer into the active collection's environments is the index it has there.\<close>

definition ActiveEnvironment :: "'d session \<Rightarrow> environment option" where
  "ActiveEnvironment s =
     (case active_collection s of
        None \<Rightarrow> None
      | Some c \<Rightarrow> find (\<lambda>e. env_Name e = ActiveEnvName s) (co_Environments c))"

definition update_active :: "(collection \<Rightarrow> collection) \<Rightarrow> 'd session \<Rightarrow> 'd session" where
  "update_active f s =
     (let i = nat (ss_activeCol s) in s\<lparr>ss_cols := (ss_cols s)[i := f (ss_cols s ! i)]\<rparr>)"

definition update_envs :: "(environment list \<Rightarrow> environment list) \<Rightarrow> 'd session \<Rightarrow> 'd session" where
  "update_envs f = update_active (\<lambda>c. c\<lparr>co_Environments := f (co_Environments c)\<rparr>)"

definition SaveActiveCollection :: "'d session_io \<Rightarrow> 'd session \<Rightarrow> string option \<times> 'd session" where
  "SaveActiveCollection io s = persistCollection io (ss_activeCol s) s"

definition AddEnvironment :: "'d session_io \<Rightarrow> string \<Rightarrow> 'd session \<Rightarrow> ('d, unit) outcome" where
  "AddEnvironment io raw s =
     (if active_collection s = None then (Inl ''no active collection'', s)
      else
        (let name = trim_space raw
         in if name = [] then (Inl ''environment name cannot be empty'', s)
            else if environmentIndex name s \<noteq> None
            then (Inl (''an environment named '' @ quoted name @ '' already exists''), s)
            else (case NewID io s of (i, s1) \<Rightarrow>
              ret () (SaveActiveCollection io
                (update_envs (\<lambda>es. es @ [\<lparr>env_ID = i, env_Name = name, env_Variables = []\<rparr>]) s1)))))"

definition RenameEnvironment ::
    "'d session_io \<Rightarrow> string \<Rightarrow> string \<Rightarrow> 'd session \<Rightarrow> ('d, unit) outcome" where
  "RenameEnvironment io oldName raw s =
     (case environmentIndex oldName s of
        None \<Rightarrow> (Inl (''environment '' @ quoted oldName @ '' not found''), s)
      | Some idx \<Rightarrow>
          (let newName = trim_space raw
           in if newName = [] then (Inl ''environment name cannot be empty'', s)
              else if newName \<noteq> oldName \<and> environmentIndex newName s \<noteq> None
              then (Inl (''an environment named '' @ quoted newName @ '' already exists''), s)
              else
                (let s1 = update_envs (\<lambda>es. es[idx := (es ! idx)\<lparr>env_Name := newName\<rparr>]) s;
                     s2 = (if ActiveEnvName s1 = oldName then SetActiveEnv io newName s1 else s1)
                 in ret () (SaveActiveCollection io s2))))"

definition DeleteEnvironment :: "'d session_io \<Rightarrow> string \<Rightarrow> 'd session \<Rightarrow> ('d, unit) outcome" where
  "DeleteEnvironment io name s =
     (case environmentIndex name s of
        None \<Rightarrow> (Inl (''environment '' @ quoted name @ '' not found''), s)
      | Some idx \<Rightarrow>
          (let wasActive = (ActiveEnvName s = name);
               s1 = update_envs (delete_at idx) s;
               s2 = (if wasActive
                     then SetActiveEnv io (case CollectionEnvironmentNames s1 of n # _ \<Rightarrow> n | [] \<Rightarrow> []) s1
                     else s1)
           in ret () (SaveActiveCollection io s2)))"

definition SetActiveEnvironmentVariables :: "var_row list \<Rightarrow> 'd session \<Rightarrow> 'd session" where
  "SetActiveEnvironmentVariables vs s =
     (case active_collection s of
        None \<Rightarrow> s
      | Some c \<Rightarrow>
          (case first_index (\<lambda>e. env_Name e = ActiveEnvName s) (co_Environments c) of
             None \<Rightarrow> s
           | Some i \<Rightarrow> update_envs (\<lambda>es. es[i := (es ! i)\<lparr>env_Variables := vs\<rparr>]) s))"

section \<open>Variable scopes\<close>

text \<open>The later of two enabled rows with one key wins.\<close>

definition enabledVars :: "var_row list \<Rightarrow> (string \<times> string) list" where
  "enabledVars vs = rev (map (\<lambda>v. (vr_Key v, vr_Value v)) (filter vr_Enabled vs))"

definition SetGlobalVariables :: "'d session_io \<Rightarrow> var_row list \<Rightarrow> 'd session \<Rightarrow> ('d, unit) outcome" where
  "SetGlobalVariables io vs s = ret () (persist io (s\<lparr>ss_cfg := (ss_cfg s)\<lparr>cf_Variables := vs\<rparr>\<rparr>))"

definition globalVars :: "'d session \<Rightarrow> (string \<times> string) list" where
  "globalVars s = enabledVars (cf_Variables (ss_cfg s))"

definition activeCollectionVars :: "'d session \<Rightarrow> (string \<times> string) list" where
  "activeCollectionVars s =
     (case active_collection s of None \<Rightarrow> [] | Some c \<Rightarrow> enabledVars (co_Variables c))"

definition activeEnvVars :: "'d session \<Rightarrow> (string \<times> string) list" where
  "activeEnvVars s =
     (case ActiveEnvironment s of
        None \<Rightarrow> []
      | Some e \<Rightarrow> rev (map (\<lambda>v. (vr_Key v, vr_Value v)) (filter vr_Enabled (env_Variables e))))"

text \<open>\<open>activeDotEnvVars\<close> reads a collection's file once and keeps what it parsed.\<close>

definition activeDotEnvVars :: "'d session_io \<Rightarrow> 'd session \<Rightarrow> (string \<times> string) list \<times> 'd session" where
  "activeDotEnvVars io s =
     (let dir = ActiveCollectionDir s
      in if dir = [] then ([], s)
         else (case ss_dotEnv s dir of
             Some cached \<Rightarrow> (cached, s)
           | None \<Rightarrow>
               (let parsed = (case io_ReadDotEnv io (ss_disk s) dir of
                                None \<Rightarrow> [] | Some data \<Rightarrow> parseDotEnv data)
                in (parsed, s\<lparr>ss_dotEnv := (ss_dotEnv s)(dir \<mapsto> parsed)\<rparr>))))"

definition SetEnvOverlay :: "string \<Rightarrow> string \<Rightarrow> 'd session \<Rightarrow> 'd session" where
  "SetEnvOverlay name v s = (if name = [] then s else s\<lparr>ss_overlay := (name, v) # ss_overlay s\<rparr>)"

definition EnvOverlay :: "string \<Rightarrow> 'd session \<Rightarrow> string option" where
  "EnvOverlay name s = map_of (ss_overlay s) name"

definition ClearEnvOverlay :: "'d session \<Rightarrow> 'd session" where
  "ClearEnvOverlay s = s\<lparr>ss_overlay := []\<rparr>"

definition RestoreEnvOverlay :: "(string \<times> string) list \<Rightarrow> 'd session \<Rightarrow> 'd session" where
  "RestoreEnvOverlay snap s = s\<lparr>ss_overlay := snap\<rparr>"

definition SnapshotEnvOverlay :: "'d session \<Rightarrow> (string \<times> string) list" where
  "SnapshotEnvOverlay s = ss_overlay s"

text \<open>\<open>dyn\<close> stands for \<open>vars.Dynamic\<close>.\<close>

definition session_Resolver ::
    "'d session_io \<Rightarrow> (string \<Rightarrow> string option) \<Rightarrow> 'd session \<Rightarrow> resolver \<times> 'd session" where
  "session_Resolver io dyn s =
     (case activeDotEnvVars io s of (dot, s1) \<Rightarrow>
        (WithFallback (Some dyn) (New_resolver
           [globalVars s, dot, activeCollectionVars s, activeEnvVars s, SnapshotEnvOverlay s]), s1))"

definition ResolverForNode :: "'d session_io \<Rightarrow> (string \<Rightarrow> string option) \<Rightarrow> string \<Rightarrow> request option
    \<Rightarrow> 'd session \<Rightarrow> resolver \<times> 'd session" where
  "ResolverForNode io dyn nodeID r s =
     (case activeDotEnvVars io s of (dot, s1) \<Rightarrow>
        (WithFallback (Some dyn) (New_resolver
           [globalVars s, dot, activeCollectionVars s, activeEnvVars s,
            AncestorVars (ss_cols s) nodeID,
            (case r of Some q \<Rightarrow> enabledVars (rq_Variables q) | None \<Rightarrow> []),
            SnapshotEnvOverlay s]), s1))"

section \<open>Folder and collection settings\<close>

definition FolderVariables :: "string \<Rightarrow> 'd session \<Rightarrow> var_row list option" where
  "FolderVariables nodeID s = map_option fo_Variables (containerFolder (ss_cols s) nodeID)"

definition FolderAuth :: "string \<Rightarrow> 'd session \<Rightarrow> auth option" where
  "FolderAuth nodeID s = map_option fo_Auth (containerFolder (ss_cols s) nodeID)"

text \<open>
  \<open>UpdateFolder\<close>: \<open>containerFolder\<close> returns a pointer to the folder, which is the pointer of
  its parent container and its index there; \<open>mutate\<close> writes through it.
\<close>

definition UpdateFolder ::
    "'d session_io \<Rightarrow> string \<Rightarrow> (folder \<Rightarrow> folder) \<Rightarrow> 'd session \<Rightarrow> ('d, unit) outcome" where
  "UpdateFolder io nodeID mutate s =
     (case (containerFolder (ss_cols s) nodeID, containerAtPtr (ss_cols s) nodeID) of
        (Some f, Some (ci, ks)) \<Rightarrow>
          ret () (persistCollection io (nodeCollectionIndex nodeID)
            (write_cols (ci, butlast ks) (\<lambda>(fs, rs). (fs[last ks := mutate (fs ! last ks)], rs)) s))
      | _ \<Rightarrow> (Inl (''not a folder: '' @ quoted nodeID), s))"

definition SetFolderVariables ::
    "'d session_io \<Rightarrow> string \<Rightarrow> var_row list \<Rightarrow> 'd session \<Rightarrow> ('d, unit) outcome" where
  "SetFolderVariables io nodeID vs = UpdateFolder io nodeID (set_fo_Variables vs)"

definition UpdateCollection ::
    "'d session_io \<Rightarrow> int \<Rightarrow> (collection \<Rightarrow> collection) \<Rightarrow> 'd session \<Rightarrow> ('d, unit) outcome" where
  "UpdateCollection io ci mutate s =
     (if \<not> in_range ci (ss_cols s) then (Inl (''no collection at index '' @ itoa ci), s)
      else ret () (persistCollection io ci
             (s\<lparr>ss_cols := (ss_cols s)[nat ci := mutate (ss_cols s ! nat ci)]\<rparr>)))"

section \<open>Workspaces\<close>

definition workspaceNameTaken :: "string \<Rightarrow> int \<Rightarrow> 'd session \<Rightarrow> bool" where
  "workspaceNameTaken name exceptIdx s =
     list_ex (\<lambda>i. int i \<noteq> exceptIdx \<and>
                trim_space (wk_Name (cf_Workspaces (ss_cfg s) ! i)) = trim_space name)
       [0..<length (cf_Workspaces (ss_cfg s))]"

definition update_workspaces :: "(Workspace list \<Rightarrow> Workspace list) \<Rightarrow> 'd session \<Rightarrow> 'd session" where
  "update_workspaces f s = s\<lparr>ss_cfg := (ss_cfg s)\<lparr>cf_Workspaces := f (cf_Workspaces (ss_cfg s))\<rparr>\<rparr>"

definition AddWorkspace :: "'d session_io \<Rightarrow> string \<Rightarrow> 'd session \<Rightarrow> ('d, unit) outcome" where
  "AddWorkspace io name s =
     (if trim_space name = [] then (Inl ''workspace name cannot be empty'', s)
      else if workspaceNameTaken name (-1) s
      then (Inl (''a workspace named '' @ quoted (trim_space name) @ '' already exists''), s)
      else ret () (persist io (update_workspaces (\<lambda>ws. ws @ [\<lparr>wk_Name = name, wk_Collections = []\<rparr>]) s)))"

definition RenameWorkspace :: "'d session_io \<Rightarrow> int \<Rightarrow> string \<Rightarrow> 'd session \<Rightarrow> ('d, unit) outcome" where
  "RenameWorkspace io i name s =
     (if \<not> in_range i (cf_Workspaces (ss_cfg s)) then (Inl (''invalid workspace index '' @ itoa i), s)
      else if trim_space name = [] then (Inl ''workspace name cannot be empty'', s)
      else if workspaceNameTaken name i s
      then (Inl (''a workspace named '' @ quoted (trim_space name) @ '' already exists''), s)
      else ret () (persist io
             (update_workspaces (\<lambda>ws. ws[nat i := (ws ! nat i)\<lparr>wk_Name := name\<rparr>]) s)))"

definition DeleteWorkspace :: "'d session_io \<Rightarrow> int \<Rightarrow> 'd session \<Rightarrow> ('d, unit) outcome" where
  "DeleteWorkspace io i s =
     (if \<not> in_range i (cf_Workspaces (ss_cfg s)) then (Inl (''invalid workspace index '' @ itoa i), s)
      else if length (cf_Workspaces (ss_cfg s)) \<le> 1 then (Inl ''cannot delete the last workspace'', s)
      else
        (let s1 = update_workspaces (delete_at (nat i)) s;
             c1 = ss_cfg s1;
             n = int (length (cf_Workspaces c1));
             a1 = (if n \<le> cf_Active c1 then n - 1 else cf_Active c1);
             a2 = (if a1 < 0 then 0 else a1)
         in ret () (persist io (reload io (s1\<lparr>ss_cfg := c1\<lparr>cf_Active := a2\<rparr>\<rparr>)))))"

section \<open>Settings and UI state\<close>

definition SetSettings :: "'d session_io \<Rightarrow> settings \<Rightarrow> 'd session \<Rightarrow> 'd session" where
  "SetSettings io st s = snd (persist io (s\<lparr>ss_cfg := (ss_cfg s)\<lparr>cf_Settings := st\<rparr>\<rparr>))"

definition SetOpenRequest :: "'d session_io \<Rightarrow> string \<Rightarrow> 'd session \<Rightarrow> 'd session" where
  "SetOpenRequest io nodeID s =
     (if nodeID = [] then snd (persist io (update_ui (\<lambda>u. u\<lparr>ui_OpenRequest := None\<rparr>) s))
      else (case index_byte nodeID CHR ''/'' of
          None \<Rightarrow> s
        | Some idx \<Rightarrow>
            (case atoi (take idx nodeID) of
               None \<Rightarrow> s
             | Some ci \<Rightarrow>
                 if \<not> in_range ci (ss_dirs s) then s
                 else snd (persist io (update_ui (\<lambda>u. u\<lparr>ui_OpenRequest :=
                        Some \<lparr>uo_Collection = ss_dirs s ! nat ci, uo_NodePath = drop (Suc idx) nodeID\<rparr>\<rparr>) s)))))"

definition OpenRequest :: "'d session \<Rightarrow> string" where
  "OpenRequest s =
     (case ui_OpenRequest (cf_UI (ss_cfg s)) of
        None \<Rightarrow> []
      | Some o1 \<Rightarrow>
          (case first_index (\<lambda>d. d = uo_Collection o1) (ss_dirs s) of
             None \<Rightarrow> [] | Some i \<Rightarrow> itoa (int i) @ ''/'' @ uo_NodePath o1))"

definition SetOpenTabs :: "'d session_io \<Rightarrow> UIOpenTab list \<Rightarrow> int \<Rightarrow> 'd session \<Rightarrow> 'd session" where
  "SetOpenTabs io tabs active s =
     (let a = (if tabs = [] \<or> \<not> in_range active tabs then 0 else active);
          u = cf_UI (ss_cfg s)
      in if ui_OpenTabs u = tabs \<and> ui_ActiveTab u = a \<and> ui_OpenRequest u = None then s
         else snd (persist io (update_ui (\<lambda>u. u\<lparr>ui_OpenTabs := tabs, ui_ActiveTab := a,
                                              ui_OpenRequest := None\<rparr>) s)))"

definition OpenTabs :: "'d session \<Rightarrow> UIOpenTab list \<times> int" where
  "OpenTabs s =
     (let u = cf_UI (ss_cfg s)
      in if ui_OpenTabs u = [] then ([], 0)
         else (ui_OpenTabs u, if in_range (ui_ActiveTab u) (ui_OpenTabs u) then ui_ActiveTab u else 0))"

definition SetWindowSize :: "'d session_io \<Rightarrow> int \<Rightarrow> int \<Rightarrow> 'd session \<Rightarrow> 'd session" where
  "SetWindowSize io w h s =
     snd (persist io (update_ui (\<lambda>u. u\<lparr>ui_WindowWidth := w, ui_WindowHeight := h\<rparr>) s))"

definition SetResponseWrap :: "'d session_io \<Rightarrow> bool \<Rightarrow> 'd session \<Rightarrow> 'd session" where
  "SetResponseWrap io on s =
     (if ui_ResponseWrap (cf_UI (ss_cfg s)) = on then s
      else snd (persist io (update_ui (\<lambda>u. u\<lparr>ui_ResponseWrap := on\<rparr>) s)))"

end
