(* ===== verification/SessionInv.thy ===== *)
theory SessionInv
  imports SessionEnv
begin

text \<open>
  The invariant of the session state under every operation of \<open>internal/session\<close>: the loaded
  collections, their directories, the workspace's list, the active indices and the
  environment choices stay aligned, whatever the user does and whichever saves fail.
\<close>

section \<open>The invariant\<close>

definition cfg_ok :: "Config \<Rightarrow> bool" where
  "cfg_ok c \<longleftrightarrow> in_range (cf_Active c) (cf_Workspaces c)"

definition active_list :: "Config \<Rightarrow> string list" where
  "active_list c = wk_Collections (cf_Workspaces c ! nat (cf_Active c))"

definition ss_ok :: "'d session \<Rightarrow> bool" where
  "ss_ok s \<longleftrightarrow> cfg_ok (ss_cfg s)
     \<and> length (ss_dirs s) = length (ss_cols s)
     \<and> mset (ss_dirs s) \<subseteq># mset (active_list (ss_cfg s))
     \<and> -1 \<le> ss_activeCol s \<and> ss_activeCol s < int (length (ss_cols s))
     \<and> (\<forall>i. ss_activeEnv s i \<noteq> None \<longrightarrow> in_range i (ss_dirs s))"

section \<open>Steps that keep it\<close>

lemma ss_ok_frame [simp]:
  "ss_ok (s\<lparr>ss_disk := d\<rparr>) = ss_ok s" "ss_ok (s\<lparr>ss_ids := n\<rparr>) = ss_ok s"
  "ss_ok (s\<lparr>ss_lastDeleted := x\<rparr>) = ss_ok s" "ss_ok (s\<lparr>ss_overlay := ov\<rparr>) = ss_ok s"
  "ss_ok (s\<lparr>ss_dotEnv := de\<rparr>) = ss_ok s" "ss_ok (update_ui f s) = ss_ok s"
  "ss_ok (s\<lparr>ss_cfg := (ss_cfg s)\<lparr>cf_Settings := st\<rparr>\<rparr>) = ss_ok s"
  "ss_ok (s\<lparr>ss_cfg := (ss_cfg s)\<lparr>cf_Variables := vs\<rparr>\<rparr>) = ss_ok s"
  by (simp_all add: ss_ok_def cfg_ok_def active_list_def update_ui_def)

lemma ss_ok_cols: "length cs = length (ss_cols s) \<Longrightarrow> ss_ok (s\<lparr>ss_cols := cs\<rparr>) = ss_ok s"
  by (simp add: ss_ok_def)

lemma length_assign [simp]: "length (assign p g cols) = length cols"
  by (simp add: assign_def split: prod.split)

lemma ss_ok_write [simp]: "ss_ok (write_cols p g s) = ss_ok s"
  by (simp add: write_cols_def ss_ok_cols)

lemma ss_ok_update_active [simp]: "ss_ok (update_active f s) = ss_ok s"
  by (simp add: update_active_def Let_def ss_ok_cols)

lemma ss_ok_cascade [simp]: "ss_ok (cascade_at ci a b f s) = ss_ok s"
  by (simp add: cascade_at_def ss_ok_cols)

lemma ss_ok_persist [simp]: "ss_ok (snd (persist io s)) = ss_ok s"
  by (simp add: persist_def split: prod.split)

lemma map_filter_mset: "mset (map fst (List.map_filter (\<lambda>(d, r). case r of Inl e \<Rightarrow> None | Inr c \<Rightarrow> Some (d, c)) (map (\<lambda>d. (d, g d)) ds))) \<subseteq># mset ds"
proof (induction ds)
  case (Cons d ds)
  then show ?case
    by (auto simp: map_filter_simps split: sum.split intro: subset_mset.order_trans)
qed (simp add: map_filter_simps)

lemma length_map_filter_le: "length (List.map_filter f xs) \<le> length xs"
  by (induction xs) (auto simp: map_filter_simps split: option.split)

lemma first_index_length: "first_index P xs = Some i \<Longrightarrow> i < length xs"
  using first_index_Some by blast

text \<open>A reload establishes the invariant from a well-formed configuration alone.\<close>

lemma ss_ok_reload: "cfg_ok (ss_cfg s) \<Longrightarrow> ss_ok (reload io s)"
proof -
  assume c: "cfg_ok (ss_cfg s)"
  let ?ds = "wk_Collections (activeWorkspace s)"
  let ?ok = "List.map_filter (\<lambda>(d, r). case r of Inl e \<Rightarrow> None | Inr c \<Rightarrow> Some (d, c))
      (map (\<lambda>d. (d, io_Load io (ss_disk s) d)) ?ds)"
  have w: "wk_Collections (activeWorkspace s) = active_list (ss_cfg s)"
    using c by (simp add: active_list_def activeWorkspace_def cfg_ok_def in_range_def Let_def)
  have sub: "mset (map fst ?ok) \<subseteq># mset ?ds" by (rule map_filter_mset)
  have act: "-1 \<le> ss_activeCol (reload io s) \<and> ss_activeCol (reload io s) < int (length ?ok)"
    using first_index_length by (fastforce simp: reload_def Let_def split: option.split)
  have cols: "ss_cols (reload io s) = map snd ?ok" "ss_dirs (reload io s) = map fst ?ok"
    "ss_cfg (reload io s) = ss_cfg s"
    by (simp_all add: reload_def Let_def)
  have env: "in_range i (ss_dirs (reload io s))" if "ss_activeEnv (reload io s) i \<noteq> None" for i
    using that by (auto simp: reload_def Let_def in_range_def split: if_splits)
  show ?thesis using c sub act env by (simp add: ss_ok_def cols w)
qed

lemma ss_ok_persistCollection: "ss_ok s \<Longrightarrow> ss_ok (snd (persistCollection io ci s))"
  by (auto simp: persistCollection_def ss_ok_def [of s] intro!: ss_ok_reload split: prod.split option.split)

lemma snd_ret [simp]: "snd (ret v es) = snd es"
  by (simp add: ret_def split: prod.split option.split)

lemmas ss_ok_intros = ss_ok_persistCollection ss_ok_reload

section \<open>The operations on the collection list\<close>

lemma in_range_nat: "in_range i xs \<Longrightarrow> nat i < length xs"
  by (auto simp: in_range_def)

lemma cfg_of_ok: "ss_ok s \<Longrightarrow> cfg_ok (ss_cfg s)"
  by (simp add: ss_ok_def)

lemma ss_ok_SetActive: "ss_ok s \<Longrightarrow> ss_ok (SetActive io i s)"
  by (auto simp: SetActive_def cfg_ok_def intro!: ss_ok_reload)

lemma update_workspace_simps [simp]:
  "ss_dirs (update_workspace f s) = ss_dirs s" "ss_cols (update_workspace f s) = ss_cols s"
  "ss_activeCol (update_workspace f s) = ss_activeCol s"
  "ss_activeEnv (update_workspace f s) = ss_activeEnv s"
  "cfg_ok (ss_cfg s) \<Longrightarrow> cfg_ok (ss_cfg (update_workspace f s))"
  "cfg_ok (ss_cfg s) \<Longrightarrow> active_list (ss_cfg (update_workspace f s)) = f (active_list (ss_cfg s))"
  by (simp_all add: update_workspace_def cfg_ok_def in_range_def active_list_def Let_def nat_less_iff)

lemma update_ui_simps [simp]:
  "ss_dirs (update_ui f s) = ss_dirs s" "ss_cols (update_ui f s) = ss_cols s"
  "ss_activeCol (update_ui f s) = ss_activeCol s" "ss_activeEnv (update_ui f s) = ss_activeEnv s"
  "ss_dotEnv (update_ui f s) = ss_dotEnv s"
  "cfg_ok (ss_cfg (update_ui f s)) = cfg_ok (ss_cfg s)"
  "active_list (ss_cfg (update_ui f s)) = active_list (ss_cfg s)"
  by (simp_all add: update_ui_def cfg_ok_def active_list_def)

lemma ss_ok_OpenCollection: "ss_ok s \<Longrightarrow> ss_ok (snd (OpenCollection io dir s))"
proof (cases "first_index (\<lambda>d. d = dir) (ss_dirs s)")
  case (Some i)
  assume s: "ss_ok s"
  have "ss_ok (s\<lparr>ss_activeCol := int i\<rparr>)" using s first_index_length [OF Some] by (simp add: ss_ok_def)
  with Some show ?thesis by (simp add: OpenCollection_def)
next
  case None
  assume s: "ss_ok s"
  let ?s1 = "update_workspace (\<lambda>ds. ds @ [dir]) s"
  have "ss_ok (?s1\<lparr>ss_cols := ss_cols ?s1 @ [c], ss_dirs := ss_dirs ?s1 @ [dir],
      ss_activeCol := int (length (ss_cols ?s1))\<rparr>)" for c
    using s by (auto simp: ss_ok_def in_range_def)
  with None s show ?thesis by (simp add: OpenCollection_def Let_def split: sum.split)
qed

lemma shift_env_closed:
  "i \<le> n \<Longrightarrow> shift_env i n m =
     (\<lambda>j. if j < i then m j else if j < n then m (j + 1) else if j = n then None else m j)"
proof (induction n rule: int_ge_induct)
  case base
  then show ?case by (auto simp: shift_env_def)
next
  case (step n)
  have "shift_env i (n + 1) m = (let k = n + 1; m' = shift_env i n m in
      (case m' k of Some name \<Rightarrow> (m'(k - 1 \<mapsto> name))(k := None) | None \<Rightarrow> m'))"
    using step.hyps by (simp add: shift_env_def upto_rec2 [of "i + 1" "n + 1"] Let_def)
  with step show ?case
    by (auto simp: Let_def fun_eq_iff split: option.splits)
qed

lemma mset_delete_first: "x \<in> set xs \<Longrightarrow> mset xs = add_mset x (mset (delete_first x xs))"
proof -
  assume "x \<in> set xs"
  then obtain j where j: "first_index (\<lambda>y. y = x) xs = Some j"
    using first_index_None [of "\<lambda>y. y = x" xs] by (cases "first_index (\<lambda>y. y = x) xs") auto
  from first_index_Some [OF j] have "j < length xs" "xs ! j = x" by auto
  with mset_delete_at [of j xs] j show ?thesis by (simp add: delete_first_def)
qed

lemma ss_ok_RemoveCollection: "ss_ok s \<Longrightarrow> ss_ok (snd (RemoveCollection io i s))"
proof -
  assume s: "ss_ok s"
  show ?thesis
  proof (cases "in_range (cf_Active (ss_cfg s)) (cf_Workspaces (ss_cfg s)) \<and> in_range i (ss_dirs s)")
    case True
    let ?n = "length (ss_dirs s)" and ?dir = "ss_dirs s ! nat i"
    let ?s1 = "update_workspace (delete_first ?dir) s"
    have i: "nat i < ?n" "0 \<le> i" "i < int ?n" using True by (auto simp: in_range_def)
    have len: "length (ss_cols s) = ?n" using s by (simp add: ss_ok_def)
    have sub: "mset (delete_at (nat i) (ss_dirs s)) \<subseteq># mset (delete_first ?dir (active_list (ss_cfg s)))"
    proof -
      have m: "mset (ss_dirs s) \<subseteq># mset (active_list (ss_cfg s))" using s by (simp add: ss_ok_def)
      then have "?dir \<in> set (active_list (ss_cfg s))" using mset_subset_eqD [OF m, of ?dir] i(1) by simp
      with m show ?thesis
        using mset_delete_at [OF i(1)] mset_delete_first [of ?dir "active_list (ss_cfg s)"] by simp
    qed
    have env: "0 \<le> j \<and> j < int (?n - 1)" if "shift_env i (int (?n - 1)) (ss_activeEnv s) j \<noteq> None" for j
    proof -
      have "in_range k (ss_dirs s)" if "ss_activeEnv s k \<noteq> None" for k using s that by (simp add: ss_ok_def)
      then show ?thesis
        using that i shift_env_closed [of i "int (?n - 1)" "ss_activeEnv s"]
        by (fastforce simp: in_range_def split: if_splits)
    qed
    have core: "ss_ok (t\<lparr>ss_cols := delete_at (nat i) (ss_cols s), ss_dirs := delete_at (nat i) (ss_dirs s),
        ss_activeCol := a, ss_dotEnv := de, ss_activeEnv := shift_env i (int (?n - 1)) (ss_activeEnv s)\<rparr>)"
      if t: "cfg_ok (ss_cfg t)" "active_list (ss_cfg t) = delete_first ?dir (active_list (ss_cfg s))"
        and a: "-1 \<le> a" "a < int (?n - 1)" for t a de
      using t a sub env i len by (auto simp: ss_ok_def in_range_def)
    define t where "t = (let s2 = (if ui_ActiveCollection (cf_UI (ss_cfg ?s1)) = ?dir
        then update_ui (\<lambda>u. u\<lparr>ui_ActiveCollection := []\<rparr>) ?s1 else ?s1)
      in if \<not> shared_elsewhere ?dir (ss_cfg s2)
         then update_ui (\<lambda>u. u\<lparr>ui_ActiveEnv := (ui_ActiveEnv u)(?dir := None)\<rparr>) s2 else s2)"
    have t: "ss_dirs t = ss_dirs s" "ss_cols t = ss_cols s" "ss_activeCol t = ss_activeCol s"
      "ss_activeEnv t = ss_activeEnv s" "cfg_ok (ss_cfg t)"
      "active_list (ss_cfg t) = delete_first ?dir (active_list (ss_cfg s))"
      using cfg_of_ok [OF s] by (simp_all add: t_def Let_def)
    let ?a = "if ss_activeCol s = i then (if delete_at (nat i) (ss_cols s) = [] then -1 else 0)
      else if i < ss_activeCol s then ss_activeCol s - 1 else ss_activeCol s"
    have "-1 \<le> ss_activeCol s" "ss_activeCol s < int ?n" using s by (simp_all add: ss_ok_def)
    moreover have "length (delete_at (nat i) (ss_cols s)) = ?n - 1" using i len by simp
    then have "delete_at (nat i) (ss_cols s) = [] \<longleftrightarrow> ?n = 1" using i by (cases "delete_at (nat i) (ss_cols s)") auto
    ultimately have a: "-1 \<le> ?a" "?a < int (?n - 1)" using i by auto
    have "snd (RemoveCollection io i s) = snd (persist io (t\<lparr>ss_cols := delete_at (nat i) (ss_cols s),
        ss_dirs := delete_at (nat i) (ss_dirs s), ss_activeCol := ?a, ss_dotEnv := (ss_dotEnv t)(?dir := None),
        ss_activeEnv := shift_env i (int (?n - 1)) (ss_activeEnv s)\<rparr>))"
      using True i by (simp add: RemoveCollection_def Let_def t_def [unfolded Let_def, symmetric] t)
    then show ?thesis using core [OF t(5,6) a] by simp
  next
    case False
    with s show ?thesis by (auto simp: RemoveCollection_def)
  qed
qed

lemma length_move_at: "in_range from xs \<Longrightarrow> length (move_at from to xs) = length xs"
  by (cases xs) (auto simp: move_at_def Let_def in_range_def nat_less_iff)

lemma mset_move_at: "in_range from xs \<Longrightarrow> mset (move_at from to xs) = mset xs"
proof -
  assume "in_range from xs"
  then have "nat from < length xs" by (simp add: in_range_nat)
  from mset_delete_at [OF this] show ?thesis by (simp add: move_at_def Let_def)
qed

lemma in_range_len: "length xs = length ys \<Longrightarrow> in_range i xs = in_range i ys"
  by (simp add: in_range_def)

lemma ss_ok_MoveCollection: "ss_ok s \<Longrightarrow> ss_ok (snd (MoveCollection io from to s))"
proof -
  assume s: "ss_ok s"
  show ?thesis
  proof (cases "in_range (cf_Active (ss_cfg s)) (cf_Workspaces (ss_cfg s)) \<and> in_range from (ss_cols s)
      \<and> in_range to (ss_cols s) \<and> from \<noteq> to \<and> length (wk_Collections (activeWorkspace s)) = length (ss_cols s)")
    case True
    let ?dirs = "move_at from to (ss_dirs s)"
    have len: "length (ss_dirs s) = length (ss_cols s)" using s by (simp add: ss_ok_def)
    have fr: "in_range from (ss_dirs s)" using True in_range_len [OF len] by simp
    have al: "wk_Collections (activeWorkspace s) = active_list (ss_cfg s)"
      using cfg_of_ok [OF s] by (simp add: active_list_def activeWorkspace_def cfg_ok_def in_range_def Let_def)
    have fa: "in_range from (active_list (ss_cfg s))" using True al in_range_len by (metis (no_types))
    have sub: "mset ?dirs \<subseteq># mset (move_at from to (active_list (ss_cfg s)))"
      using s fr fa by (simp add: mset_move_at ss_ok_def)
    have act: "-1 \<le> (case first_index P ?dirs of Some i \<Rightarrow> int i | None \<Rightarrow> ss_activeCol s) \<and>
        (case first_index P ?dirs of Some i \<Rightarrow> int i | None \<Rightarrow> ss_activeCol s) < int (length (ss_cols s))" for P
      using s first_index_length [of P ?dirs] length_move_at [OF fr, of to] len
      by (auto simp: ss_ok_def split: option.split)
    have cols: "length (move_at from to (ss_cols s)) = length (ss_cols s)" "length ?dirs = length (ss_cols s)"
      using True fr len by (simp_all add: length_move_at)
    have core: "ss_ok ((update_workspace (move_at from to) s)\<lparr>ss_cols := move_at from to (ss_cols s),
        ss_dirs := ?dirs, ss_activeCol := a, ss_activeEnv := (\<lambda>i. if in_range i ?dirs then g i else None)\<rparr>)"
      if "-1 \<le> a" "a < int (length (ss_cols s))" for a g
      using that sub cols cfg_of_ok [OF s] by (simp add: ss_ok_def)
    have a: "-1 \<le> ss_activeCol s" "ss_activeCol s < int (length (ss_cols s))" using s by (simp_all add: ss_ok_def)
    show ?thesis
      using True a act by (simp add: MoveCollection_def Let_def) (intro conjI impI core; simp)
  next
    case False
    with s show ?thesis by (auto simp: MoveCollection_def)
  qed
qed

lemma ss_ok_SetActiveCollection: "ss_ok s \<Longrightarrow> ss_ok (SetActiveCollection io i s)"
proof -
  assume s: "ss_ok s"
  have "ss_ok (s\<lparr>ss_activeCol := i\<rparr>)" if "\<not> i < -1" "i < int (length (ss_cols s))"
    using that s by (simp add: ss_ok_def)
  with s show ?thesis by (auto simp: SetActiveCollection_def Let_def)
qed

section \<open>Environments, settings, workspaces\<close>

lemma ss_ok_SetActiveEnv: "ss_ok s \<Longrightarrow> ss_ok (SetActiveEnv io name s)"
proof -
  assume s: "ss_ok s"
  have "ss_ok (s\<lparr>ss_activeEnv := (ss_activeEnv s)(ss_activeCol s \<mapsto> name)\<rparr>)"
    if "in_range (ss_activeCol s) (ss_dirs s)"
    using that s by (auto simp: ss_ok_def)
  with s show ?thesis by (simp add: SetActiveEnv_def Let_def)
qed

lemma ss_ok_update_envs [simp]: "ss_ok (update_envs f s) = ss_ok s"
  by (simp add: update_envs_def)

lemma ss_ok_NewID: "ss_ok (snd (NewID io s)) = ss_ok s"
  by (simp add: NewID_def)

lemma ss_ok_environments:
  "ss_ok s \<Longrightarrow> ss_ok (snd (AddEnvironment io name s))"
  "ss_ok s \<Longrightarrow> ss_ok (snd (RenameEnvironment io name new s))"
  "ss_ok s \<Longrightarrow> ss_ok (snd (DeleteEnvironment io name s))"
  "ss_ok s \<Longrightarrow> ss_ok (SetActiveEnvironmentVariables vs s)"
  by (auto simp: AddEnvironment_def RenameEnvironment_def DeleteEnvironment_def
      SetActiveEnvironmentVariables_def SaveActiveCollection_def NewID_def Let_def
      intro!: ss_ok_persistCollection ss_ok_SetActiveEnv split: option.split)

lemma ss_ok_scopes:
  "ss_ok s \<Longrightarrow> ss_ok (snd (SetGlobalVariables io vs s))"
  "ss_ok s \<Longrightarrow> ss_ok (snd (activeDotEnvVars io s))"
  "ss_ok s \<Longrightarrow> ss_ok (SetEnvOverlay name v s)"
  "ss_ok s \<Longrightarrow> ss_ok (ClearEnvOverlay s)"
  "ss_ok s \<Longrightarrow> ss_ok (RestoreEnvOverlay snap s)"
  by (auto simp: SetGlobalVariables_def activeDotEnvVars_def SetEnvOverlay_def ClearEnvOverlay_def
      RestoreEnvOverlay_def Let_def split: option.split)

lemma ss_ok_settings:
  "ss_ok s \<Longrightarrow> ss_ok (snd (UpdateFolder io nodeID g s))"
  "ss_ok s \<Longrightarrow> ss_ok (snd (UpdateCollection io ci h s))"
  "ss_ok s \<Longrightarrow> ss_ok (SetSettings io st s)"
  "ss_ok s \<Longrightarrow> ss_ok (SetOpenRequest io nodeID s)"
  "ss_ok s \<Longrightarrow> ss_ok (SetOpenTabs io tabs a s)"
  "ss_ok s \<Longrightarrow> ss_ok (SetWindowSize io w hh s)"
  "ss_ok s \<Longrightarrow> ss_ok (SetResponseWrap io on s)"
  by (auto simp: UpdateFolder_def UpdateCollection_def SetSettings_def SetOpenRequest_def SetOpenTabs_def
      SetWindowSize_def SetResponseWrap_def Let_def ss_ok_cols
      intro!: ss_ok_persistCollection split: option.split prod.split)

lemma ss_ok_workspaces:
  "ss_ok s \<Longrightarrow> ss_ok (snd (AddWorkspace io name s))"
  "ss_ok s \<Longrightarrow> ss_ok (snd (RenameWorkspace io i name s))"
  "ss_ok s \<Longrightarrow> ss_ok (snd (DeleteWorkspace io i s))"
proof -
  assume s: "ss_ok s"
  then have "ss_ok (update_workspaces (\<lambda>ws. ws @ [w]) s)" for w
    by (auto simp: ss_ok_def cfg_ok_def update_workspaces_def active_list_def in_range_def nth_append)
  with s show "ss_ok (snd (AddWorkspace io name s))" by (simp add: AddWorkspace_def)
  have "ss_ok (update_workspaces (\<lambda>ws. ws[k := (ws ! k)\<lparr>wk_Name := n\<rparr>]) s)" for k n
    using s by (cases "k = nat (cf_Active (ss_cfg s))")
      (auto simp: ss_ok_def cfg_ok_def update_workspaces_def active_list_def in_range_def)
  with s show "ss_ok (snd (RenameWorkspace io i name s))" by (simp add: RenameWorkspace_def)
  show "ss_ok (snd (DeleteWorkspace io i s))"
  proof (cases "in_range i (cf_Workspaces (ss_cfg s)) \<and> 1 < length (cf_Workspaces (ss_cfg s))")
    case True
    then have "nat i < length (cf_Workspaces (ss_cfg s))" by (simp add: in_range_nat)
    then show ?thesis
      using True s by (auto simp: DeleteWorkspace_def Let_def update_workspaces_def cfg_ok_def in_range_def
          ss_ok_def [of s] intro!: ss_ok_reload)
  next
    case False
    with s show ?thesis by (auto simp: DeleteWorkspace_def)
  qed
qed

section \<open>Items\<close>

lemma ss_ok_add:
  "ss_ok s \<Longrightarrow> ss_ok (snd (AddRequest io parent name s))"
  "ss_ok s \<Longrightarrow> ss_ok (snd (AddRequestValue io parent r s))"
  "ss_ok s \<Longrightarrow> ss_ok (snd (AddFolder io parent name s))"
  by (auto simp: AddRequest_def AddRequestValue_def AddFolder_def empty_name_def NewID_def Let_def
      intro!: ss_ok_persistCollection split: option.split)

lemma ss_ok_rename_node: "ss_ok s \<Longrightarrow> ss_ok (snd (rename_node nodeID name parent kind idx s))"
  by (auto simp: rename_node_def ss_ok_cols split: option.split prod.split)

lemma ss_ok_RenameItem: "ss_ok s \<Longrightarrow> ss_ok (snd (RenameItem io nodeID name s))"
  using ss_ok_rename_node [of s nodeID name]
  by (auto simp: RenameItem_def empty_name_def Let_def intro!: ss_ok_persistCollection
      split: option.split prod.split sum.split) (metis snd_conv)+

lemma ss_ok_folderID: "ss_ok s \<Longrightarrow> ss_ok (snd (folderIDForContainer io c ci s))"
  by (auto simp: folderIDForContainer_def NewID_def Let_def split: option.split)

lemma ss_ok_DeleteItem: "ss_ok s \<Longrightarrow> ss_ok (snd (DeleteItem io nodeID s))"
proof (cases "parseLeaf nodeID")
  case (Some leaf)
  assume s: "ss_ok s"
  obtain parent kind idx where leaf: "leaf = (parent, kind, idx)" by (cases leaf)
  let ?ci = "nodeCollectionIndex nodeID"
  obtain fid s1 where f: "folderIDForContainer io parent ?ci s = (fid, s1)" by force
  then have s1: "ss_ok s1" using ss_ok_folderID [OF s, of io parent ?ci] by simp
  have p: "ss_ok (snd (case persistCollection io ?ci s2 of
      (Some e, s3) \<Rightarrow> (Inl e, s3\<lparr>ss_lastDeleted := None\<rparr>) | (None, s3) \<Rightarrow> (Inr (), s3)))" if "ss_ok s2" for s2
    using ss_ok_persistCollection [OF that, of io ?ci] by (auto split: prod.split option.split)
  show ?thesis
    using s1 by (simp add: DeleteItem_def Some leaf f Let_def p split: option.split prod.split)
qed (simp add: DeleteItem_def)

lemma ss_ok_Restore: "ss_ok s \<Longrightarrow> ss_ok (snd (RestoreLastDeleted io s))"
  by (auto simp: RestoreLastDeleted_def parent_gone_def Let_def intro!: ss_ok_persistCollection
      split: option.split prod.split sum.split)

lemma ss_ok_Duplicate: "ss_ok s \<Longrightarrow> ss_ok (snd (DuplicateItem io nodeID s))"
  by (auto simp: DuplicateItem_def Let_def intro!: ss_ok_persistCollection split: option.split prod.split)

lemma ss_ok_take_node: "ss_ok s \<Longrightarrow> ss_ok (snd (take_node io srcID p kind i s))"
  by (auto simp: take_node_def NewID_def Let_def split: option.split prod.split)

lemma ss_ok_cascade_move: "ss_ok s \<Longrightarrow> ss_ok (cascade_move ci a b f s)"
  by (simp add: cascade_move_def Let_def)

lemma ss_ok_MoveNode: "ss_ok s \<Longrightarrow> ss_ok (snd (MoveNode io srcID dst i s))"
proof -
  assume s: "ss_ok s"
  have f: "ss_ok s1" if "folderIDForContainer io p ci s = (fid, s1)" for p ci fid s1
    using ss_ok_folderID [OF s, of io p ci] that by simp
  have t: "ss_ok s2" if "take_node io a b k j s1 = (r, s2)" "ss_ok s1" for a b k j s1 r s2
    using ss_ok_take_node [OF that(2), of io a b k j] that(1) by simp
  show ?thesis
    using s by (auto simp: MoveNode_def Let_def dest!: f dest: t
        intro!: ss_ok_persistCollection ss_ok_cascade_move split: option.split prod.split sum.split)
qed

section \<open>The session as an object\<close>

datatype session_op =
  OpSetActive int | OpOpenCollection string | OpRemoveCollection int | OpMoveCollection int int
| OpSetActiveCollection int | OpSetActiveEnv string | OpAddEnvironment string
| OpRenameEnvironment string string | OpDeleteEnvironment string
| OpSetActiveEnvironmentVariables "var_row list" | OpSetGlobalVariables "var_row list"
| OpActiveDotEnvVars | OpSetEnvOverlay string string | OpClearEnvOverlay
| OpRestoreEnvOverlay "(string \<times> string) list" | OpUpdateFolder string "folder \<Rightarrow> folder"
| OpUpdateCollection int "collection \<Rightarrow> collection" | OpAddWorkspace string
| OpRenameWorkspace int string | OpDeleteWorkspace int | OpSetSettings settings
| OpSetOpenRequest string | OpSetOpenTabs "UIOpenTab list" int | OpSetWindowSize int int
| OpSetResponseWrap bool | OpSaveActiveCollection
| OpAddRequest string string | OpAddRequestValue string request | OpAddFolder string string
| OpRenameItem string string | OpDeleteItem string | OpRestoreLastDeleted
| OpDuplicateItem string | OpMoveNode string string int

fun session_step :: "'d session_io \<Rightarrow> session_op \<Rightarrow> 'd session \<Rightarrow> 'd session" where
  "session_step io (OpSetActive i) s = SetActive io i s"
| "session_step io (OpOpenCollection dir) s = snd (OpenCollection io dir s)"
| "session_step io (OpRemoveCollection i) s = snd (RemoveCollection io i s)"
| "session_step io (OpMoveCollection from to) s = snd (MoveCollection io from to s)"
| "session_step io (OpSetActiveCollection i) s = SetActiveCollection io i s"
| "session_step io (OpSetActiveEnv n) s = SetActiveEnv io n s"
| "session_step io (OpAddEnvironment n) s = snd (AddEnvironment io n s)"
| "session_step io (OpRenameEnvironment n n') s = snd (RenameEnvironment io n n' s)"
| "session_step io (OpDeleteEnvironment n) s = snd (DeleteEnvironment io n s)"
| "session_step io (OpSetActiveEnvironmentVariables vs) s = SetActiveEnvironmentVariables vs s"
| "session_step io (OpSetGlobalVariables vs) s = snd (SetGlobalVariables io vs s)"
| "session_step io OpActiveDotEnvVars s = snd (activeDotEnvVars io s)"
| "session_step io (OpSetEnvOverlay n v) s = SetEnvOverlay n v s"
| "session_step io OpClearEnvOverlay s = ClearEnvOverlay s"
| "session_step io (OpRestoreEnvOverlay snap) s = RestoreEnvOverlay snap s"
| "session_step io (OpUpdateFolder i g) s = snd (UpdateFolder io i g s)"
| "session_step io (OpUpdateCollection ci g) s = snd (UpdateCollection io ci g s)"
| "session_step io (OpAddWorkspace n) s = snd (AddWorkspace io n s)"
| "session_step io (OpRenameWorkspace i n) s = snd (RenameWorkspace io i n s)"
| "session_step io (OpDeleteWorkspace i) s = snd (DeleteWorkspace io i s)"
| "session_step io (OpSetSettings st) s = SetSettings io st s"
| "session_step io (OpSetOpenRequest i) s = SetOpenRequest io i s"
| "session_step io (OpSetOpenTabs tabs a) s = SetOpenTabs io tabs a s"
| "session_step io (OpSetWindowSize w h) s = SetWindowSize io w h s"
| "session_step io (OpSetResponseWrap on) s = SetResponseWrap io on s"
| "session_step io OpSaveActiveCollection s = snd (SaveActiveCollection io s)"
| "session_step io (OpAddRequest p n) s = snd (AddRequest io p n s)"
| "session_step io (OpAddRequestValue p r) s = snd (AddRequestValue io p r s)"
| "session_step io (OpAddFolder p n) s = snd (AddFolder io p n s)"
| "session_step io (OpRenameItem i n) s = snd (RenameItem io i n s)"
| "session_step io (OpDeleteItem i) s = snd (DeleteItem io i s)"
| "session_step io OpRestoreLastDeleted s = snd (RestoreLastDeleted io s)"
| "session_step io (OpDuplicateItem i) s = snd (DuplicateItem io i s)"
| "session_step io (OpMoveNode i dst k) s = snd (MoveNode io i dst k s)"

lemma ss_ok_step: "ss_ok s \<Longrightarrow> ss_ok (session_step io op1 s)"
  by (cases op1)
    (simp_all add: ss_ok_SetActive ss_ok_OpenCollection ss_ok_RemoveCollection ss_ok_MoveCollection
      ss_ok_SetActiveCollection ss_ok_SetActiveEnv ss_ok_environments ss_ok_scopes ss_ok_settings
      ss_ok_workspaces ss_ok_add ss_ok_RenameItem ss_ok_DeleteItem ss_ok_Restore ss_ok_Duplicate
      ss_ok_MoveNode SaveActiveCollection_def ss_ok_persistCollection)

interpretation session: op_preserving "session_step io" ss_ok for io
  by unfold_locales (rule ss_ok_step)

section \<open>Properties\<close>


definition three_workspaces :: "unit session" where
  "three_workspaces = sample_session\<lparr>ss_cfg := Default\<lparr>cf_Active := 1, cf_Workspaces :=
     [\<lparr>wk_Name = ''A'', wk_Collections = []\<rparr>, \<lparr>wk_Name = ''B'', wk_Collections = []\<rparr>,
      \<lparr>wk_Name = ''C'', wk_Collections = []\<rparr>]\<rparr>\<rparr>"

text \<open>
  Deleting a workspace before the active one switches workspaces: the active index is not
  moved down, so with workspaces A, B, C and B active, deleting A makes C the active one.
\<close>

theorem delete_workspace_switches:
  "wk_Name (activeWorkspace three_workspaces) = ''B''
   \<and> fst (DeleteWorkspace sample_io 0 three_workspaces) = Inr ()
   \<and> wk_Name (activeWorkspace (snd (DeleteWorkspace sample_io 0 three_workspaces))) = ''C''"
  by code_simp

text \<open>A collection that could not be read at start-up, and whose directory is readable again.\<close>

definition flaky_io :: "bool session_io" where
  "flaky_io = \<lparr>io_Load = (\<lambda>up dir. if up then Inr sample_col else Inl ''unreadable''),
     io_Save = (\<lambda>c dir d. (None, d)), io_SaveConfig = (\<lambda>path c d. (None, d)),
     io_ReadDotEnv = (\<lambda>d dir. None), io_NewID = (\<lambda>n. ''id'' @ nat_digits n)\<rparr>"

definition flaky_session :: "bool session" where
  "flaky_session = New_session flaky_io [] (Default\<lparr>cf_Workspaces :=
     [\<lparr>wk_Name = ''W'', wk_Collections = [''/api'']\<rparr>]\<rparr>) False"

text \<open>
  Re-opening a collection that failed to load registers it twice: the guard against a second
  in-memory copy looks at the loaded directories only, so the directory is appended to the
  workspace a second time, and the next reload loads two copies over the same files.
\<close>

theorem reopen_duplicates:
  "let s1 = snd (OpenCollection flaky_io ''/api'' (flaky_session\<lparr>ss_disk := True\<rparr>))
   in ss_loadErrs flaky_session = [(''/api'', ''unreadable'')]
      \<and> wk_Collections (activeWorkspace s1) = [''/api'', ''/api'']
      \<and> ss_dirs (reload flaky_io s1) = [''/api'', ''/api'']"
  by code_simp

section \<open>Concrete instances\<close>


end
