(* ===== verification/AuthProps.thy ===== *)
theory AuthProps
  imports Auth
begin

text \<open>
  What the auth schemes guarantee: the auth that applies, what \<open>Apply\<close> may touch, signatures
  that do not depend on map order, and digest headers that parse back.
\<close>

section \<open>Effects of \<open>Apply\<close>\<close>

definition same_but_headers :: "http_request \<Rightarrow> http_request \<Rightarrow> bool" where
  "same_but_headers r r' \<longleftrightarrow>
     hr_Method r' = hr_Method r \<and> hr_Host r' = hr_Host r \<and> hr_Body r' = hr_Body r \<and>
     (hr_URL r')\<lparr>rurl_RawQuery := []\<rparr> = (hr_URL r)\<lparr>rurl_RawQuery := []\<rparr>"

lemma set_header_same [simp]:
  "hr_Method (set_header k v r) = hr_Method r" "hr_Host (set_header k v r) = hr_Host r"
  "hr_Body (set_header k v r) = hr_Body r" "hr_URL (set_header k v r) = hr_URL r"
  by (simp_all add: set_header_def)

lemma hdr_values_set:
  "hdr_values (hdr_set k v h) k' = (if canonical_key k = canonical_key k' then [v] else hdr_values h k')"
  by (simp add: hdr_set_def hdr_values_def update_conv')

lemma hdr_get_cong: "canonical_key k = canonical_key k' \<Longrightarrow> hdr_get h k = hdr_get h k'"
  by (simp add: hdr_get_def hdr_values_def)

lemma canonical_auth_keys:
  "canonical_key ''Authorization'' = ''Authorization''" "canonical_key ''X-WSSE'' = ''X-Wsse''"
  "canonical_key ''X-Amz-Date'' = ''X-Amz-Date''"
  "canonical_key ''X-Amz-Security-Token'' = ''X-Amz-Security-Token''"
  by code_simp+

definition keeps_auth :: "http_request \<Rightarrow> string option \<times> http_request \<Rightarrow> bool" where
  "keeps_auth req res \<longleftrightarrow> same_but_headers req (snd res) \<and>
     (has_auth req \<longrightarrow> hdr_values (hr_Header (snd res)) ''Authorization'' = hdr_values (hr_Header req) ''Authorization'')"

lemma keeps_auth_same [simp]: "keeps_auth req (e, req)"
  by (simp add: keeps_auth_def same_but_headers_def)

lemma keeps_auth_authorize [simp]: "keeps_auth req (authorize f req)"
  by (auto simp: authorize_def keeps_auth_def same_but_headers_def split: sum.splits)

lemma keeps_auth_apikey [simp]: "keeps_auth req (apply_apikey req k)"
  using hdr_get_cong [of "ak_Name k" "''Authorization''" "hr_Header req"]
  by (auto simp: apply_apikey_def keeps_auth_def same_but_headers_def set_header_def has_auth_def
      hdr_values_set Let_def)

lemma keeps_auth_wsse [simp]: "keeps_auth req (apply_wsse cr dr req w)"
  by (auto simp: apply_wsse_def keeps_auth_def same_but_headers_def Let_def has_auth_def set_header_def
      hdr_values_set hdr_get_def canonical_auth_keys split: sum.splits)

lemma keeps_auth_awsv4 [simp]: "\<not> has_auth req \<Longrightarrow> keeps_auth req (apply_awsv4 cr dr req w)"
  by (auto simp: apply_awsv4_def keeps_auth_def same_but_headers_def Let_def split: sum.splits)

lemma keeps_auth_some [simp]: "(\<And>v. keeps_auth req (f v)) \<Longrightarrow> keeps_auth req (with_some x f req)"
  by (simp add: with_some_def split: option.split)


definition sample_crypto :: crypto where
  "sample_crypto = \<lparr>cr_sha1 = id, cr_md5 = id, cr_sha256 = id, cr_hmac_sha1 = (@), cr_hmac_sha256 = (@)\<rparr>"

definition sample_draws :: draws where
  "sample_draws = \<lparr>dr_Nonce = Inr ''n'', dr_RFC3339 = ''t'', dr_Unix = ''1'', dr_AmzDate = ''20150830T123600Z''\<rparr>"

definition sample_http :: http_request where
  "sample_http = \<lparr>hr_Method = ''GET'', hr_URL = \<lparr>rurl_Scheme = ''http'', rurl_Host = ''h'', rurl_Path = ''/'',
     rurl_EscapedPath = ''/'', rurl_RawQuery = ''a=1''\<rparr>, hr_Host = [],
     hr_Header = [(''Authorization'', [''Mine''])], hr_Body = None\<rparr>"


section \<open>Inheritance\<close>

lemma concrete_none: "concrete (auth_of_type AuthNone)"
  by (simp add: concrete_def auth_of_type_def AuthNone_def AuthInherit_def)

text \<open>
  The auth that applies is the first concrete one, looking at the request and then at its
  ancestors from the inside out, and \<open>AuthNone\<close> when there is none; so it is never the
  inherit marker.
\<close>

theorem auth_Resolve_first:
  "auth_Resolve a ancestors = hd (filter concrete (a # ancestors) @ [auth_of_type AuthNone])
   \<and> concrete (auth_Resolve a ancestors)"
proof -
  have "find concrete xs = (case filter concrete xs of [] \<Rightarrow> None | y # _ \<Rightarrow> Some y)" for xs
    by (induction xs) auto
  then have eq: "auth_Resolve a ancestors = hd (filter concrete (a # ancestors) @ [auth_of_type AuthNone])"
    by (simp add: auth_Resolve_def split: list.split)
  have "hd (filter concrete xs @ [auth_of_type AuthNone]) \<in> Collect concrete" for xs
    using concrete_none by (induction xs) auto
  with eq show ?thesis by simp
qed

section \<open>API keys in the query\<close>

lemma upper_hex_digit_range: "n < 16 \<Longrightarrow> between 48 (upper_hex_digit n) 57 \<or> between 65 (upper_hex_digit n) 70"
  by (auto simp: upper_hex_digit_def between_def of_char_of)

lemma percent_byte_set: "c \<in> set (percent_byte x) \<Longrightarrow> c = CHR ''%'' \<or> between 48 c 57 \<or> between 65 c 70"
  using upper_hex_digit_range [of "of_char x div 16"] upper_hex_digit_range [of "of_char x mod 16"]
    of_char_less [of x]
  by (simp add: percent_byte_def less_mult_imp_div_less) blast

lemma QueryEscape_plain: "c \<in> set (QueryEscape s) \<Longrightarrow> c \<notin> set ''&=;''"
  by (auto simp: QueryEscape_def unreserved_def alnum_def between_def split: if_splits
      dest!: percent_byte_set)

lemma query_part_pair: "query_part (QueryEscape n @ ''='' @ QueryEscape v) = Some (n, v)"
proof -
  have "CHR '';'' \<notin> set (QueryEscape n @ ''='' @ QueryEscape v)" "CHR ''='' \<notin> set (QueryEscape n)"
    using QueryEscape_plain [of "CHR '';''"] QueryEscape_plain [of "CHR ''=''"] by auto
  moreover from this have "cut (QueryEscape n @ CHR ''='' # QueryEscape v) CHR ''='' = (QueryEscape n, QueryEscape v, True)"
    by (intro cut_append)
  ultimately show ?thesis by (simp add: query_part_def QueryUnescape_Escape)
qed

lemma Query_snoc:
  "Query ((if raw = [] then [] else raw @ ''&'') @ QueryEscape n @ ''='' @ QueryEscape v) = Query raw @ [(n, v)]"
proof -
  let ?p = "QueryEscape n @ ''='' @ QueryEscape v"
  have amp: "CHR ''&'' \<notin> set ?p" using QueryEscape_plain [of "CHR ''&''"] by auto
  have "query_parts (raw @ CHR ''&'' # ?p) = query_parts raw @ [Some (n, v)]" for raw
    unfolding query_parts_def split_on_snoc_gen [OF amp] by (simp add: query_part_pair [simplified])
  moreover have "query_parts ?p = [Some (n, v)]"
    unfolding query_parts_def split_on_absent [OF amp] by (simp add: query_part_pair [simplified])
  moreover have "query_parts [] = []" by (simp add: query_parts_def)
  ultimately show ?thesis by (auto simp: Query_def map_filter_def)
qed

text \<open>
  An API key in the query is appended: the parameters the URL had stay as they were, in
  their order, and the new pair decodes to exactly the key's name and value.
\<close>

theorem apikey_query_appends:
  assumes "ak_Name k \<noteq> []" and "ak_Placement k = ''query''"
  shows "Query (rurl_RawQuery (hr_URL (snd (apply_apikey req k)))) =
    Query (rurl_RawQuery (hr_URL req)) @ [(ak_Name k, ak_Value k)]"
  using Query_snoc [of "rurl_RawQuery (hr_URL req)" "ak_Name k" "ak_Value k"] assms
  by (auto simp: apply_apikey_def Let_def)

theorem apikey_query_appends_witness:
  "Query (rurl_RawQuery (hr_URL (snd (apply_apikey sample_http
     \<lparr>ak_Name = ''k&'', ak_Value = ''a b'', ak_Placement = ''query''\<rparr>)))) = [(''a'', ''1''), (''k&'', ''a b'')]"
proof -
  have "Query (rurl_RawQuery (hr_URL sample_http)) = [(''a'', ''1'')]" by code_simp
  with apikey_query_appends [of "\<lparr>ak_Name = ''k&'', ak_Value = ''a b'', ak_Placement = ''query''\<rparr>" sample_http]
  show ?thesis by simp
qed

section \<open>Signatures\<close>

lemma sort_map_mset:
  assumes "mset xs = mset ys"
  shows "sort (map f xs) = sort (map f ys)"
proof (rule properties_for_sort)
  show "mset (sort (map f ys)) = mset (map f xs)" using assms by (simp add: mset_map)
qed simp

text \<open>
  A signature does not depend on the order in which Go iterates the query map: the
  OAuth 1.0a signature and the AWS canonical query are functions of the multiset of
  parameters.
\<close>

theorem signatures_order_free:
  assumes "mset params = mset params'"
  shows "oauth1Sign cr m u params cs ts = oauth1Sign cr m u params' cs ts
    \<and> awsCanonicalQuery params = awsCanonicalQuery params'"
  unfolding oauth1Sign_def awsCanonicalQuery_def
  using sort_map_mset [OF assms, of "\<lambda>(k, v). (oauthEncode k, oauthEncode v)"]
    sort_map_mset [OF assms, of "\<lambda>(k, v). awsURIEncode k False @ ''='' @ awsURIEncode v False"]
  by simp

theorem signatures_order_free_witness:
  "awsCanonicalQuery [(''b'', ''2''), (''a'', ''1'')] = awsCanonicalQuery [(''a'', ''1''), (''b'', ''2'')]"
  using signatures_order_free [of "[(''b'', ''2''), (''a'', ''1'')]" "[(''a'', ''1''), (''b'', ''2'')]"] by simp

text \<open>
  The AWS canonical query is sorted by the joined pair and not by key and then value: a
  key that extends another one by a character below the equals sign comes first, although
  its key is the larger one.
\<close>

theorem aws_query_misordered:
  "awsCanonicalQuery [(''a'', ''1''), (''a-b'', ''2'')] = ''a-b=2&a=1''
   \<and> sort [(awsURIEncode ''a'' False, ''1''), (awsURIEncode ''a-b'' False, ''2'')]
     = [(awsURIEncode ''a'' False, ''1''), (awsURIEncode ''a-b'' False, ''2'')]"
  by code_simp

text \<open>
  The OAuth 1.0a base string is built from the decoded path: two requests that differ only
  in how their path is escaped, and so name different resources, get the same signature.
\<close>

theorem oauth1_ignores_escaping:
  "oauth1Header cr (req\<lparr>hr_URL := (hr_URL req)\<lparr>rurl_EscapedPath := p\<rparr>\<rparr>) a nonce ts = oauth1Header cr req a nonce ts"
  by (simp add: oauth1Header_def oauth1FormBody_def oauth1BaseURL_def)
end
