(* ===== verification/Secrets.thy ===== *)
theory Secrets
  imports ApiModel GoStrings
begin

text \<open>
  \<open>internal/storage/secrets.go\<close>: credentials are taken out of a collection before it is
  written and put back when it is read. A visitor of \<open>eachSecret\<close> gets a key and a pointer
  to a field: here it maps the key and the field's value to a new value, threading its own
  state, and every traversal returns the rewritten structure.
\<close>

section \<open>The traversal\<close>

type_synonym 's visitor = "string \<Rightarrow> string \<Rightarrow> 's \<Rightarrow> string \<times> 's"

text \<open>Visit a list with its indices.\<close>

fun visit_list :: "(nat \<Rightarrow> 'a \<Rightarrow> 's \<Rightarrow> 'a \<times> 's) \<Rightarrow> nat \<Rightarrow> 'a list \<Rightarrow> 's \<Rightarrow> 'a list \<times> 's" where
  "visit_list f k [] s = ([], s)"
| "visit_list f k (x # xs) s =
     (case f k x s of (x', s1) \<Rightarrow> (case visit_list f (Suc k) xs s1 of (xs', s2) \<Rightarrow> (x' # xs', s2)))"

lemma visit_list_cong [fundef_cong]:
  "xs = ys \<Longrightarrow> k = l \<Longrightarrow> s = t \<Longrightarrow> (\<And>i x u. x \<in> set ys \<Longrightarrow> f i x u = g i x u) \<Longrightarrow>
   visit_list f k xs s = visit_list g l ys t"
proof -
  have "(\<And>i x u. x \<in> set ys \<Longrightarrow> f i x u = g i x u) \<Longrightarrow> visit_list f l ys t = visit_list g l ys t"
    by (induction ys arbitrary: l t) (auto split: prod.splits)
  then show "xs = ys \<Longrightarrow> k = l \<Longrightarrow> s = t \<Longrightarrow> (\<And>i x u. x \<in> set ys \<Longrightarrow> f i x u = g i x u) \<Longrightarrow>
      visit_list f k xs s = visit_list g l ys t" by simp
qed

text \<open>One scheme's pointer: nil is skipped.\<close>

definition visit_field :: "'s visitor \<Rightarrow> string \<Rightarrow> ('a \<Rightarrow> string) \<Rightarrow> (string \<Rightarrow> 'a \<Rightarrow> 'a)
    \<Rightarrow> 'a option \<Rightarrow> 's \<Rightarrow> 'a option \<times> 's" where
  "visit_field fn key get put p s =
     (case p of None \<Rightarrow> (None, s)
      | Some a \<Rightarrow> (case fn key (get a) s of (v, s1) \<Rightarrow> (Some (put v a), s1)))"

definition authSecrets :: "string \<Rightarrow> 's visitor \<Rightarrow> auth \<Rightarrow> 's \<Rightarrow> auth \<times> 's" where
  "authSecrets pre fn a s0 =
     (let (p1, s1) = visit_field fn (pre @ ''/auth/basic.password'') ba_Password (\<lambda>v. ba_Password_update (\<lambda>_. v)) (auth_Basic a) s0;
          (p2, s2) = visit_field fn (pre @ ''/auth/bearer.token'') be_Token (\<lambda>v. be_Token_update (\<lambda>_. v)) (auth_Bearer a) s1;
          (p3, s3) = visit_field fn (pre @ ''/auth/apikey.value'') ak_Value (\<lambda>v. ak_Value_update (\<lambda>_. v)) (auth_APIKey a) s2;
          (p4, s4) = visit_field fn (pre @ ''/auth/oauth2.clientSecret'') o2_ClientSecret (\<lambda>v. o2_ClientSecret_update (\<lambda>_. v)) (auth_OAuth2 a) s3;
          (p5, s5) = visit_field fn (pre @ ''/auth/wsse.password'') ws_Password (\<lambda>v. ws_Password_update (\<lambda>_. v)) (auth_WSSE a) s4;
          (p6, s6) = visit_field fn (pre @ ''/auth/oauth1.consumerSecret'') o1_ConsumerSecret (\<lambda>v. o1_ConsumerSecret_update (\<lambda>_. v)) (auth_OAuth1 a) s5;
          (p7, s7) = visit_field fn (pre @ ''/auth/oauth1.tokenSecret'') o1_TokenSecret (\<lambda>v. o1_TokenSecret_update (\<lambda>_. v)) p6 s6;
          (p8, s8) = visit_field fn (pre @ ''/auth/awsv4.secretAccessKey'') aw_SecretAccessKey (\<lambda>v. aw_SecretAccessKey_update (\<lambda>_. v)) (auth_AWSV4 a) s7;
          (p9, s9) = visit_field fn (pre @ ''/auth/awsv4.sessionToken'') aw_SessionToken (\<lambda>v. aw_SessionToken_update (\<lambda>_. v)) p8 s8;
          (p10, s10) = visit_field fn (pre @ ''/auth/digest.password'') di_Password (\<lambda>v. di_Password_update (\<lambda>_. v)) (auth_Digest a) s9;
          (p11, s11) = visit_field fn (pre @ ''/auth/ntlm.password'') nt_Password (\<lambda>v. nt_Password_update (\<lambda>_. v)) (auth_NTLM a) s10
      in (a\<lparr>auth_Basic := p1, auth_Bearer := p2, auth_APIKey := p3, auth_OAuth2 := p4, auth_WSSE := p5,
            auth_OAuth1 := p7, auth_AWSV4 := p9, auth_Digest := p10, auth_NTLM := p11\<rparr>, s11))"

text \<open>A list of variables; \<open>key\<close> prints the key of an index.\<close>

definition visit_vars :: "(nat \<Rightarrow> string) \<Rightarrow> 's visitor \<Rightarrow> var_row list \<Rightarrow> 's \<Rightarrow> var_row list \<times> 's" where
  "visit_vars key fn =
     visit_list (\<lambda>j v s. if vr_Secret v
                        then (case fn (key j) (vr_Value v) s of (x, s1) \<Rightarrow> (v\<lparr>vr_Value := x\<rparr>, s1))
                        else (v, s)) 0"

definition variableSecrets :: "string \<Rightarrow> 's visitor \<Rightarrow> var_row list \<Rightarrow> 's \<Rightarrow> var_row list \<times> 's" where
  "variableSecrets pre = visit_vars (\<lambda>j. pre @ ''/v'' @ itoa (int j))"

definition visit_request :: "string \<Rightarrow> 's visitor \<Rightarrow> request \<Rightarrow> 's \<Rightarrow> request \<times> 's" where
  "visit_request pre fn r s =
     (case authSecrets pre fn (rq_Auth r) s of (a, s1) \<Rightarrow>
      (case variableSecrets pre fn (rq_Variables r) s1 of (vs, s2) \<Rightarrow>
         (r\<lparr>rq_Auth := a, rq_Variables := vs\<rparr>, s2)))"

text \<open>One iteration of \<open>eachFolderSecret\<close>; \<open>pre\<close> is the prefix with the folder's index.\<close>

fun visit_folder :: "'s visitor \<Rightarrow> string \<Rightarrow> folder \<Rightarrow> 's \<Rightarrow> folder \<times> 's" where
  "visit_folder fn p (Folder i n fs rs a vs) s =
     (case authSecrets p fn a s of (a', s1) \<Rightarrow>
      (case variableSecrets p fn vs s1 of (vs', s2) \<Rightarrow>
      (case visit_list (\<lambda>j. visit_request (p @ ''/r'' @ itoa (int j)) fn) 0 rs s2 of (rs', s3) \<Rightarrow>
      (case visit_list (\<lambda>j. visit_folder fn ((p @ ''/'') @ ''f'' @ itoa (int j))) 0 fs s3 of (fs', s4) \<Rightarrow>
         (Folder i n fs' rs' a' vs', s4)))))"

definition eachFolderSecret :: "string \<Rightarrow> 's visitor \<Rightarrow> folder list \<Rightarrow> 's \<Rightarrow> folder list \<times> 's" where
  "eachFolderSecret pre fn = visit_list (\<lambda>i. visit_folder fn (pre @ ''f'' @ itoa (int i))) 0"

definition visit_env :: "'s visitor \<Rightarrow> nat \<Rightarrow> environment \<Rightarrow> 's \<Rightarrow> environment \<times> 's" where
  "visit_env fn i e s =
     (case visit_vars (\<lambda>j. ''e'' @ itoa (int i) @ ''/v'' @ itoa (int j)) fn (env_Variables e) s of
        (vs, s1) \<Rightarrow> (e\<lparr>env_Variables := vs\<rparr>, s1))"

definition eachSecret :: "'s visitor \<Rightarrow> collection \<Rightarrow> 's \<Rightarrow> collection \<times> 's" where
  "eachSecret fn c s =
     (case authSecrets ''col'' fn (co_Auth c) s of (a, s1) \<Rightarrow>
      (case visit_list (\<lambda>i. visit_request (''r'' @ itoa (int i)) fn) 0 (co_Requests c) s1 of (rs, s2) \<Rightarrow>
      (case eachFolderSecret [] fn (co_Folders c) s2 of (fs, s3) \<Rightarrow>
      (case visit_list (visit_env fn) 0 (co_Environments c) s3 of (es, s4) \<Rightarrow>
      (case visit_vars (\<lambda>j. ''cv'' @ itoa (int j)) fn (co_Variables c) s4 of (vs, s5) \<Rightarrow>
         (c\<lparr>co_Auth := a, co_Requests := rs, co_Folders := fs, co_Environments := es, co_Variables := vs\<rparr>,
          s5))))))"

section \<open>Splitting and applying\<close>

text \<open>A Go map is an association list: the first entry of a key is its value.\<close>

definition take_secret :: "(string \<times> string) list visitor" where
  "take_secret key v s = (if v \<noteq> [] then ([], (key, v) # s) else (v, s))"

definition fill_secret :: "(string \<times> string) list \<Rightarrow> 's visitor" where
  "fill_secret secrets key v s =
     (if v = [] then (case map_of secrets key of Some x \<Rightarrow> (x, s) | None \<Rightarrow> (v, s)) else (v, s))"

definition blank_secret :: "'s visitor" where
  "blank_secret key v s = ([], s)"

definition splitSecrets :: "collection \<Rightarrow> collection \<times> (string \<times> string) list" where
  "splitSecrets c = eachSecret take_secret c []"

definition applySecrets :: "(string \<times> string) list \<Rightarrow> collection \<Rightarrow> collection" where
  "applySecrets secrets c =
     (if secrets = [] then c else fst (eachSecret (fill_secret secrets) c ()))"

definition ScrubRequestSecrets :: "request \<Rightarrow> request" where
  "ScrubRequestSecrets r =
     (let (a, u) = authSecrets [] blank_secret (rq_Auth r) ();
          (vs, u2) = variableSecrets [] blank_secret (rq_Variables r) ()
      in r\<lparr>rq_Auth := a, rq_Variables := vs\<rparr>)"

section \<open>The secrets of a structure\<close>

text \<open>
  A secret is addressed by the segments of its key. The functions \<open>..._slots\<close> list the secrets
  of a structure in the order of the traversal, and \<open>blank_...\<close> empties them.
\<close>

type_synonym slots = "(string list \<times> string) list"

definition beneath :: "string list \<Rightarrow> slots \<Rightarrow> slots" where
  "beneath p xs = map (\<lambda>(q, v). (p @ q, v)) xs"

definition indexed :: "(nat \<Rightarrow> string) \<Rightarrow> ('a \<Rightarrow> slots) \<Rightarrow> nat \<Rightarrow> 'a list \<Rightarrow> slots" where
  "indexed seg f k xs = concat (map (\<lambda>(i, x). beneath [seg i] (f x)) (zip [k..<k + length xs] xs))"

definition opt_slot :: "string \<Rightarrow> ('a \<Rightarrow> string) \<Rightarrow> 'a option \<Rightarrow> slots" where
  "opt_slot name get p = (case p of None \<Rightarrow> [] | Some a \<Rightarrow> [([''auth'', name], get a)])"

definition auth_slots :: "auth \<Rightarrow> slots" where
  "auth_slots a =
     opt_slot ''basic.password'' ba_Password (auth_Basic a) @ opt_slot ''bearer.token'' be_Token (auth_Bearer a) @
     opt_slot ''apikey.value'' ak_Value (auth_APIKey a) @ opt_slot ''oauth2.clientSecret'' o2_ClientSecret (auth_OAuth2 a) @
     opt_slot ''wsse.password'' ws_Password (auth_WSSE a) @
     opt_slot ''oauth1.consumerSecret'' o1_ConsumerSecret (auth_OAuth1 a) @
     opt_slot ''oauth1.tokenSecret'' o1_TokenSecret (auth_OAuth1 a) @
     opt_slot ''awsv4.secretAccessKey'' aw_SecretAccessKey (auth_AWSV4 a) @
     opt_slot ''awsv4.sessionToken'' aw_SessionToken (auth_AWSV4 a) @
     opt_slot ''digest.password'' di_Password (auth_Digest a) @ opt_slot ''ntlm.password'' nt_Password (auth_NTLM a)"

definition blank_auth :: "auth \<Rightarrow> auth" where
  "blank_auth a =
     a\<lparr>auth_Basic := map_option (ba_Password_update (\<lambda>_. [])) (auth_Basic a),
       auth_Bearer := map_option (be_Token_update (\<lambda>_. [])) (auth_Bearer a),
       auth_APIKey := map_option (ak_Value_update (\<lambda>_. [])) (auth_APIKey a),
       auth_OAuth2 := map_option (o2_ClientSecret_update (\<lambda>_. [])) (auth_OAuth2 a),
       auth_WSSE := map_option (ws_Password_update (\<lambda>_. [])) (auth_WSSE a),
       auth_OAuth1 := map_option (o1_TokenSecret_update (\<lambda>_. []))
         (map_option (o1_ConsumerSecret_update (\<lambda>_. [])) (auth_OAuth1 a)),
       auth_AWSV4 := map_option (aw_SessionToken_update (\<lambda>_. []))
         (map_option (aw_SecretAccessKey_update (\<lambda>_. [])) (auth_AWSV4 a)),
       auth_Digest := map_option (di_Password_update (\<lambda>_. [])) (auth_Digest a),
       auth_NTLM := map_option (nt_Password_update (\<lambda>_. [])) (auth_NTLM a)\<rparr>"

definition var_slot :: "var_row \<Rightarrow> slots" where
  "var_slot v = (if vr_Secret v then [([], vr_Value v)] else [])"

definition blank_var :: "var_row \<Rightarrow> var_row" where
  "blank_var v = (if vr_Secret v then v\<lparr>vr_Value := []\<rparr> else v)"

definition vars_slots :: "string \<Rightarrow> var_row list \<Rightarrow> slots" where
  "vars_slots tag vs = indexed (\<lambda>j. tag @ itoa (int j)) var_slot 0 vs"

definition request_slots :: "request \<Rightarrow> slots" where
  "request_slots r = auth_slots (rq_Auth r) @ vars_slots ''v'' (rq_Variables r)"

definition blank_request :: "request \<Rightarrow> request" where
  "blank_request r = r\<lparr>rq_Auth := blank_auth (rq_Auth r), rq_Variables := map blank_var (rq_Variables r)\<rparr>"

fun folder_slots :: "folder \<Rightarrow> slots" where
  "folder_slots (Folder i n fs rs a vs) =
     auth_slots a @ vars_slots ''v'' vs @ indexed (\<lambda>j. ''r'' @ itoa (int j)) request_slots 0 rs @
     concat (map (\<lambda>(j, x). beneath [''f'' @ itoa (int j)] x) (zip [0..<length fs] (map folder_slots fs)))"

fun blank_folder :: "folder \<Rightarrow> folder" where
  "blank_folder (Folder i n fs rs a vs) =
     Folder i n (map blank_folder fs) (map blank_request rs) (blank_auth a) (map blank_var vs)"

definition blank_env :: "environment \<Rightarrow> environment" where
  "blank_env e = e\<lparr>env_Variables := map blank_var (env_Variables e)\<rparr>"

definition col_slots :: "collection \<Rightarrow> slots" where
  "col_slots c =
     beneath [''col''] (auth_slots (co_Auth c)) @
     indexed (\<lambda>j. ''r'' @ itoa (int j)) request_slots 0 (co_Requests c) @
     indexed (\<lambda>j. ''f'' @ itoa (int j)) folder_slots 0 (co_Folders c) @
     indexed (\<lambda>j. ''e'' @ itoa (int j)) (\<lambda>e. vars_slots ''v'' (env_Variables e)) 0 (co_Environments c) @
     vars_slots ''cv'' (co_Variables c)"

definition blank_collection :: "collection \<Rightarrow> collection" where
  "blank_collection c =
     c\<lparr>co_Auth := blank_auth (co_Auth c), co_Requests := map blank_request (co_Requests c),
       co_Folders := map blank_folder (co_Folders c), co_Environments := map blank_env (co_Environments c),
       co_Variables := map blank_var (co_Variables c)\<rparr>"

section \<open>What a visitor does to them\<close>

text \<open>The log that \<open>take_secret\<close> leaves, and a store that agrees with it.\<close>

definition logged_slots :: "slots \<Rightarrow> (string \<times> string) list" where
  "logged_slots xs = rev (map (\<lambda>(q, v). (join ''/'' q, v)) (filter (\<lambda>(q, v). v \<noteq> []) xs))"

definition agrees :: "(string \<times> string) list \<Rightarrow> slots \<Rightarrow> bool" where
  "agrees m xs \<longleftrightarrow>
     (\<forall>(q, v)\<in>set xs. map_of m (join ''/'' q) = (if v = [] then None else Some v))"

lemma logged_slots_append [simp]: "logged_slots (xs @ ys) = logged_slots ys @ logged_slots xs"
  by (simp add: logged_slots_def)

lemma logged_slots_Nil [simp]: "logged_slots [] = []"
  by (simp add: logged_slots_def)

lemma agrees_append [simp]: "agrees m (xs @ ys) \<longleftrightarrow> agrees m xs \<and> agrees m ys"
  by (auto simp: agrees_def)

lemma agrees_Nil [simp]: "agrees m []"
  by (simp add: agrees_def)

lemma beneath_append [simp]: "beneath p (xs @ ys) = beneath p xs @ beneath p ys"
  by (simp add: beneath_def)

lemma beneath_Nil [simp]: "beneath p [] = []" "beneath [] xs = xs"
  by (auto simp: beneath_def)

lemma beneath_beneath [simp]: "beneath p (beneath q xs) = beneath (p @ q) xs"
  by (simp add: beneath_def comp_def case_prod_beta)

lemma indexed_Nil [simp]: "indexed seg f k [] = []"
  by (simp add: indexed_def)

lemma indexed_Cons [simp]: "indexed seg f k (x # xs) = beneath [seg k] (f x) @ indexed seg f (Suc k) xs"
proof -
  have "[k..<k + length (x # xs)] = k # [Suc k..<Suc k + length xs]"
    by (metis add_Suc_right add_Suc_shift length_Cons upt_conv_Cons less_add_Suc1)
  then show ?thesis by (simp only: indexed_def zip_Cons_Cons list.map concat.simps prod.case)
qed

lemma beneath_concat: "beneath p (concat xss) = concat (map (beneath p) xss)"
  by (induction xss) auto

text \<open>
  A traversal \<open>T\<close> of \<open>c\<close> whose keys start at \<open>P\<close>: what it does under the three visitors of
  this file.
\<close>

definition traverses ::
  "((string \<times> string) list visitor \<Rightarrow> 'c \<Rightarrow> (string \<times> string) list \<Rightarrow> 'c \<times> (string \<times> string) list)
   \<Rightarrow> (unit visitor \<Rightarrow> 'c \<Rightarrow> unit \<Rightarrow> 'c \<times> unit) \<Rightarrow> 'c \<Rightarrow> 'c \<Rightarrow> slots \<Rightarrow> bool" where
  "traverses T U c c0 xs \<longleftrightarrow>
     (\<forall>s. T take_secret c s = (c0, logged_slots xs @ s)) \<and>
     (\<forall>m. agrees m xs \<longrightarrow> U (fill_secret m) c0 () = (c, ())) \<and>
     U blank_secret c () = (c0, ()) \<and> U (fill_secret []) c () = (c, ()) \<and>
     (\<forall>s. T take_secret c0 s = (c0, s))"


lemma traverses_cong:
  "T = T2 \<Longrightarrow> U = U2 \<Longrightarrow> xs = ys \<Longrightarrow> traverses T U c c0 xs \<Longrightarrow> traverses T2 U2 c c0 ys"
  by simp

lemma field_take:
  assumes put: "\<And>a. get a = [] \<Longrightarrow> put [] a = a" and key: "key = join ''/'' (P @ [''auth'', name])"
  shows "visit_field take_secret key get put p s =
     (map_option (put []) p, logged_slots (beneath P (opt_slot name get p)) @ s)"
  using put by (cases p)
    (auto simp: visit_field_def take_secret_def opt_slot_def beneath_def logged_slots_def key)

lemma field_fill:
  assumes put: "\<And>v a. get (put v a) = v" "\<And>v w a. put v (put w a) = put v a" "\<And>a. put (get a) a = a"
    and key: "key = join ''/'' (P @ [''auth'', name])" and m: "agrees m (beneath P (opt_slot name get p))"
  shows "visit_field (fill_secret m) key get put (map_option (put []) p) s = (p, s)"
proof (cases p)
  case (Some a)
  with m have "map_of m key = (if get a = [] then None else Some (get a))"
    by (simp add: agrees_def beneath_def opt_slot_def key)
  moreover have "get a = [] \<Longrightarrow> put [] a = a" using put(3) [of a] by simp
  ultimately show ?thesis using put(3) [of a] by (auto simp: Some visit_field_def fill_secret_def put)
qed (simp add: visit_field_def)

lemma field_blank: "visit_field blank_secret key get put p s = (map_option (put []) p, s)"
  by (cases p) (auto simp: visit_field_def blank_secret_def)

lemma field_keep:
  assumes "\<And>a. put (get a) a = a"
  shows "visit_field (fill_secret []) key get put p s = (p, s)"
proof (cases p)
  case (Some a)
  with assms [of a] show ?thesis by (auto simp: visit_field_def fill_secret_def)
qed (simp add: visit_field_def)

lemma field_take_blank:
  assumes "\<And>a. put (get a) a = a" and "pred_option (\<lambda>a. get a = []) p"
  shows "visit_field take_secret key get put p s = (p, s)"
proof (cases p)
  case (Some a)
  with assms(1) [of a] assms(2) show ?thesis by (auto simp: visit_field_def take_secret_def)
qed (simp add: visit_field_def)

lemma opt_slot_map: "(\<And>a. get (f a) = get a) \<Longrightarrow> opt_slot name get (map_option f p) = opt_slot name get p"
  by (cases p) (auto simp: opt_slot_def)

lemma auth_key: "P \<noteq> [] \<Longrightarrow> join ''/'' P @ ''/auth/'' @ n = join ''/'' (P @ [''auth'', n])"
  using join_snoc [of "P @ [''auth'']" "''/''" n] join_snoc [of P "''/''" "''auth''"] by simp


text \<open>Writing back what was read changes nothing.\<close>

lemma put_back:
  "ba_Password_update (\<lambda>_. ba_Password a0) a0 = a0"
  "be_Token_update (\<lambda>_. be_Token a1) a1 = a1"
  "ak_Value_update (\<lambda>_. ak_Value a2) a2 = a2"
  "o2_ClientSecret_update (\<lambda>_. o2_ClientSecret a3) a3 = a3"
  "ws_Password_update (\<lambda>_. ws_Password a4) a4 = a4"
  "o1_ConsumerSecret_update (\<lambda>_. o1_ConsumerSecret a5) a5 = a5"
  "o1_TokenSecret_update (\<lambda>_. o1_TokenSecret a6) a6 = a6"
  "aw_SecretAccessKey_update (\<lambda>_. aw_SecretAccessKey a7) a7 = a7"
  "aw_SessionToken_update (\<lambda>_. aw_SessionToken a8) a8 = a8"
  "di_Password_update (\<lambda>_. di_Password a9) a9 = a9"
  "nt_Password_update (\<lambda>_. nt_Password a10) a10 = a10"
  by (rule basic_auth.equality bearer_auth.equality apikey_auth.equality oauth2_auth.equality wsse_auth.equality
      oauth1_auth.equality awsv4_auth.equality digest_auth.equality ntlm_auth.equality; simp)+

lemma authSecrets_traverses:
  assumes P: "P \<noteq> []" and pre: "pre = join ''/'' P"
  shows "traverses (authSecrets pre) (authSecrets pre) a (blank_auth a) (beneath P (auth_slots a))"
proof -
  have key: "pre @ ''/auth/'' @ n = join ''/'' (P @ [''auth'', n])" for n
    using auth_key [OF P] by (simp add: pre)
  note keys = key [of "''basic.password''"] key [of "''bearer.token''"] key [of "''apikey.value''"]
    key [of "''oauth2.clientSecret''"] key [of "''wsse.password''"] key [of "''oauth1.consumerSecret''"]
    key [of "''oauth1.tokenSecret''"] key [of "''awsv4.secretAccessKey''"] key [of "''awsv4.sessionToken''"]
    key [of "''digest.password''"] key [of "''ntlm.password''"]
  have take: "authSecrets pre take_secret a s = (blank_auth a, logged_slots (beneath P (auth_slots a)) @ s)" for s
    unfolding authSecrets_def
    by (simp add: field_take [OF _ keys(1)[simplified]] field_take [OF _ keys(2)[simplified]]
      field_take [OF _ keys(3)[simplified]] field_take [OF _ keys(4)[simplified]] field_take [OF _ keys(5)[simplified]]
      field_take [OF _ keys(6)[simplified]] field_take [OF _ keys(7)[simplified]] field_take [OF _ keys(8)[simplified]]
      field_take [OF _ keys(9)[simplified]] field_take [OF _ keys(10)[simplified]] field_take [OF _ keys(11)[simplified]]
      opt_slot_map blank_auth_def auth_slots_def)
  have fill: "authSecrets pre (fill_secret m) (blank_auth a) () = (a, ())"
    if m: "agrees m (beneath P (auth_slots a))" for m
  proof -
    note m' = m [unfolded auth_slots_def, simplified]
    have o1: "map_option (o1_TokenSecret_update (\<lambda>_. []))
        (map_option (o1_ConsumerSecret_update (\<lambda>_. [])) (auth_OAuth1 a)) =
      map_option (o1_ConsumerSecret_update (\<lambda>_. [])) (map_option (o1_TokenSecret_update (\<lambda>_. [])) (auth_OAuth1 a))"
      by (cases "auth_OAuth1 a") auto
    have aw: "map_option (aw_SessionToken_update (\<lambda>_. []))
        (map_option (aw_SecretAccessKey_update (\<lambda>_. [])) (auth_AWSV4 a)) =
      map_option (aw_SecretAccessKey_update (\<lambda>_. [])) (map_option (aw_SessionToken_update (\<lambda>_. [])) (auth_AWSV4 a))"
      by (cases "auth_AWSV4 a") auto
    show ?thesis
      unfolding authSecrets_def blank_auth_def o1 aw
      using m'
      by (simp add: opt_slot_map put_back
        field_fill [where get = ba_Password and put = "\<lambda>v. ba_Password_update (\<lambda>_. v)", OF _ _ _ keys(1)[simplified]]
        field_fill [where get = be_Token and put = "\<lambda>v. be_Token_update (\<lambda>_. v)", OF _ _ _ keys(2)[simplified]]
        field_fill [where get = ak_Value and put = "\<lambda>v. ak_Value_update (\<lambda>_. v)", OF _ _ _ keys(3)[simplified]]
        field_fill [where get = o2_ClientSecret and put = "\<lambda>v. o2_ClientSecret_update (\<lambda>_. v)", OF _ _ _ keys(4)[simplified]]
        field_fill [where get = ws_Password and put = "\<lambda>v. ws_Password_update (\<lambda>_. v)", OF _ _ _ keys(5)[simplified]]
        field_fill [where get = o1_ConsumerSecret and put = "\<lambda>v. o1_ConsumerSecret_update (\<lambda>_. v)", OF _ _ _ keys(6)[simplified]]
        field_fill [where get = o1_TokenSecret and put = "\<lambda>v. o1_TokenSecret_update (\<lambda>_. v)", OF _ _ _ keys(7)[simplified]]
        field_fill [where get = aw_SecretAccessKey and put = "\<lambda>v. aw_SecretAccessKey_update (\<lambda>_. v)", OF _ _ _ keys(8)[simplified]]
        field_fill [where get = aw_SessionToken and put = "\<lambda>v. aw_SessionToken_update (\<lambda>_. v)", OF _ _ _ keys(9)[simplified]]
        field_fill [where get = di_Password and put = "\<lambda>v. di_Password_update (\<lambda>_. v)", OF _ _ _ keys(10)[simplified]]
        field_fill [where get = nt_Password and put = "\<lambda>v. nt_Password_update (\<lambda>_. v)", OF _ _ _ keys(11)[simplified]])
  qed
  moreover have "authSecrets pre blank_secret a () = (blank_auth a, ())"
    by (simp add: authSecrets_def field_blank blank_auth_def)
  moreover have "authSecrets pre (fill_secret []) a () = (a, ())"
    by (simp add: authSecrets_def field_keep put_back)
  moreover have "authSecrets pre take_secret (blank_auth a) s = (blank_auth a, s)" for s
    unfolding authSecrets_def blank_auth_def
    by (simp add: put_back field_take_blank option.pred_map comp_def option.map_comp option.pred_True)
  ultimately show ?thesis using take by (simp add: traverses_def)
qed

lemma traverses_list:
  assumes "\<And>i x. x \<in> set xs \<Longrightarrow> traverses (\<lambda>fn. T fn i) (\<lambda>fn. U fn i) x (g x) (beneath (P @ [seg i]) (f x))"
  shows "traverses (\<lambda>fn. visit_list (T fn) k) (\<lambda>fn. visit_list (U fn) k) xs (map g xs)
           (beneath P (indexed seg f k xs))"
  using assms
proof (induction xs arbitrary: k)
  case Nil
  then show ?case by (simp add: traverses_def)
next
  case (Cons x xs)
  from Cons.prems have x: "traverses (\<lambda>fn. T fn k) (\<lambda>fn. U fn k) x (g x) (beneath (P @ [seg k]) (f x))"
    by simp
  from Cons.prems have xs: "traverses (\<lambda>fn. visit_list (T fn) (Suc k)) (\<lambda>fn. visit_list (U fn) (Suc k)) xs
      (map g xs) (beneath P (indexed seg f (Suc k) xs))" by (intro Cons.IH) simp
  from x xs show ?case by (auto simp: traverses_def)
qed

text \<open>One variable.\<close>

definition visit_var :: "(nat \<Rightarrow> string) \<Rightarrow> 's visitor \<Rightarrow> nat \<Rightarrow> var_row \<Rightarrow> 's \<Rightarrow> var_row \<times> 's" where
  "visit_var key fn j v s =
     (if vr_Secret v then (case fn (key j) (vr_Value v) s of (x, s1) \<Rightarrow> (v\<lparr>vr_Value := x\<rparr>, s1)) else (v, s))"

lemma visit_vars_list: "visit_vars key fn = visit_list (visit_var key fn) 0"
  by (simp add: visit_vars_def visit_var_def [abs_def])

lemma visit_vars_traverses:
  assumes key: "\<And>j. key j = join ''/'' (P @ [tag @ itoa (int j)])"
  shows "traverses (visit_vars key) (visit_vars key) vs (map blank_var vs) (beneath P (vars_slots tag vs))"
  unfolding visit_vars_list [abs_def] vars_slots_def
proof (rule traverses_list)
  fix j v
  show "traverses (\<lambda>fn. visit_var key fn j) (\<lambda>fn. visit_var key fn j) v (blank_var v)
      (beneath (P @ [tag @ itoa (int j)]) (var_slot v))"
    using key [of j]
    by (cases v)
      (auto simp: traverses_def visit_var_def take_secret_def fill_secret_def blank_secret_def blank_var_def
        var_slot_def beneath_def logged_slots_def agrees_def)
qed

lemma key_below: "P \<noteq> [] \<Longrightarrow> pre = join ''/'' P \<Longrightarrow> pre @ CHR ''/'' # n = join ''/'' (P @ [n])"
  by (simp add: join_snoc)

lemma visit_request_traverses:
  assumes "P \<noteq> []" and "pre = join ''/'' P"
  shows "traverses (visit_request pre) (visit_request pre) r (blank_request r) (beneath P (request_slots r))"
proof -
  note a = authSecrets_traverses [OF assms, of "rq_Auth r"]
  have "pre @ ''/v'' @ itoa (int j) = join ''/'' (P @ [''v'' @ itoa (int j)])" for j
    using key_below [OF assms, of "''v'' @ itoa (int j)"] by simp
  then have v: "traverses (variableSecrets pre) (variableSecrets pre) (rq_Variables r)
      (map blank_var (rq_Variables r)) (beneath P (vars_slots ''v'' (rq_Variables r)))"
    unfolding variableSecrets_def by (rule visit_vars_traverses)
  from a v show ?thesis
    by (auto simp: traverses_def visit_request_def blank_request_def request_slots_def)
qed

lemma zip_map_indexed:
  "concat (map (\<lambda>(j, x). beneath [seg j] x) (zip [k..<k + length xs] (map f xs))) = indexed seg f k xs"
  by (simp add: indexed_def zip_map2 comp_def case_prod_beta')

lemma folder_slots_eq:
  "folder_slots (Folder i n fs rs a vs) =
     auth_slots a @ vars_slots ''v'' vs @ indexed (\<lambda>j. ''r'' @ itoa (int j)) request_slots 0 rs @
     indexed (\<lambda>j. ''f'' @ itoa (int j)) folder_slots 0 fs"
  using zip_map_indexed [of "\<lambda>j. ''f'' @ itoa (int j)" 0 fs folder_slots] by simp

lemma visit_folder_traverses:
  "P \<noteq> [] \<Longrightarrow> pre = join ''/'' P \<Longrightarrow>
     traverses (\<lambda>fn. visit_folder fn pre) (\<lambda>fn. visit_folder fn pre) f (blank_folder f) (beneath P (folder_slots f))"
proof (induction f arbitrary: P pre)
  case (Folder i n fs rs a vs)
  note P = Folder.prems
  note a = authSecrets_traverses [OF P, of a]
  have "pre @ ''/v'' @ itoa (int j) = join ''/'' (P @ [''v'' @ itoa (int j)])" for j
    using key_below [OF P, of "''v'' @ itoa (int j)"] by simp
  then have v: "traverses (variableSecrets pre) (variableSecrets pre) vs
      (map blank_var vs) (beneath P (vars_slots ''v'' vs))"
    unfolding variableSecrets_def by (rule visit_vars_traverses)
  have r: "traverses (\<lambda>fn. visit_list (\<lambda>j. visit_request (pre @ ''/r'' @ itoa (int j)) fn) 0)
      (\<lambda>fn. visit_list (\<lambda>j. visit_request (pre @ ''/r'' @ itoa (int j)) fn) 0) rs (map blank_request rs)
      (beneath P (indexed (\<lambda>j. ''r'' @ itoa (int j)) request_slots 0 rs))"
    using key_below [OF P] by (intro traverses_list visit_request_traverses) auto
  have f: "traverses (\<lambda>fn. visit_list (\<lambda>j. visit_folder fn ((pre @ ''/'') @ ''f'' @ itoa (int j))) 0)
      (\<lambda>fn. visit_list (\<lambda>j. visit_folder fn ((pre @ ''/'') @ ''f'' @ itoa (int j))) 0) fs (map blank_folder fs)
      (beneath P (indexed (\<lambda>j. ''f'' @ itoa (int j)) folder_slots 0 fs))"
    by (intro traverses_list Folder.IH) (simp_all add: join_snoc P)
  from a v r f show ?case
    by (auto simp: traverses_def folder_slots_eq simp del: folder_slots.simps)
qed

lemma eachSecret_traverses: "traverses eachSecret eachSecret c (blank_collection c) (col_slots c)"
proof -
  have a: "traverses (authSecrets ''col'') (authSecrets ''col'') (co_Auth c) (blank_auth (co_Auth c))
      (beneath [''col''] (auth_slots (co_Auth c)))"
    by (rule authSecrets_traverses) auto
  have r: "traverses (\<lambda>fn. visit_list (\<lambda>i. visit_request (''r'' @ itoa (int i)) fn) 0)
      (\<lambda>fn. visit_list (\<lambda>i. visit_request (''r'' @ itoa (int i)) fn) 0) (co_Requests c)
      (map blank_request (co_Requests c)) (beneath [] (indexed (\<lambda>j. ''r'' @ itoa (int j)) request_slots 0 (co_Requests c)))"
    by (intro traverses_list visit_request_traverses) auto
  have f: "traverses (eachFolderSecret []) (eachFolderSecret []) (co_Folders c)
      (map blank_folder (co_Folders c)) (beneath [] (indexed (\<lambda>j. ''f'' @ itoa (int j)) folder_slots 0 (co_Folders c)))"
    unfolding eachFolderSecret_def by (intro traverses_list visit_folder_traverses) auto
  have e: "traverses (\<lambda>fn. visit_list (visit_env fn) 0) (\<lambda>fn. visit_list (visit_env fn) 0) (co_Environments c)
      (map blank_env (co_Environments c))
      (beneath [] (indexed (\<lambda>j. ''e'' @ itoa (int j)) (\<lambda>e. vars_slots ''v'' (env_Variables e)) 0 (co_Environments c)))"
  proof (rule traverses_list)
    fix i and e :: environment
    have "traverses (visit_vars (\<lambda>j. ''e'' @ itoa (int i) @ ''/v'' @ itoa (int j)))
        (visit_vars (\<lambda>j. ''e'' @ itoa (int i) @ ''/v'' @ itoa (int j))) (env_Variables e)
        (map blank_var (env_Variables e)) (beneath [''e'' @ itoa (int i)] (vars_slots ''v'' (env_Variables e)))"
      by (rule visit_vars_traverses) simp
    then show "traverses (\<lambda>fn. visit_env fn i) (\<lambda>fn. visit_env fn i) e (blank_env e)
        (beneath ([] @ [''e'' @ itoa (int i)]) (vars_slots ''v'' (env_Variables e)))"
      by (auto simp: traverses_def visit_env_def blank_env_def)
  qed
  have v: "traverses (visit_vars (\<lambda>j. ''cv'' @ itoa (int j))) (visit_vars (\<lambda>j. ''cv'' @ itoa (int j)))
      (co_Variables c) (map blank_var (co_Variables c)) (beneath [] (vars_slots ''cv'' (co_Variables c)))"
    by (rule visit_vars_traverses) simp
  from a r f e v show ?thesis
    by (auto simp: traverses_def eachSecret_def blank_collection_def col_slots_def)
qed

section \<open>Keys name one field each\<close>

definition headed :: "string \<Rightarrow> slots \<Rightarrow> bool" where
  "headed t xs \<longleftrightarrow> (\<forall>q\<in>fst ` set xs. q \<noteq> [] \<and> prefix t (hd q))"

definition wf_slots :: "slots \<Rightarrow> bool" where
  "wf_slots xs \<longleftrightarrow> distinct (map fst xs) \<and> (\<forall>q\<in>fst ` set xs. \<forall>p\<in>set q. CHR ''/'' \<notin> set p)"

lemma headed_append [simp]: "headed t (xs @ ys) \<longleftrightarrow> headed t xs \<and> headed t ys"
  by (auto simp: headed_def)

lemma headed_Nil [simp]: "headed t []"
  by (simp add: headed_def)

lemma headed_disjoint:
  "headed a xs \<Longrightarrow> headed b ys \<Longrightarrow> \<not> prefix a b \<Longrightarrow> \<not> prefix b a \<Longrightarrow> fst ` set xs \<inter> fst ` set ys = {}"
  unfolding headed_def by (meson disjoint_iff prefix_same_cases)

lemma headed_mono: "headed (t @ u) xs \<Longrightarrow> headed t xs"
  by (auto simp: headed_def prefix_def)

lemma wf_slots_append:
  "wf_slots xs \<Longrightarrow> wf_slots ys \<Longrightarrow> fst ` set xs \<inter> fst ` set ys = {} \<Longrightarrow> wf_slots (xs @ ys)"
  by (auto simp: wf_slots_def)

lemma wf_slots_headed:
  "wf_slots xs \<Longrightarrow> wf_slots ys \<Longrightarrow> headed a xs \<Longrightarrow> headed b ys \<Longrightarrow> \<not> prefix a b \<Longrightarrow> \<not> prefix b a \<Longrightarrow>
   wf_slots (xs @ ys)"
  by (intro wf_slots_append headed_disjoint)

lemma wf_slots_Nil [simp]: "wf_slots []"
  by (simp add: wf_slots_def)

lemma fst_set_beneath: "fst ` set (beneath p xs) = (@) p ` fst ` set xs"
  by (force simp: beneath_def image_image)

lemma wf_slots_beneath: "wf_slots xs \<Longrightarrow> CHR ''/'' \<notin> set s \<Longrightarrow> wf_slots (beneath [s] xs)"
proof -
  have "map fst (beneath [s] xs) = map ((#) s) (map fst xs)" by (auto simp: beneath_def)
  then show "wf_slots xs \<Longrightarrow> CHR ''/'' \<notin> set s \<Longrightarrow> wf_slots (beneath [s] xs)"
    by (auto simp: wf_slots_def fst_set_beneath distinct_map inj_on_def)
qed

lemma headed_beneath: "prefix t s \<Longrightarrow> headed t (beneath [s] xs)"
  by (auto simp: headed_def fst_set_beneath)

lemma headed_indexed: "(\<And>j. prefix t (seg j)) \<Longrightarrow> headed t (indexed seg f k xs)"
  by (induction xs arbitrary: k) (auto intro: headed_beneath)

lemma indexed_heads: "q \<in> fst ` set (indexed seg f k xs) \<Longrightarrow> \<exists>j\<ge>k. q \<noteq> [] \<and> hd q = seg j"
proof (induction xs arbitrary: k)
  case (Cons x xs)
  then have "q \<in> fst ` set (beneath [seg k] (f x)) \<or> q \<in> fst ` set (indexed seg f (Suc k) xs)"
    by (auto simp: image_Un)
  then show ?case
  proof
    assume "q \<in> fst ` set (beneath [seg k] (f x))"
    then show ?thesis by (auto simp: fst_set_beneath)
  next
    assume "q \<in> fst ` set (indexed seg f (Suc k) xs)"
    from Cons.IH [OF this] show ?thesis using Suc_leD by blast
  qed
qed simp

lemma wf_slots_indexed:
  assumes "inj seg" and "\<And>j. CHR ''/'' \<notin> set (seg j)" and "\<And>x. x \<in> set xs \<Longrightarrow> wf_slots (f x)"
  shows "wf_slots (indexed seg f k xs)"
  using assms(3)
proof (induction xs arbitrary: k)
  case (Cons x xs)
  have "fst ` set (beneath [seg k] (f x)) \<inter> fst ` set (indexed seg f (Suc k) xs) = {}"
  proof (rule ccontr)
    assume "\<not> ?thesis"
    then obtain q where q: "q \<in> fst ` set (beneath [seg k] (f x))" "q \<in> fst ` set (indexed seg f (Suc k) xs)"
      by blast
    from indexed_heads [OF q(2)] obtain j where j: "Suc k \<le> j" "hd q = seg j" by blast
    from q(1) have "hd q = seg k" by (auto simp: fst_set_beneath)
    with j assms(1) show False by (auto dest: injD)
  qed
  with Cons assms(2) show ?case by (auto intro!: wf_slots_append wf_slots_beneath)
qed simp

lemma wf_slots_numbered:
  "CHR ''/'' \<notin> set t \<Longrightarrow> (\<And>x. x \<in> set xs \<Longrightarrow> wf_slots (f x)) \<Longrightarrow>
   wf_slots (indexed (\<lambda>j. t @ itoa (int j)) f k xs)"
  by (intro wf_slots_indexed) (auto simp: inj_def nat_digits_no_char is_digit_def dest: nat_digits_no_char [THEN notE, rotated])

lemma headed_numbered: "headed t (indexed (\<lambda>j. t @ itoa (int j)) f k xs)"
  by (rule headed_indexed) simp

lemma headed_opt_slot: "headed ''auth'' (opt_slot name get p)"
  by (auto simp: headed_def opt_slot_def split: option.splits)

lemma headed_auth_slots: "headed ''auth'' (auth_slots a)"
  by (simp add: auth_slots_def headed_opt_slot)

lemma opt_slot_subseq:
  "subseq (map fst ys) ns \<Longrightarrow> subseq (map fst (opt_slot name get p @ ys)) ([''auth'', name] # ns)"
  by (auto simp: opt_slot_def split: option.splits)

lemma wf_auth_slots: "wf_slots (auth_slots a)"
proof -
  let ?ns = "[[''auth'', ''basic.password''], [''auth'', ''bearer.token''], [''auth'', ''apikey.value''],
    [''auth'', ''oauth2.clientSecret''], [''auth'', ''wsse.password''], [''auth'', ''oauth1.consumerSecret''],
    [''auth'', ''oauth1.tokenSecret''], [''auth'', ''awsv4.secretAccessKey''], [''auth'', ''awsv4.sessionToken''],
    [''auth'', ''digest.password''], [''auth'', ''ntlm.password'']] :: string list list"
  have last: "subseq (map fst (opt_slot ''ntlm.password'' nt_Password (auth_NTLM a))) [[''auth'', ''ntlm.password'']]"
    using opt_slot_subseq [of "[]" "[]"] by simp
  have sub: "subseq (map fst (auth_slots a)) ?ns"
    unfolding auth_slots_def by (rule opt_slot_subseq last)+
  have "distinct ?ns" "\<forall>q\<in>set ?ns. \<forall>p\<in>set q. CHR ''/'' \<notin> set p" by code_simp+
  moreover have "set (map fst (auth_slots a)) \<subseteq> set ?ns"
  proof -
    from sub obtain N where "map fst (auth_slots a) = nths ?ns N" unfolding subseq_conv_nths by blast
    then show ?thesis by (simp only: set_nths_subset)
  qed
  moreover have "distinct (map fst (auth_slots a))"
  proof -
    from sub obtain N where "map fst (auth_slots a) = nths ?ns N" unfolding subseq_conv_nths by blast
    with \<open>distinct ?ns\<close> show ?thesis by (simp only: distinct_nthsI)
  qed
  ultimately show ?thesis by (auto simp only: wf_slots_def list.set_map)
qed

lemma wf_vars_slots: "CHR ''/'' \<notin> set t \<Longrightarrow> wf_slots (vars_slots t vs)"
  unfolding vars_slots_def by (rule wf_slots_numbered) (auto simp: var_slot_def wf_slots_def)

lemma headed_vars_slots: "headed t (vars_slots t vs)"
  unfolding vars_slots_def by (rule headed_numbered)

lemma wf_request_slots: "wf_slots (request_slots r)"
  unfolding request_slots_def
  by (rule wf_slots_headed [OF wf_auth_slots wf_vars_slots headed_auth_slots headed_vars_slots]) auto

lemma wf_folder_slots: "wf_slots (folder_slots f)"
proof (induction f)
  case (Folder i n fs rs a vs)
  let ?r = "indexed (\<lambda>j. ''r'' @ itoa (int j)) request_slots 0 rs"
  let ?f = "indexed (\<lambda>j. ''f'' @ itoa (int j)) folder_slots 0 fs"
  have f: "wf_slots ?f" by (rule wf_slots_numbered) (auto intro: Folder.IH)
  have r: "wf_slots ?r" by (rule wf_slots_numbered) (auto intro: wf_request_slots)
  have rf: "wf_slots (?r @ ?f)"
    by (rule wf_slots_headed [OF r f headed_numbered headed_numbered]) auto
  have "wf_slots (vars_slots ''v'' vs @ ?r @ ?f)"
    using headed_disjoint [OF headed_vars_slots headed_numbered, of "''v''" "''r''" vs request_slots 0 rs]
      headed_disjoint [OF headed_vars_slots headed_numbered, of "''v''" "''f''" vs folder_slots 0 fs]
    by (intro wf_slots_append [OF _ rf] wf_vars_slots) (auto simp: image_Un)
  moreover have "fst ` set (auth_slots a) \<inter> fst ` set (vars_slots ''v'' vs @ ?r @ ?f) = {}"
    using headed_disjoint [OF headed_auth_slots headed_numbered, of "''r''" a request_slots 0 rs]
      headed_disjoint [OF headed_auth_slots headed_numbered, of "''f''" a folder_slots 0 fs]
      headed_disjoint [OF headed_auth_slots headed_vars_slots, of "''v''" a vs]
    by (auto simp: image_Un)
  ultimately have "wf_slots (auth_slots a @ vars_slots ''v'' vs @ ?r @ ?f)"
    by (rule wf_slots_append [OF wf_auth_slots])
  then show ?case by (simp only: folder_slots_eq)
qed

lemma wf_col_slots: "wf_slots (col_slots c)"
proof -
  let ?a = "beneath [''col''] (auth_slots (co_Auth c))"
  let ?r = "indexed (\<lambda>j. ''r'' @ itoa (int j)) request_slots 0 (co_Requests c)"
  let ?f = "indexed (\<lambda>j. ''f'' @ itoa (int j)) folder_slots 0 (co_Folders c)"
  let ?e = "indexed (\<lambda>j. ''e'' @ itoa (int j)) (\<lambda>e. vars_slots ''v'' (env_Variables e)) 0 (co_Environments c)"
  let ?v = "vars_slots ''cv'' (co_Variables c)"
  have hd: "headed ''col'' ?a" "headed ''r'' ?r" "headed ''f'' ?f" "headed ''e'' ?e" "headed ''cv'' ?v"
    by (rule headed_beneath headed_numbered headed_vars_slots; simp)+
  have wf: "wf_slots ?a" "wf_slots ?r" "wf_slots ?f" "wf_slots ?e" "wf_slots ?v"
    by (rule wf_slots_beneath wf_slots_numbered wf_vars_slots; simp add: wf_auth_slots wf_request_slots
        wf_folder_slots wf_vars_slots)+
  note disj = hd [THEN headed_disjoint]
  have "wf_slots (?e @ ?v)" by (rule wf_slots_headed [OF wf(4,5) hd(4,5)]) auto
  moreover have "fst ` set ?f \<inter> fst ` set (?e @ ?v) = {}"
    using disj(3) [OF hd(4)] disj(3) [OF hd(5)] by (auto simp: image_Un)
  ultimately have "wf_slots (?f @ ?e @ ?v)" by (rule wf_slots_append [OF wf(3)])
  moreover have "fst ` set ?r \<inter> fst ` set (?f @ ?e @ ?v) = {}"
    using disj(2) [OF hd(3)] disj(2) [OF hd(4)] disj(2) [OF hd(5)] by (auto simp: image_Un)
  ultimately have "wf_slots (?r @ ?f @ ?e @ ?v)" by (rule wf_slots_append [OF wf(2)])
  moreover have "fst ` set ?a \<inter> fst ` set (?r @ ?f @ ?e @ ?v) = {}"
    using disj(1) [OF hd(2)] disj(1) [OF hd(3)] disj(1) [OF hd(4)] disj(1) [OF hd(5)] by (auto simp: image_Un)
  ultimately have "wf_slots (?a @ ?r @ ?f @ ?e @ ?v)" by (rule wf_slots_append [OF wf(1)])
  then show ?thesis by (simp only: col_slots_def)
qed

text \<open>The store written by a split agrees with the slots it came from.\<close>

lemma agrees_logged:
  assumes "wf_slots xs" and "[] \<notin> fst ` set xs"
  shows "agrees (logged_slots xs) xs"
proof -
  have inj: "q = q'" if "q \<in> fst ` set xs" "q' \<in> fst ` set xs" "join ''/'' q = join ''/'' q'" for q q'
  proof -
    have "split_on (CHR ''/'') (join ''/'' p) = p" if "p \<in> fst ` set xs" for p
      using that assms by (intro split_on_join) (force simp: wf_slots_def)+
    with that show ?thesis by metis
  qed
  have dist: "distinct (map fst (logged_slots xs))"
  proof -
    have "map fst (logged_slots xs) = rev (map (join ''/'') (map fst (filter (\<lambda>(q, v). v \<noteq> []) xs)))"
      by (simp add: logged_slots_def rev_map case_prod_unfold)
    moreover have "distinct (map fst (filter (\<lambda>(q, v). v \<noteq> []) xs))"
      using assms(1) by (auto simp: wf_slots_def distinct_map inj_on_def)
    moreover have "inj_on (join ''/'') (set (map fst (filter (\<lambda>(q, v). v \<noteq> []) xs)))"
      by (rule inj_onI) (rule inj; force)
    ultimately show ?thesis by (metis distinct_map distinct_rev)
  qed
  have "map_of (logged_slots xs) (join ''/'' q) = (if v = [] then None else Some v)" if "(q, v) \<in> set xs" for q v
  proof (cases "v = []")
    case False
    with that have "(join ''/'' q, v) \<in> set (logged_slots xs)" by (force simp: logged_slots_def)
    with dist False show ?thesis by simp
  next
    case True
    have "join ''/'' q \<notin> fst ` set (logged_slots xs)"
    proof
      assume "join ''/'' q \<in> fst ` set (logged_slots xs)"
      then obtain q' w where w: "(q', w) \<in> set xs" "w \<noteq> []" "join ''/'' q = join ''/'' q'"
        by (auto simp: logged_slots_def)
      with inj [of q q'] that have "q = q'" by force
      with w that assms(1) True show False
        by (metis eq_key_imp_eq_value wf_slots_def)
    qed
    with True show ?thesis by (simp add: map_of_eq_None_iff)
  qed
  then show ?thesis by (auto simp: agrees_def)
qed

lemma split_secrets_eq: "splitSecrets c = (blank_collection c, logged_slots (col_slots c))"
  using eachSecret_traverses [of c] by (simp add: splitSecrets_def traverses_def)

lemma apply_secrets_eq: "applySecrets m c = fst (eachSecret (fill_secret m) c ())"
  using eachSecret_traverses [of c] by (simp add: applySecrets_def traverses_def)

lemma agrees_col_slots: "agrees (logged_slots (col_slots c)) (col_slots c)"
proof (rule agrees_logged [OF wf_col_slots])
  have "headed ''col'' (beneath [''col''] (auth_slots (co_Auth c)))" by (simp add: headed_beneath)
  then show "[] \<notin> fst ` set (col_slots c)"
    using headed_numbered [of "''r''" request_slots 0 "co_Requests c"]
      headed_numbered [of "''f''" folder_slots 0 "co_Folders c"]
      headed_numbered [of "''e''" "\<lambda>e. vars_slots ''v'' (env_Variables e)" 0 "co_Environments c"]
      headed_vars_slots [of "''cv''" "co_Variables c"]
    unfolding col_slots_def headed_def by (fastforce simp: image_Un)
qed

text \<open>Scrubbing a request blanks the same fields, whatever the keys.\<close>

lemma ScrubRequestSecrets_blank: "ScrubRequestSecrets r = blank_request r"
proof -
  have "traverses (authSecrets []) (authSecrets []) (rq_Auth r) (blank_auth (rq_Auth r))
      (beneath [[]] (auth_slots (rq_Auth r)))"
    by (rule authSecrets_traverses) auto
  moreover have "traverses (variableSecrets []) (variableSecrets []) (rq_Variables r)
      (map blank_var (rq_Variables r)) (beneath [[]] (vars_slots ''v'' (rq_Variables r)))"
    unfolding variableSecrets_def by (rule visit_vars_traverses) simp
  ultimately show ?thesis by (simp add: traverses_def ScrubRequestSecrets_def blank_request_def)
qed

lemma blank_auth_idem: "blank_auth (blank_auth a) = blank_auth a"
  by (simp add: blank_auth_def option.map_comp comp_def)

lemma Scrub_idem: "ScrubRequestSecrets (ScrubRequestSecrets r) = ScrubRequestSecrets r"
  by (simp add: ScrubRequestSecrets_blank blank_request_def blank_auth_idem comp_def blank_var_def)

section \<open>Properties\<close>


end
