(* ===== verification/History.thy ===== *)
theory History
  imports Prelude Secrets Chain Auth
begin

text \<open>
  \<open>internal/history/history.go\<close>: the bounded log of sends, mirrored to a file. The YAML codec is
  a pair of functions; a write either replaces the whole file or leaves it (stage and rename),
  as an oracle on the number of the write says. A time is an integer, 0 the zero \<open>time.Time\<close>.
\<close>

section \<open>State\<close>

record entry =
  en_Time :: int
  en_Method :: string
  en_URL :: string
  en_Status :: int
  en_Duration :: int
  en_Size :: int
  en_Err :: string
  en_Request :: request

definition DefaultMax :: int where "DefaultMax = 200"

record 'b history_io =
  hio_encode :: "entry list \<Rightarrow> 'b option"
  hio_decode :: "'b \<Rightarrow> entry list option"
  hio_write_ok :: "nat \<Rightarrow> bool"

record 'b hist_store =
  hs_path :: string
  hs_max :: int
  hs_entries :: "entry list"
  hs_file :: "'b option"
  hs_writes :: nat

section \<open>Operations\<close>

definition keep_last :: "int \<Rightarrow> 'a list \<Rightarrow> 'a list" where
  "keep_last n xs = (if n < int (length xs) then drop (nat (int (length xs) - n)) xs else xs)"

definition hist_save :: "'b history_io \<Rightarrow> 'b hist_store \<Rightarrow> 'b hist_store" where
  "hist_save io s =
     (if hs_path s = [] then s
      else (case hio_encode io (hs_entries s) of
              None \<Rightarrow> s
            | Some b \<Rightarrow>
                if hio_write_ok io (hs_writes s) then s\<lparr>hs_file := Some b, hs_writes := Suc (hs_writes s)\<rparr>
                else s\<lparr>hs_writes := Suc (hs_writes s)\<rparr>))"

definition hist_load :: "'b history_io \<Rightarrow> 'b hist_store \<Rightarrow> 'b hist_store" where
  "hist_load io s =
     (if hs_path s = [] then s
      else (case hs_file s of
              None \<Rightarrow> s
            | Some b \<Rightarrow> (case hio_decode io b of
                None \<Rightarrow> s
              | Some es \<Rightarrow> s\<lparr>hs_entries := keep_last (hs_max s) es\<rparr>)))"

text \<open>\<open>New\<close>: \<open>file\<close> is what is on the disk at \<open>path\<close>.\<close>

definition New_history :: "'b history_io \<Rightarrow> string \<Rightarrow> int \<Rightarrow> 'b option \<Rightarrow> 'b hist_store" where
  "New_history io path mx file =
     hist_load io \<lparr>hs_path = path, hs_max = (if mx \<le> 0 then DefaultMax else mx), hs_entries = [],
       hs_file = file, hs_writes = 0\<rparr>"

definition recorded :: "int \<Rightarrow> entry \<Rightarrow> entry" where
  "recorded now e =
     e\<lparr>en_Time := (if en_Time e = 0 then now else en_Time e),
       en_Request := ScrubRequestSecrets (en_Request e)\<rparr>"

definition Record :: "'b history_io \<Rightarrow> int \<Rightarrow> entry \<Rightarrow> 'b hist_store \<Rightarrow> 'b hist_store" where
  "Record io now e s =
     hist_save io (s\<lparr>hs_entries := keep_last (hs_max s) (hs_entries s @ [recorded now e])\<rparr>)"

definition Entries :: "'b hist_store \<Rightarrow> entry list" where
  "Entries s = rev (hs_entries s)"

definition Len :: "'b hist_store \<Rightarrow> nat" where
  "Len s = length (hs_entries s)"

definition Clear_history :: "'b history_io \<Rightarrow> 'b hist_store \<Rightarrow> 'b hist_store" where
  "Clear_history io s = hist_save io (s\<lparr>hs_entries := []\<rparr>)"

section \<open>The specification\<close>

text \<open>An unbounded log since the last clearing.\<close>

datatype hist_op = HRecord int entry | HClear

fun hist_step :: "'b history_io \<Rightarrow> hist_op \<Rightarrow> 'b hist_store \<Rightarrow> 'b hist_store" where
  "hist_step io (HRecord now e) s = Record io now e s"
| "hist_step io HClear s = Clear_history io s"

fun log_step :: "hist_op \<Rightarrow> entry list \<Rightarrow> entry list" where
  "log_step (HRecord now e) log = log @ [recorded now e]"
| "log_step HClear log = []"

definition windowed :: "'b hist_store \<Rightarrow> entry list \<Rightarrow> bool" where
  "windowed s log \<longleftrightarrow> 0 < hs_max s \<and> hs_entries s = keep_last (hs_max s) log"

lemma hist_save_fields [simp]:
  "hs_entries (hist_save io s) = hs_entries s" "hs_max (hist_save io s) = hs_max s"
  "hs_path (hist_save io s) = hs_path s"
  by (auto simp: hist_save_def split: option.splits)

lemma keep_last_snoc: "keep_last n (keep_last n xs @ [x]) = keep_last n (xs @ [x])" if "0 < n"
proof (cases "n < int (length xs)")
  case True
  with that have "length (drop (nat (int (length xs) - n)) xs) = nat n" by simp
  moreover have "nat (int (length (xs @ [x])) - n) = Suc (nat (int (length xs) - n))" using that True by simp
  ultimately show ?thesis using that True
    by (simp add: keep_last_def drop_Suc [symmetric] drop_append del: drop_append)
      (simp add: drop_Suc tl_append2)
qed (simp add: keep_last_def)

lemma length_keep_last: "0 \<le> n \<Longrightarrow> int (length (keep_last n xs)) \<le> n"
  by (auto simp: keep_last_def)

lemma keep_last_id [simp]: "0 \<le> n \<Longrightarrow> keep_last n (keep_last n xs) = keep_last n xs"
  using length_keep_last [of n xs] by (simp add: keep_last_def [of n "keep_last n xs"])

interpretation hist: simulation "hist_step io" log_step windowed for io
proof (unfold_locales, goal_cases)
  case (1 s log o1)
  then show ?case
    by (cases o1)
      (auto simp: windowed_def Record_def Clear_history_def keep_last_snoc, simp add: keep_last_def)
qed

text \<open>What is on the disk after a write that succeeded.\<close>

definition mirrored :: "'b history_io \<Rightarrow> 'b hist_store \<Rightarrow> bool" where
  "mirrored io s \<longleftrightarrow> 0 < hs_max s \<and> hs_path s \<noteq> [] \<and> int (length (hs_entries s)) \<le> hs_max s \<and>
     (\<exists>b. hs_file s = Some b \<and> hio_decode io b = Some (hs_entries s))"

section \<open>What the send worker records\<close>

text \<open>
  \<open>recordHistory\<close> of \<open>internal/ui/send.go\<close>; \<open>err\<close> is the leaf's error text, \<open>canceled\<close> a Stop.
\<close>

definition recordHistory :: "'b history_io \<Rightarrow> int \<Rightarrow> request \<Rightarrow> View \<Rightarrow> string option \<Rightarrow> bool
    \<Rightarrow> 'b hist_store \<Rightarrow> 'b hist_store" where
  "recordHistory io now req view err canceled s =
     (if canceled then s
      else
        (let rv = vw_Request view; pv = vw_Response view;
             e = \<lparr>en_Time = 0, en_Method = (if rv_Method rv \<noteq> [] then rv_Method rv else rq_Method req),
                  en_URL = (if rv_URL rv \<noteq> [] then rv_URL rv else rq_URL req),
                  en_Status = 0, en_Duration = 0, en_Size = 0, en_Err = [], en_Request = req\<rparr>;
             e1 = (if pv_StatusCode pv \<noteq> 0
                   then e\<lparr>en_Status := pv_StatusCode pv, en_Duration := pv_Duration pv, en_Size := pv_Size pv\<rparr>
                   else (case err of Some t \<Rightarrow> e\<lparr>en_Err := t\<rparr> | None \<Rightarrow> e))
         in Record io now e1 s))"

text \<open>The codec and the disk as documented: what is encoded decodes to itself, writes succeed.\<close>

definition faithful_io :: "'b history_io \<Rightarrow> bool" where
  "faithful_io io \<longleftrightarrow>
     (\<forall>es. \<exists>b. hio_encode io es = Some b \<and> hio_decode io b = Some es) \<and> (\<forall>n. hio_write_ok io n)"

section \<open>Properties\<close>

text \<open>The steps of a store whose file mirrors it keep it so.\<close>

lemma saved_mirrors:
  assumes "faithful_io io" and "0 < hs_max s" and "hs_path s \<noteq> []" and "int (length (hs_entries s)) \<le> hs_max s"
  shows "mirrored io (hist_save io s)"
proof -
  from assms(1) obtain b where "hio_encode io (hs_entries s) = Some b" "hio_decode io b = Some (hs_entries s)"
    "hio_write_ok io (hs_writes s)" unfolding faithful_io_def by blast
  with assms(2-4) show ?thesis by (simp add: hist_save_def mirrored_def)
qed

lemma step_mirrors:
  assumes "faithful_io io" and "0 < hs_max s" and "hs_path s \<noteq> []"
  shows "mirrored io (hist_step io o1 s)"
  using assms length_keep_last [of "hs_max s" "hs_entries s @ [recorded now e]" for now e]
  by (cases o1) (auto simp: Record_def Clear_history_def intro!: saved_mirrors)

lemma run_mirrors:
  "faithful_io io \<Longrightarrow> 0 < hs_max s \<Longrightarrow> hs_path s \<noteq> [] \<Longrightarrow> ops \<noteq> [] \<Longrightarrow>
   mirrored io (fold (hist_step io) ops s)"
proof (induction ops rule: rev_induct)
  case (snoc o1 ops)
  have "hs_max (fold (hist_step io) ops s) = hs_max s \<and> hs_path (fold (hist_step io) ops s) = hs_path s"
  proof (induction ops arbitrary: s)
    case (Cons a ops)
    then show ?case by (cases a) (auto simp: Record_def Clear_history_def)
  qed simp
  with snoc.prems show ?case by (simp add: step_mirrors)
qed simp

lemma run_fields [simp]:
  "hs_max (fold (hist_step io) ops s) = hs_max s" "hs_path (fold (hist_step io) ops s) = hs_path s"
proof (induction ops arbitrary: s)
  case (Cons a ops)
  { case 1 show ?case using Cons by (cases a) (auto simp: Record_def Clear_history_def) }
  { case 2 show ?case using Cons by (cases a) (auto simp: Record_def Clear_history_def) }
qed simp_all

lemma New_history_windowed: "windowed (New_history io path mx f) (hs_entries (New_history io path mx f))"
  by (auto simp: New_history_def hist_load_def windowed_def DefaultMax_def split: option.splits)
    (auto simp: keep_last_def)

lemma New_history_fields [simp]:
  "hs_max (New_history io path mx f) = (if mx \<le> 0 then DefaultMax else mx)"
  "hs_path (New_history io path mx f) = path"
  by (auto simp: New_history_def hist_load_def split: option.splits)

lemma Entries_run:
  "Entries (fold (hist_step io) ops (New_history io path mx file)) =
     rev (keep_last (hs_max (New_history io path mx file))
       (fold log_step ops (hs_entries (New_history io path mx file))))"
proof -
  have "windowed (fold (hist_step io) ops (New_history io path mx file))
      (fold log_step ops (hs_entries (New_history io path mx file)))"
    by (rule hist.sim_run [OF New_history_windowed])
  then show ?thesis by (simp only: windowed_def Entries_def run_fields)
qed


text \<open>
  With a faithful codec and a working disk the history survives a restart: opening the file
  again under the same cap shows exactly the entries of the store that wrote it.
\<close>

theorem history_survives_restart:
  assumes "faithful_io io" and "path \<noteq> []" and "ops \<noteq> []"
  shows "Entries (New_history io path mx (hs_file (fold (hist_step io) ops (New_history io path mx file)))) =
    Entries (fold (hist_step io) ops (New_history io path mx file))"
proof -
  let ?s = "fold (hist_step io) ops (New_history io path mx file)"
  have "mirrored io ?s" using assms by (intro run_mirrors) (auto simp: DefaultMax_def)
  then obtain b where "hs_file ?s = Some b" "hio_decode io b = Some (hs_entries ?s)"
    "int (length (hs_entries ?s)) \<le> (if mx \<le> 0 then DefaultMax else mx)" by (auto simp: mirrored_def)
  with assms(2) show ?thesis
    by (auto simp: New_history_def [of io path mx "Some b"] hist_load_def Entries_def keep_last_def)
qed


definition yaml_like :: "entry list history_io" where
  "yaml_like = \<lparr>hio_encode = Some, hio_decode = Some, hio_write_ok = (\<lambda>_. True)\<rparr>"

definition sample_sent :: request where
  "sample_sent =
     \<lparr>rq_ID = ''r'', rq_Name = ''List'', rq_Method = ''GET'', rq_URL = ''http://a/x'', rq_Params = [],
      rq_PathParams = [], rq_Headers = [], rq_Body = \<lparr>body_Type = ''none'', body_Content = [], body_Form = [],
        body_FilePath = [], body_ContentType = [], body_GraphQLVariables = []\<rparr>,
      rq_Docs = [],
      rq_Auth = (auth_of_type AuthAPIKey)\<lparr>auth_APIKey :=
        Some \<lparr>ak_Name = ''key'', ak_Value = ''s3cret'', ak_Placement = ''query''\<rparr>\<rparr>,
      rq_Scripts = \<lparr>sc_PreRequest = [], sc_PostResponse = []\<rparr>, rq_Chain = [], rq_Assertions = [],
      rq_Variables = []\<rparr>"

definition sample_entry :: entry where
  "sample_entry = \<lparr>en_Time = 5, en_Method = ''GET'', en_URL = ''http://a/x'', en_Status = 200, en_Duration = 1,
     en_Size = 0, en_Err = [], en_Request = sample_sent\<rparr>"

theorem history_survives_restart_witness:
  "Entries (New_history yaml_like ''h'' 1
      (hs_file (fold (hist_step yaml_like) [HRecord 9 sample_entry] (New_history yaml_like ''h'' 1 None)))) =
    [recorded 9 sample_entry]"
proof -
  have "faithful_io yaml_like" by (simp add: faithful_io_def yaml_like_def)
  from history_survives_restart [OF this, of "''h''" "[HRecord 9 sample_entry]" 1 None] show ?thesis
    by (simp add: Entries_def Record_def New_history_def hist_load_def keep_last_def)
qed

text \<open>
  The log keeps a credential that the scrubbing is meant to keep out: the stored URL is the
  one that went on the wire, and for an API key placed in the query that URL ends in the key,
  in clear, although the stored request has the key blanked.
\<close>

theorem history_keeps_query_key:
  assumes "ak_Name k \<noteq> []" and "ak_Placement k = ''query''" and "0 < hs_max s"
    and "rv_URL (vw_Request view) = base @ ''?'' @ rurl_RawQuery (hr_URL (snd (apply_apikey hreq k)))"
    and "auth_APIKey (rq_Auth r) = Some k"
  shows "\<exists>e\<in>set (Entries (recordHistory io now r view err False s)).
    suffix (QueryEscape (ak_Name k) @ ''='' @ QueryEscape (ak_Value k)) (en_URL e) \<and>
    auth_APIKey (rq_Auth (en_Request e)) = Some (k\<lparr>ak_Value := []\<rparr>)"
proof -
  have last: "x \<in> set (keep_last (hs_max s) (xs @ [x]))" for x :: entry and xs
    using assms(3) by (simp add: keep_last_def drop_append nat_le_iff)
  have "suffix (QueryEscape (ak_Name k) @ ''='' @ QueryEscape (ak_Value k)) (rv_URL (vw_Request view))"
    using assms(1,2,4) by (auto simp: apply_apikey_def Let_def suffix_def)
  moreover have "rv_URL (vw_Request view) \<noteq> []" using assms(4) by simp
  ultimately show ?thesis
    using assms(5)
    by (auto simp: recordHistory_def Let_def Record_def Entries_def recorded_def ScrubRequestSecrets_blank
        blank_request_def blank_auth_def split: option.splits intro!: bexI [OF _ last])
qed

theorem history_keeps_query_key_witness:
  "\<exists>e\<in>set (Entries (recordHistory yaml_like 9 sample_sent
      \<lparr>vw_Request = \<lparr>rv_Method = ''GET'', rv_URL = ''http://a/x?key=s3cret'', rv_Body = []\<rparr>,
       vw_Response = \<lparr>pv_StatusCode = 200, pv_Status = ''200 OK'', pv_Headers = [], pv_Body = [], pv_Size = 0,
         pv_Duration = 1, pv_CORSWarning = []\<rparr>\<rparr> None False (New_history yaml_like ''h'' 0 None))).
    suffix ''key=s3cret'' (en_URL e) \<and>
    auth_APIKey (rq_Auth (en_Request e)) = Some \<lparr>ak_Name = ''key'', ak_Value = [], ak_Placement = ''query''\<rparr>"
proof -
  let ?k = "\<lparr>ak_Name = ''key'', ak_Value = ''s3cret'', ak_Placement = ''query''\<rparr>"
  have q: "QueryEscape (ak_Name ?k) @ ''='' @ QueryEscape (ak_Value ?k) = ''key=s3cret''" by code_simp
  let ?h = "\<lparr>hr_Method = ''GET'', hr_URL = \<lparr>rurl_Scheme = ''http'', rurl_Host = ''a'', rurl_Path = ''/x'',
    rurl_EscapedPath = ''/x'', rurl_RawQuery = []\<rparr>, hr_Host = ''a'', hr_Header = [], hr_Body = None\<rparr>"
  let ?v = "\<lparr>vw_Request = \<lparr>rv_Method = ''GET'', rv_URL = ''http://a/x?key=s3cret'', rv_Body = []\<rparr>,
    vw_Response = \<lparr>pv_StatusCode = 200, pv_Status = ''200 OK'', pv_Headers = [], pv_Body = [], pv_Size = 0,
      pv_Duration = 1, pv_CORSWarning = []\<rparr>\<rparr>"
  have raw: "rurl_RawQuery (hr_URL (snd (apply_apikey ?h ?k))) = ''key=s3cret''" by code_simp
  show ?thesis
    using history_keeps_query_key [of ?k "New_history yaml_like ''h'' 0 None" ?v "''http://a/x''" ?h sample_sent
        yaml_like 9 None]
    by (simp add: q [simplified] raw sample_sent_def DefaultMax_def)
qed

end
