(* ===== verification/Assertion.thy ===== *)
theory Assertion
  imports ApiModel ChainVars
begin

text \<open>
  \<open>internal/assertion/assertion.go\<close>: the declarative response checks. The regular-expression
  engine and 64-bit floats are parameters: parsing (with its range errors), printing with
  \<open>FormatFloat\<close> and as JSON, and the order.
\<close>

record 'f engines =
  eg_regexp :: "string \<Rightarrow> string + (string \<Rightarrow> bool)"
  eg_parse :: "string \<Rightarrow> 'f option"
  eg_format :: "'f \<Rightarrow> string"
  eg_json :: "'f \<Rightarrow> string"
  eg_less :: "'f \<Rightarrow> 'f \<Rightarrow> bool"

record check_result =
  cr_Name :: string
  cr_Passed :: bool
  cr_Error :: string

definition Operators :: "string list" where
  "Operators = [''equals'', ''notEquals'', ''contains'', ''notContains'', ''matches'',
     ''greaterThan'', ''lessThan'', ''exists'', ''notExists'']"

section \<open>Values of the response\<close>

text \<open>A number of a decoded document is a float: what it prints as.\<close>

definition float_text :: "'f engines \<Rightarrow> ('f \<Rightarrow> string) \<Rightarrow> string \<Rightarrow> string" where
  "float_text eg fmt n = (case eg_parse eg n of Some f \<Rightarrow> fmt f | None \<Rightarrow> [])"

fun comparisonString :: "'f engines \<Rightarrow> json \<Rightarrow> string" where
  "comparisonString eg (JStr s) = s"
| "comparisonString eg JNull = ''null''"
| "comparisonString eg (JBool b) = (if b then ''true'' else ''false'')"
| "comparisonString eg (JNum n) = float_text eg (eg_format eg) n"
| "comparisonString eg v = Marshal (float_text eg (eg_json eg)) v"

definition jsonPath :: "'f engines \<Rightarrow> string \<Rightarrow> string \<Rightarrow> string option" where
  "jsonPath eg body path =
     (case Unmarshal body of
        None \<Rightarrow> None
      | Some doc \<Rightarrow>
          if list_ex (\<lambda>n. eg_parse eg n = None) (numbers doc) then None
          else map_option (comparisonString eg) (json_at doc (split_on (CHR ''.'') path)))"

definition extract_source :: "'f engines \<Rightarrow> string \<Rightarrow> int \<Rightarrow> headers \<Rightarrow> string \<Rightarrow> string option" where
  "extract_source eg source status hs body =
     (if source = ''res.status'' then Some (itoa status)
      else if source = ''res.body'' then Some body
      else if has_prefix source ''res.header.'' then
        (case hdr_values hs (drop 11 source) of v # _ \<Rightarrow> Some v | [] \<Rightarrow> None)
      else if has_prefix source ''res.json.'' then jsonPath eg body (drop 9 source)
      else None)"

section \<open>Evaluation\<close>

definition cond :: "bool \<Rightarrow> string \<Rightarrow> string \<Rightarrow> check_result" where
  "cond ok name failMsg =
     (if ok then \<lparr>cr_Name = name, cr_Passed = True, cr_Error = []\<rparr>
      else \<lparr>cr_Name = name, cr_Passed = False, cr_Error = failMsg\<rparr>)"

definition evalOne :: "'f engines \<Rightarrow> assertion \<Rightarrow> int \<Rightarrow> headers \<Rightarrow> string \<Rightarrow> check_result" where
  "evalOne eg a status hs body =
     (let src = as_Source a; op = as_Op a; want = as_Expected a;
          name = trim_space (src @ '' '' @ op @ '' '' @ want);
          fail = (\<lambda>msg. \<lparr>cr_Name = name, cr_Passed = False, cr_Error = msg\<rparr>);
          pass = \<lparr>cr_Name = name, cr_Passed = True, cr_Error = []\<rparr>
      in (case extract_source eg src status hs body of
            None \<Rightarrow>
              if op = ''exists'' then fail (''expected '' @ src @ '' to exist'')
              else if op = ''notExists'' then pass
              else fail (src @ '' not found in response'')
          | Some actual \<Rightarrow>
              if op = ''exists'' then pass
              else if op = ''notExists'' then fail (''expected '' @ src @ '' not to exist, got '' @ actual)
              else if op = ''equals''
              then cond (actual = want) name (''expected '' @ quoted actual @ '' to equal '' @ quoted want)
              else if op = ''notEquals''
              then cond (actual \<noteq> want) name (''expected '' @ quoted actual @ '' not to equal '' @ quoted want)
              else if op = ''contains''
              then cond (contains actual want) name (''expected '' @ quoted actual @ '' to contain '' @ quoted want)
              else if op = ''notContains''
              then cond (\<not> contains actual want) name (''expected '' @ quoted actual @ '' not to contain '' @ quoted want)
              else if op = ''matches'' then
                (case eg_regexp eg want of
                   Inl e \<Rightarrow> fail (''invalid regular expression: '' @ e)
                 | Inr re \<Rightarrow> cond (re actual) name (''expected '' @ quoted actual @ '' to match /'' @ want @ ''/''))
              else if op = ''greaterThan'' \<or> op = ''lessThan'' then
                (case (eg_parse eg (trim_space actual), eg_parse eg (trim_space want)) of
                   (Some af, Some ef) \<Rightarrow>
                     if op = ''greaterThan''
                     then cond (eg_less eg ef af) name (''expected '' @ actual @ '' to be greater than '' @ want)
                     else cond (eg_less eg af ef) name (''expected '' @ actual @ '' to be less than '' @ want)
                 | _ \<Rightarrow> fail (''non-numeric comparison: '' @ quoted actual @ '' vs '' @ quoted want))
              else fail (''unknown operator: '' @ op)))"

definition Evaluate :: "'f engines \<Rightarrow> assertion list \<Rightarrow> int \<Rightarrow> headers \<Rightarrow> string \<Rightarrow> check_result list" where
  "Evaluate eg rows status hs body = map (\<lambda>a. evalOne eg a status hs body) (filter as_Enabled rows)"

section \<open>Properties\<close>

lemma Unmarshal_Decode: "Unmarshal s = Some v \<Longrightarrow> Decode s = Some v"
  by (auto simp: Unmarshal_def Decode_def split: option.splits if_splits)

lemma json_at_numbers:
  "json_at v segs = Some w \<Longrightarrow> set (numbers w) \<subseteq> set (numbers v)"
proof (induction segs arbitrary: v)
  case (Cons seg segs)
  then obtain u where u: "json_child v seg = Some u" "json_at u segs = Some w"
    by (auto split: option.splits)
  have "set (numbers u) \<subseteq> set (numbers v)"
  proof (cases v)
    case (JObj ms)
    with u(1) have "(seg, u) \<in> set ms" by (auto simp: member_def dest: map_of_SomeD)
    then show ?thesis by (force simp: JObj)
  next
    case (JArr vs)
    with u(1) have "u \<in> set vs" by (auto split: option.splits if_splits)
    then show ?thesis by (auto simp: JArr)
  qed (use u(1) in auto)
  with Cons.IH [OF u(2)] show ?case by blast
qed simp

text \<open>
  An assertion on \<open>res.json.<path>\<close> and a template \<open>chain.<alias>.response.json.<path>\<close> read
  the same place of the same body. They agree on strings and booleans; a null is \<open>null\<close> to
  the one and empty to the other, a number is printed from its float by the one and kept as
  written by the other, and an object or array is JSON text to the one and not found to the
  other.
\<close>

theorem template_matches_assertion:
  assumes "jsonPath eg body path = Some t" and "path \<noteq> []"
  shows "lookupJSONPath body path = Some t \<or>
    (lookupJSONPath body path = Some [] \<and> t = ''null'') \<or>
    (\<exists>n f. lookupJSONPath body path = Some n \<and> eg_parse eg n = Some f \<and> t = eg_format eg f) \<or>
    (lookupJSONPath body path = None \<and> (hd t = CHR ''['' \<or> hd t = CHR 0x7B))"
proof -
  from assms(1) obtain doc v where doc: "Unmarshal body = Some doc"
    and nums: "\<forall>n\<in>set (numbers doc). eg_parse eg n \<noteq> None"
    and v: "json_at doc (split_on (CHR ''.'') path) = Some v" and t: "t = comparisonString eg v"
    by (auto simp: jsonPath_def list_ex_iff split: option.splits if_splits)
  have look: "lookupJSONPath body path = scalarString v"
    using Unmarshal_Decode [OF doc] assms(2) v by (simp add: lookupJSONPath_def)
  show ?thesis
  proof (cases v)
    case (JNum n)
    with json_at_numbers [OF v] nums obtain f where "eg_parse eg n = Some f" by auto
    with JNum show ?thesis by (simp add: look t float_text_def)
  qed (simp_all add: look t Let_def)
qed

definition toy_engines :: "string engines" where
  "toy_engines = \<lparr>eg_regexp = (\<lambda>_. Inl ''''), eg_parse = Some, eg_format = (\<lambda>s. s), eg_json = (\<lambda>s. s),
     eg_less = (\<lambda>a b. length a < length b)\<rparr>"

definition sample_json :: string where
  "sample_json = [CHR 0x7B, CHR 0x22, CHR ''a'', CHR 0x22] @ '': [1, '' @ [CHR 0x22] @ ''x'' @ [CHR 0x22, CHR 0x5D, CHR 0x7D]"

theorem template_matches_assertion_witness:
  "lookupJSONPath sample_json ''a.1'' = Some ''x'' \<and> jsonPath toy_engines sample_json ''a.1'' = Some ''x''"
proof -
  have "jsonPath toy_engines sample_json ''a.1'' = Some ''x''" by code_simp
  moreover have "lookupJSONPath sample_json ''a.1'' \<noteq> None" "lookupJSONPath sample_json ''a.1'' \<noteq> Some []" by code_simp+
  ultimately show ?thesis
    using template_matches_assertion [of toy_engines sample_json "''a.1''" "''x''"]
    by (auto simp: toy_engines_def)
qed

definition passes :: "'f engines \<Rightarrow> string \<Rightarrow> string \<Rightarrow> string \<Rightarrow> int \<Rightarrow> headers \<Rightarrow> string \<Rightarrow> bool" where
  "passes eg op src want status hs body \<longleftrightarrow>
     cr_Passed (evalOne eg \<lparr>as_Enabled = True, as_Source = src, as_Op = op, as_Expected = want\<rparr> status hs body)"

text \<open>
  The operators come in complements: of \<open>exists\<close> and \<open>notExists\<close> exactly one passes, of
  \<open>equals\<close> and \<open>notEquals\<close>, and of \<open>contains\<close> and \<open>notContains\<close>, exactly one passes when the
  source is found and neither when it is not; an operator outside the list never passes.
\<close>

theorem operators_complementary:
  "passes eg ''notExists'' src want st hs body = (\<not> passes eg ''exists'' src want st hs body) \<and>
   (passes eg ''exists'' src want st hs body =
      (passes eg ''equals'' src want st hs body \<noteq> passes eg ''notEquals'' src want st hs body)) \<and>
   (passes eg ''exists'' src want st hs body =
      (passes eg ''contains'' src want st hs body \<noteq> passes eg ''notContains'' src want st hs body)) \<and>
   (passes eg op src want st hs body = (op \<in> set Operators \<and> passes eg op src want st hs body))"
  by (auto simp: passes_def evalOne_def cond_def Let_def Operators_def
      split: option.splits if_splits sum.splits prod.splits)

end
