(* ===== verification/Scripting.thy ===== *)
theory Scripting
  imports ApiModel GoJson Chain
begin

text \<open>
  \<open>internal/scripting\<close>: the Go side of the per-request scripts. The JavaScript engine is a
  parameter: what a script does is the tree of the calls it makes to the functions bound
  for it, each with the rest of the script as a function of the answer. The definitions here
  are the bound functions, the capture of console lines and test results with their caps,
  the object a script sees as \<open>request\<close> and the merge of that object back into the request.
\<close>

section \<open>Values that cross the boundary\<close>

record ResponseInput =
  ri_StatusCode :: int
  ri_Status :: string
  ri_Headers :: headers
  ri_Body :: string

record ChainView =
  cv_Method :: string
  cv_URL :: string
  cv_Body :: string
  cv_Response :: ResponseInput

record TestResult =
  te_Name :: string
  te_Passed :: bool
  te_Error :: string

text \<open>
  A JavaScript object in its key order. A property is \<open>None\<close> when \<open>safeString\<close> cannot read it
  (undefined, null, or a \<open>toString\<close> that throws).
\<close>

type_synonym js_object = "(string \<times> string option) list"

record js_request =
  jq_method :: "string option"
  jq_url :: "string option"
  jq_body :: "string option"
  jq_headers :: "js_object option"
  jq_params :: "js_object option"
  jq_form :: "js_object option"

record SendSpec =
  ss_Method :: string
  ss_URL :: string
  ss_Headers :: "(string \<times> string) list"
  ss_Body :: string

section \<open>The request object\<close>

text \<open>\<open>kvToObject\<close>: enabled rows, a later row of a key overwriting the value of an earlier one.\<close>

definition kvToObject :: "key_value list \<Rightarrow> js_object" where
  "kvToObject kvs =
     fold (\<lambda>kv ob. AList.update (kv_Key kv) (Some (kv_Value kv)) ob) (filter kv_Enabled kvs) []"

definition requestToObject :: "request \<Rightarrow> js_request" where
  "requestToObject r =
     (let m = rq_Method r; b = rq_Body r in
      \<lparr>jq_method = Some (if m = [] then ''GET'' else m), jq_url = Some (rq_URL r),
       jq_body = Some (body_Content b),
       jq_headers = Some (kvToObject (rq_Headers r)), jq_params = Some (kvToObject (rq_Params r)),
       jq_form = (if body_Type b = BodyForm \<or> body_Type b = BodyMultipart
                  then Some (kvToObject (body_Form b)) else None)\<rparr>)"

text \<open>The first loop of \<open>mergeKVFromObject\<close>: readable properties by lower-case name, the last one wins.\<close>

fun dedup_loop :: "js_object \<Rightarrow> (string \<Rightarrow> (string \<times> string) option) \<Rightarrow> string \<Rightarrow> (string \<times> string) option" where
  "dedup_loop [] d = d"
| "dedup_loop ((k, None) # ob) d = dedup_loop ob d"
| "dedup_loop ((k, Some v) # ob) d = dedup_loop ob (d(to_lower k \<mapsto> (k, v)))"

text \<open>The second loop: rows the script kept, and the names they consumed.\<close>

fun keep_loop :: "(string \<Rightarrow> (string \<times> string) option) \<Rightarrow> key_value list \<Rightarrow> string set
    \<Rightarrow> key_value list \<times> string set" where
  "keep_loop d [] used = ([], used)"
| "keep_loop d (kv # kvs) used =
     (if \<not> kv_Enabled kv then (case keep_loop d kvs used of (out, u) \<Rightarrow> (kv # out, u))
      else (case d (to_lower (kv_Key kv)) of
              None \<Rightarrow> keep_loop d kvs used
            | Some (k, v) \<Rightarrow>
                (case keep_loop d kvs (insert (to_lower (kv_Key kv)) used) of
                   (out, u) \<Rightarrow> (kv\<lparr>kv_Value := v\<rparr> # out, u))))"

text \<open>The third loop: names the script added, in the object's order.\<close>

fun append_loop :: "(string \<Rightarrow> (string \<times> string) option) \<Rightarrow> string list \<Rightarrow> string set \<Rightarrow> key_value list" where
  "append_loop d [] used = []"
| "append_loop d (k # ks) used =
     (case d (to_lower k) of
        None \<Rightarrow> append_loop d ks used
      | Some (key, v) \<Rightarrow>
          if to_lower k \<in> used then append_loop d ks used
          else \<lparr>kv_Enabled = True, kv_Key = key, kv_Value = v, kv_Description = []\<rparr>
                 # append_loop d ks (insert (to_lower k) used))"

definition mergeKVFromObject :: "key_value list \<Rightarrow> js_object \<Rightarrow> key_value list" where
  "mergeKVFromObject existing ob =
     (let d = dedup_loop ob Map.empty in
      case keep_loop d existing {} of (out, used) \<Rightarrow> out @ append_loop d (map fst ob) used)"

definition writeBackRequest :: "js_request \<Rightarrow> request \<Rightarrow> request" where
  "writeBackRequest ob r =
     (let r1 = (case jq_method ob of Some s \<Rightarrow> r\<lparr>rq_Method := s\<rparr> | None \<Rightarrow> r);
          r2 = (case jq_url ob of Some s \<Rightarrow> r1\<lparr>rq_URL := s\<rparr> | None \<Rightarrow> r1);
          r3 = (case jq_body ob of Some s \<Rightarrow> r2\<lparr>rq_Body := (rq_Body r2)\<lparr>body_Content := s\<rparr>\<rparr> | None \<Rightarrow> r2);
          r4 = (case jq_headers ob of Some h \<Rightarrow> r3\<lparr>rq_Headers := mergeKVFromObject (rq_Headers r3) h\<rparr> | None \<Rightarrow> r3);
          r5 = (case jq_params ob of Some h \<Rightarrow> r4\<lparr>rq_Params := mergeKVFromObject (rq_Params r4) h\<rparr> | None \<Rightarrow> r4)
      in (case jq_form ob of
            Some h \<Rightarrow> r5\<lparr>rq_Body := (rq_Body r5)\<lparr>body_Form := mergeKVFromObject (body_Form (rq_Body r5)) h\<rparr>\<rparr>
          | None \<Rightarrow> r5))"

section \<open>Ad-hoc requests\<close>

text \<open>
  \<open>parseSendSpec\<close>: the argument's properties as \<open>safeString\<close> reads them, \<open>None\<close> when the
  argument is not an object.
\<close>

record js_spec =
  jp_url :: "string option"
  jp_method :: "string option"
  jp_body :: "string option"
  jp_headers :: "js_object option"

definition parseSendSpec :: "js_spec option \<Rightarrow> SendSpec result" where
  "parseSendSpec arg =
     (case arg of
        None \<Rightarrow> Inl ''argument must be an object like {url, method, headers, body}''
      | Some p \<Rightarrow>
          (let url = (case jp_url p of Some s \<Rightarrow> s | None \<Rightarrow> []) in
           if url = [] then Inl ''url is required''
           else Inr \<lparr>ss_Method = (case jp_method p of Some s \<Rightarrow> to_upper s | None \<Rightarrow> []), ss_URL = url,
             ss_Headers = (case jp_headers p of
                 None \<Rightarrow> []
               | Some ob \<Rightarrow> concat (map (\<lambda>(k, v). case v of Some s \<Rightarrow> [(k, s)] | None \<Rightarrow> []) ob)),
             ss_Body = (case jp_body p of Some s \<Rightarrow> s | None \<Rightarrow> [])\<rparr>))"

definition ToRequest :: "SendSpec \<Rightarrow> request" where
  "ToRequest s =
     (let m = to_upper (ss_Method s);
          keys = sort (map fst (ss_Headers s));
          hs = map (\<lambda>k. \<lparr>kv_Enabled = True, kv_Key = k, kv_Value = the (map_of (ss_Headers s) k),
                          kv_Description = []\<rparr>) keys;
          b = rq_Body zero_request
      in zero_request\<lparr>rq_Method := (if m = [] then ''GET'' else m), rq_URL := ss_URL s, rq_Headers := hs,
           rq_Body := (if ss_Body s \<noteq> [] then b\<lparr>body_Type := BodyText, body_Content := ss_Body s\<rparr> else b)\<rparr>)"

section \<open>Captured output\<close>

definition maxConsoleLines :: nat where "maxConsoleLines = 1000"
definition maxConsoleBytes :: nat where "maxConsoleBytes = 262144"
definition maxTestResults :: nat where "maxTestResults = 1000"

definition consoleTruncatedMsg :: string where
  "consoleTruncatedMsg = [CHR 0xE2, CHR 0x80, CHR 0xA6] @ '' console output truncated (limit reached)''"

record capture =
  cp_Console :: "string list"
  cp_Tests :: "TestResult list"
  cp_captured :: nat
  cp_truncated :: bool

definition new_capture :: capture where
  "new_capture = \<lparr>cp_Console = [], cp_Tests = [], cp_captured = 0, cp_truncated = False\<rparr>"

text \<open>One call of a console function, \<open>line\<close> with its prefix.\<close>

definition emit_line :: "string \<Rightarrow> capture \<Rightarrow> capture" where
  "emit_line line c =
     (if cp_truncated c then c
      else if maxConsoleLines \<le> length (cp_Console c) \<or> maxConsoleBytes < cp_captured c + length line
      then c\<lparr>cp_Console := cp_Console c @ [consoleTruncatedMsg], cp_truncated := True\<rparr>
      else c\<lparr>cp_Console := cp_Console c @ [line], cp_captured := cp_captured c + length line\<rparr>)"

definition record_test :: "TestResult \<Rightarrow> capture \<Rightarrow> capture" where
  "record_test t c =
     (if maxTestResults \<le> length (cp_Tests c) then c else c\<lparr>cp_Tests := cp_Tests c @ [t]\<rparr>)"

text \<open>\<open>tryParseJSON\<close>: objects and arrays only.\<close>

definition tryParseJSON :: "string \<Rightarrow> json option" where
  "tryParseJSON body =
     (case dropWhile json_space body of
        [] \<Rightarrow> None
      | c # rest \<Rightarrow> if c = CHR 0x7B \<or> c = CHR ''['' then Unmarshal body else None)"

section \<open>Running a script\<close>

record js_exit =
  jx_err :: "string option"
  jx_readErr :: "string option"
  jx_request :: js_request

datatype js =
    JReturn js_exit
  | JLog string js
  | JTest TestResult js
  | JEnvGet string "string \<Rightarrow> js"
  | JEnvSet string string js
  | JInterpolate string "string \<Rightarrow> js"
  | JSendRequest "js_spec option" "ResponseInput result \<Rightarrow> js"
  | JCookies string "(string \<times> string) list \<Rightarrow> js"
  | JStop js
  | JSkip js

text \<open>The \<open>EnvBridge\<close> and the run options, each nil-able, on a world.\<close>

record 'w js_host =
  jh_Get :: "string \<Rightarrow> 'w \<Rightarrow> string option"
  jh_Set :: "string \<Rightarrow> string \<Rightarrow> 'w \<Rightarrow> 'w"
  jh_interpolate :: "(string \<Rightarrow> 'w \<Rightarrow> string) option"
  jh_requester :: "(SendSpec \<Rightarrow> 'w \<Rightarrow> ResponseInput result \<times> 'w) option"
  jh_cookies :: "(string \<Rightarrow> 'w \<Rightarrow> (string \<times> string) list \<times> 'w) option"
  jh_runner :: "(('w \<Rightarrow> 'w) \<times> ('w \<Rightarrow> 'w)) option"

text \<open>\<open>helena.sendRequest\<close>: an error is thrown into the script.\<close>

definition send_request :: "'w js_host \<Rightarrow> js_spec option \<Rightarrow> 'w \<Rightarrow> ResponseInput result \<times> 'w" where
  "send_request h arg w =
     (case jh_requester h of
        None \<Rightarrow> (Inl ''helena.sendRequest is unavailable in this context'', w)
      | Some send \<Rightarrow>
          (case parseSendSpec arg of
             Inl e \<Rightarrow> (Inl (''helena.sendRequest: '' @ e), w)
           | Inr spec \<Rightarrow> send spec w))"

primrec run_js :: "'w js_host \<Rightarrow> js \<Rightarrow> capture \<Rightarrow> 'w \<Rightarrow> js_exit \<times> capture \<times> 'w" where
  "run_js h (JReturn x) = (\<lambda>c w. (x, c, w))"
| "run_js h (JLog l k) = (\<lambda>c w. run_js h k (emit_line l c) w)"
| "run_js h (JTest t k) = (\<lambda>c w. run_js h k (record_test t c) w)"
| "run_js h (JEnvGet n k) =
     (\<lambda>c w. run_js h (k (case jh_Get h n w of Some v \<Rightarrow> v | None \<Rightarrow> [])) c w)"
| "run_js h (JEnvSet n v k) = (\<lambda>c w. run_js h k c (jh_Set h n v w))"
| "run_js h (JInterpolate s k) =
     (\<lambda>c w. run_js h (k (case jh_interpolate h of Some f \<Rightarrow> f s w | None \<Rightarrow> s)) c w)"
| "run_js h (JSendRequest a k) =
     (\<lambda>c w. case send_request h a w of (r, w1) \<Rightarrow> run_js h (k r) c w1)"
| "run_js h (JCookies u k) =
     (\<lambda>c w. case (case jh_cookies h of Some f \<Rightarrow> f u w | None \<Rightarrow> ([], w)) of (cs, w1) \<Rightarrow> run_js h (k cs) c w1)"
| "run_js h (JStop k) = (\<lambda>c w. run_js h k c (case jh_runner h of Some (stop, skip) \<Rightarrow> stop w | None \<Rightarrow> w))"
| "run_js h (JSkip k) = (\<lambda>c w. run_js h k c (case jh_runner h of Some (stop, skip) \<Rightarrow> skip w | None \<Rightarrow> w))"

text \<open>
  The engine: the tree of a script's source on the objects bound for it. It may also look at
  the world (the clock, random numbers).
\<close>

record 'w js_engine =
  je_pre :: "string \<Rightarrow> js_request \<Rightarrow> (string \<Rightarrow> ChainView option) \<Rightarrow> 'w \<Rightarrow> js"
  je_post :: "string \<Rightarrow> js_request \<Rightarrow> ResponseInput \<Rightarrow> (string \<Rightarrow> ChainView option) \<Rightarrow> 'w \<Rightarrow> js"

text \<open>\<open>RunPreRequest\<close>: the request as the script left it, the captured output, the error.\<close>

definition RunPreRequest :: "'w js_engine \<Rightarrow> 'w js_host \<Rightarrow> string \<Rightarrow> request
    \<Rightarrow> (string \<Rightarrow> ChainView option) \<Rightarrow> 'w \<Rightarrow> (request \<times> capture \<times> string option) \<times> 'w" where
  "RunPreRequest je h script r ch w =
     (if trim_space script = [] then ((r, new_capture, None), w)
      else (case run_js h (je_pre je script (requestToObject r) ch w) new_capture w of
              (x, c, w1) \<Rightarrow>
                (case jx_err x of
                   Some e \<Rightarrow> ((r, c, Some e), w1)
                 | None \<Rightarrow>
                     (case jx_readErr x of
                        Some e \<Rightarrow> ((r, c, Some e), w1)
                      | None \<Rightarrow> ((writeBackRequest (jx_request x) r, c, None), w1)))))"

definition RunPostResponse :: "'w js_engine \<Rightarrow> 'w js_host \<Rightarrow> string \<Rightarrow> request \<Rightarrow> ResponseInput
    \<Rightarrow> (string \<Rightarrow> ChainView option) \<Rightarrow> 'w \<Rightarrow> (capture \<times> string option) \<times> 'w" where
  "RunPostResponse je h script r resp ch w =
     (if trim_space script = [] then ((new_capture, None), w)
      else (case run_js h (je_post je script (requestToObject r) resp ch w) new_capture w of
              (x, c, w1) \<Rightarrow> ((c, jx_err x), w1)))"

text \<open>\<open>chainViewToScripting\<close> of the runner and of the send path.\<close>

definition to_input :: "ResponseView \<Rightarrow> ResponseInput" where
  "to_input p = \<lparr>ri_StatusCode = pv_StatusCode p, ri_Status = pv_Status p, ri_Headers = pv_Headers p,
     ri_Body = pv_Body p\<rparr>"

definition chainViewToScripting :: "chain_map \<Rightarrow> string \<Rightarrow> ChainView option" where
  "chainViewToScripting m =
     (\<lambda>al. map_option (\<lambda>v. \<lparr>cv_Method = rv_Method (vw_Request v), cv_URL = rv_URL (vw_Request v),
        cv_Body = rv_Body (vw_Request v), cv_Response = to_input (vw_Response v)\<rparr>) (m al))"

section \<open>Lemmas\<close>

lemma keep_loop_eq:
  "keep_loop d kvs used =
     (concat (map (\<lambda>kv. if \<not> kv_Enabled kv then [kv]
        else (case d (to_lower (kv_Key kv)) of None \<Rightarrow> [] | Some (k, v) \<Rightarrow> [kv\<lparr>kv_Value := v\<rparr>])) kvs),
      used \<union> {to_lower (kv_Key kv) |kv. kv \<in> set kvs \<and> kv_Enabled kv \<and> d (to_lower (kv_Key kv)) \<noteq> None})"
  by (induction kvs arbitrary: used) (auto split: option.splits prod.splits)

lemma append_loop_Nil:
  "(\<And>k. k \<in> set ks \<Longrightarrow> d (to_lower k) \<noteq> None \<Longrightarrow> to_lower k \<in> used) \<Longrightarrow> append_loop d ks used = []"
  by (induction ks) (auto split: option.splits)

lemma append_loop_enabled: "list_all kv_Enabled (append_loop d ks used)"
  by (induction ks arbitrary: used) (auto split: option.splits)

lemma js_object_induct [case_names Nil unread read]:
  "P [] \<Longrightarrow> (\<And>k ob. P ob \<Longrightarrow> P ((k, None) # ob)) \<Longrightarrow> (\<And>k v ob. P ob \<Longrightarrow> P ((k, Some v) # ob)) \<Longrightarrow> P (ob :: js_object)"
proof (induction ob)
  case (Cons x ob)
  then show ?case by (cases x; cases "snd x") auto
qed auto

lemma dom_dedup_loop: "dom (dedup_loop ob d) = dom d \<union> {to_lower k |k v. (k, Some v) \<in> set ob}"
  by (induction ob arbitrary: d rule: js_object_induct) auto

lemma append_loop_keys:
  "(\<And>n k v. d n = Some (k, v) \<Longrightarrow> to_lower k = n) \<Longrightarrow>
   to_lower ` kv_Key ` set (append_loop d ks used) = {to_lower k |k. k \<in> set ks \<and> d (to_lower k) \<noteq> None} - used"
proof (induction ks arbitrary: used)
  case (Cons k ks)
  show ?case
  proof (cases "d (to_lower k)")
    case None
    with Cons show ?thesis by auto
  next
    case (Some p)
    obtain key v where p: "p = (key, v)" by force
    with Some Cons.prems have "to_lower key = to_lower k" by blast
    with Some p Cons.IH [OF Cons.prems] show ?thesis by auto
  qed
qed simp

definition keyed_by_name :: "(string \<Rightarrow> (string \<times> string) option) \<Rightarrow> bool" where
  "keyed_by_name d \<longleftrightarrow> (\<forall>n k v. d n = Some (k, v) \<longrightarrow> to_lower k = n)"

lemma keyed_by_name_upd: "keyed_by_name d \<Longrightarrow> keyed_by_name (d(to_lower k \<mapsto> (k, v)))"
  by (simp add: keyed_by_name_def)

lemma dedup_key: "keyed_by_name d \<Longrightarrow> keyed_by_name (dedup_loop ob d)"
  by (induction ob arbitrary: d rule: js_object_induct) (auto intro: keyed_by_name_upd simp del: fun_upd_apply)

section \<open>Properties\<close>

text \<open>
  What a script can do to a table of a request: the disabled rows pass through unchanged and
  in order, and the names of the enabled rows afterwards are, up to case, exactly the readable
  properties of the object the script left.
\<close>

theorem merge_rows:
  "filter (\<lambda>kv. \<not> kv_Enabled kv) (mergeKVFromObject existing ob) = filter (\<lambda>kv. \<not> kv_Enabled kv) existing \<and>
   to_lower ` kv_Key ` set (filter kv_Enabled (mergeKVFromObject existing ob)) =
     {to_lower k |k v. (k, Some v) \<in> set ob}"
proof -
  let ?d = "dedup_loop ob Map.empty"
  let ?used = "{to_lower (kv_Key kv) |kv. kv \<in> set existing \<and> kv_Enabled kv \<and> ?d (to_lower (kv_Key kv)) \<noteq> None}"
  let ?kept = "concat (map (\<lambda>kv. if \<not> kv_Enabled kv then [kv]
        else (case ?d (to_lower (kv_Key kv)) of None \<Rightarrow> [] | Some (k, v) \<Rightarrow> [kv\<lparr>kv_Value := v\<rparr>])) existing)"
  let ?new = "append_loop ?d (map fst ob) ?used"
  have m: "mergeKVFromObject existing ob = ?kept @ ?new"
    by (simp add: mergeKVFromObject_def keep_loop_eq Let_def)
  have new: "list_all kv_Enabled ?new" by (rule append_loop_enabled)
  have dis: "filter (\<lambda>kv. \<not> kv_Enabled kv) ?kept = filter (\<lambda>kv. \<not> kv_Enabled kv) existing"
    by (induction existing) (auto split: option.splits)
  have dom: "dom ?d = {to_lower k |k v. (k, Some v) \<in> set ob}" by (simp add: dom_dedup_loop)
  have kept: "to_lower ` kv_Key ` set (filter kv_Enabled ?kept) = ?used"
  proof (intro set_eqI iffI)
    fix n
    assume "n \<in> ?used"
    then obtain kv k v where kv: "n = to_lower (kv_Key kv)" "kv \<in> set existing" "kv_Enabled kv"
      "?d (to_lower (kv_Key kv)) = Some (k, v)" by auto
    then have "kv\<lparr>kv_Value := v\<rparr> \<in> set (filter kv_Enabled ?kept)" by force
    moreover have "n = to_lower (kv_Key (kv\<lparr>kv_Value := v\<rparr>))" using kv(1) by simp
    ultimately show "n \<in> to_lower ` kv_Key ` set (filter kv_Enabled ?kept)" by blast
  next
    fix n
    assume "n \<in> to_lower ` kv_Key ` set (filter kv_Enabled ?kept)"
    then obtain x kv where x: "n = to_lower (kv_Key x)" "kv_Enabled x" "kv \<in> set existing"
      "x \<in> set (if \<not> kv_Enabled kv then [kv]
        else (case ?d (to_lower (kv_Key kv)) of None \<Rightarrow> [] | Some (k, v) \<Rightarrow> [kv\<lparr>kv_Value := v\<rparr>]))"
      by (clarsimp simp only: set_filter set_concat set_map UN_iff image_iff mem_Collect_eq)
    then have "kv_Enabled kv" "to_lower (kv_Key x) = to_lower (kv_Key kv)" "?d (to_lower (kv_Key kv)) \<noteq> None"
      by (cases "?d (to_lower (kv_Key kv))"; auto split: if_splits)+
    with x(1,3) show "n \<in> ?used" by auto
  qed
  have "to_lower ` kv_Key ` set ?new = {to_lower k |k. k \<in> set (map fst ob) \<and> ?d (to_lower k) \<noteq> None} - ?used"
    by (rule append_loop_keys) (use dedup_key [of Map.empty ob] in \<open>simp add: keyed_by_name_def\<close>)
  also have "{to_lower k |k. k \<in> set (map fst ob) \<and> ?d (to_lower k) \<noteq> None} = dom ?d"
  proof (intro set_eqI iffI)
    fix n
    assume "n \<in> dom ?d"
    with dom obtain k v where "n = to_lower k" "(k, Some v) \<in> set ob" by blast
    with \<open>n \<in> dom ?d\<close> show "n \<in> {to_lower k |k. k \<in> set (map fst ob) \<and> ?d (to_lower k) \<noteq> None}" by force
  qed auto
  finally have "to_lower ` kv_Key ` set ?new = dom ?d - ?used" .
  moreover have "?used \<subseteq> dom ?d" by auto
  moreover have "filter kv_Enabled ?new = ?new" "filter (\<lambda>kv. \<not> kv_Enabled kv) ?new = []"
    using new by (auto simp: list_all_iff filter_id_conv filter_empty_conv)
  ultimately have "?used \<union> (dom ?d - ?used) = dom ?d"
    and new2: "filter kv_Enabled ?new = ?new" "filter (\<lambda>kv. \<not> kv_Enabled kv) ?new = []"
      "to_lower ` kv_Key ` set ?new = dom ?d - ?used" by blast+
  then have "to_lower ` kv_Key ` set (filter kv_Enabled (?kept @ ?new)) = dom ?d"
    unfolding filter_append set_append image_Un new2(1) kept new2(3) by simp
  moreover have "filter (\<lambda>kv. \<not> kv_Enabled kv) (?kept @ ?new) = filter (\<lambda>kv. \<not> kv_Enabled kv) existing"
    unfolding filter_append dis new2(2) by simp
  ultimately show ?thesis unfolding m dom by blast
qed

definition capture_ok :: "capture \<Rightarrow> bool" where
  "capture_ok c \<longleftrightarrow> length (cp_Tests c) \<le> maxTestResults \<and> cp_captured c \<le> maxConsoleBytes \<and>
     (if cp_truncated c
      then length (cp_Console c) \<le> Suc maxConsoleLines \<and>
           length (concat (cp_Console c)) \<le> cp_captured c + length consoleTruncatedMsg
      else length (cp_Console c) \<le> maxConsoleLines \<and> length (concat (cp_Console c)) = cp_captured c)"

lemma capture_steps:
  "capture_ok c \<Longrightarrow> capture_ok (emit_line l c)" "capture_ok c \<Longrightarrow> capture_ok (record_test t c)"
  by (auto simp: capture_ok_def emit_line_def record_test_def split: if_splits)

lemma run_js_capture: "capture_ok c \<Longrightarrow> capture_ok (fst (snd (run_js h k c w)))"
  by (induction k arbitrary: c w) (auto intro: capture_steps split: prod.splits)

text \<open>
  Captured output is bounded: whatever a script prints and asserts, at most 1000 lines and one
  marker, 256 KiB of text besides the marker, and 1000 test results are kept.
\<close>

theorem script_output_bounded:
  "let c = fst (snd (run_js h k new_capture w)) in
   length (cp_Console c) \<le> 1001 \<and> length (cp_Tests c) \<le> 1000 \<and>
   length (concat (cp_Console c)) \<le> 262144 + length consoleTruncatedMsg"
proof -
  have "capture_ok new_capture" by (simp add: capture_ok_def new_capture_def)
  from run_js_capture [OF this, of h k w] show ?thesis
    by (auto simp: Let_def capture_ok_def maxConsoleLines_def maxTestResults_def maxConsoleBytes_def split: if_splits)
qed

lemma kvToObject_map:
  "fold (\<lambda>kv ob. AList.update (kv_Key kv) (Some (kv_Value kv)) ob) kvs ob0 = ob \<Longrightarrow>
   map_of ob = map_of ob0 ++ map_of (rev (map (\<lambda>kv. (kv_Key kv, Some (kv_Value kv))) kvs)) \<and>
   fst ` set ob = fst ` set ob0 \<union> kv_Key ` set kvs"
proof (induction kvs arbitrary: ob0)
  case (Cons kv kvs)
  then show ?case using Cons.IH [of "AList.update (kv_Key kv) (Some (kv_Value kv)) ob0"]
    by (auto simp: update_conv' dom_update simp del: fun_upd_apply)
qed simp

lemma kvToObject_distinct: "distinct (map fst (kvToObject kvs))"
proof -
  have "distinct (map fst ob) \<Longrightarrow>
      distinct (map fst (fold (\<lambda>kv ob. AList.update (kv_Key kv) (Some (kv_Value kv)) ob) xs ob))"
    for xs :: "key_value list" and ob :: js_object
    by (induction xs arbitrary: ob) (auto intro: distinct_update)
  from this [of "[]" "filter kv_Enabled kvs"] show ?thesis by (simp add: kvToObject_def)
qed

lemma dedup_distinct:
  assumes "distinct (map (\<lambda>(k, v). to_lower k) ob)" and "(k, Some v) \<in> set ob"
  shows "dedup_loop ob Map.empty (to_lower k) = Some (k, v)"
proof -
  have "dedup_loop ob d (to_lower k) = Some (k, v)"
    if "distinct (map (\<lambda>(k, v). to_lower k) ob)" "(k, Some v) \<in> set ob" for ob d
    using that
  proof (induction ob arbitrary: d rule: js_object_induct)
    case (read k' v' ob)
    show ?case
    proof (cases "(k, Some v) \<in> set ob")
      case True
      with read show ?thesis by simp
    next
      case False
      with read.prems have kv: "k' = k" "v' = v" by auto
      have "dedup_loop ob d n = d n" if "n \<notin> (\<lambda>(k, v). to_lower k) ` set ob" for d n
        using that by (induction ob arbitrary: d rule: js_object_induct) auto
      with read.prems(1) kv show ?thesis by force
    qed
  qed auto
  from this [OF assms] show ?thesis .
qed

text \<open>
  A script that leaves the request alone changes nothing, when the enabled names of each
  table are distinct up to case.
\<close>

theorem untouched_rows:
  assumes "distinct (map (\<lambda>kv. to_lower (kv_Key kv)) (filter kv_Enabled kvs))"
  shows "mergeKVFromObject kvs (kvToObject kvs) = kvs"
proof -
  let ?ob = "kvToObject kvs"
  note ob = kvToObject_map [OF refl, of "filter kv_Enabled kvs" "[]", folded kvToObject_def]
  have dist: "distinct (map (\<lambda>(k, v). to_lower k) ?ob)"
  proof -
    have "inj_on to_lower (kv_Key ` set (filter kv_Enabled kvs))"
      using assms by (auto simp: distinct_map inj_on_def)
    then have "distinct (map to_lower (map fst ?ob))"
      using ob kvToObject_distinct [of kvs] unfolding distinct_map [of to_lower "map fst ?ob"] by simp
    moreover have "map to_lower (map fst ?ob) = map (\<lambda>(k, v). to_lower k) ?ob" by auto
    ultimately show ?thesis by (simp only:)
  qed
  have d: "dedup_loop ?ob Map.empty (to_lower (kv_Key kv)) = Some (kv_Key kv, kv_Value kv)"
    if kv: "kv \<in> set kvs" "kv_Enabled kv" for kv
  proof -
    have "distinct (map fst (rev (map (\<lambda>kv. (kv_Key kv, Some (kv_Value kv))) (filter kv_Enabled kvs))))"
      using assms by (auto simp: distinct_map inj_on_def rev_map [symmetric])
    moreover have "(kv_Key kv, Some (kv_Value kv)) \<in>
        set (rev (map (\<lambda>kv. (kv_Key kv, Some (kv_Value kv))) (filter kv_Enabled kvs)))" using kv by auto
    ultimately have "map_of ?ob (kv_Key kv) = Some (Some (kv_Value kv))" using ob by (simp add: map_of_is_SomeI)
    with dedup_distinct [OF dist] show ?thesis by (auto dest: map_of_SomeD)
  qed
  let ?d = "dedup_loop ?ob Map.empty"
  have "concat (map (\<lambda>kv. if \<not> kv_Enabled kv then [kv]
        else (case ?d (to_lower (kv_Key kv)) of None \<Rightarrow> [] | Some (k, v) \<Rightarrow> [kv\<lparr>kv_Value := v\<rparr>])) kvs) =
      concat (map (\<lambda>kv. [kv]) kvs)"
    by (rule arg_cong [where f = concat]) (auto simp: d)
  moreover have "append_loop ?d (map fst ?ob)
      {to_lower (kv_Key kv) |kv. kv \<in> set kvs \<and> kv_Enabled kv \<and> ?d (to_lower (kv_Key kv)) \<noteq> None} = []"
  proof (rule append_loop_Nil)
    fix k
    assume "k \<in> set (map fst ?ob)"
    with ob obtain kv where "kv \<in> set kvs" "kv_Enabled kv" "k = kv_Key kv" by auto
    with d show "to_lower k \<in> {to_lower (kv_Key kv) |kv. kv \<in> set kvs \<and> kv_Enabled kv \<and> ?d (to_lower (kv_Key kv)) \<noteq> None}"
      by blast
  qed
  ultimately show ?thesis by (simp add: mergeKVFromObject_def keep_loop_eq Let_def)
qed

theorem untouched_rows_witness:
  "mergeKVFromObject [\<lparr>kv_Enabled = True, kv_Key = ''Accept'', kv_Value = ''a'', kv_Description = []\<rparr>,
       \<lparr>kv_Enabled = False, kv_Key = ''accept'', kv_Value = ''b'', kv_Description = []\<rparr>]
     (kvToObject [\<lparr>kv_Enabled = True, kv_Key = ''Accept'', kv_Value = ''a'', kv_Description = []\<rparr>,
       \<lparr>kv_Enabled = False, kv_Key = ''accept'', kv_Value = ''b'', kv_Description = []\<rparr>]) =
   [\<lparr>kv_Enabled = True, kv_Key = ''Accept'', kv_Value = ''a'', kv_Description = []\<rparr>,
    \<lparr>kv_Enabled = False, kv_Key = ''accept'', kv_Value = ''b'', kv_Description = []\<rparr>]"
  by (rule untouched_rows) simp

text \<open>
  A script that leaves the request alone still rewrites a table that repeats a name: the
  object keeps one value per name, and the merge writes it into every enabled row of that
  name, so the parameters \<open>?id=1&id=2\<close> go out as \<open>?id=2&id=2\<close>.
\<close>

theorem untouched_duplicates:
  assumes "to_lower k = to_lower k'"
  shows "mergeKVFromObject
      [\<lparr>kv_Enabled = True, kv_Key = k, kv_Value = v, kv_Description = d\<rparr>,
       \<lparr>kv_Enabled = True, kv_Key = k', kv_Value = v', kv_Description = d'\<rparr>]
      (kvToObject [\<lparr>kv_Enabled = True, kv_Key = k, kv_Value = v, kv_Description = d\<rparr>,
        \<lparr>kv_Enabled = True, kv_Key = k', kv_Value = v', kv_Description = d'\<rparr>]) =
    [\<lparr>kv_Enabled = True, kv_Key = k, kv_Value = v', kv_Description = d\<rparr>,
     \<lparr>kv_Enabled = True, kv_Key = k', kv_Value = v', kv_Description = d'\<rparr>]"
  using assms by (simp add: mergeKVFromObject_def kvToObject_def Let_def)

theorem untouched_duplicates_witness:
  "mergeKVFromObject
      [\<lparr>kv_Enabled = True, kv_Key = ''id'', kv_Value = ''1'', kv_Description = []\<rparr>,
       \<lparr>kv_Enabled = True, kv_Key = ''id'', kv_Value = ''2'', kv_Description = []\<rparr>]
      (kvToObject [\<lparr>kv_Enabled = True, kv_Key = ''id'', kv_Value = ''1'', kv_Description = []\<rparr>,
        \<lparr>kv_Enabled = True, kv_Key = ''id'', kv_Value = ''2'', kv_Description = []\<rparr>]) =
    [\<lparr>kv_Enabled = True, kv_Key = ''id'', kv_Value = ''2'', kv_Description = []\<rparr>,
     \<lparr>kv_Enabled = True, kv_Key = ''id'', kv_Value = ''2'', kv_Description = []\<rparr>]"
  using untouched_duplicates [of "''id''" "''id''" "''1''" "[]" "''2''" "[]"] by simp

section \<open>Two hosts a script cannot tell apart\<close>

text \<open>
  Hosts on two worlds related by \<open>R\<close>: every bound function gives the same answer and keeps the
  worlds related. A script then behaves the same on both.
\<close>

locale host_sim =
  fixes R :: "'v \<Rightarrow> 'w \<Rightarrow> bool" and h :: "'v js_host" and g :: "'w js_host"
  assumes sim_get: "R v w \<Longrightarrow> jh_Get h n v = jh_Get g n w"
    and sim_set: "R v w \<Longrightarrow> R (jh_Set h n s v) (jh_Set g n s w)"
    and sim_interpolate: "R v w \<Longrightarrow>
      (case jh_interpolate h of Some f \<Rightarrow> f s v | None \<Rightarrow> s) = (case jh_interpolate g of Some f \<Rightarrow> f s w | None \<Rightarrow> s)"
    and sim_send: "R v w \<Longrightarrow> fst (send_request h a v) = fst (send_request g a w) \<and>
      R (snd (send_request h a v)) (snd (send_request g a w))"
    and sim_cookies: "R v w \<Longrightarrow>
      (let p = (case jh_cookies h of Some f \<Rightarrow> f u v | None \<Rightarrow> ([], v));
           q = (case jh_cookies g of Some f \<Rightarrow> f u w | None \<Rightarrow> ([], w)) in fst p = fst q \<and> R (snd p) (snd q))"
    and sim_stop: "R v w \<Longrightarrow> R (case jh_runner h of Some (stop, skip) \<Rightarrow> stop v | None \<Rightarrow> v)
      (case jh_runner g of Some (stop, skip) \<Rightarrow> stop w | None \<Rightarrow> w)"
    and sim_skip: "R v w \<Longrightarrow> R (case jh_runner h of Some (stop, skip) \<Rightarrow> skip v | None \<Rightarrow> v)
      (case jh_runner g of Some (stop, skip) \<Rightarrow> skip w | None \<Rightarrow> w)"
begin

lemma run_js_sim:
  "R v w \<Longrightarrow> fst (run_js h k c v) = fst (run_js g k c w) \<and>
     fst (snd (run_js h k c v)) = fst (snd (run_js g k c w)) \<and>
     R (snd (snd (run_js h k c v))) (snd (snd (run_js g k c w)))"
proof (induction k arbitrary: c v w)
  case (JEnvGet n k)
  then show ?case using sim_get by (simp add: rangeI)
next
  case (JInterpolate s k)
  from sim_interpolate [OF JInterpolate.prems, of s] JInterpolate show ?case by (simp add: rangeI)
next
  case (JSendRequest a k)
  from sim_send [OF JSendRequest.prems, of a] JSendRequest.IH show ?case by (auto simp: rangeI split: prod.splits)
next
  case (JCookies u k)
  from sim_cookies [OF JCookies.prems, of u] JCookies.IH show ?case by (auto simp: rangeI Let_def split: prod.splits)
qed (auto intro: sim_set sim_stop sim_skip simp del: split_paired_All)

lemma RunPreRequest_sim:
  assumes "R v w" and "\<And>s r m. je_pre jv s r m v = je_pre jw s r m w"
  shows "fst (RunPreRequest jv h script r ch v) = fst (RunPreRequest jw g script r ch w) \<and>
    R (snd (RunPreRequest jv h script r ch v)) (snd (RunPreRequest jw g script r ch w))"
  using run_js_sim [OF assms(1), of "je_pre jw script (requestToObject r) ch w" new_capture] assms
  by (auto simp: RunPreRequest_def split: prod.splits option.splits)

lemma RunPostResponse_sim:
  assumes "R v w" and "\<And>s r i m. je_post jv s r i m v = je_post jw s r i m w"
  shows "fst (RunPostResponse jv h script r i ch v) = fst (RunPostResponse jw g script r i ch w) \<and>
    R (snd (RunPostResponse jv h script r i ch v)) (snd (RunPostResponse jw g script r i ch w))"
  using run_js_sim [OF assms(1), of "je_post jw script (requestToObject r) i ch w" new_capture] assms
  by (auto simp: RunPostResponse_def split: prod.splits option.splits)

end

text \<open>The same for one host: an invariant of the world that the bound functions keep.\<close>

lemma run_js_invariant:
  assumes "\<And>n s w. Inv w \<Longrightarrow> Inv (jh_Set h n s w)"
    and "\<And>a w. Inv w \<Longrightarrow> Inv (snd (send_request h a w))"
    and "\<And>f u w. jh_cookies h = Some f \<Longrightarrow> Inv w \<Longrightarrow> Inv (snd (f u w))"
    and "\<And>stop skip w. jh_runner h = Some (stop, skip) \<Longrightarrow> Inv w \<Longrightarrow> Inv (stop w) \<and> Inv (skip w)"
  shows "Inv w \<Longrightarrow> Inv (snd (snd (run_js h k c w)))"
proof (induction k arbitrary: c w)
  case (JSendRequest a k)
  then show ?case using assms(2) [of w a] by (auto simp: rangeI split: prod.splits)
next
  case (JCookies u k)
  then show ?case using assms(3) [of _ w u] by (auto simp: rangeI split: prod.splits option.splits)
next
  case (JStop k)
  then show ?case using assms(4) [of _ _ w] by (auto split: option.splits)
next
  case (JSkip k)
  then show ?case using assms(4) [of _ _ w] by (auto split: option.splits)
qed (auto simp: rangeI intro: assms)

end
