(* ===== verification/Exec.thy ===== *)
theory Exec
  imports SessionEnv SessionFinder CookieJar Scripting Assertion VarsRef
begin

text \<open>
  One request, script to script: \<open>headlessExecutor\<close> of \<open>internal/runner/exec.go\<close> and
  \<open>chainExecutor\<close> of \<open>internal/ui/execution.go\<close>. They run on a world: the session, the cookie
  jar, the two flags behind \<open>helena.runner\<close>, and the rest (network, clock, token cache),
  which only the parameters look at. \<open>client.Do\<close>, the JavaScript engine, \<open>vars.Dynamic\<close>,
  \<open>url.Parse\<close> and the clock are parameters.
\<close>

section \<open>The world and the parameters\<close>

record ('d, 'x) world =
  w_sess :: "'d session"
  w_jar :: Jar
  w_ext :: 'x
  w_stop :: bool
  w_skip :: bool

record Response =
  hr_View :: ResponseView
  hr_RequestURL :: string
  hr_RequestBody :: string

type_synonym resolve_fn = "string \<Rightarrow> string \<times> string list"

record 'x exec_env =
  ee_Do :: "request \<Rightarrow> resolve_fn \<Rightarrow> Jar \<times> 'x \<Rightarrow> Response result \<times> (Jar \<times> 'x)"
  ee_engine :: "'x js_engine"
  ee_Dynamic :: "'x \<Rightarrow> string \<Rightarrow> string option"
  ee_Parse :: "string \<Rightarrow> (string \<times> url) option"
  ee_now :: "'x \<Rightarrow> int"

text \<open>The per-send snapshots both executors capture.\<close>

record snaps =
  sn_global :: "(string \<times> string) list"
  sn_dotEnv :: "(string \<times> string) list"
  sn_col :: "(string \<times> string) list"
  sn_env :: "(string \<times> string) list"

definition client_Do :: "'x exec_env \<Rightarrow> request \<Rightarrow> resolve_fn \<Rightarrow> ('d, 'x) world
    \<Rightarrow> Response result \<times> ('d, 'x) world" where
  "client_Do ee r res w =
     (case ee_Do ee r res (w_jar w, w_ext w) of
        (resp, (jar, x)) \<Rightarrow> (resp, w\<lparr>w_jar := jar, w_ext := x\<rparr>))"

text \<open>
  \<open>cookieLookup\<close>, the same in both packages: \<open>ee_Parse\<close> gives the \<open>Host\<close> of a parsed URL and
  the URL, or nothing.
\<close>

definition cookieLookup :: "'x exec_env \<Rightarrow> string \<Rightarrow> ('d, 'x) world \<Rightarrow> (string \<times> string) list \<times> ('d, 'x) world" where
  "cookieLookup ee rawURL w =
     (case ee_Parse ee rawURL of
        None \<Rightarrow> ([], w)
      | Some (host, u) \<Rightarrow>
          if host = [] then ([], w)
          else (case Cookies (Some u) (ee_now ee (w_ext w)) (w_jar w) of
                  (cs, jar) \<Rightarrow> (cs, w\<lparr>w_jar := jar\<rparr>)))"

text \<open>\<open>envBridge\<close> and \<open>sessionEnvBridge\<close>: reads layer the overlay over the snapshot.\<close>

definition bridge_Get :: "(string \<times> string) list \<Rightarrow> string \<Rightarrow> ('d, 'x) world \<Rightarrow> string option" where
  "bridge_Get base name w =
     (case EnvOverlay name (w_sess w) of Some v \<Rightarrow> Some v | None \<Rightarrow> map_of base name)"

definition bridge_Set :: "string \<Rightarrow> string \<Rightarrow> ('d, 'x) world \<Rightarrow> ('d, 'x) world" where
  "bridge_Set name v w = w\<lparr>w_sess := SetEnvOverlay name v (w_sess w)\<rparr>"

section \<open>The scopes of a request\<close>

text \<open>\<open>newResolver\<close> of the two executors; \<open>enabledVars\<close> is the request's own scope.\<close>

definition headless_resolver :: "'x exec_env \<Rightarrow> snaps \<Rightarrow> var_row list \<Rightarrow> chain_map \<Rightarrow> ('d, 'x) world \<Rightarrow> resolver" where
  "headless_resolver ee sn vs m w =
     WithFallback (Some (Compose [Some (VarLookup m), Some (ee_Dynamic ee (w_ext w))]))
       (New_resolver [sn_global sn, sn_dotEnv sn, sn_col sn, sn_env sn, enabledVars vs,
          SnapshotEnvOverlay (w_sess w)])"

definition ui_resolver :: "'x exec_env \<Rightarrow> snaps \<Rightarrow> (string \<times> string) list \<Rightarrow> var_row list \<Rightarrow> chain_map
    \<Rightarrow> ('d, 'x) world \<Rightarrow> resolver" where
  "ui_resolver ee sn prompts vs m w =
     WithFallback (Some (Compose [Some (VarLookup m), Some (ee_Dynamic ee (w_ext w))]))
       (New_resolver [sn_global sn, sn_dotEnv sn, sn_col sn, sn_env sn, enabledVars vs, prompts,
          SnapshotEnvOverlay (w_sess w)])"

section \<open>The script host\<close>

text \<open>The requester behind \<open>helena.sendRequest\<close>: the same client and scopes, rebuilt per call.\<close>

definition requester :: "'x exec_env \<Rightarrow> (('d, 'x) world \<Rightarrow> resolver) \<Rightarrow> SendSpec \<Rightarrow> ('d, 'x) world
    \<Rightarrow> ResponseInput result \<times> ('d, 'x) world" where
  "requester ee res spec w =
     (case client_Do ee (ToRequest spec) (Resolve (res w)) w of
        (Inl e, w1) \<Rightarrow> (Inl e, w1)
      | (Inr resp, w1) \<Rightarrow> (Inr (to_input (hr_View resp)), w1))"

definition script_host :: "'x exec_env \<Rightarrow> snaps \<Rightarrow> (('d, 'x) world \<Rightarrow> resolver)
    \<Rightarrow> ((('d, 'x) world \<Rightarrow> ('d, 'x) world) \<times> (('d, 'x) world \<Rightarrow> ('d, 'x) world)) option \<Rightarrow> ('d, 'x) world js_host" where
  "script_host ee sn res runner =
     \<lparr>jh_Get = bridge_Get (sn_env sn), jh_Set = bridge_Set,
      jh_interpolate = Some (\<lambda>s w. fst (Resolve (res w) s)),
      jh_requester = Some (requester ee res), jh_cookies = Some (cookieLookup ee), jh_runner = runner\<rparr>"

text \<open>The engine sees the outside world only.\<close>

definition lift_engine :: "'x js_engine \<Rightarrow> ('d, 'x) world js_engine" where
  "lift_engine je = \<lparr>je_pre = (\<lambda>s r c w. je_pre je s r c (w_ext w)),
     je_post = (\<lambda>s r i c w. je_post je s r i c (w_ext w))\<rparr>"

text \<open>\<open>runControl\<close>: \<open>Stop\<close> sets the flag of the run, \<open>Skip\<close> that of the request.\<close>

definition runControl ::
  "((('d, 'x) world \<Rightarrow> ('d, 'x) world) \<times> (('d, 'x) world \<Rightarrow> ('d, 'x) world)) option" where
  "runControl = Some (\<lambda>w. w\<lparr>w_stop := True\<rparr>, \<lambda>w. w\<lparr>w_skip := True\<rparr>)"

section \<open>The executors\<close>

definition zero_view :: View where
  "zero_view =
     \<lparr>vw_Request = \<lparr>rv_Method = [], rv_URL = [], rv_Body = []\<rparr>,
      vw_Response = \<lparr>pv_StatusCode = 0, pv_Status = [], pv_Headers = [], pv_Body = [], pv_Size = 0,
        pv_Duration = 0, pv_CORSWarning = []\<rparr>\<rparr>"

definition view_of :: "request \<Rightarrow> Response \<Rightarrow> View" where
  "view_of r resp =
     \<lparr>vw_Request = \<lparr>rv_Method = rq_Method r, rv_URL = hr_RequestURL resp, rv_Body = hr_RequestBody resp\<rparr>,
      vw_Response = hr_View resp\<rparr>"

text \<open>
  \<open>executeOnce\<close> of the runner. The scripts and the sends of one request all resolve against
  the variables the request had at the start: a script cannot change them.
\<close>

definition executeOnce :: "'x exec_env \<Rightarrow> snaps \<Rightarrow> bool \<Rightarrow> request \<Rightarrow> chain_map \<Rightarrow> ('d, 'x) world
    \<Rightarrow> (View \<times> TestResult list \<times> string option) \<times> ('d, 'x) world" where
  "executeOnce ee sn honorSkip r m w0 =
     (let res = headless_resolver ee sn (rq_Variables r) m;
          h = script_host ee sn res runControl;
          je = lift_engine (ee_engine ee);
          ch = chainViewToScripting m
      in (case RunPreRequest je h (sc_PreRequest (rq_Scripts r)) r ch w0 of
            ((r1, pre, preErr), w1) \<Rightarrow>
              (case preErr of
                 Some e \<Rightarrow> ((zero_view, cp_Tests pre, Some e), w1)
               | None \<Rightarrow>
                   if honorSkip \<and> w_skip w1 then ((zero_view, cp_Tests pre, None), w1)
                   else (case client_Do ee r1 (Resolve (res w1)) w1 of
                       (Inl e, w2) \<Rightarrow> ((zero_view, cp_Tests pre, Some e), w2)
                     | (Inr resp, w2) \<Rightarrow>
                         (case RunPostResponse je h (sc_PostResponse (rq_Scripts r1)) r1
                                 (to_input (hr_View resp)) ch w2 of
                            ((post, postErr), w3) \<Rightarrow>
                              ((view_of r1 resp, cp_Tests pre @ cp_Tests post, postErr), w3))))))"

definition headless_ExecuteOnce :: "'x exec_env \<Rightarrow> snaps \<Rightarrow> ('d, 'x) world executor" where
  "headless_ExecuteOnce ee sn r m w =
     (case executeOnce ee sn False r m w of ((view, tests, err), w') \<Rightarrow> ((view, [], err), w'))"

text \<open>The send path of the UI also formats what its scripts and assertions found.\<close>

definition formatTestResults :: "TestResult list \<Rightarrow> string list" where
  "formatTestResults tests =
     map (\<lambda>t. if te_Passed t then ''PASS  '' @ te_Name t
               else ''FAIL  '' @ te_Name t @ [CHR '' '', CHR 0xE2, CHR 0x80, CHR 0x94, CHR '' ''] @ te_Error t) tests @
     [''Tests: '' @ itoa (int (length (filter te_Passed tests))) @ '' passed, '' @
      itoa (int (length tests) - int (length (filter te_Passed tests))) @ '' failed'']"

definition assertion_tests :: "'f engines \<Rightarrow> request \<Rightarrow> ResponseView \<Rightarrow> TestResult list" where
  "assertion_tests eg r p =
     map (\<lambda>a. \<lparr>te_Name = cr_Name a, te_Passed = cr_Passed a, te_Error = cr_Error a\<rparr>)
       (Evaluate eg (rq_Assertions r) (pv_StatusCode p) (pv_Headers p) (pv_Body p))"

definition ui_ExecuteOnce :: "'x exec_env \<Rightarrow> 'f engines \<Rightarrow> snaps \<Rightarrow> (string \<times> string) list \<Rightarrow> ('d, 'x) world executor" where
  "ui_ExecuteOnce ee eg sn prompts r m w0 =
     (let res = ui_resolver ee sn prompts (rq_Variables r) m;
          h = script_host ee sn res None;
          je = lift_engine (ee_engine ee);
          ch = chainViewToScripting m
      in (case RunPreRequest je h (sc_PreRequest (rq_Scripts r)) r ch w0 of
            ((r1, pre, preErr), w1) \<Rightarrow>
              (case preErr of
                 Some e \<Rightarrow> ((zero_view, cp_Console pre, Some (''pre-script: '' @ e)), w1)
               | None \<Rightarrow>
                   (case client_Do ee r1 (Resolve (res w1)) w1 of
                       (Inl e, w2) \<Rightarrow> ((zero_view, cp_Console pre, Some e), w2)
                     | (Inr resp, w2) \<Rightarrow>
                         (case RunPostResponse je h (sc_PostResponse (rq_Scripts r1)) r1
                                 (to_input (hr_View resp)) ch w2 of
                            ((post, postErr), w3) \<Rightarrow>
                              (let tests = cp_Tests pre @ cp_Tests post @ assertion_tests eg r1 (hr_View resp);
                                   console = cp_Console pre @ cp_Console post @
                                     (if tests \<noteq> [] then formatTestResults tests else [])
                               in ((view_of r1 resp, console,
                                    (case postErr of Some e \<Rightarrow> Some (''post-script: '' @ e) | None \<Rightarrow> None)), w3)))))))"

text \<open>\<open>withFolderVars\<close> of the send path: the folder scope before the request's own variables.\<close>

definition withFolderVars :: "(string \<times> string) list \<Rightarrow> var_row list \<Rightarrow> var_row list" where
  "withFolderVars folder own =
     map (\<lambda>(k, v). \<lparr>vr_Enabled = True, vr_Key = k, vr_Value = v, vr_Secret = False\<rparr>) folder @ own"

section \<open>What an execution leaves alone\<close>

text \<open>The world after an execution has the same session up to the overlay.\<close>

definition only_overlay :: "'d session \<Rightarrow> ('d, 'x) world \<Rightarrow> bool" where
  "only_overlay base w \<longleftrightarrow> w_sess w\<lparr>ss_overlay := []\<rparr> = base\<lparr>ss_overlay := []\<rparr>"

text \<open>An invariant of the world that survives the session's overlay, the client and the flags.\<close>

definition world_inv :: "(('d, 'x) world \<Rightarrow> bool) \<Rightarrow> bool" where
  "world_inv Inv \<longleftrightarrow>
     (\<forall>w n s. Inv w \<longrightarrow> Inv (bridge_Set n s w)) \<and> (\<forall>w jar x. Inv w \<longrightarrow> Inv (w\<lparr>w_jar := jar, w_ext := x\<rparr>)) \<and>
     (\<forall>w. Inv w \<longrightarrow> Inv (w\<lparr>w_stop := True\<rparr>) \<and> Inv (w\<lparr>w_skip := True\<rparr>))"

lemma world_inv_only_overlay: "world_inv (only_overlay base)"
  by (auto simp: world_inv_def only_overlay_def bridge_Set_def SetEnvOverlay_def)

lemma world_inv_stop: "world_inv w_stop"
  by (auto simp: world_inv_def bridge_Set_def)

lemma client_Do_inv: "world_inv Inv \<Longrightarrow> Inv w \<Longrightarrow> Inv (snd (client_Do ee r f w))"
  by (auto simp: client_Do_def world_inv_def split: prod.splits)

lemma client_Do_to: "client_Do ee r f w = (resp, w1) \<Longrightarrow> world_inv Inv \<Longrightarrow> Inv w \<Longrightarrow> Inv w1"
  using client_Do_inv [of Inv w ee r f] by simp

lemma jar_inv: "world_inv Inv \<Longrightarrow> Inv w \<Longrightarrow> Inv (w\<lparr>w_jar := jar\<rparr>)"
  unfolding world_inv_def
  by (metis (no_types, lifting) world.surjective world.update_convs(2) world.update_convs(3))

lemma script_inv:
  assumes "world_inv Inv" and "runner = None \<or> runner = runControl"
  shows "Inv w \<Longrightarrow> Inv (snd (snd (run_js (script_host ee sn res runner) k c w)))"
proof (rule run_js_invariant, goal_cases)
  case (1 n s w)
  with assms(1) show ?case by (simp add: script_host_def world_inv_def)
next
  case (2 a w)
  then show ?case using assms(1)
    by (auto simp: script_host_def send_request_def requester_def split: sum.splits prod.splits dest: client_Do_to)
next
  case (3 f u w)
  with jar_inv [OF assms(1)] show ?case
    by (auto simp: script_host_def cookieLookup_def split: option.splits prod.splits)
next
  case (4 stop skip w)
  with assms show ?case by (auto simp: script_host_def runControl_def world_inv_def)
qed

lemma RunPre_inv:
  "world_inv Inv \<Longrightarrow> runner = None \<or> runner = runControl \<Longrightarrow> Inv w \<Longrightarrow>
   Inv (snd (RunPreRequest je (script_host ee sn res runner) s r ch w))"
  using script_inv [of Inv runner w ee sn res "je_pre je s (requestToObject r) ch w" new_capture]
  by (auto simp: RunPreRequest_def split: prod.splits option.splits)

lemma RunPost_inv:
  "world_inv Inv \<Longrightarrow> runner = None \<or> runner = runControl \<Longrightarrow> Inv w \<Longrightarrow>
   Inv (snd (RunPostResponse je (script_host ee sn res runner) s r i ch w))"
  using script_inv [of Inv runner w ee sn res "je_post je s (requestToObject r) i ch w" new_capture]
  by (auto simp: RunPostResponse_def split: prod.splits)

lemma executeOnce_inv:
  assumes "world_inv Inv" and "Inv w"
  shows "Inv (snd (executeOnce ee sn hs r m w))"
proof -
  let ?h = "script_host ee sn (headless_resolver ee sn (rq_Variables r) m) runControl"
  let ?je = "lift_engine (ee_engine ee)"
  obtain r1 pre e w1 where p: "RunPreRequest ?je ?h (sc_PreRequest (rq_Scripts r)) r (chainViewToScripting m) w =
      ((r1, pre, e), w1)" by (metis prod.exhaust)
  with RunPre_inv [OF assms(1) _ assms(2)] have w1: "Inv w1" by (metis snd_conv)
  obtain resp w2 where d: "client_Do ee r1 (Resolve (headless_resolver ee sn (rq_Variables r) m w1)) w1 = (resp, w2)"
    by force
  with client_Do_inv [OF assms(1) w1] have w2: "Inv w2" by (metis snd_conv)
  have "Inv w3" if "RunPostResponse ?je ?h s r1 i ch w2 = (x, w3)" for s i ch x w3
    using RunPost_inv [OF assms(1) disjI2 [OF refl] w2, of ?je ee sn _ s r1 i ch] that by (metis snd_conv)
  with w1 w2 show ?thesis
    by (auto simp: executeOnce_def Let_def p d split: option.splits sum.splits prod.splits)
qed

lemma headless_inv: "world_inv Inv \<Longrightarrow> Inv w \<Longrightarrow> Inv (snd (headless_ExecuteOnce ee sn r m w))"
  using executeOnce_inv [of Inv w ee sn False r m] by (auto simp: headless_ExecuteOnce_def split: prod.splits)

interpretation headless: executor_invariant "headless_ExecuteOnce ee sn" "only_overlay base" for ee sn base
  by unfold_locales (rule headless_inv [OF world_inv_only_overlay])

interpretation headless_stop: executor_invariant "headless_ExecuteOnce ee sn" w_stop for ee sn
  by unfold_locales (rule headless_inv [OF world_inv_stop])

section \<open>The two executors agree\<close>

lemma expand_cong:
  "lookupScope r = lookupScope r' \<Longrightarrow> rs_fallback r = rs_fallback r' \<Longrightarrow> expand r vis ps st = expand r' vis ps st"
proof (induction r vis ps st rule: expand.induct)
  case (3 r vis inner ps st)
  note 3 [simp]
  show ?case
    apply (subst (1 2) expand.simps)
    apply (simp only: Let_def)
    apply (auto split: option.splits prod.splits)
    done
qed (auto split: prod.splits)

lemma Resolve_cong: "lookupScope r = lookupScope r' \<Longrightarrow> rs_fallback r = rs_fallback r' \<Longrightarrow> Resolve r = Resolve r'"
  by (rule ext) (simp add: Resolve_def expand_cong [of r r'])

definition same_outside :: "('d, 'x) world \<Rightarrow> ('d, 'x) world \<Rightarrow> bool" where
  "same_outside v w \<longleftrightarrow> w_sess v = w_sess w \<and> w_jar v = w_jar w \<and> w_ext v = w_ext w"

lemma same_resolver:
  assumes "same_outside v w"
  shows "Resolve (headless_resolver ee sn vs m v) = Resolve (ui_resolver ee sn [] vs m w)"
  using assms
  by (intro Resolve_cong)
    (auto simp: headless_resolver_def ui_resolver_def WithFallback_def New_resolver_def lookupScope_def
      same_outside_def fun_eq_iff split: option.splits)

lemma same_Do:
  assumes "same_outside v w"
  shows "fst (client_Do ee r f v) = fst (client_Do ee r f w) \<and>
    same_outside (snd (client_Do ee r f v)) (snd (client_Do ee r f w))"
  using assms by (auto simp: client_Do_def same_outside_def split: prod.splits)

lemma same_Do_to:
  assumes "same_outside v w"
  obtains x v1 w1 where "client_Do ee r f v = (x, v1)" "client_Do ee r f w = (x, w1)" "same_outside v1 w1"
  using same_Do [OF assms, of ee r f] by (cases "client_Do ee r f v"; cases "client_Do ee r f w") auto

lemma same_requester:
  assumes "same_outside v w"
  shows "fst (requester ee (headless_resolver ee sn vs m) spec v) = fst (requester ee (ui_resolver ee sn [] vs m) spec w) \<and>
    same_outside (snd (requester ee (headless_resolver ee sn vs m) spec v))
      (snd (requester ee (ui_resolver ee sn [] vs m) spec w))"
  by (rule same_Do_to [OF assms, of ee "ToRequest spec" "Resolve (ui_resolver ee sn [] vs m w)"])
    (auto simp: requester_def same_resolver [OF assms] split: sum.splits)

interpretation executors: host_sim same_outside "script_host ee sn (headless_resolver ee sn vs m) runControl"
    "script_host ee sn (ui_resolver ee sn [] vs m) None" for ee sn vs m
proof (unfold_locales, goal_cases)
  case (3 v w s)
  then show ?case by (simp add: script_host_def same_resolver)
next
  case (4 v w a)
  then show ?case
    using same_requester [OF 4] by (simp add: script_host_def send_request_def split: sum.split)
qed (auto simp: script_host_def same_outside_def bridge_Get_def bridge_Set_def runControl_def cookieLookup_def
    split: option.splits prod.splits)

lemma same_engine:
  "same_outside v w \<Longrightarrow> je_pre (lift_engine je) s q c v = je_pre (lift_engine je) s q c w"
  "same_outside v w \<Longrightarrow> je_post (lift_engine je) s q i c v = je_post (lift_engine je) s q i c w"
  by (simp_all add: lift_engine_def same_outside_def)

abbreviation headless_host where
  "headless_host ee sn vs m \<equiv> script_host ee sn (headless_resolver ee sn vs m) runControl"

abbreviation ui_host where
  "ui_host ee sn vs m \<equiv> script_host ee sn (ui_resolver ee sn [] vs m) None"

lemma same_pre:
  assumes "same_outside v w" and "RunPreRequest (lift_engine je) (headless_host ee sn vs m) s r ch v = (x, v1)"
  obtains w1 where "RunPreRequest (lift_engine je) (ui_host ee sn vs m) s r ch w = (x, w1)" "same_outside v1 w1"
proof
  note sim = executors.RunPreRequest_sim [OF assms(1) same_engine(1) [OF assms(1)]]
  show "RunPreRequest (lift_engine je) (ui_host ee sn vs m) s r ch w =
      (x, snd (RunPreRequest (lift_engine je) (ui_host ee sn vs m) s r ch w))"
    using sim assms(2) by (metis fst_conv prod.collapse)
  show "same_outside v1 (snd (RunPreRequest (lift_engine je) (ui_host ee sn vs m) s r ch w))"
    using sim assms(2) by (metis snd_conv)
qed

lemma same_post:
  assumes "same_outside v w" and "RunPostResponse (lift_engine je) (headless_host ee sn vs m) s r i ch v = (x, v1)"
  obtains w1 where "RunPostResponse (lift_engine je) (ui_host ee sn vs m) s r i ch w = (x, w1)" "same_outside v1 w1"
proof
  note sim = executors.RunPostResponse_sim [OF assms(1) same_engine(2) [OF assms(1)]]
  show "RunPostResponse (lift_engine je) (ui_host ee sn vs m) s r i ch w =
      (x, snd (RunPostResponse (lift_engine je) (ui_host ee sn vs m) s r i ch w))"
    using sim assms(2) by (metis fst_conv prod.collapse)
  show "same_outside v1 (snd (RunPostResponse (lift_engine je) (ui_host ee sn vs m) s r i ch w))"
    using sim assms(2) by (metis snd_conv)
qed

end
