(* ===== verification/Runner.thy ===== *)
theory Runner
  imports Exec SessionSearch
begin

text \<open>
  \<open>internal/runner\<close>: a headless run of every request below a node of the tree, with the chain,
  scripts and assertions of each, and the report.
\<close>

section \<open>Results\<close>

record Check =
  ch_Name :: string
  ch_Passed :: bool
  ch_Error :: string

record RequestResult =
  rr_Path :: string
  rr_Method :: string
  rr_URL :: string
  rr_StatusCode :: int
  rr_Duration :: int
  rr_Err :: string
  rr_Checks :: "Check list"
  rr_Skipped :: bool

definition result_OK :: "RequestResult \<Rightarrow> bool" where
  "result_OK r = (if rr_Err r \<noteq> [] then False else list_all ch_Passed (rr_Checks r))"

definition Report_Failed :: "RequestResult list \<Rightarrow> bool" where
  "Report_Failed rs = list_ex (\<lambda>r. \<not> result_OK r) rs"

definition Totals :: "RequestResult list \<Rightarrow> nat \<times> nat \<times> nat" where
  "Totals rs =
     (let cs = concat (map rr_Checks rs)
      in (length rs, length (filter ch_Passed cs), length (filter (\<lambda>c. \<not> ch_Passed c) cs)))"

section \<open>The requests of a run\<close>

text \<open>\<open>walk\<close>: a request, or the label of a folder before those of its children.\<close>

function walk_requests :: "collection list \<Rightarrow> string \<Rightarrow> string \<Rightarrow> (string \<times> string \<times> request) list" where
  "walk_requests cols i pre =
     (case Tree_Request cols i of
        Some r \<Rightarrow> [(i, if pre \<noteq> [] then pre @ ''/'' @ rq_Name r else rq_Name r, r)]
      | None \<Rightarrow>
          (let label = Label cols i;
               next_pre = (if CHR ''/'' \<in> set i \<and> label \<noteq> []
                           then (if pre \<noteq> [] then pre @ ''/'' @ label else label) else pre)
           in concat (map (\<lambda>c. walk_requests cols c next_pre) (ChildIDs cols i))))"
  by pat_completeness auto
termination
  by (relation "measure (\<lambda>(cols, i, p). below_size cols i)") (auto intro: below_child)

declare walk_requests.simps [simp del]

definition collectRequests :: "collection list \<Rightarrow> (string \<times> string \<times> request) list" where
  "collectRequests cols = concat (map (\<lambda>root. walk_requests cols root []) (ChildIDs cols []))"

definition collectRequestsFrom :: "collection list \<Rightarrow> string \<Rightarrow> (string \<times> string \<times> request) list" where
  "collectRequestsFrom cols scopeID =
     (if scopeID = [] then collectRequests cols
      else filter (\<lambda>(i, p, r). i = scopeID \<or> has_prefix i (scopeID @ ''/'')) (collectRequests cols))"

section \<open>One request\<close>

text \<open>The snapshots of \<open>runOne\<close>, in its order; reading the \<open>.env\<close> file fills a cache.\<close>

definition take_snaps :: "'d session_io \<Rightarrow> ('d, 'x) world \<Rightarrow> snaps \<times> ('d, 'x) world" where
  "take_snaps io w =
     (let s = w_sess w in
      (case activeDotEnvVars io s of
         (dot, s1) \<Rightarrow>
           (\<lparr>sn_global = globalVars s, sn_dotEnv = dot, sn_col = activeCollectionVars s1, sn_env = activeEnvVars s\<rparr>,
            w\<lparr>w_sess := s1\<rparr>)))"

definition nilFinder :: RequestFinder where
  "nilFinder = \<lparr>FindRequestByPath = (\<lambda>_. None), FindRequestByID = (\<lambda>_. None)\<rparr>"

text \<open>The finder of a request: a chainless one never consults it.\<close>

definition run_finder :: "request \<Rightarrow> 'd session \<Rightarrow> RequestFinder" where
  "run_finder leaf s =
     (if rq_Chain leaf = [] then nilFinder
      else (case SnapshotChainFinder s of Some f \<Rightarrow> snapshot_finder (Some f) | None \<Rightarrow> nilFinder))"

definition test_check :: "TestResult \<Rightarrow> Check" where
  "test_check t = \<lparr>ch_Name = te_Name t, ch_Passed = te_Passed t, ch_Error = te_Error t\<rparr>"

definition assertion_check :: "check_result \<Rightarrow> Check" where
  "assertion_check a = \<lparr>ch_Name = cr_Name a, ch_Passed = cr_Passed a, ch_Error = cr_Error a\<rparr>"

text \<open>\<open>chain_text\<close> prints the error of a chain.\<close>

definition runOne :: "'d session_io \<Rightarrow> 'x exec_env \<Rightarrow> 'f engines \<Rightarrow> (chain_error \<Rightarrow> string)
    \<Rightarrow> string \<times> string \<times> request \<Rightarrow> ('d, 'x) world \<Rightarrow> RequestResult \<times> ('d, 'x) world" where
  "runOne io ee eg chain_text ref w0 =
     (case ref of (i, path, rq) \<Rightarrow>
       (let res = \<lparr>rr_Path = path, rr_Method = rq_Method rq, rr_URL = [], rr_StatusCode = 0, rr_Duration = 0,
                   rr_Err = [], rr_Checks = [], rr_Skipped = False\<rparr>;
            leaf = rq\<lparr>rq_Auth := EffectiveAuth (w_sess w0) i\<rparr>
        in (case take_snaps io (w0\<lparr>w_skip := False\<rparr>) of
              (sn, w1) \<Rightarrow>
                (let finder = run_finder leaf (w_sess w1);
                     preOverlay = SnapshotEnvOverlay (w_sess w1);
                     restore = (\<lambda>w. w\<lparr>w_sess := RestoreEnvOverlay preOverlay (w_sess w)\<rparr>)
                 in (case chain_Resolve leaf finder (headless_ExecuteOnce ee sn) False w1 of
                       (Inl e, st) \<Rightarrow> (res\<lparr>rr_Err := ''chain: '' @ chain_text e\<rparr>, restore (ch_world st))
                     | (Inr m, st) \<Rightarrow>
                         (case executeOnce ee sn True leaf m ((ch_world st)\<lparr>w_skip := False\<rparr>) of
                            ((view, tests, err), w2) \<Rightarrow>
                              (let pv = vw_Response view;
                                   sent = res\<lparr>rr_URL := rv_URL (vw_Request view), rr_StatusCode := pv_StatusCode pv,
                                     rr_Duration := pv_Duration pv\<rparr>
                               in if w_skip w2
                                  then (res\<lparr>rr_Skipped := True, rr_Checks := map test_check tests\<rparr>, restore w2)
                                  else (case err of
                                      Some e \<Rightarrow>
                                        if pv_StatusCode pv = 0 then (sent\<lparr>rr_Err := e\<rparr>, restore w2)
                                        else (sent\<lparr>rr_Err := ''post-script: '' @ e,
                                                rr_Checks := map test_check tests @ map assertion_check
                                                  (Evaluate eg (rq_Assertions leaf) (pv_StatusCode pv)
                                                    (pv_Headers pv) (pv_Body pv))\<rparr>, restore w2)
                                    | None \<Rightarrow>
                                        (sent\<lparr>rr_Checks := map test_check tests @ map assertion_check
                                           (Evaluate eg (rq_Assertions leaf) (pv_StatusCode pv)
                                             (pv_Headers pv) (pv_Body pv))\<rparr>, restore w2)))))))))"

section \<open>A run\<close>

fun run_loop :: "'d session_io \<Rightarrow> 'x exec_env \<Rightarrow> 'f engines \<Rightarrow> (chain_error \<Rightarrow> string)
    \<Rightarrow> (string \<times> string \<times> request) list \<Rightarrow> ('d, 'x) world \<Rightarrow> RequestResult list \<times> ('d, 'x) world" where
  "run_loop io ee eg ct [] w = ([], w)"
| "run_loop io ee eg ct (ref # refs) w =
     (case runOne io ee eg ct ref w of
        (r, w1) \<Rightarrow> if w_stop w1 then ([r], w1)
                   else (case run_loop io ee eg ct refs w1 of (rs, w2) \<Rightarrow> (r # rs, w2)))"

definition RunScope :: "'d session_io \<Rightarrow> 'x exec_env \<Rightarrow> 'f engines \<Rightarrow> (chain_error \<Rightarrow> string) \<Rightarrow> string
    \<Rightarrow> ('d, 'x) world \<Rightarrow> RequestResult list \<times> ('d, 'x) world" where
  "RunScope io ee eg ct scopeID w =
     run_loop io ee eg ct (collectRequestsFrom (ss_cols (w_sess w)) scopeID) (w\<lparr>w_stop := False\<rparr>)"

section \<open>What a run leaves\<close>

lemma restore_overlay:
  "only_overlay base w \<Longrightarrow> RestoreEnvOverlay (SnapshotEnvOverlay base) (w_sess w) = base"
  unfolding only_overlay_def RestoreEnvOverlay_def SnapshotEnvOverlay_def
  by (cases base; cases "w_sess w") simp

lemma only_overlay_refl: "only_overlay (w_sess w) w"
  by (simp add: only_overlay_def)

lemma only_overlay_skip: "only_overlay base w \<Longrightarrow> only_overlay base (w\<lparr>w_skip := b\<rparr>)"
  by (simp add: only_overlay_def)

lemma runOne_session:
  assumes "take_snaps io (w0\<lparr>w_skip := False\<rparr>) = (sn, w1)"
  shows "w_sess (snd (runOne io ee eg ct ref w0)) = w_sess w1"
proof -
  obtain i path rq where ref: "ref = (i, path, rq)" by (metis prod.exhaust)
  let ?leaf = "rq\<lparr>rq_Auth := EffectiveAuth (w_sess w0) i\<rparr>"
  let ?finder = "run_finder ?leaf (w_sess w1)"
  obtain out st where c: "chain_Resolve ?leaf ?finder (headless_ExecuteOnce ee sn) False w1 = (out, st)" by force
  have st: "only_overlay (w_sess w1) (ch_world st)"
    by (metis c headless.Resolve_inv [OF only_overlay_refl] snd_conv)
  have w2: "only_overlay (w_sess w1) w2"
    if "executeOnce ee sn True ?leaf m ((ch_world st)\<lparr>w_skip := False\<rparr>) = (x, w2)" for m x w2
    by (metis that executeOnce_inv [OF world_inv_only_overlay only_overlay_skip [OF st]] snd_conv)
  show ?thesis
    using restore_overlay [OF st] w2 [THEN restore_overlay]
    by (auto simp: runOne_def ref assms Let_def c split: sum.splits prod.splits option.splits)
qed

end
