(* ===== verification/RunnerTree.thy ===== *)
theory RunnerTree
  imports Runner
begin

text \<open>
  Which requests a run visits. The walk over node IDs is compared with a recursion over the tree
  itself, and the scope of a run, a filter on ID prefixes, with the subtree of a folder.
\<close>

section \<open>The listing of a container\<close>

definition under_path :: "string \<Rightarrow> string \<Rightarrow> string" where
  "under_path p n = (if p \<noteq> [] then p @ ''/'' @ n else n)"

definition step_path :: "string \<Rightarrow> string \<Rightarrow> string" where
  "step_path p n = (if n \<noteq> [] then under_path p n else p)"

function folder_listing :: "string \<Rightarrow> string \<Rightarrow> folder \<Rightarrow> (string \<times> string \<times> request) list" where
  "folder_listing i p (Folder fi n fs rs a vs) =
     concat (map (\<lambda>(k, f). folder_listing (i @ ''/f'' @ itoa (int k)) (step_path p n) f) (zip [0..<length fs] fs)) @
     map (\<lambda>(k, r). (i @ ''/r'' @ itoa (int k), under_path (step_path p n) (rq_Name r), r)) (zip [0..<length rs] rs)"
  by pat_completeness auto
termination
  by (relation "measure (\<lambda>(i, p, f). size f)")
    (auto dest!: set_zip_rightD simp: less_Suc_eq_le trans_le_add1 size_list_estimation')

definition container_listing :: "string \<Rightarrow> string \<Rightarrow> folder list \<Rightarrow> request list \<Rightarrow> (string \<times> string \<times> request) list" where
  "container_listing i p fs rs =
     concat (map (\<lambda>(k, f). folder_listing (i @ ''/f'' @ itoa (int k)) p f) (zip [0..<length fs] fs)) @
     map (\<lambda>(k, r). (i @ ''/r'' @ itoa (int k), under_path p (rq_Name r), r)) (zip [0..<length rs] rs)"

lemma folder_listing_eq:
  "folder_listing i p f = container_listing i (step_path p (fo_Name f)) (fo_Folders f) (fo_Requests f)"
  by (cases f) (simp add: container_listing_def)

lemma concat_zip_upt:
  "concat (map (\<lambda>(k, f). g k f) (zip [0..<length fs] fs)) = concat (map (\<lambda>k. g k (fs ! k)) [0..<length fs])"
proof -
  have "map (\<lambda>(k, f). g k f) (zip [0..<length fs] fs) = map (\<lambda>k. g k (fs ! k)) [0..<length fs]"
    by (rule nth_equalityI) auto
  then show ?thesis by simp
qed

lemma map_zip_upt: "map (\<lambda>(k, f). g k f) (zip [0..<length fs] fs) = map (\<lambda>k. g k (fs ! k)) [0..<length fs]"
  by (rule nth_equalityI) auto

lemma concat_only:
  assumes "k < n" and "\<And>m. m \<noteq> k \<Longrightarrow> g m = []"
  shows "concat (map g [0..<n]) = g k"
proof -
  have "concat (map g ms) = []" if "k \<notin> set ms" for ms
    using that by (induction ms) (simp_all add: assms(2))
  moreover have "[0..<n] = [0..<k] @ k # [Suc k..<n]"
    using upt_add_eq_append [of 0 k "n - k"] upt_conv_Cons [OF assms(1)] assms(1) by simp
  moreover have "concat (map g [0..<k]) = []" "concat (map g [Suc k..<n]) = []"
    by (rule calculation(1), simp)+
  ultimately show ?thesis by (simp del: concat_eq_Nil_conv)
qed

lemma lastSegment_no_slash: "CHR ''/'' \<notin> set s \<Longrightarrow> lastSegment s = s"
  unfolding lastSegment_def by (subst last_index_byte_None [THEN iffD2]) simp_all

section \<open>The walk is the listing\<close>

lemma Tree_Request_folder_id: "Tree_Request cols (i @ CHR ''/'' # CHR ''f'' # nat_digits k) = None"
  using lastSegment_snoc [of "CHR ''f'' # nat_digits k" i]
  by (auto simp: Tree_Request_def seg_no_slash seg_index_other split: option.splits)

lemma Label_folder_id:
  assumes "containerAt cols i = Some (fs, rs)" and "k < length fs" and "go_sized cols"
  shows "Label cols (i @ CHR ''/'' # CHR ''f'' # nat_digits k) = fo_Name (fs ! k)"
proof -
  let ?j = "i @ CHR ''/'' # CHR ''f'' # nat_digits k"
  have seg: "lastSegment ?j = CHR ''f'' # nat_digits k" "parentID ?j = i"
    using lastSegment_snoc [of "CHR ''f'' # nat_digits k" i] parentID_snoc [of "CHR ''f'' # nat_digits k" i]
    by (simp_all add: seg_no_slash)
  have "length (split_on CHR ''/'' ?j) \<noteq> 1"
    by (subst split_on_snoc_gen) (simp_all add: seg_no_slash)
  with seg show ?thesis
    using assms(1,2) containerAt_lengths [OF assms(1,3)] by (simp add: Label_def nameAt_def seg_index_print)
qed

lemma walk_container:
  assumes "go_sized cols"
  shows "containerAt cols i = Some (fs, rs) \<Longrightarrow> Tree_Request cols i = None \<Longrightarrow>
    walk_requests cols i pre =
      container_listing i (if CHR ''/'' \<in> set i then step_path pre (Label cols i) else pre) fs rs"
proof (induction "container_size (fs, rs)" arbitrary: i fs rs pre rule: less_induct)
  case less
  let ?p = "if CHR ''/'' \<in> set i then step_path pre (Label cols i) else pre"
  have f: "walk_requests cols (i @ CHR ''/'' # CHR ''f'' # nat_digits k) ?p =
      folder_listing (i @ CHR ''/'' # CHR ''f'' # nat_digits k) ?p (fs ! k)" if k: "k < length fs" for k
  proof -
    have "containerAt cols (i @ CHR ''/'' # CHR ''f'' # nat_digits k) =
        Some (fo_Folders (fs ! k), fo_Requests (fs ! k))"
      using containerAt_folder [OF less.prems(1) k assms] by simp
    from less.hyps [OF container_size_child [OF k] this Tree_Request_folder_id, of ?p] show ?thesis
      using Label_folder_id [OF less.prems(1) k assms] by (simp add: folder_listing_eq)
  qed
  have r: "walk_requests cols (i @ CHR ''/'' # CHR ''r'' # nat_digits k) ?p =
      [(i @ CHR ''/'' # CHR ''r'' # nat_digits k, under_path ?p (rq_Name (rs ! k)), rs ! k)]"
    if "k < length rs" for k
    using Tree_Request_child [OF less.prems(1) that assms]
    by (subst walk_requests.simps) (simp add: under_path_def)
  have "i \<noteq> []" using less.prems(1) by (auto simp: containerAt_def col_index_def atoi_def)
  moreover have "(let label = Label cols i in if CHR ''/'' \<in> set i \<and> label \<noteq> []
      then (if pre \<noteq> [] then pre @ ''/'' @ label else label) else pre) = ?p"
    by (simp add: step_path_def under_path_def Let_def)
  ultimately have "walk_requests cols i pre =
      concat (map (\<lambda>c. walk_requests cols c ?p) (map (\<lambda>k. i @ CHR ''/'' # CHR ''f'' # nat_digits k) [0..<length fs] @
        map (\<lambda>k. i @ CHR ''/'' # CHR ''r'' # nat_digits k) [0..<length rs]))"
    using less.prems by (subst walk_requests.simps) (simp add: ChildIDs_def Let_def)
  also have "\<dots> = container_listing i ?p fs rs"
  proof -
    have "concat (map (\<lambda>k. walk_requests cols (i @ CHR ''/'' # CHR ''f'' # nat_digits k) ?p) [0..<length fs]) =
        concat (map (\<lambda>k. folder_listing (i @ CHR ''/'' # CHR ''f'' # nat_digits k) ?p (fs ! k)) [0..<length fs])"
      by (rule arg_cong [where f = concat]) (auto simp: f)
    moreover have "concat (map (\<lambda>k. walk_requests cols (i @ CHR ''/'' # CHR ''r'' # nat_digits k) ?p) [0..<length rs]) =
        concat (map (\<lambda>k. [(i @ CHR ''/'' # CHR ''r'' # nat_digits k, under_path ?p (rq_Name (rs ! k)), rs ! k)]) [0..<length rs])"
      by (rule arg_cong [where f = concat]) (auto simp: r)
    moreover have "concat (map (\<lambda>k. [h k]) ks) = map h ks" for h :: "nat \<Rightarrow> 'z" and ks
      by (induction ks) auto
    ultimately show ?thesis
      by (simp add: container_listing_def concat_zip_upt map_zip_upt comp_def del: map_concat)
  qed
  finally show ?case .
qed

section \<open>The scope of a run\<close>

definition ids :: "(string \<times> string \<times> request) list \<Rightarrow> string set" where
  "ids xs = fst ` set xs"

lemma ids_simps [simp]: "ids [] = {}" "ids (xs @ ys) = ids xs \<union> ids ys" "ids (concat xss) = \<Union> (ids ` set xss)"
  by (auto simp: ids_def)

lemma folder_ids: "j \<in> ids (folder_listing i p f) \<Longrightarrow> prefix (i @ ''/'') j \<and> (\<exists>c k. j = c @ ''/r'' @ itoa (int k))"
proof (induction i p f rule: folder_listing.induct)
  case (1 i p fi n fs rs a vs)
  from "1.prems" consider k where "k < length fs" "j \<in> ids (folder_listing (i @ ''/f'' @ itoa (int k)) (step_path p n) (fs ! k))"
    | k where "j = i @ ''/r'' @ itoa (int k)"
    by (auto simp: concat_zip_upt map_zip_upt simp del: itoa_nat) (auto simp: ids_def)
  then show ?case
  proof cases
    case (1 k)
    then have "(k, fs ! k) \<in> set (zip [0..<length fs] fs)" by (auto simp: in_set_zip intro!: exI [of _ k])
    from "1.IH" [OF this refl 1(2)] show ?thesis by (auto simp: prefix_def)
  next
    case (2 k)
    then show ?thesis by (auto simp: prefix_def)
  qed
qed

lemma container_ids:
  "j \<in> ids (container_listing i p fs rs) \<Longrightarrow> prefix (i @ ''/'') j \<and> (\<exists>c k. j = c @ ''/r'' @ itoa (int k))"
  using folder_ids [of j i p "Folder [] [] fs rs (auth_of_type []) []"]
  by (simp add: folder_listing_eq step_path_def)

text \<open>A segment with its separator is a prefix of another one only if they are equal.\<close>

lemma segment_prefix:
  assumes "prefix (i @ CHR ''/'' # s @ ''/'') j" and "prefix (i @ CHR ''/'' # t @ ''/'') j"
    and "CHR ''/'' \<notin> set s" and "CHR ''/'' \<notin> set t"
  shows "s = t"
proof -
  from assms(1) obtain u where "j = i @ CHR ''/'' # s @ CHR ''/'' # u" by (auto simp: prefix_def)
  moreover from assms(2) obtain v where "j = i @ CHR ''/'' # t @ CHR ''/'' # v" by (auto simp: prefix_def)
  ultimately have "s @ CHR ''/'' # u = t @ CHR ''/'' # v" by simp
  moreover have "takeWhile (\<lambda>c. c \<noteq> CHR ''/'') (x @ CHR ''/'' # y) = x" if "CHR ''/'' \<notin> set x" for x y
    using that by (induction x) auto
  ultimately show ?thesis using assms(3,4) by metis
qed

text \<open>The path of names along an index path.\<close>

fun path_along :: "string \<Rightarrow> folder list \<Rightarrow> nat list \<Rightarrow> string" where
  "path_along p fs [] = p"
| "path_along p fs (k # ks) = path_along (step_path p (fo_Name (fs ! k))) (fo_Folders (fs ! k)) ks"

abbreviation seg_path :: "nat list \<Rightarrow> string" where
  "seg_path ks \<equiv> concat (map (\<lambda>k. ''/f'' @ itoa (int k)) ks)"

lemma filter_scope:
  "container_along (fs, rs) ks = Some (fs', rs') \<Longrightarrow>
   filter (\<lambda>(j, q, r). prefix (i @ seg_path ks @ ''/'') j) (container_listing i p fs rs) =
     container_listing (i @ seg_path ks) (path_along p fs ks) fs' rs'"
proof (induction ks arbitrary: i p fs rs)
  case Nil
  have "prefix (i @ ''/'') j" if "(j, q, r) \<in> set (container_listing i p fs rs)" for j q r
    using container_ids [of j i p fs rs] that by (force simp: ids_def)
  then have "filter (\<lambda>(j, q, r). prefix (i @ ''/'') j) (container_listing i p fs rs) = container_listing i p fs rs"
    by (auto simp: filter_id_conv)
  with Nil show ?case by (simp add: case_prod_unfold)
next
  case (Cons k ks)
  from Cons.prems have k: "k < length fs"
    and sub: "container_along (fo_Folders (fs ! k), fo_Requests (fs ! k)) ks = Some (fs', rs')"
    by (auto split: if_splits)
  let ?P = "\<lambda>(j, q, r). prefix (i @ seg_path (k # ks) @ ''/'') j"
  let ?i = "\<lambda>m. i @ ''/f'' @ itoa (int m)"
  have other: "filter ?P (folder_listing (?i m) p (fs ! m)) = []" if m: "m \<noteq> k" for m
  proof -
    have False if j: "j \<in> ids (folder_listing (?i m) p (fs ! m))" and P: "prefix (i @ seg_path (k # ks) @ ''/'') j" for j
    proof -
      have "prefix (i @ CHR ''/'' # (CHR ''f'' # nat_digits m) @ ''/'') j" using folder_ids [OF j] by simp
      moreover have "prefix (i @ CHR ''/'' # (CHR ''f'' # nat_digits k) @ ''/'') j"
        using P by (cases ks) (auto simp: prefix_def)
      ultimately have "CHR ''f'' # nat_digits m = CHR ''f'' # nat_digits k"
        by (rule segment_prefix) (simp_all add: seg_no_slash)
      with m show False by simp
    qed
    then show ?thesis by (force simp: filter_empty_conv ids_def)
  qed
  have req: "\<not> prefix (i @ seg_path (k # ks) @ ''/'') (i @ ''/r'' @ itoa (int m))" for m
    by (auto simp: prefix_def)
  have same: "filter ?P (folder_listing (?i k) p (fs ! k)) =
      container_listing (i @ seg_path (k # ks)) (path_along p fs (k # ks)) fs' rs'"
    using Cons.IH [OF sub, of "?i k" "step_path p (fo_Name (fs ! k))"] by (simp add: folder_listing_eq case_prod_unfold)
  have "filter ?P (container_listing i p fs rs) =
      concat (map (\<lambda>m. filter ?P (folder_listing (?i m) p (fs ! m))) [0..<length fs])"
    using req by (simp add: container_listing_def concat_zip_upt map_zip_upt filter_concat comp_def filter_map
        del: itoa_nat)
  also have "\<dots> = filter ?P (folder_listing (?i k) p (fs ! k))"
    by (rule concat_only [OF k other])
  finally show ?case by (simp only: same)
qed

lemma collectRequests_listing:
  assumes "go_sized cols"
  shows "collectRequests cols =
    concat (map (\<lambda>ci. container_listing (itoa (int ci)) [] (co_Folders (cols ! ci)) (co_Requests (cols ! ci)))
      [0..<length cols])"
proof -
  have "walk_requests cols (itoa (int ci)) [] =
      container_listing (itoa (int ci)) [] (co_Folders (cols ! ci)) (co_Requests (cols ! ci))"
    if "ci < length cols" for ci
  proof -
    have "Tree_Request cols (itoa (int ci)) = None"
      using nat_digits_hd [of ci]
      by (auto simp: Tree_Request_def lastSegment_no_slash [OF seg_no_slash] seg_index_def is_digit_def
          split: option.splits)
    from walk_container [OF assms containerAt_col [OF that assms] this, of "[]"] show ?thesis
      by (simp add: seg_no_slash)
  qed
  then have "map (\<lambda>root. walk_requests cols root []) (ChildIDs cols []) =
      map (\<lambda>ci. container_listing (itoa (int ci)) [] (co_Folders (cols ! ci)) (co_Requests (cols ! ci)))
        [0..<length cols]"
    by (simp add: ChildIDs_def comp_def)
  then show ?thesis by (simp add: collectRequests_def)
qed

text \<open>
  C34 A run scoped to a folder executes exactly the requests of its subtree, in tree order, each
  once and with its path from the root of the collection: the filter on ID prefixes neither
  misses a request nor takes one from a sibling whose ID continues the same digits.
\<close>

theorem run_scope_is_subtree:
  assumes "go_sized cols" and "ci < length cols"
    and "container_along (co_Folders (cols ! ci), co_Requests (cols ! ci)) ks = Some (fs, rs)"
  shows "collectRequestsFrom cols (path_id ci ks) =
    container_listing (path_id ci ks) (path_along [] (co_Folders (cols ! ci)) ks) fs rs"
proof -
  let ?S = "path_id ci ks"
  let ?L = "\<lambda>c. container_listing (itoa (int c)) [] (co_Folders (cols ! c)) (co_Requests (cols ! c))"
  let ?P = "\<lambda>(j, p, r). prefix (?S @ ''/'') j"
  have sub: "filter ?P (?L ci) = container_listing ?S (path_along [] (co_Folders (cols ! ci)) ks) fs rs"
    using filter_scope [OF assms(3), of "itoa (int ci)" "[]"] by (simp add: path_id_def case_prod_unfold)
  have other: "filter ?P (?L c) = []" if "c \<noteq> ci" for c
  proof -
    have False if j: "j \<in> ids (?L c)" and P: "prefix (?S @ ''/'') j" for j
    proof -
      have "prefix ([] @ CHR ''/'' # nat_digits c @ ''/'') (CHR ''/'' # j)" using container_ids [OF j] by simp
      moreover have "prefix ([] @ CHR ''/'' # nat_digits ci @ ''/'') (CHR ''/'' # j)"
        using P by (cases ks) (auto simp: path_id_def prefix_def)
      ultimately have "nat_digits c = nat_digits ci" by (rule segment_prefix) (simp_all add: seg_no_slash)
      with \<open>c \<noteq> ci\<close> show False by simp
    qed
    then show ?thesis by (force simp: filter_empty_conv ids_def)
  qed
  have noS: "j \<noteq> ?S" if "j \<in> ids (collectRequests cols)" for j
  proof -
    from that obtain c where "j \<in> ids (?L c)" by (auto simp: collectRequests_listing [OF assms(1)])
    then obtain c k where j: "j = c @ ''/r'' @ itoa (int k)" using container_ids by blast
    then have "lastSegment j = CHR ''r'' # nat_digits k"
      using lastSegment_snoc [of "CHR ''r'' # nat_digits k" c] by (simp add: seg_no_slash)
    moreover have "hd (lastSegment ?S) \<noteq> CHR ''r''"
    proof (cases ks rule: rev_cases)
      case Nil
      then show ?thesis using nat_digits_hd [of ci]
        by (auto simp: path_id_Nil lastSegment_no_slash [OF seg_no_slash] is_digit_def)
    next
      case (snoc ks' k')
      then show ?thesis
        using lastSegment_snoc [of "CHR ''f'' # nat_digits k'" "path_id ci ks'"] by (simp add: path_id_snoc seg_no_slash)
    qed
    ultimately show ?thesis by auto
  qed
  have "collectRequestsFrom cols ?S = filter ?P (collectRequests cols)"
    using noS by (auto simp: collectRequestsFrom_def ids_def intro!: filter_cong) force
  also have "\<dots> = concat (map (\<lambda>c. filter ?P (?L c)) [0..<length cols])"
    by (simp add: collectRequests_listing [OF assms(1)] filter_concat comp_def)
  also have "\<dots> = filter ?P (?L ci)" by (rule concat_only [OF assms(2) other])
  finally show ?thesis by (simp only: sub)
qed

theorem run_scope_is_subtree_witness:
  "map (\<lambda>(i, p, r). (i, p)) (collectRequestsFrom tree_example ''0/f0/f0'') =
     [(''0/f0/f0/r0'', ''Users/Admin/''), (''0/f0/f0/r1'', ''Users/Admin/ban'')]"
proof -
  let ?f = "hd (fo_Folders (hd (co_Folders (hd tree_example))))"
  have c: "container_along (co_Folders (tree_example ! 0), co_Requests (tree_example ! 0)) [0, 0] =
      Some (fo_Folders ?f, fo_Requests ?f)"
    by (simp add: tree_example_def zero_collection_def)
  have i: "path_id 0 [0, 0] = ''0/f0/f0''" by code_simp
  have l: "0 < length tree_example" by (simp add: tree_example_def)
  show ?thesis unfolding run_scope_is_subtree [OF tree_example_sized l c, unfolded i] by code_simp
qed

end
