(* ===== verification/RunnerProps.thy ===== *)
theory RunnerProps
  imports RunnerTree
begin

text \<open>Properties of a run: what it leaves, when it ends, what it reports.\<close>

section \<open>A run leaves the session alone\<close>

lemma take_snaps_session:
  "take_snaps io w = (sn, w1) \<Longrightarrow> w_sess w1\<lparr>ss_dotEnv := d\<rparr> = (w_sess w)\<lparr>ss_dotEnv := d\<rparr>"
  by (auto simp: take_snaps_def activeDotEnvVars_def Let_def split: prod.splits if_splits option.splits)

lemma runOne_keeps:
  "w_sess (snd (runOne io ee eg ct ref w))\<lparr>ss_dotEnv := d\<rparr> = (w_sess w)\<lparr>ss_dotEnv := d\<rparr>"
proof -
  obtain sn w1 where t: "take_snaps io (w\<lparr>w_skip := False\<rparr>) = (sn, w1)" by force
  from runOne_session [OF t, of ee eg ct ref] take_snaps_session [OF t, of d] show ?thesis by simp
qed

lemma run_loop_keeps:
  "w_sess (snd (run_loop io ee eg ct refs w))\<lparr>ss_dotEnv := d\<rparr> = (w_sess w)\<lparr>ss_dotEnv := d\<rparr>"
proof (induction refs arbitrary: w)
  case (Cons ref refs)
  obtain r w1 where 1: "runOne io ee eg ct ref w = (r, w1)" by force
  with runOne_keeps [where io = io and ee = ee and eg = eg and ct = ct and ref = ref and w = w and d = d] have "w_sess w1\<lparr>ss_dotEnv := d\<rparr> = (w_sess w)\<lparr>ss_dotEnv := d\<rparr>" by simp
  with 1 Cons.IH [of w1] show ?case by (auto split: prod.splits)
qed simp

text \<open>
  Whatever the scripts do, a run leaves the session as it found it: collections, configuration,
  disk and the variable overlay are the same after the last request, and only the cache of parsed
  \<open>.env\<close> files may have grown.
\<close>

theorem run_keeps_session:
  "w_sess (snd (RunScope io ee eg ct scope w))\<lparr>ss_dotEnv := d\<rparr> = (w_sess w)\<lparr>ss_dotEnv := d\<rparr>"
  using run_loop_keeps [where io = io and ee = ee and eg = eg and ct = ct and w = "w\<lparr>w_stop := False\<rparr>" and d = d]
  by (simp add: RunScope_def)

section \<open>A run ends with its list or with a stop\<close>

lemma runOne_path: "rr_Path (fst (runOne io ee eg ct (i, p, r) w)) = p"
  by (auto simp: runOne_def Let_def split: prod.splits sum.splits option.splits)

lemma run_loop_prefix:
  "(let (rs, w') = run_loop io ee eg ct refs w in
    map rr_Path rs = take (length rs) (map (\<lambda>(i, p, r). p) refs) \<and> (rs = []) = (refs = []) \<and>
    (length rs = length refs \<or> w_stop w'))"
proof (induction refs arbitrary: w)
  case (Cons ref refs)
  obtain i p q where ref: "ref = (i, p, q)" by (metis prod.exhaust)
  obtain r w1 where 1: "runOne io ee eg ct ref w = (r, w1)" by force
  then have "rr_Path r = p" using runOne_path [of io ee eg ct i p q w] by (simp add: ref)
  with 1 Cons.IH [of w1] show ?case by (auto simp: ref Let_def split: prod.splits)
qed simp


section \<open>The report\<close>

text \<open>
  The verdict of a report agrees with its totals: a run failed exactly when a request has an
  error or the number of failed checks is positive, and passed and failed checks add up.
\<close>

theorem report_verdict:
  "Report_Failed rs = (list_ex (\<lambda>r. rr_Err r \<noteq> []) rs \<or> 0 < snd (snd (Totals rs))) \<and>
   fst (snd (Totals rs)) + snd (snd (Totals rs)) = length (concat (map rr_Checks rs)) \<and> fst (Totals rs) = length rs"
proof -
  let ?cs = "concat (map rr_Checks rs)"
  have "0 < length (filter (\<lambda>c. \<not> ch_Passed c) cs) \<longleftrightarrow> list_ex (\<lambda>c. \<not> ch_Passed c) cs" for cs :: "Check list"
    by (induction cs) auto
  moreover have "list_ex (\<lambda>c. \<not> ch_Passed c) ?cs \<longleftrightarrow> list_ex (\<lambda>r. \<not> list_all ch_Passed (rr_Checks r)) rs"
    by (auto simp: list_ex_iff list_all_iff)
  ultimately have "0 < snd (snd (Totals rs)) \<longleftrightarrow> list_ex (\<lambda>r. \<not> list_all ch_Passed (rr_Checks r)) rs"
    by (simp only: Totals_def Let_def snd_conv)
  moreover have "Report_Failed rs = (list_ex (\<lambda>r. rr_Err r \<noteq> []) rs \<or> list_ex (\<lambda>r. \<not> list_all ch_Passed (rr_Checks r)) rs)"
    by (induction rs) (auto simp: Report_Failed_def result_OK_def)
  moreover have "length (filter ch_Passed ?cs) + length (filter (\<lambda>c. \<not> ch_Passed c) ?cs) = length ?cs"
    by (rule sum_length_filter_compl)
  ultimately show ?thesis by (simp add: Totals_def Let_def)
qed

section \<open>What a run reports wrongly\<close>

text \<open>
  Two scripts: one skips after the response, one skips and then throws before the send. The
  client answers every request with \<open>resp\<close>.
\<close>

definition no_js_request :: js_request where
  "no_js_request = \<lparr>jq_method = None, jq_url = None, jq_body = None, jq_headers = None, jq_params = None,
     jq_form = None\<rparr>"

definition skip_env :: "Response \<Rightarrow> unit exec_env" where
  "skip_env resp =
     \<lparr>ee_Do = (\<lambda>r f jx. (Inr resp, jx)),
      ee_engine =
        \<lparr>je_pre = (\<lambda>s r c w. JSkip (JReturn \<lparr>jx_err = Some ''boom'', jx_readErr = None, jx_request = no_js_request\<rparr>)),
         je_post = (\<lambda>s r i c w. JSkip (JReturn \<lparr>jx_err = None, jx_readErr = None, jx_request = no_js_request\<rparr>))\<rparr>,
      ee_Dynamic = (\<lambda>x n. None), ee_Parse = (\<lambda>s. None), ee_now = (\<lambda>x. 0)\<rparr>"

definition skip_late :: request where
  "skip_late = zero_request\<lparr>rq_Scripts := \<lparr>sc_PreRequest = [], sc_PostResponse = ''s''\<rparr>\<rparr>"

definition skip_throw :: request where
  "skip_throw = zero_request\<lparr>rq_Scripts := \<lparr>sc_PreRequest = ''s'', sc_PostResponse = []\<rparr>\<rparr>"

lemma snaps_exist: "\<exists>sn w1. take_snaps io w = (sn, w1) \<and> w_skip w1 = w_skip w"
  by (auto simp: take_snaps_def Let_def split: prod.splits)

lemma chainless: "rq_Chain r = [] \<Longrightarrow> chain_Resolve r f e p w = (Inr Map.empty, start_state r w)"
  by (simp add: chain_Resolve_def resolveSteps_def MaxChainDepth_def)

text \<open>
  A post-response script that calls \<open>skip\<close> hides a request that was sent: whatever the server
  answered, the report shows it as skipped and OK, with status 0, no URL and none of its
  assertions evaluated.
\<close>

theorem late_skip_hides_response:
  "let r = fst (runOne io (skip_env resp) eg ct (i, p, skip_late) w)
   in rr_Skipped r \<and> result_OK r \<and> rr_StatusCode r = 0 \<and> rr_URL r = [] \<and> rr_Checks r = []"
proof -
  obtain sn w1 where t: "take_snaps io (w\<lparr>w_skip := False\<rparr>) = (sn, w1)" by force
  have s: "trim_space ''s'' = ''s''" "trim_space [] = []" by code_simp+
  show ?thesis
    by (simp add: s runOne_def t Let_def skip_late_def zero_request_def chainless start_state_def executeOnce_def
        RunPreRequest_def RunPostResponse_def client_Do_def skip_env_def lift_engine_def script_host_def
        runControl_def new_capture_def result_OK_def split: prod.splits)
qed

text \<open>
  A pre-request script that calls \<open>skip\<close> and then throws is reported as an OK skip: the error
  of the script is dropped.
\<close>

theorem skip_hides_error:
  "let r = fst (runOne io (skip_env resp) eg ct (i, p, skip_throw) w)
   in rr_Skipped r \<and> rr_Err r = [] \<and> result_OK r"
proof -
  obtain sn w1 where t: "take_snaps io (w\<lparr>w_skip := False\<rparr>) = (sn, w1)" by force
  have s: "trim_space ''s'' = ''s''" "trim_space [] = []" by code_simp+
  show ?thesis
    by (simp add: s runOne_def t Let_def skip_throw_def zero_request_def chainless start_state_def executeOnce_def
        RunPreRequest_def skip_env_def lift_engine_def script_host_def runControl_def new_capture_def result_OK_def
        split: prod.splits)
qed

lemma map_of_enabledVars_append:
  "map_of (enabledVars (vs @ ws)) n = (case map_of (enabledVars ws) n of Some v \<Rightarrow> Some v | None \<Rightarrow> map_of (enabledVars vs) n)"
  by (simp add: enabledVars_def map_add_def split: option.splits)

lemma enabledVars_folder:
  "enabledVars (map (\<lambda>(k, v). \<lparr>vr_Enabled = True, vr_Key = k, vr_Value = v, vr_Secret = False\<rparr>) folder) = rev folder"
  by (auto simp: enabledVars_def filter_map comp_def case_prod_unfold)

lemma map_of_withFolderVars:
  assumes "distinct (map fst folder)"
  shows "map_of (enabledVars (withFolderVars folder own)) n =
     (case map_of (enabledVars own) n of Some v \<Rightarrow> Some v | None \<Rightarrow> map_of folder n)"
proof -
  have "map_of (rev folder) = map_of folder"
    using assms by (intro map_of_inject_set [THEN iffD2]) (auto simp: rev_map [symmetric])
  then show ?thesis by (simp only: withFolderVars_def map_of_enabledVars_append enabledVars_folder)
qed

text \<open>
  A run does not resolve variables as a send does: a name that only a folder above the request
  defines is the folder's value in the UI, and in a run falls through to the scopes below, up to
  not being defined at all.
\<close>

theorem run_misses_folder_vars:
  assumes "distinct (map fst folder)" and "map_of folder n = Some v" and "map_of (enabledVars own) n = None"
    and "EnvOverlay n (w_sess w) = None"
  shows "lookupScope (ui_resolver ee sn [] (withFolderVars folder own) m w) n = Some v \<and>
    lookupScope (headless_resolver ee sn own m w) n = lookup_first [sn_env sn, sn_col sn, sn_dotEnv sn, sn_global sn] n"
  using assms
  by (simp add: lookupScope_def ui_resolver_def headless_resolver_def WithFallback_def New_resolver_def
      map_of_withFolderVars SnapshotEnvOverlay_def EnvOverlay_def)

definition sample_world :: "(unit, unit) world" where
  "sample_world = \<lparr>w_sess = sample_session, w_jar = \<lparr>jr_m = [], jr_seq = 0\<rparr>, w_ext = (), w_stop = False, w_skip = False\<rparr>"

definition no_snaps :: snaps where
  "no_snaps = \<lparr>sn_global = [], sn_dotEnv = [], sn_col = [], sn_env = []\<rparr>"

definition ok_response :: Response where
  "ok_response = \<lparr>hr_View = \<lparr>pv_StatusCode = 200, pv_Status = ''200 OK'', pv_Headers = [], pv_Body = [], pv_Size = 0,
     pv_Duration = 1, pv_CORSWarning = []\<rparr>, hr_RequestURL = ''http://a/'', hr_RequestBody = []\<rparr>"

theorem run_misses_folder_vars_witness:
  "lookupScope (ui_resolver (skip_env ok_response) no_snaps [] (withFolderVars [(''base'', ''http://a'')] []) Map.empty
       sample_world) ''base'' = Some ''http://a'' \<and>
   lookupScope (headless_resolver (skip_env ok_response) no_snaps [] Map.empty sample_world) ''base'' = None"
  using run_misses_folder_vars [of "[(''base'', ''http://a'')]" "''base''" "''http://a''" "[]" sample_world
      "skip_env ok_response" no_snaps Map.empty]
  by (simp add: enabledVars_def EnvOverlay_def sample_world_def sample_session_def no_snaps_def)

text \<open>
  A run without a scope executes the requests of every open collection in turn, although each
  of them is resolved with the variables, environment and chain targets of the active one.
\<close>

theorem run_spans_collections:
  assumes "go_sized cols"
  shows "collectRequestsFrom cols [] =
    concat (map (\<lambda>ci. container_listing (itoa (int ci)) [] (co_Folders (cols ! ci)) (co_Requests (cols ! ci)))
      [0..<length cols])"
  using collectRequests_listing [OF assms] by (simp add: collectRequestsFrom_def)

definition two_collections :: "collection list" where
  "two_collections = [zero_collection\<lparr>co_Name := ''A'', co_Requests := [zero_request\<lparr>rq_Name := ''x''\<rparr>]\<rparr>,
     zero_collection\<lparr>co_Name := ''B'', co_Requests := [zero_request\<lparr>rq_Name := ''y''\<rparr>]\<rparr>]"

theorem run_spans_collections_witness:
  "map (\<lambda>(i, p, r). p) (collectRequestsFrom two_collections []) = [''x'', ''y'']"
proof -
  have "go_sized two_collections" by code_simp
  from run_spans_collections [OF this] show ?thesis
    by (simp add: two_collections_def zero_collection_def zero_request_def container_listing_def under_path_def upt_rec)
qed

text \<open>
  C2 A chain step runs the same headlessly and in the UI: on worlds that agree outside the runner
  flags, with no prompt values, both executors send the same request and produce the same view,
  fail in the same cases and leave the same session, jar and outside world.
\<close>

theorem executors_agree:
  assumes "same_outside v w"
  shows "(case (headless_ExecuteOnce ee sn r m v, ui_ExecuteOnce ee eg sn [] r m w) of
     (((view, con, err), v'), ((view', con', err'), w')) \<Rightarrow>
        view = view' \<and> (err = None) = (err' = None) \<and> same_outside v' w')"
proof -
  let ?je = "lift_engine (ee_engine ee)"
  let ?ch = "chainViewToScripting m"
  let ?h = "headless_host ee sn (rq_Variables r) m"
  let ?g = "ui_host ee sn (rq_Variables r) m"
  obtain r1 cp e v1 where p: "RunPreRequest ?je ?h (sc_PreRequest (rq_Scripts r)) r ?ch v = ((r1, cp, e), v1)"
    by (metis prod.exhaust)
  then obtain w1 where q: "RunPreRequest ?je ?g (sc_PreRequest (rq_Scripts r)) r ?ch w = ((r1, cp, e), w1)"
    and s1: "same_outside v1 w1" by (rule same_pre [OF assms])
  obtain x v2 w2 where d: "client_Do ee r1 (Resolve (headless_resolver ee sn (rq_Variables r) m v1)) v1 = (x, v2)"
    "client_Do ee r1 (Resolve (ui_resolver ee sn [] (rq_Variables r) m w1)) w1 = (x, w2)"
    and s2: "same_outside v2 w2"
    by (rule same_Do_to [OF s1]) (simp add: same_resolver [OF s1])
  show ?thesis
  proof (cases e)
    case (Some msg)
    with s1 show ?thesis
      by (simp add: headless_ExecuteOnce_def executeOnce_def ui_ExecuteOnce_def Let_def p q)
  next
    case None
    show ?thesis
    proof (cases x)
      case (Inl msg)
      with None s2 show ?thesis
        by (simp add: headless_ExecuteOnce_def executeOnce_def ui_ExecuteOnce_def Let_def p q d)
    next
      case (Inr resp)
      obtain c e2 v3 where p3: "RunPostResponse ?je ?h (sc_PostResponse (rq_Scripts r1)) r1
          (to_input (hr_View resp)) ?ch v2 = ((c, e2), v3)" by (metis prod.exhaust)
      then obtain w3 where q3: "RunPostResponse ?je ?g (sc_PostResponse (rq_Scripts r1)) r1
          (to_input (hr_View resp)) ?ch w2 = ((c, e2), w3)" and s3: "same_outside v3 w3"
        by (rule same_post [OF s2])
      from None Inr s3 show ?thesis
        by (cases e2) (simp_all add: headless_ExecuteOnce_def executeOnce_def ui_ExecuteOnce_def Let_def p q d p3 q3)
    qed
  qed
qed

theorem executors_agree_witness:
  "fst (fst (headless_ExecuteOnce (skip_env ok_response) no_snaps zero_request Map.empty sample_world)) =
   fst (fst (ui_ExecuteOnce (skip_env ok_response) toy_engines no_snaps [] zero_request Map.empty sample_world))"
proof -
  have "same_outside sample_world sample_world" by (simp add: same_outside_def)
  from executors_agree [OF this, of "skip_env ok_response" no_snaps zero_request Map.empty toy_engines]
  show ?thesis by (auto split: prod.splits)
qed

end
