(* ===== verification/OpenCollection.thy ===== *)
theory OpenCollection
  imports ApiModel
begin

text \<open>
  \<open>internal/storage/opencollection.go\<close>: the records of the files on disk and their conversions
  from and to the model. Every file record carries an \<open>Extra\<close> map with the keys the program does
  not know, whose values are YAML nodes, the type parameter. A Go map is an association list. The
  identities that the code draws with \<open>model.NewID\<close> are a function of a counter, threaded along.
\<close>

type_synonym 'n extra = "(string \<times> 'n) list"

section \<open>The file records\<close>

record 'n ocInfo =
  oi_Name :: string
  oi_ID :: string
  oi_Type :: string
  oi_Seq :: int
  oi_Tags :: "string list"
  oi_Extra :: "'n extra"

record 'n ocKV =
  ok_Name :: string
  ok_Value :: string
  ok_Disabled :: bool
  ok_Extra :: "'n extra"

record 'n ocParam =
  op_Name :: string
  op_Value :: string
  op_Type :: string
  op_Disabled :: bool
  op_Extra :: "'n extra"

record 'n ocBody =
  ob_Type :: string
  ob_Data :: string
  ob_FilePath :: string
  ob_ContentType :: string
  ob_GraphQLVars :: string
  ob_Extra :: "'n extra"

record 'n ocEnvVar =
  ov_Name :: string
  ov_Value :: string
  ov_Disabled :: bool
  ov_Secret :: bool
  ov_Extra :: "'n extra"

record 'n ocAssertion =
  oa_Source :: string
  oa_Op :: string
  oa_Expected :: string
  oa_Disabled :: bool
  oa_Extra :: "'n extra"

record 'n ocChainStep =
  oc_Alias :: string
  oc_Request :: string
  oc_RequestID :: string
  oc_Extra :: "'n extra"

record 'n ocScripts =
  os_PreRequest :: string
  os_PostResponse :: string
  os_Extra :: "'n extra"

text \<open>
  The authentication blocks of the file have the fields of the model's records (see \<open>ApiModel\<close>)
  and the map of unknown keys.
\<close>

record 'n ocAuthBasic = basic_auth +
  ba_Extra :: "'n extra"

record 'n ocAuthBearer = bearer_auth +
  be_Extra :: "'n extra"

record 'n ocAuthAPIKey = apikey_auth +
  ak_Extra :: "'n extra"

record 'n ocAuthOAuth2 = oauth2_auth +
  o2_Extra :: "'n extra"

record 'n ocAuthWSSE = wsse_auth +
  ws_Extra :: "'n extra"

record 'n ocAuthOAuth1 = oauth1_auth +
  o1_Extra :: "'n extra"

record 'n ocAuthAWSV4 = awsv4_auth +
  aw_Extra :: "'n extra"

record 'n ocAuthDigest = digest_auth +
  di_Extra :: "'n extra"

record 'n ocAuthNTLM = ntlm_auth +
  nt_Extra :: "'n extra"

record 'n ocAuth =
  ou_Type :: string
  ou_Basic :: "'n ocAuthBasic option"
  ou_Bearer :: "'n ocAuthBearer option"
  ou_APIKey :: "'n ocAuthAPIKey option"
  ou_OAuth2 :: "'n ocAuthOAuth2 option"
  ou_WSSE :: "'n ocAuthWSSE option"
  ou_OAuth1 :: "'n ocAuthOAuth1 option"
  ou_AWSV4 :: "'n ocAuthAWSV4 option"
  ou_Digest :: "'n ocAuthDigest option"
  ou_NTLM :: "'n ocAuthNTLM option"
  ou_Extra :: "'n extra"

record 'n ocHTTP =
  oh_Method :: string
  oh_URL :: string
  oh_Headers :: "'n ocKV list"
  oh_Params :: "'n ocParam list"
  oh_Body :: "'n ocBody option"
  oh_Auth :: "'n ocAuth option"
  oh_Extra :: "'n extra"

record 'n ocRequestFile =
  of_Info :: "'n ocInfo"
  of_HTTP :: "'n ocHTTP option"
  of_Docs :: string
  of_Scripts :: "'n ocScripts option"
  of_Chain :: "'n ocChainStep list"
  of_Assertions :: "'n ocAssertion list"
  of_Vars :: "'n ocEnvVar list"
  of_Extra :: "'n extra"

text \<open>\<open>ocFolderFile\<close> and \<open>ocCollectionFile\<close> have the same fields.\<close>

record 'n ocFolderFile =
  ff_Info :: "'n ocInfo"
  ff_Auth :: "'n ocAuth option"
  ff_Vars :: "'n ocEnvVar list"
  ff_Extra :: "'n extra"

record 'n ocCollectionFile =
  cl_Info :: "'n ocInfo"
  cl_Auth :: "'n ocAuth option"
  cl_Vars :: "'n ocEnvVar list"
  cl_Extra :: "'n extra"

record 'n ocEnvironmentFile =
  en_Info :: "'n ocInfo"
  en_Vars :: "'n ocEnvVar list"
  en_Extra :: "'n extra"

definition info :: "string \<Rightarrow> string \<Rightarrow> string \<Rightarrow> int \<Rightarrow> 'n ocInfo" where
  "info name i t sq =
     \<lparr>oi_Name = name, oi_ID = i, oi_Type = t, oi_Seq = sq, oi_Tags = [], oi_Extra = []\<rparr>"

section \<open>Rows\<close>

definition assertionsToFile :: "assertion list \<Rightarrow> 'n ocAssertion list" where
  "assertionsToFile = map (\<lambda>a. \<lparr>oa_Source = as_Source a, oa_Op = as_Op a, oa_Expected = as_Expected a,
     oa_Disabled = (\<not> as_Enabled a), oa_Extra = []\<rparr>)"

definition fileToAssertions :: "'n ocAssertion list \<Rightarrow> assertion list" where
  "fileToAssertions = map (\<lambda>a. \<lparr>as_Enabled = (\<not> oa_Disabled a), as_Source = oa_Source a, as_Op = oa_Op a,
     as_Expected = oa_Expected a\<rparr>)"

definition chainToFile :: "chain_step list \<Rightarrow> 'n ocChainStep list" where
  "chainToFile = map (\<lambda>s. \<lparr>oc_Alias = cs_Alias s, oc_Request = cs_Request s, oc_RequestID = cs_RequestID s,
     oc_Extra = []\<rparr>)"

definition fileToChain :: "'n ocChainStep list \<Rightarrow> chain_step list" where
  "fileToChain = map (\<lambda>s. \<lparr>cs_Alias = oc_Alias s, cs_Request = oc_Request s, cs_RequestID = oc_RequestID s\<rparr>)"

definition scriptsToFile :: "scripts \<Rightarrow> 'n ocScripts option" where
  "scriptsToFile s =
     (if sc_PreRequest s = [] \<and> sc_PostResponse s = [] then None
      else Some \<lparr>os_PreRequest = sc_PreRequest s, os_PostResponse = sc_PostResponse s, os_Extra = []\<rparr>)"

definition fileToScripts :: "'n ocScripts option \<Rightarrow> scripts" where
  "fileToScripts f =
     (case f of None \<Rightarrow> \<lparr>sc_PreRequest = [], sc_PostResponse = []\<rparr>
      | Some s \<Rightarrow> \<lparr>sc_PreRequest = os_PreRequest s, sc_PostResponse = os_PostResponse s\<rparr>)"

definition varsToFile :: "var_row list \<Rightarrow> 'n ocEnvVar list" where
  "varsToFile = map (\<lambda>v. \<lparr>ov_Name = vr_Key v, ov_Value = vr_Value v, ov_Disabled = (\<not> vr_Enabled v),
     ov_Secret = vr_Secret v, ov_Extra = []\<rparr>)"

definition fileToVars :: "'n ocEnvVar list \<Rightarrow> var_row list" where
  "fileToVars = map (\<lambda>v. \<lparr>vr_Enabled = (\<not> ov_Disabled v), vr_Key = ov_Name v, vr_Value = ov_Value v,
     vr_Secret = ov_Secret v\<rparr>)"

section \<open>Authentication\<close>

text \<open>Only the block of the scheme in use is written.\<close>

definition authToFile :: "auth \<Rightarrow> 'n ocAuth option" where
  "authToFile a =
     (let t = auth_Type a;
          out = \<lparr>ou_Type = t, ou_Basic = None, ou_Bearer = None, ou_APIKey = None, ou_OAuth2 = None,
            ou_WSSE = None, ou_OAuth1 = None, ou_AWSV4 = None, ou_Digest = None, ou_NTLM = None, ou_Extra = []\<rparr>
      in if t = [] \<or> t = AuthInherit then None
         else Some
          (if t = AuthBasic then out\<lparr>ou_Basic := map_option (\<lambda>x. \<lparr>ba_Username = ba_Username x, ba_Password = ba_Password x,
             ba_Extra = []\<rparr>) (auth_Basic a)\<rparr>
           else if t = AuthBearer then out\<lparr>ou_Bearer := map_option (\<lambda>x. \<lparr>be_Token = be_Token x, be_Extra = []\<rparr>) (auth_Bearer a)\<rparr>
           else if t = AuthAPIKey then out\<lparr>ou_APIKey := map_option (\<lambda>x. \<lparr>ak_Name = ak_Name x, ak_Value = ak_Value x,
             ak_Placement = ak_Placement x, ak_Extra = []\<rparr>) (auth_APIKey a)\<rparr>
           else if t = AuthOAuth2 then out\<lparr>ou_OAuth2 := map_option (\<lambda>x. \<lparr>o2_Grant = o2_Grant x, o2_TokenURL = o2_TokenURL x,
             o2_AuthURL = o2_AuthURL x, o2_ClientID = o2_ClientID x, o2_ClientSecret = o2_ClientSecret x,
             o2_Scope = o2_Scope x, o2_RedirectURI = o2_RedirectURI x, o2_UsePKCE = o2_UsePKCE x,
             o2_Audience = o2_Audience x, o2_Extra = []\<rparr>) (auth_OAuth2 a)\<rparr>
           else if t = AuthWSSE then out\<lparr>ou_WSSE := map_option (\<lambda>x. \<lparr>ws_Username = ws_Username x, ws_Password = ws_Password x,
             ws_Extra = []\<rparr>) (auth_WSSE a)\<rparr>
           else if t = AuthOAuth1 then out\<lparr>ou_OAuth1 := map_option (\<lambda>x. \<lparr>o1_ConsumerKey = o1_ConsumerKey x,
             o1_ConsumerSecret = o1_ConsumerSecret x, o1_Token = o1_Token x, o1_TokenSecret = o1_TokenSecret x,
             o1_Extra = []\<rparr>) (auth_OAuth1 a)\<rparr>
           else if t = AuthAWSV4 then out\<lparr>ou_AWSV4 := map_option (\<lambda>x. \<lparr>aw_AccessKeyID = aw_AccessKeyID x,
             aw_SecretAccessKey = aw_SecretAccessKey x, aw_Region = aw_Region x, aw_Service = aw_Service x,
             aw_SessionToken = aw_SessionToken x, aw_Extra = []\<rparr>) (auth_AWSV4 a)\<rparr>
           else if t = AuthDigest then out\<lparr>ou_Digest := map_option (\<lambda>x. \<lparr>di_Username = di_Username x, di_Password = di_Password x,
             di_Extra = []\<rparr>) (auth_Digest a)\<rparr>
           else if t = AuthNTLM then out\<lparr>ou_NTLM := map_option (\<lambda>x. \<lparr>nt_Username = nt_Username x, nt_Password = nt_Password x,
             nt_Domain = nt_Domain x, nt_Workstation = nt_Workstation x, nt_Extra = []\<rparr>) (auth_NTLM a)\<rparr>
           else out))"

definition fileToAuth :: "'n ocAuth option \<Rightarrow> auth" where
  "fileToAuth f =
     (case f of None \<Rightarrow> auth_of_type AuthInherit
      | Some b \<Rightarrow>
         \<lparr>auth_Type = ou_Type b,
          auth_Basic = map_option (\<lambda>x. \<lparr>ba_Username = ba_Username x, ba_Password = ba_Password x\<rparr>) (ou_Basic b),
          auth_Bearer = map_option (\<lambda>x. \<lparr>be_Token = be_Token x\<rparr>) (ou_Bearer b),
          auth_APIKey = map_option (\<lambda>x. \<lparr>ak_Name = ak_Name x, ak_Value = ak_Value x, ak_Placement = ak_Placement x\<rparr>) (ou_APIKey b),
          auth_OAuth2 = map_option (\<lambda>x. \<lparr>o2_Grant = o2_Grant x, o2_TokenURL = o2_TokenURL x, o2_AuthURL = o2_AuthURL x,
            o2_ClientID = o2_ClientID x, o2_ClientSecret = o2_ClientSecret x, o2_Scope = o2_Scope x,
            o2_RedirectURI = o2_RedirectURI x, o2_UsePKCE = o2_UsePKCE x, o2_Audience = o2_Audience x\<rparr>) (ou_OAuth2 b),
          auth_WSSE = map_option (\<lambda>x. \<lparr>ws_Username = ws_Username x, ws_Password = ws_Password x\<rparr>) (ou_WSSE b),
          auth_OAuth1 = map_option (\<lambda>x. \<lparr>o1_ConsumerKey = o1_ConsumerKey x, o1_ConsumerSecret = o1_ConsumerSecret x,
            o1_Token = o1_Token x, o1_TokenSecret = o1_TokenSecret x\<rparr>) (ou_OAuth1 b),
          auth_AWSV4 = map_option (\<lambda>x. \<lparr>aw_AccessKeyID = aw_AccessKeyID x, aw_SecretAccessKey = aw_SecretAccessKey x,
            aw_Region = aw_Region x, aw_Service = aw_Service x, aw_SessionToken = aw_SessionToken x\<rparr>) (ou_AWSV4 b),
          auth_Digest = map_option (\<lambda>x. \<lparr>di_Username = di_Username x, di_Password = di_Password x\<rparr>) (ou_Digest b),
          auth_NTLM = map_option (\<lambda>x. \<lparr>nt_Username = nt_Username x, nt_Password = nt_Password x, nt_Domain = nt_Domain x,
            nt_Workstation = nt_Workstation x\<rparr>) (ou_NTLM b)\<rparr>)"

section \<open>Requests and environments\<close>

definition param_row :: "string \<Rightarrow> key_value \<Rightarrow> 'n ocParam" where
  "param_row t p = \<lparr>op_Name = kv_Key p, op_Value = kv_Value p, op_Type = t, op_Disabled = (\<not> kv_Enabled p), op_Extra = []\<rparr>"

definition requestToFile :: "request \<Rightarrow> int \<Rightarrow> 'n ocRequestFile" where
  "requestToFile r sq =
     \<lparr>of_Info = info (rq_Name r) (rq_ID r) ''http'' sq,
      of_HTTP = Some
       \<lparr>oh_Method = (if rq_Method r = [] then ''GET'' else rq_Method r), oh_URL = rq_URL r,
        oh_Headers = map (\<lambda>h. \<lparr>ok_Name = kv_Key h, ok_Value = kv_Value h, ok_Disabled = (\<not> kv_Enabled h), ok_Extra = []\<rparr>)
          (rq_Headers r),
        oh_Params = map (param_row ''query'') (rq_Params r) @ map (param_row ''path'') (rq_PathParams r),
        oh_Body = (let b = rq_Body r in
          if body_Type b \<noteq> [] \<and> body_Type b \<noteq> BodyNone
          then Some \<lparr>ob_Type = body_Type b, ob_Data = body_Content b, ob_FilePath = body_FilePath b,
                 ob_ContentType = body_ContentType b, ob_GraphQLVars = body_GraphQLVariables b, ob_Extra = []\<rparr>
          else None),
        oh_Auth = authToFile (rq_Auth r), oh_Extra = []\<rparr>,
      of_Docs = rq_Docs r, of_Scripts = scriptsToFile (rq_Scripts r), of_Chain = chainToFile (rq_Chain r),
      of_Assertions = assertionsToFile (rq_Assertions r), of_Vars = varsToFile (rq_Variables r), of_Extra = []\<rparr>"

definition kv_of_param :: "'n ocParam \<Rightarrow> key_value" where
  "kv_of_param p = \<lparr>kv_Enabled = (\<not> op_Disabled p), kv_Key = op_Name p, kv_Value = op_Value p, kv_Description = []\<rparr>"

definition fileToRequest :: "(nat \<Rightarrow> string) \<Rightarrow> 'n ocRequestFile \<Rightarrow> nat \<Rightarrow> request \<times> nat" where
  "fileToRequest gen f n =
     (let (i, n1) = (if oi_ID (of_Info f) = [] then (gen n, Suc n) else (oi_ID (of_Info f), n));
          r = zero_request\<lparr>rq_ID := i, rq_Name := oi_Name (of_Info f), rq_Body := zero_body\<lparr>body_Type := BodyNone\<rparr>,
                rq_Docs := of_Docs f, rq_Auth := auth_of_type AuthInherit, rq_Scripts := fileToScripts (of_Scripts f),
                rq_Chain := fileToChain (of_Chain f), rq_Assertions := fileToAssertions (of_Assertions f),
                rq_Variables := fileToVars (of_Vars f)\<rparr>
      in (case of_HTTP f of
            None \<Rightarrow> r
          | Some h \<Rightarrow>
              r\<lparr>rq_Method := oh_Method h, rq_URL := oh_URL h,
                rq_Headers := map (\<lambda>x. \<lparr>kv_Enabled = (\<not> ok_Disabled x), kv_Key = ok_Name x, kv_Value = ok_Value x,
                    kv_Description = []\<rparr>) (oh_Headers h),
                rq_PathParams := map kv_of_param (filter (\<lambda>p. op_Type p = ''path'') (oh_Params h)),
                rq_Params := map kv_of_param (filter (\<lambda>p. op_Type p \<noteq> ''path'') (oh_Params h)),
                rq_Body := (case oh_Body h of None \<Rightarrow> rq_Body r
                  | Some b \<Rightarrow> zero_body\<lparr>body_Type := ob_Type b, body_Content := ob_Data b, body_FilePath := ob_FilePath b,
                      body_ContentType := ob_ContentType b, body_GraphQLVariables := ob_GraphQLVars b\<rparr>),
                rq_Auth := (case oh_Auth h of None \<Rightarrow> rq_Auth r | Some a \<Rightarrow> fileToAuth (Some a))\<rparr>, n1))"

definition envToFile :: "environment \<Rightarrow> int \<Rightarrow> 'n ocEnvironmentFile" where
  "envToFile e sq =
     \<lparr>en_Info = info (env_Name e) [] ''environment'' sq, en_Vars = varsToFile (env_Variables e), en_Extra = []\<rparr>"

definition fileToEnv :: "(nat \<Rightarrow> string) \<Rightarrow> 'n ocEnvironmentFile \<Rightarrow> nat \<Rightarrow> environment \<times> nat" where
  "fileToEnv gen f n =
     (\<lparr>env_ID = gen n, env_Name = oi_Name (en_Info f), env_Variables = fileToVars (en_Vars f)\<rparr>, Suc n)"

section \<open>What a file keeps\<close>

text \<open>
  Converting to a file and back loses the blocks of schemes not in use, the descriptions of rows,
  the content of a body of type \<open>none\<close>, and the fields of a form body.
\<close>

definition kept_auth :: "auth \<Rightarrow> auth" where
  "kept_auth a =
     (let t = auth_Type a in
      if t = [] \<or> t = AuthInherit then auth_of_type AuthInherit
      else \<lparr>auth_Type = t, auth_Basic = (if t = AuthBasic then auth_Basic a else None),
            auth_Bearer = (if t = AuthBearer then auth_Bearer a else None),
            auth_APIKey = (if t = AuthAPIKey then auth_APIKey a else None),
            auth_OAuth2 = (if t = AuthOAuth2 then auth_OAuth2 a else None),
            auth_WSSE = (if t = AuthWSSE then auth_WSSE a else None),
            auth_OAuth1 = (if t = AuthOAuth1 then auth_OAuth1 a else None),
            auth_AWSV4 = (if t = AuthAWSV4 then auth_AWSV4 a else None),
            auth_Digest = (if t = AuthDigest then auth_Digest a else None),
            auth_NTLM = (if t = AuthNTLM then auth_NTLM a else None)\<rparr>)"

definition kept_row :: "key_value \<Rightarrow> key_value" where
  "kept_row r = r\<lparr>kv_Description := []\<rparr>"

definition kept_body :: "body \<Rightarrow> body" where
  "kept_body b =
     (if body_Type b = [] \<or> body_Type b = BodyNone then zero_body\<lparr>body_Type := BodyNone\<rparr> else b\<lparr>body_Form := []\<rparr>)"

definition kept_request :: "request \<Rightarrow> request" where
  "kept_request r =
     r\<lparr>rq_Method := (if rq_Method r = [] then ''GET'' else rq_Method r), rq_Params := map kept_row (rq_Params r),
       rq_PathParams := map kept_row (rq_PathParams r), rq_Headers := map kept_row (rq_Headers r),
       rq_Body := kept_body (rq_Body r), rq_Auth := kept_auth (rq_Auth r)\<rparr>"

lemma fileToAssertions_back [simp]: "fileToAssertions (assertionsToFile xs) = xs"
  by (auto simp: fileToAssertions_def assertionsToFile_def comp_def intro!: map_idI assertion.equality)

lemma fileToChain_back [simp]: "fileToChain (chainToFile xs) = xs"
  by (auto simp: fileToChain_def chainToFile_def comp_def intro!: map_idI chain_step.equality)

lemma fileToScripts_back [simp]: "fileToScripts (scriptsToFile s) = s"
  by (cases s) (simp add: fileToScripts_def scriptsToFile_def)

lemma fileToVars_back [simp]: "fileToVars (varsToFile xs) = xs"
  by (auto simp: fileToVars_def varsToFile_def comp_def intro!: map_idI var_row.equality)

lemma auth_types_distinct:
  "AuthInherit \<noteq> []" "AuthBasic \<noteq> []" "AuthBearer \<noteq> []" "AuthAPIKey \<noteq> []" "AuthOAuth2 \<noteq> []" "AuthWSSE \<noteq> []"
  "AuthOAuth1 \<noteq> []" "AuthAWSV4 \<noteq> []" "AuthDigest \<noteq> []" "AuthNTLM \<noteq> []"
  "distinct [AuthInherit, AuthBasic, AuthBearer, AuthAPIKey, AuthOAuth2, AuthWSSE, AuthOAuth1, AuthAWSV4, AuthDigest,
     AuthNTLM]"
  by (simp_all add: auth_type_defs)

lemma option_map_id: "(\<And>x. f x = x) \<Longrightarrow> map_option f p = p"
  by (cases p) auto

lemma fileToAuth_back: "fileToAuth (authToFile a) = kept_auth a"
  by (simp add: fileToAuth_def authToFile_def kept_auth_def auth_of_type_def Let_def option.map_comp comp_def
      option_map_id auth_type_defs)

lemma authToFile_None: "authToFile a = None \<longleftrightarrow> auth_Type a = [] \<or> auth_Type a = AuthInherit"
  by (simp add: authToFile_def Let_def)

lemma kept_auth_inherit: "authToFile a = None \<Longrightarrow> kept_auth a = auth_of_type AuthInherit"
  by (simp add: authToFile_None kept_auth_def)

lemma kept_auth_read:
  fixes d :: auth
  assumes "d = auth_of_type AuthInherit"
  shows "(case (authToFile a :: 'n ocAuth option) of None \<Rightarrow> d | Some x \<Rightarrow> fileToAuth (Some x)) = kept_auth a"
proof (cases "authToFile a :: 'n ocAuth option")
  case None
  then show ?thesis using assms by (simp add: kept_auth_inherit)
next
  case (Some x)
  then show ?thesis using fileToAuth_back [where 'a = 'n, of a] by simp
qed

lemma fileToRequest_back:
  "rq_ID r \<noteq> [] \<Longrightarrow> fileToRequest gen (requestToFile r sq) n = (kept_request r, n)"
  by (auto simp: fileToRequest_def requestToFile_def info_def Let_def kept_request_def zero_request_def comp_def
      kv_of_param_def param_row_def kept_row_def kept_body_def zero_body_def filter_map kept_auth_read
      intro!: request.equality key_value.equality body.equality)

end
