(* ===== verification/Store.thy ===== *)
theory Store
  imports OpenCollection Secrets "HOL-Library.Char_ord" "HOL-Library.List_Lexorder"
begin

text \<open>
  \<open>internal/storage/store.go\<close>: a collection as a directory of YAML files. A directory is the list
  of its entries in the order \<open>os.ReadDir\<close> gives them, sorted by name; the functions that take a
  path of a directory here take its entries. The YAML codec is a parameter (\<open>codec\<close>). Every
  operation that changes the disk may fail: \<open>bad\<close> says which of the operations, numbered by a
  clock, do.
\<close>

section \<open>Directories\<close>

datatype 'y node = File 'y | Dir "(string \<times> 'y node) list"

type_synonym 'y entries = "(string \<times> 'y node) list"

fun put_entry :: "string \<Rightarrow> 'v \<Rightarrow> (string \<times> 'v) list \<Rightarrow> (string \<times> 'v) list" where
  "put_entry k v [] = [(k, v)]"
| "put_entry k v ((l, w) # es) =
     (if k < l then (k, v) # (l, w) # es else if k = l then (k, v) # es else (l, w) # put_entry k v es)"

definition del_entry :: "string \<Rightarrow> (string \<times> 'v) list \<Rightarrow> (string \<times> 'v) list" where
  "del_entry k es = filter (\<lambda>e. fst e \<noteq> k) es"

definition sorted_names :: "(string \<times> 'v) list \<Rightarrow> bool" where
  "sorted_names es \<longleftrightarrow> sorted_wrt (<) (map fst es)"

text \<open>What the storage code relies on: a directory is a map from names to files.\<close>

locale directory =
  fixes get :: "'d \<Rightarrow> string \<Rightarrow> 'v option" and put :: "string \<Rightarrow> 'v \<Rightarrow> 'd \<Rightarrow> 'd" and del :: "string \<Rightarrow> 'd \<Rightarrow> 'd"
    and wf :: "'d \<Rightarrow> bool"
  assumes get_put: "wf d \<Longrightarrow> get (put k v d) = (get d)(k \<mapsto> v)"
    and get_del: "wf d \<Longrightarrow> get (del k d) = (get d)(k := None)"
    and wf_put: "wf d \<Longrightarrow> wf (put k v d)"
    and wf_del: "wf d \<Longrightarrow> wf (del k d)"
begin

lemma get_put_same: "wf d \<Longrightarrow> get (put k v d) k = Some v"
  by (simp add: get_put)

lemma get_put_other: "wf d \<Longrightarrow> j \<noteq> k \<Longrightarrow> get (put k v d) j = get d j"
  by (simp add: get_put)

lemma get_put_again: "wf d \<Longrightarrow> get (put k v (put k w d)) = get (put k v d)"
  by (simp add: get_put wf_put)

end

lemma set_put_entry: "set (map fst (put_entry k v es)) = insert k (fst ` set es)"
  by (induction k v es rule: put_entry.induct) auto

lemma sorted_put_entry: "sorted_names es \<Longrightarrow> sorted_names (put_entry k v es)"
proof (induction k v es rule: put_entry.induct)
  case (2 k v l w es)
  then show ?case using set_put_entry [of k v es] by (auto simp: sorted_names_def image_iff)
qed (simp add: sorted_names_def)

lemma map_of_put_entry: "sorted_names es \<Longrightarrow> map_of (put_entry k v es) = (map_of es)(k \<mapsto> v)"
proof (induction k v es rule: put_entry.induct)
  case (2 k v l w es)
  then have "sorted_names es" by (simp add: sorted_names_def)
  with 2 show ?case by (auto simp: fun_upd_twist)
qed simp

lemma map_of_del_entry: "map_of (del_entry k es) = (map_of es)(k := None)"
  by (induction es) (auto simp: del_entry_def)

lemma sorted_del_entry: "sorted_names es \<Longrightarrow> sorted_names (del_entry k es)"
  by (induction es) (auto simp: del_entry_def sorted_names_def)

interpretation ents: directory map_of put_entry del_entry sorted_names
  by unfold_locales (auto simp: map_of_put_entry map_of_del_entry sorted_put_entry sorted_del_entry)

section \<open>Names\<close>

definition slug_char :: "char \<Rightarrow> bool" where
  "slug_char c \<longleftrightarrow> CHR ''a'' \<le> c \<and> c \<le> CHR ''z'' \<or> CHR ''0'' \<le> c \<and> c \<le> CHR ''9''"

text \<open>\<open>nonSlug.ReplaceAllString\<close>: every run of other bytes becomes one dash; \<open>run\<close> is inside one.\<close>

fun dash_runs :: "bool \<Rightarrow> string \<Rightarrow> string" where
  "dash_runs run [] = []"
| "dash_runs run (c # s) =
     (if slug_char c then c # dash_runs False s
      else if run then dash_runs True s else CHR ''-'' # dash_runs True s)"

definition slug :: "string \<Rightarrow> string \<Rightarrow> string" where
  "slug name fallback =
     (let s = trim_byte (CHR ''-'') (dash_runs False (to_lower (trim_space name))) in if s = [] then fallback else s)"

definition suffixed :: "string \<Rightarrow> nat \<Rightarrow> string" where
  "suffixed base i = base @ ''-'' @ itoa (int i)"

lemma suffixed_inject: "suffixed base i = suffixed base j \<Longrightarrow> i = j"
  by (simp add: suffixed_def nat_digits_inject)

lemma finite_suffixes: "finite {j. suffixed base j \<in> set used}"
  by (rule finite_vimageI [of "set used" "suffixed base", unfolded vimage_def])
    (auto simp: inj_on_def dest: suffixed_inject)

text \<open>The loop of \<open>uniqueName\<close>: it ends because finitely many suffixed names are in use.\<close>

definition suffixes_left :: "string \<Rightarrow> string list \<Rightarrow> nat \<Rightarrow> nat" where
  "suffixes_left base used i = card {j. i \<le> j \<and> suffixed base j \<in> set used}"

lemma suffixes_left_step:
  "suffixes_left base used i = of_bool (suffixed base i \<in> set used) + suffixes_left base used (Suc i)"
proof -
  have fin: "finite {j. Suc i \<le> j \<and> suffixed base j \<in> set used}"
    by (rule finite_subset [OF _ finite_suffixes]) auto
  show ?thesis
  proof (cases "suffixed base i \<in> set used")
    case True
    then have "{j. i \<le> j \<and> suffixed base j \<in> set used} = insert i {j. Suc i \<le> j \<and> suffixed base j \<in> set used}"
      by (auto simp: le_eq_less_or_eq)
    with True fin show ?thesis by (simp add: suffixes_left_def)
  next
    case False
    then have "{j. i \<le> j \<and> suffixed base j \<in> set used} = {j. Suc i \<le> j \<and> suffixed base j \<in> set used}"
      by (auto simp: le_eq_less_or_eq)
    with False show ?thesis by (simp add: suffixes_left_def)
  qed
qed

function unique_loop :: "string \<Rightarrow> string list \<Rightarrow> nat \<Rightarrow> string \<Rightarrow> string" where
  "unique_loop base used i name =
     (if name \<in> set used then unique_loop base used (Suc i) (suffixed base i) else name)"
  by pat_completeness auto

termination
proof (relation "measure (\<lambda>(base, used, i, name). 2 * suffixes_left base used i + of_bool (name \<in> set used))")
  fix base used i and name :: string
  assume "name \<in> set used"
  then show "((base, used, Suc i, suffixed base i), (base, used, i, name))
    \<in> measure (\<lambda>(base, used, i, name). 2 * suffixes_left base used i + of_bool (name \<in> set used))"
    by (simp add: suffixes_left_step [of base used i])
qed simp

text \<open>\<open>used\<close> is a set that the caller owns: the picked name is recorded in it.\<close>

definition uniqueName :: "string \<Rightarrow> string list \<Rightarrow> string \<times> string list" where
  "uniqueName base used = (let name = unique_loop base used 2 base in (name, name # used))"

declare unique_loop.simps [simp del]

section \<open>Merging what other tools wrote\<close>

text \<open>
  \<open>mergeAuthExtras\<close> and its siblings copy the unknown keys of a record read from disk into the
  record about to replace it.
\<close>

definition merge_block :: "('a \<Rightarrow> 'e) \<Rightarrow> ('e \<Rightarrow> 'a \<Rightarrow> 'a) \<Rightarrow> 'a option \<Rightarrow> 'a option \<Rightarrow> 'a option" where
  "merge_block get put nxt prev =
     (case (nxt, prev) of (Some x, Some y) \<Rightarrow> Some (put (get y) x) | _ \<Rightarrow> nxt)"

definition merge_auth :: "'n ocAuth \<Rightarrow> 'n ocAuth \<Rightarrow> 'n ocAuth" where
  "merge_auth x y =
     x\<lparr>ou_Extra := ou_Extra y,
       ou_Basic := merge_block ba_Extra (\<lambda>e. ba_Extra_update (\<lambda>_. e)) (ou_Basic x) (ou_Basic y),
       ou_Bearer := merge_block be_Extra (\<lambda>e. be_Extra_update (\<lambda>_. e)) (ou_Bearer x) (ou_Bearer y),
       ou_APIKey := merge_block ak_Extra (\<lambda>e. ak_Extra_update (\<lambda>_. e)) (ou_APIKey x) (ou_APIKey y),
       ou_OAuth2 := merge_block o2_Extra (\<lambda>e. o2_Extra_update (\<lambda>_. e)) (ou_OAuth2 x) (ou_OAuth2 y),
       ou_WSSE := merge_block ws_Extra (\<lambda>e. ws_Extra_update (\<lambda>_. e)) (ou_WSSE x) (ou_WSSE y),
       ou_OAuth1 := merge_block o1_Extra (\<lambda>e. o1_Extra_update (\<lambda>_. e)) (ou_OAuth1 x) (ou_OAuth1 y),
       ou_AWSV4 := merge_block aw_Extra (\<lambda>e. aw_Extra_update (\<lambda>_. e)) (ou_AWSV4 x) (ou_AWSV4 y),
       ou_Digest := merge_block di_Extra (\<lambda>e. di_Extra_update (\<lambda>_. e)) (ou_Digest x) (ou_Digest y),
       ou_NTLM := merge_block nt_Extra (\<lambda>e. nt_Extra_update (\<lambda>_. e)) (ou_NTLM x) (ou_NTLM y)\<rparr>"

definition mergeAuthExtras :: "'n ocAuth option \<Rightarrow> 'n ocAuth option \<Rightarrow> 'n ocAuth option" where
  "mergeAuthExtras nxt prev =
     (case (nxt, prev) of (Some x, Some y) \<Rightarrow> Some (merge_auth x y) | _ \<Rightarrow> nxt)"

text \<open>The Go map from a row's key to its unknown keys: of rows with the same key the last counts.\<close>

definition extras_by :: "('a \<Rightarrow> string) \<Rightarrow> ('a \<Rightarrow> 'n extra) \<Rightarrow> 'a list \<Rightarrow> string \<Rightarrow> 'n extra option" where
  "extras_by key ext rows = assign_all (map (\<lambda>p. (key p, ext p)) (filter (\<lambda>p. ext p \<noteq> []) rows))"

definition mergeKVExtras :: "'n ocKV list \<Rightarrow> 'n ocKV list \<Rightarrow> 'n ocKV list" where
  "mergeKVExtras nxt prev =
     (if prev = [] \<or> nxt = [] then nxt
      else map (\<lambda>x. case extras_by ok_Name ok_Extra prev (ok_Name x) of
                     Some e \<Rightarrow> x\<lparr>ok_Extra := e\<rparr> | None \<Rightarrow> x) nxt)"

definition mergeParamExtras :: "'n ocParam list \<Rightarrow> 'n ocParam list \<Rightarrow> 'n ocParam list" where
  "mergeParamExtras nxt prev =
     (if prev = [] \<or> nxt = [] then nxt
      else map (\<lambda>x. case extras_by op_Name op_Extra prev (op_Name x) of
                     Some e \<Rightarrow> x\<lparr>op_Extra := e\<rparr> | None \<Rightarrow> x) nxt)"

definition layer_http :: "'n ocHTTP \<Rightarrow> 'n ocHTTP \<Rightarrow> 'n ocHTTP" where
  "layer_http h p =
     h\<lparr>oh_Extra := oh_Extra p, oh_Headers := mergeKVExtras (oh_Headers h) (oh_Headers p),
       oh_Params := mergeParamExtras (oh_Params h) (oh_Params p),
       oh_Body := merge_block ob_Extra (\<lambda>e. ob_Extra_update (\<lambda>_. e)) (oh_Body h) (oh_Body p),
       oh_Auth := mergeAuthExtras (oh_Auth h) (oh_Auth p)\<rparr>"

definition layer_scripts :: "'n ocScripts option \<Rightarrow> 'n ocScripts option \<Rightarrow> 'n ocScripts option" where
  "layer_scripts s prev =
     (case prev of
        Some p \<Rightarrow> if os_Extra p \<noteq> []
          then Some ((case s of Some x \<Rightarrow> x | None \<Rightarrow> \<lparr>os_PreRequest = [], os_PostResponse = [], os_Extra = []\<rparr>)
                     \<lparr>os_Extra := os_Extra p\<rparr>)
          else s
      | None \<Rightarrow> s)"

definition layer_chain :: "'n ocChainStep list \<Rightarrow> 'n ocChainStep list \<Rightarrow> 'n ocChainStep list" where
  "layer_chain ch prev =
     (if prev \<noteq> [] \<and> ch \<noteq> []
      then map (\<lambda>x. case extras_by oc_Alias oc_Extra (filter (\<lambda>p. oc_Alias p \<noteq> []) prev) (oc_Alias x) of
                     Some e \<Rightarrow> x\<lparr>oc_Extra := e\<rparr> | None \<Rightarrow> x) ch
      else ch)"

text \<open>The body of \<open>if prev, err := readRequestFile(...); err == nil\<close> in \<open>saveItems\<close>.\<close>

definition layer_request :: "'n ocRequestFile option \<Rightarrow> 'n ocRequestFile \<Rightarrow> 'n ocRequestFile" where
  "layer_request prev rf =
     (case prev of None \<Rightarrow> rf
      | Some p \<Rightarrow>
         rf\<lparr>of_Extra := of_Extra p,
            of_Info := (of_Info rf)\<lparr>oi_Extra := oi_Extra (of_Info p), oi_Tags := oi_Tags (of_Info p)\<rparr>,
            of_HTTP := (case (of_HTTP rf, of_HTTP p) of (Some h, Some g) \<Rightarrow> Some (layer_http h g) | _ \<Rightarrow> of_HTTP rf),
            of_Scripts := layer_scripts (of_Scripts rf) (of_Scripts p),
            of_Chain := layer_chain (of_Chain rf) (of_Chain p)\<rparr>)"

section \<open>Writing\<close>

definition collectionFile :: string where "collectionFile = ''opencollection.yml''"
definition folderFile :: string where "folderFile = ''folder.yml''"
definition environmentsDir :: string where "environmentsDir = ''environments''"
definition ymlExt :: string where "ymlExt = ''.yml''"

lemmas name_defs = collectionFile_def folderFile_def environmentsDir_def ymlExt_def

text \<open>\<open>yaml.Marshal\<close> and \<open>yaml.Unmarshal\<close> on the four record types; \<open>'y\<close> is the text of a file.\<close>

record ('y, 'n) codec =
  cx_col :: "'n ocCollectionFile \<Rightarrow> 'y result"
  ux_col :: "'y \<Rightarrow> 'n ocCollectionFile result"
  cx_env :: "'n ocEnvironmentFile \<Rightarrow> 'y result"
  ux_env :: "'y \<Rightarrow> 'n ocEnvironmentFile result"
  cx_req :: "'n ocRequestFile \<Rightarrow> 'y result"
  ux_req :: "'y \<Rightarrow> 'n ocRequestFile result"
  cx_fol :: "'n ocFolderFile \<Rightarrow> 'y result"
  ux_fol :: "'y \<Rightarrow> 'n ocFolderFile result"

text \<open>The state of the writers: the entries of the directory and the clock of the fault oracle.\<close>

type_synonym 'y dirst = "'y entries \<times> nat"

definition writeYAML :: "(nat \<Rightarrow> bool) \<Rightarrow> string \<Rightarrow> 'y result \<Rightarrow> 'y dirst \<Rightarrow> unit result \<times> 'y dirst" where
  "writeYAML bad name doc st =
     (case doc of Inl e \<Rightarrow> (Inl e, st)
      | Inr y \<Rightarrow>
         if bad (snd st) then (Inl ''write failed'', fst st, Suc (snd st))
         else case map_of (fst st) name of
           Some (Dir sub) \<Rightarrow> (Inl ''file exists'', fst st, Suc (snd st))
         | _ \<Rightarrow> (Inr (), put_entry name (File y) (fst st), Suc (snd st)))"

definition MkdirAll :: "(nat \<Rightarrow> bool) \<Rightarrow> string \<Rightarrow> 'y dirst \<Rightarrow> unit result \<times> 'y dirst" where
  "MkdirAll bad name st =
     (if bad (snd st) then (Inl ''mkdir failed'', fst st, Suc (snd st))
      else case map_of (fst st) name of
        Some (Dir sub) \<Rightarrow> (Inr (), fst st, Suc (snd st))
      | Some (File y) \<Rightarrow> (Inl ''not a directory'', fst st, Suc (snd st))
      | None \<Rightarrow> (Inr (), put_entry name (Dir []) (fst st), Suc (snd st)))"

definition readFile :: "('y \<Rightarrow> 'a result) \<Rightarrow> string \<Rightarrow> 'y entries \<Rightarrow> 'a option" where
  "readFile un name es =
     (case map_of es name of
        Some (File y) \<Rightarrow> (case un y of Inr f \<Rightarrow> Some f | Inl e \<Rightarrow> None)
      | _ \<Rightarrow> None)"

definition subdir :: "string \<Rightarrow> 'y entries \<Rightarrow> 'y entries" where
  "subdir name es = (case map_of es name of Some (Dir sub) \<Rightarrow> sub | _ \<Rightarrow> [])"

text \<open>Work inside a subdirectory.\<close>

definition within_dir :: "string \<Rightarrow> ('y dirst \<Rightarrow> 'a \<times> 'y dirst) \<Rightarrow> 'y dirst \<Rightarrow> 'a \<times> 'y dirst" where
  "within_dir name act st =
     (case act (subdir name (fst st), snd st) of
        (r, sub, k) \<Rightarrow> (r, put_entry name (Dir sub) (fst st), k))"

fun sweep_loop :: "(nat \<Rightarrow> bool) \<Rightarrow> string list \<Rightarrow> 'y entries \<Rightarrow> 'y dirst \<Rightarrow> unit result \<times> 'y dirst" where
  "sweep_loop bad keep [] st = (Inr (), st)"
| "sweep_loop bad keep ((name, nd) # rest) st =
     (if name \<in> set keep then sweep_loop bad keep rest st
      else if (case nd of Dir sub \<Rightarrow> map_of sub folderFile \<noteq> None | File y \<Rightarrow> has_suffix name ymlExt)
      then (if bad (snd st) then (Inl ''remove failed'', fst st, Suc (snd st))
            else sweep_loop bad keep rest (del_entry name (fst st), Suc (snd st)))
      else sweep_loop bad keep rest st)"

definition sweepDir :: "(nat \<Rightarrow> bool) \<Rightarrow> string list \<Rightarrow> 'y dirst \<Rightarrow> unit result \<times> 'y dirst" where
  "sweepDir bad keep st = sweep_loop bad keep (fst st) st"

text \<open>The loop that \<open>saveInPlace\<close> runs over the environments and \<open>saveItems\<close> over the requests.\<close>

fun write_each :: "(nat \<Rightarrow> bool) \<Rightarrow> (nat \<Rightarrow> 'a \<Rightarrow> string) \<Rightarrow> (nat \<Rightarrow> 'a \<Rightarrow> string \<Rightarrow> 'y entries \<Rightarrow> 'y result)
    \<Rightarrow> nat \<Rightarrow> 'a list \<Rightarrow> string list \<Rightarrow> string list \<Rightarrow> 'y dirst \<Rightarrow> (string list \<times> string list) result \<times> 'y dirst" where
  "write_each bad base doc i [] used keep st = (Inr (used, keep), st)"
| "write_each bad base doc i (x # xs) used keep st =
     (let (name, used1) = uniqueName (base i x) used; file = name @ ymlExt in
      case writeYAML bad file (doc i x file (fst st)) st of
        (Inl e, st1) \<Rightarrow> (Inl e, st1)
      | (Inr u, st1) \<Rightarrow> write_each bad base doc (Suc i) xs used1 (file # keep) st1)"

definition request_doc :: "('y, 'n) codec \<Rightarrow> nat \<Rightarrow> request \<Rightarrow> string \<Rightarrow> 'y entries \<Rightarrow> 'y result" where
  "request_doc cx i r file es =
     cx_req cx (layer_request (readFile (ux_req cx) file es) (requestToFile r (int (Suc i))))"

definition folder_doc :: "('y, 'n) codec \<Rightarrow> nat \<Rightarrow> folder \<Rightarrow> 'y entries \<Rightarrow> 'y result" where
  "folder_doc cx i f sub =
     (let ff = \<lparr>ff_Info = info (fo_Name f) [] ''folder'' (int (Suc i)), ff_Auth = authToFile (fo_Auth f),
                ff_Vars = varsToFile (fo_Variables f), ff_Extra = []\<rparr>
      in cx_fol cx (case readFile (ux_fol cx) folderFile sub of None \<Rightarrow> ff
           | Some p \<Rightarrow> ff\<lparr>ff_Extra := ff_Extra p, ff_Info := (ff_Info ff)\<lparr>oi_Extra := oi_Extra (ff_Info p)\<rparr>,
               ff_Auth := mergeAuthExtras (ff_Auth ff) (ff_Auth p)\<rparr>))"

definition item_slug :: "string \<Rightarrow> ('a \<Rightarrow> string) \<Rightarrow> nat \<Rightarrow> 'a \<Rightarrow> string" where
  "item_slug kind name i x = slug (name x) (kind @ itoa (int (Suc i)))"

definition items_used :: "string list" where
  "items_used = [trim_suffix collectionFile ymlExt, trim_suffix folderFile ymlExt, environmentsDir]"

definition items_keep :: "string list" where
  "items_keep = [collectionFile, folderFile, environmentsDir]"

lemma folders_smaller: "2 * size_list size (fo_Folders f) < Suc (2 * size f + n)"
  by (cases f) simp

function saveItems :: "('y, 'n) codec \<Rightarrow> (nat \<Rightarrow> bool) \<Rightarrow> folder list \<Rightarrow> request list \<Rightarrow> 'y dirst
    \<Rightarrow> unit result \<times> 'y dirst"
  and save_folders :: "('y, 'n) codec \<Rightarrow> (nat \<Rightarrow> bool) \<Rightarrow> nat \<Rightarrow> folder list \<Rightarrow> string list \<Rightarrow> string list \<Rightarrow> 'y dirst
    \<Rightarrow> unit result \<times> 'y dirst" where
  "saveItems cx bad fs rs st =
     (case write_each bad (item_slug ''request-'' rq_Name) (request_doc cx) 0 rs items_used items_keep st of
        (Inl e, st1) \<Rightarrow> (Inl e, st1)
      | (Inr (used, keep), st1) \<Rightarrow> save_folders cx bad 0 fs used keep st1)"
| "save_folders cx bad i [] used keep st = sweepDir bad keep st"
| "save_folders cx bad i (f # fs) used keep st =
     (let (name, used1) = uniqueName (item_slug ''folder-'' fo_Name i f) used in
      case MkdirAll bad name st of
        (Inl e, st1) \<Rightarrow> (Inl e, st1)
      | (Inr u, st1) \<Rightarrow>
         (case within_dir name (\<lambda>sub.
            case writeYAML bad folderFile (folder_doc cx i f (fst sub)) sub of
              (Inl e, sub1) \<Rightarrow> (Inl e, sub1)
            | (Inr u, sub1) \<Rightarrow> saveItems cx bad (fo_Folders f) (fo_Requests f) sub1) st1 of
            (Inl e, st2) \<Rightarrow> (Inl e, st2)
          | (Inr u, st2) \<Rightarrow> save_folders cx bad (Suc i) fs used1 (name # keep) st2))"
  by pat_completeness auto

termination
  by (relation "measure (case_sum (\<lambda>(cx, bad, fs, rs, st). Suc (2 * size_list size fs))
      (\<lambda>(cx, bad, i, fs, used, keep, st). 2 * size_list size fs))")
    (auto simp: folders_smaller)

section \<open>Saving a collection\<close>

definition collection_doc :: "('y, 'n) codec \<Rightarrow> collection \<Rightarrow> 'y entries \<Rightarrow> 'y result" where
  "collection_doc cx c es =
     (let root = \<lparr>cl_Info = info (co_Name c) [] ''collection'' 0, cl_Auth = authToFile (co_Auth c),
                  cl_Vars = varsToFile (co_Variables c), cl_Extra = []\<rparr>
      in cx_col cx (case readFile (ux_col cx) collectionFile es of None \<Rightarrow> root
           | Some p \<Rightarrow> root\<lparr>cl_Extra := cl_Extra p,
               cl_Info := (cl_Info root)\<lparr>oi_Extra := oi_Extra (cl_Info p), oi_Tags := oi_Tags (cl_Info p)\<rparr>,
               cl_Auth := mergeAuthExtras (cl_Auth root) (cl_Auth p)\<rparr>))"

definition env_doc :: "('y, 'n) codec \<Rightarrow> nat \<Rightarrow> environment \<Rightarrow> string \<Rightarrow> 'y entries \<Rightarrow> 'y result" where
  "env_doc cx i e file es =
     (let ef = envToFile e (int (Suc i))
      in cx_env cx (case readFile (ux_env cx) file es of None \<Rightarrow> ef
           | Some p \<Rightarrow> ef\<lparr>en_Extra := en_Extra p, en_Info := (en_Info ef)\<lparr>oi_Extra := oi_Extra (en_Info p)\<rparr>\<rparr>))"

text \<open>The environments of \<open>saveInPlace\<close>: the directory is made when there are any, and swept if it exists.\<close>

definition save_envs :: "('y, 'n) codec \<Rightarrow> (nat \<Rightarrow> bool) \<Rightarrow> environment list \<Rightarrow> 'y dirst \<Rightarrow> unit result \<times> 'y dirst" where
  "save_envs cx bad envs st =
     (case (if envs = [] then (Inr (), st) else MkdirAll bad environmentsDir st) of
        (Inl e, st1) \<Rightarrow> (Inl e, st1)
      | (Inr u, st1) \<Rightarrow>
         (case map_of (fst st1) environmentsDir of
            None \<Rightarrow> (Inr (), st1)
          | Some (File y) \<Rightarrow> (Inl ''not a directory'', st1)
          | Some (Dir d) \<Rightarrow>
              within_dir environmentsDir (\<lambda>sub.
                case write_each bad (item_slug ''env-'' env_Name) (env_doc cx) 0 envs [] [] sub of
                  (Inl e, sub1) \<Rightarrow> (Inl e, sub1)
                | (Inr (used, keep), sub1) \<Rightarrow> sweepDir bad keep sub1) st1))"

definition saveInPlace :: "('y, 'n) codec \<Rightarrow> (nat \<Rightarrow> bool) \<Rightarrow> collection \<Rightarrow> 'y dirst \<Rightarrow> unit result \<times> 'y dirst" where
  "saveInPlace cx bad c st =
     (case writeYAML bad collectionFile (collection_doc cx c (fst st)) st of
        (Inl e, st1) \<Rightarrow> (Inl e, st1)
      | (Inr u, st1) \<Rightarrow>
         (case save_envs cx bad (co_Environments c) st1 of
            (Inl e, st2) \<Rightarrow> (Inl e, st2)
          | (Inr u, st2) \<Rightarrow> saveItems cx bad (co_Folders c) (co_Requests c) st2))"

text \<open>\<open>copyTree\<close>: write every entry of one tree over another.\<close>

function copy_entries :: "(nat \<Rightarrow> bool) \<Rightarrow> 'y entries \<Rightarrow> 'y dirst \<Rightarrow> unit result \<times> 'y dirst" where
  "copy_entries bad [] st = (Inr (), st)"
| "copy_entries bad ((name, File y) # rest) st =
     (case writeYAML bad name (Inr y) st of
        (Inl e, st1) \<Rightarrow> (Inl e, st1)
      | (Inr u, st1) \<Rightarrow> copy_entries bad rest st1)"
| "copy_entries bad ((name, Dir sub) # rest) st =
     (case MkdirAll bad name st of
        (Inl e, st1) \<Rightarrow> (Inl e, st1)
      | (Inr u, st1) \<Rightarrow>
         (case within_dir name (copy_entries bad sub) st1 of
            (Inl e, st2) \<Rightarrow> (Inl e, st2)
          | (Inr u, st2) \<Rightarrow> copy_entries bad rest st2))"
  by pat_completeness auto

termination
  by (relation "measure (\<lambda>(bad, es, st). size_list (size_prod (\<lambda>_. 0) size) es)") auto

text \<open>
  The disk: the directory trees by path, and the secret store by collection directory
  (\<open>writeSecrets\<close>, \<open>readSecrets\<close>), outside the trees.
\<close>

record 'y disk =
  dk_tree :: "string \<Rightarrow> 'y node option"
  dk_secrets :: "string \<Rightarrow> (string \<times> string) list option"
  dk_clock :: nat

definition tick :: "'y disk \<Rightarrow> 'y disk" where
  "tick d = d\<lparr>dk_clock := Suc (dk_clock d)\<rparr>"

text \<open>\<open>os.RemoveAll\<close>, whose error the callers drop.\<close>

definition RemoveAll :: "(nat \<Rightarrow> bool) \<Rightarrow> string \<Rightarrow> 'y disk \<Rightarrow> 'y disk" where
  "RemoveAll bad p d =
     (if bad (dk_clock d) then tick d else tick (d\<lparr>dk_tree := (dk_tree d)(p := None)\<rparr>))"

text \<open>\<open>os.Rename\<close> of a directory: the target is missing or an empty directory.\<close>

definition Rename :: "(nat \<Rightarrow> bool) \<Rightarrow> string \<Rightarrow> string \<Rightarrow> 'y disk \<Rightarrow> unit result \<times> 'y disk" where
  "Rename bad p q d =
     (if bad (dk_clock d) then (Inl ''rename failed'', tick d)
      else case (dk_tree d p, dk_tree d q) of
        (Some nd, None) \<Rightarrow> (Inr (), tick (d\<lparr>dk_tree := (dk_tree d)(p := None, q \<mapsto> nd)\<rparr>))
      | (Some nd, Some (Dir [])) \<Rightarrow> (Inr (), tick (d\<lparr>dk_tree := (dk_tree d)(p := None, q \<mapsto> nd)\<rparr>))
      | _ \<Rightarrow> (Inl ''rename failed'', tick d))"

definition writeSecrets :: "(nat \<Rightarrow> bool) \<Rightarrow> string \<Rightarrow> (string \<times> string) list \<Rightarrow> 'y disk \<Rightarrow> unit result \<times> 'y disk" where
  "writeSecrets bad dir secrets d =
     (if bad (dk_clock d) then (Inl ''secrets'', tick d)
      else (Inr (), tick (d\<lparr>dk_secrets := (dk_secrets d)(dir := if secrets = [] then None else Some secrets)\<rparr>)))"

definition readSecrets :: "string \<Rightarrow> 'y disk \<Rightarrow> (string \<times> string) list" where
  "readSecrets dir d = (case dk_secrets d dir of None \<Rightarrow> [] | Some m \<Rightarrow> m)"

definition staging :: "string \<Rightarrow> string" where "staging dir = dir @ ''.helena-save''"
definition aside :: "string \<Rightarrow> string" where "aside dir = dir @ ''.helena-old''"

text \<open>Run a writer on the staging directory, which is made when missing.\<close>

definition in_staging :: "(nat \<Rightarrow> bool) \<Rightarrow> string \<Rightarrow> ('y dirst \<Rightarrow> unit result \<times> 'y dirst) \<Rightarrow> 'y disk \<Rightarrow> unit result \<times> 'y disk" where
  "in_staging bad p act d =
     (if bad (dk_clock d) then (Inl ''mkdir failed'', tick d)
      else case dk_tree d p of
        Some (File y) \<Rightarrow> (Inl ''not a directory'', tick d)
      | t \<Rightarrow> (case act (case t of Some (Dir es) \<Rightarrow> es | _ \<Rightarrow> [], Suc (dk_clock d)) of
               (r, es, k) \<Rightarrow> (r, d\<lparr>dk_tree := (dk_tree d)(p \<mapsto> Dir es), dk_clock := k\<rparr>)))"

text \<open>The swap at the end of \<open>Save\<close>.\<close>

definition swap_in :: "(nat \<Rightarrow> bool) \<Rightarrow> string \<Rightarrow> bool \<Rightarrow> 'y disk \<Rightarrow> unit result \<times> 'y disk" where
  "swap_in bad dir existed d0 =
     (let d1 = RemoveAll bad (aside dir) d0 in
      case (if existed then Rename bad dir (aside dir) d1 else (Inr (), d1)) of
        (Inl e, d2) \<Rightarrow> (Inl e, RemoveAll bad (staging dir) d2)
      | (Inr u, d2) \<Rightarrow>
         (case Rename bad (staging dir) dir d2 of
            (Inl e, d3) \<Rightarrow>
              (Inl e, RemoveAll bad (staging dir) (if existed then snd (Rename bad (aside dir) dir d3) else d3))
          | (Inr u, d3) \<Rightarrow> (Inr (), RemoveAll bad (aside dir) d3)))"

definition Save :: "('y, 'n) codec \<Rightarrow> (nat \<Rightarrow> bool) \<Rightarrow> collection \<Rightarrow> string \<Rightarrow> 'y disk \<Rightarrow> unit result \<times> 'y disk" where
  "Save cx bad c0 dir d0 =
     (if bad (dk_clock d0) then (Inl ''mkdir failed'', tick d0)
      else let (c, secrets) = splitSecrets c0 in
       case writeSecrets bad dir secrets (tick d0) of
         (Inl e, d1) \<Rightarrow> (Inl e, d1)
       | (Inr u, d1) \<Rightarrow>
          (let d2 = RemoveAll bad (staging dir) d1;
               tree = (case dk_tree d2 dir of Some (Dir es) \<Rightarrow> Some es | _ \<Rightarrow> None)
           in case in_staging bad (staging dir) (case tree of Some es \<Rightarrow> copy_entries bad es | None \<Rightarrow> Pair (Inr ())) d2 of
                (Inl e, d3) \<Rightarrow> (Inl e, if tree = None then d3 else RemoveAll bad (staging dir) d3)
              | (Inr u, d3) \<Rightarrow>
                 (case in_staging bad (staging dir) (saveInPlace cx bad c) d3 of
                    (Inl e, d4) \<Rightarrow> (Inl e, RemoveAll bad (staging dir) d4)
                  | (Inr u, d4) \<Rightarrow> swap_in bad dir (tree \<noteq> None) d4)))"

section \<open>Loading\<close>

text \<open>
  The loops of \<open>loadItems\<close> and \<open>loadEnvironments\<close> collect pairs of a sequence number and an item;
  \<open>sort_key\<close> is stable, as \<open>sort.SliceStable\<close>.
\<close>

definition in_seq :: "(int \<times> 'a) list \<Rightarrow> 'a list" where
  "in_seq xs = map snd (sort_key fst xs)"

function load_loop :: "('y, 'n) codec \<Rightarrow> (nat \<Rightarrow> string) \<Rightarrow> 'y entries \<Rightarrow> nat
    \<Rightarrow> ((int \<times> folder) list \<times> (int \<times> request) list \<times> nat) result" where
  "load_loop cx gen [] n = Inr ([], [], n)"
| "load_loop cx gen ((name, Dir sub) # rest) n =
     (if name = environmentsDir then load_loop cx gen rest n
      else case map_of sub folderFile of
        None \<Rightarrow> load_loop cx gen rest n
      | Some (Dir x) \<Rightarrow> Inl ''read folder.yml: is a directory''
      | Some (File y) \<Rightarrow>
         bind_result (ux_fol cx y) (\<lambda>ff.
         bind_result (load_loop cx gen sub n) (\<lambda>(fs, rs, n1).
         bind_result (load_loop cx gen rest (Suc n1)) (\<lambda>(fols, reqs, n2).
           Inr ((oi_Seq (ff_Info ff),
                 Folder (gen n1) (oi_Name (ff_Info ff)) (in_seq fs) (in_seq rs)
                   (case ff_Auth ff of None \<Rightarrow> auth_of_type AuthInherit | Some a \<Rightarrow> fileToAuth (Some a))
                   (fileToVars (ff_Vars ff))) # fols, reqs, n2)))))"
| "load_loop cx gen ((name, File y) # rest) n =
     (if name = collectionFile \<or> name = folderFile \<or> \<not> has_suffix name ymlExt then load_loop cx gen rest n
      else bind_result (ux_req cx y) (\<lambda>rf.
        if oi_Type (of_Info rf) \<noteq> [] \<and> oi_Type (of_Info rf) \<noteq> ''http'' then load_loop cx gen rest n
        else let (r, n1) = fileToRequest gen rf n in
          bind_result (load_loop cx gen rest n1) (\<lambda>(fols, reqs, n2).
            Inr (fols, (oi_Seq (of_Info rf), r) # reqs, n2))))"
  by pat_completeness auto

termination
  by (relation "measure (\<lambda>(cx, gen, es, n). size_list (size_prod (\<lambda>_. 0) size) es)") auto

definition loadItems :: "('y, 'n) codec \<Rightarrow> (nat \<Rightarrow> string) \<Rightarrow> 'y entries \<Rightarrow> nat \<Rightarrow> (folder list \<times> request list \<times> nat) result" where
  "loadItems cx gen es n =
     bind_result (load_loop cx gen es n) (\<lambda>(fols, reqs, n1). Inr (in_seq fols, in_seq reqs, n1))"

fun load_env_loop :: "('y, 'n) codec \<Rightarrow> (nat \<Rightarrow> string) \<Rightarrow> 'y entries \<Rightarrow> nat \<Rightarrow> ((int \<times> environment) list \<times> nat) result" where
  "load_env_loop cx gen [] n = Inr ([], n)"
| "load_env_loop cx gen ((name, nd) # rest) n =
     (case nd of
        Dir sub \<Rightarrow> load_env_loop cx gen rest n
      | File y \<Rightarrow>
          if \<not> has_suffix name ymlExt then load_env_loop cx gen rest n
          else bind_result (ux_env cx y) (\<lambda>ef.
            let (e, n1) = fileToEnv gen ef n in
            bind_result (load_env_loop cx gen rest n1) (\<lambda>(es, n2). Inr ((oi_Seq (en_Info ef), e) # es, n2))))"

definition loadEnvironments :: "('y, 'n) codec \<Rightarrow> (nat \<Rightarrow> string) \<Rightarrow> 'y entries \<Rightarrow> nat \<Rightarrow> (environment list \<times> nat) result" where
  "loadEnvironments cx gen es n =
     (case map_of es environmentsDir of
        None \<Rightarrow> Inr ([], n)
      | Some (File y) \<Rightarrow> Inl ''not a directory''
      | Some (Dir sub) \<Rightarrow> bind_result (load_env_loop cx gen sub n) (\<lambda>(xs, n1). Inr (in_seq xs, n1)))"

definition Load :: "('y, 'n) codec \<Rightarrow> (nat \<Rightarrow> string) \<Rightarrow> string \<Rightarrow> 'y disk \<Rightarrow> collection result" where
  "Load cx gen dir d =
     (case dk_tree d dir of
        Some (Dir es) \<Rightarrow>
          (case map_of es collectionFile of
             Some (File y) \<Rightarrow>
               bind_result (ux_col cx y) (\<lambda>root.
               bind_result (loadEnvironments cx gen es 1) (\<lambda>(envs, n1).
               bind_result (loadItems cx gen es n1) (\<lambda>(fs, rs, n2).
                 Inr (applySecrets (readSecrets dir d)
                   \<lparr>co_ID = gen 0, co_Name = oi_Name (cl_Info root), co_Folders = fs, co_Requests = rs,
                    co_Environments = envs, co_Variables = fileToVars (cl_Vars root),
                    co_Auth = (case cl_Auth root of None \<Rightarrow> auth_of_type AuthNone | Some a \<Rightarrow> fileToAuth (Some a))\<rparr>))))
           | _ \<Rightarrow> Inl ''read opencollection.yml'')
      | _ \<Rightarrow> Inl ''read opencollection.yml'')"

end
