(* ===== verification/StoreSave.thy ===== *)
theory StoreSave
  imports Store
begin

text \<open>
  Saving is all or nothing at the level of the directory tree, whichever of the disk operations
  fail, and what that does and does not guarantee.
\<close>

section \<open>The effect of the steps on the disk\<close>

lemma paths_distinct [simp]:
  "staging dir \<noteq> dir" "aside dir \<noteq> dir" "staging dir \<noteq> aside dir" "dir \<noteq> staging dir" "dir \<noteq> aside dir" "aside dir \<noteq> staging dir"
  by (simp_all add: staging_def aside_def)

lemma tick_simps [simp]: "dk_tree (tick d) = dk_tree d" "dk_secrets (tick d) = dk_secrets d"
  by (simp_all add: tick_def)

lemma RemoveAll_simps [simp]:
  "q \<noteq> p \<Longrightarrow> dk_tree (RemoveAll bad p d) q = dk_tree d q" "dk_secrets (RemoveAll bad p d) = dk_secrets d"
  by (simp_all add: RemoveAll_def)

lemma Rename_cases:
  assumes "Rename bad p q d = (r, d1)" "p \<noteq> q"
  obtains (failed) e where "r = Inl e" "dk_tree d1 = dk_tree d" "dk_secrets d1 = dk_secrets d"
        "bad (dk_clock d) \<or> dk_tree d p = None \<or> dk_tree d q \<noteq> None" "dk_clock d1 = Suc (dk_clock d)"
    | (moved) "r = Inr ()" "dk_tree d1 = (dk_tree d)(p := None, q := dk_tree d p)" "dk_secrets d1 = dk_secrets d"
        "dk_tree d p \<noteq> None" "dk_clock d1 = Suc (dk_clock d)"
  using assms by (auto simp: Rename_def tick_def split: if_splits option.splits node.splits list.splits)

lemma in_staging_other:
  assumes "in_staging bad p act d = (r, d1)"
  shows "q \<noteq> p \<Longrightarrow> dk_tree d1 q = dk_tree d q" "dk_secrets d1 = dk_secrets d"
  using assms by (auto simp: in_staging_def split: if_splits option.splits node.splits prod.splits)

lemma in_staging_Inr:
  assumes "in_staging bad p act d = (Inr (), d1)"
  obtains es k es1 k1 where "act (es, k) = (Inr (), es1, k1)" "dk_tree d1 p = Some (Dir es1)"
    "dk_tree d p = None \<and> es = [] \<or> dk_tree d p = Some (Dir es)"
  using assms by (auto simp: in_staging_def split: if_splits option.splits node.splits prod.splits)

text \<open>
  After the swap the directory is the staged tree, or what it was, or missing with its old tree set
  aside, the last only when two operations in a row fail.
\<close>

lemma swap_in_result:
  assumes "swap_in bad dir existed d = (r, d1)" "dk_tree d (staging dir) = Some nd"
  shows "dk_secrets d1 = dk_secrets d \<and>
    (case r of Inr u \<Rightarrow> dk_tree d1 dir = Some nd
     | Inl e \<Rightarrow> dk_tree d1 dir = dk_tree d dir \<or> dk_tree d1 dir = None \<and> dk_tree d1 (aside dir) = dk_tree d dir \<and> (\<exists>k. bad k \<and> bad (Suc k)))"
proof -
  define d0 where "d0 = RemoveAll bad (aside dir) d"
  have t0: "dk_tree d0 dir = dk_tree d dir" "dk_tree d0 (staging dir) = Some nd" "dk_secrets d0 = dk_secrets d"
    using assms(2) by (simp_all add: d0_def)
  show ?thesis
  proof (cases existed)
    case True
    obtain r1 d2 where m: "Rename bad dir (aside dir) d0 = (r1, d2)" by force
    then show ?thesis
    proof (rule Rename_cases, simp)
      fix e assume "r1 = Inl e" "dk_tree d2 = dk_tree d0" "dk_secrets d2 = dk_secrets d0"
      with m True assms(1) t0 show ?thesis by (auto simp: swap_in_def d0_def [symmetric] Let_def)
    next
      assume r1: "r1 = Inr ()" "dk_tree d2 = (dk_tree d0)(dir := None, aside dir := dk_tree d0 dir)" "dk_secrets d2 = dk_secrets d0"
        "dk_tree d0 dir \<noteq> None"
      obtain r2 d3 where n: "Rename bad (staging dir) dir d2 = (r2, d3)" by force
      then show ?thesis
      proof (rule Rename_cases, simp)
        assume "r2 = Inr ()" "dk_tree d3 = (dk_tree d2)(staging dir := None, dir := dk_tree d2 (staging dir))"
          "dk_secrets d3 = dk_secrets d2"
        with m n r1 True assms(1) t0 show ?thesis by (auto simp: swap_in_def d0_def [symmetric] Let_def)
      next
        fix e assume r2: "r2 = Inl e" "dk_tree d3 = dk_tree d2" "dk_secrets d3 = dk_secrets d2"
          "bad (dk_clock d2) \<or> dk_tree d2 (staging dir) = None \<or> dk_tree d2 dir \<noteq> None" "dk_clock d3 = Suc (dk_clock d2)"
        then have "bad (dk_clock d2)" using r1(2) t0(2) by auto
        obtain r3 d4 where b: "Rename bad (aside dir) dir d3 = (r3, d4)" by force
        then show ?thesis
          by (rule Rename_cases) (use m n r1 r2 b True assms(1) t0 \<open>bad (dk_clock d2)\<close> in
            \<open>auto simp: swap_in_def d0_def [symmetric] Let_def\<close>)
      qed
    qed
  next
    case False
    obtain r2 d3 where n: "Rename bad (staging dir) dir d0 = (r2, d3)" by force
    then show ?thesis
      by (rule Rename_cases) (use n False assms t0 in \<open>auto simp: swap_in_def d0_def [symmetric] Let_def\<close>)
  qed
qed

lemma swap_in_other:
  assumes "swap_in bad dir existed d = (r, d1)" "q \<notin> {dir, staging dir, aside dir}"
  shows "dk_tree d1 q = dk_tree d q"
  using assms
  by (auto simp: swap_in_def Let_def Rename_def RemoveAll_def tick_def split: if_splits option.splits node.splits list.splits)

text \<open>Two disks that differ at most in the auxiliary trees and the secrets.\<close>

definition same_dir :: "string \<Rightarrow> 'y disk \<Rightarrow> 'y disk \<Rightarrow> bool" where
  "same_dir dir d d1 \<longleftrightarrow> (\<forall>q. q \<noteq> staging dir \<and> q \<noteq> aside dir \<longrightarrow> dk_tree d1 q = dk_tree d q)"

lemma same_dirD: "same_dir dir d d1 \<Longrightarrow> q \<noteq> staging dir \<Longrightarrow> q \<noteq> aside dir \<Longrightarrow> dk_tree d1 q = dk_tree d q"
  by (simp add: same_dir_def)

lemma writeSecrets_cases:
  assumes "writeSecrets bad dir m d = (r, d1)"
  obtains (failed) e where "r = Inl e" "dk_tree d1 = dk_tree d" "dk_secrets d1 = dk_secrets d"
    | (stored) "r = Inr ()" "dk_tree d1 = dk_tree d" "readSecrets dir d1 = m"
  using assms by (auto simp: writeSecrets_def readSecrets_def split: if_splits)

text \<open>What the staging directory holds before the collection is written into it.\<close>

definition staged_from :: "(nat \<Rightarrow> bool) \<Rightarrow> string \<Rightarrow> 'y disk \<Rightarrow> 'y entries \<Rightarrow> bool" where
  "staged_from bad dir d es \<longleftrightarrow>
     (\<exists>base k k1. (base = [] \<or> dk_tree d (staging dir) = Some (Dir base)) \<and>
        (case dk_tree d dir of Some (Dir src) \<Rightarrow> copy_entries bad src (base, k) = (Inr (), es, k1) | _ \<Rightarrow> es = base))"

lemma staged_fromI:
  assumes "in_staging bad (staging dir) (case (case dk_tree d2 dir of Some (Dir es) \<Rightarrow> Some es | _ \<Rightarrow> None) of
        Some es \<Rightarrow> copy_entries bad es | None \<Rightarrow> Pair (Inr ())) d2 = (Inr (), d3)"
    and "dk_tree d2 dir = dk_tree d dir" "dk_tree d2 (staging dir) = None \<or> dk_tree d2 (staging dir) = dk_tree d (staging dir)"
    and "dk_tree d3 (staging dir) = Some (Dir es)"
  shows "staged_from bad dir d es"
  using assms(1)
proof (rule in_staging_Inr)
  fix base k es1 k1
  assume a: "(case (case dk_tree d2 dir of Some (Dir es) \<Rightarrow> Some es | _ \<Rightarrow> None) of
      Some es \<Rightarrow> copy_entries bad es | None \<Rightarrow> Pair (Inr ())) (base, k) = (Inr (), es1, k1)"
    and "dk_tree d3 (staging dir) = Some (Dir es1)"
    and b: "dk_tree d2 (staging dir) = None \<and> base = [] \<or> dk_tree d2 (staging dir) = Some (Dir base)"
  then have "es1 = es" using assms(4) by simp
  with a have "case dk_tree d dir of Some (Dir src) \<Rightarrow> copy_entries bad src (base, k) = (Inr (), es, k1) | _ \<Rightarrow> es = base"
    using assms(2) by (auto split: option.splits node.splits)
  moreover have "base = [] \<or> dk_tree d (staging dir) = Some (Dir base)" using b assms(3) by auto
  ultimately show ?thesis unfolding staged_from_def by blast
qed

text \<open>
  A save fails before the swap, and then it has not touched the path, or it succeeds in staging
  the whole tree and ends with the swap.
\<close>

lemma Save_cases:
  assumes "Save cx bad c dir d = (r, d1)"
  obtains (failed) e where "r = Inl e" "same_dir dir d d1"
    | (swapped) existed st es k d4 where "saveInPlace cx bad (fst (splitSecrets c)) st = (Inr (), es, k)"
        "dk_tree d4 (staging dir) = Some (Dir es)" "same_dir dir d d4" "readSecrets dir d4 = snd (splitSecrets c)"
        "swap_in bad dir existed d4 = (r, d1)" "staged_from bad dir d (fst st)"
proof (cases "bad (dk_clock d)")
  case True
  with assms have "r = Inl ''mkdir failed''" "d1 = tick d" by (auto simp: Save_def)
  then show ?thesis by (intro failed [of "''mkdir failed''"]) (simp_all add: same_dir_def)
next
  case False
  obtain r1 e1 where w: "writeSecrets bad dir (snd (splitSecrets c)) (tick d) = (r1, e1)" by force
  then show ?thesis
  proof (rule writeSecrets_cases)
    fix e assume "r1 = Inl e" "dk_tree e1 = dk_tree (tick d)"
    with w False assms have "r = Inl e" "d1 = e1" by (auto simp: Save_def split: prod.splits)
    then show ?thesis using \<open>dk_tree e1 = dk_tree (tick d)\<close> by (intro failed) (simp_all add: same_dir_def)
  next
    assume r1: "r1 = Inr ()" "dk_tree e1 = dk_tree (tick d)" "readSecrets dir e1 = snd (splitSecrets c)"
    let ?tree = "case dk_tree (RemoveAll bad (staging dir) e1) dir of Some (Dir es) \<Rightarrow> Some es | _ \<Rightarrow> None"
    obtain r3 d3 where c3: "in_staging bad (staging dir)
        (case ?tree of Some es \<Rightarrow> copy_entries bad es | None \<Rightarrow> Pair (Inr ())) (RemoveAll bad (staging dir) e1) = (r3, d3)"
      by force
    obtain r4 d4 where c4: "in_staging bad (staging dir) (saveInPlace cx bad (fst (splitSecrets c))) d3 = (r4, d4)" by force
    note o3 = in_staging_other [OF c3] and o4 = in_staging_other [OF c4]
    have same: "same_dir dir d d3" "same_dir dir d d4" using o3(1) o4(1) r1(2) by (auto simp: same_dir_def)
    have sec: "readSecrets dir d4 = snd (splitSecrets c)" using o3(2) o4(2) r1(3) by (simp add: readSecrets_def)
    have S: "(r, d1) = (case r3 of Inl e \<Rightarrow> (Inl e, if ?tree = None then d3 else RemoveAll bad (staging dir) d3)
        | Inr u \<Rightarrow> (case r4 of Inl e \<Rightarrow> (Inl e, RemoveAll bad (staging dir) d4) | Inr u \<Rightarrow> swap_in bad dir (?tree \<noteq> None) d4))"
      using assms False w r1 c3 c4 by (auto simp: Save_def Let_def split: sum.splits prod.splits)
    show ?thesis
    proof (cases r3)
      case (Inl e)
      with S same failed show ?thesis by (auto simp: same_dir_def split: if_splits)
    next
      case (Inr u)
      note r3 = Inr
      show ?thesis
      proof (cases r4)
        case (Inl e)
        with S r3 same failed show ?thesis by (auto simp: same_dir_def)
      next
        case (Inr v)
        with c4 have "in_staging bad (staging dir) (saveInPlace cx bad (fst (splitSecrets c))) d3 = (Inr (), d4)" by simp
        then show ?thesis
        proof (rule in_staging_Inr)
          fix es k es1 k1
          assume a: "saveInPlace cx bad (fst (splitSecrets c)) (es, k) = (Inr (), es1, k1)"
            "dk_tree d4 (staging dir) = Some (Dir es1)"
            "dk_tree d3 (staging dir) = None \<and> es = [] \<or> dk_tree d3 (staging dir) = Some (Dir es)"
          have "dk_tree d3 (staging dir) \<noteq> None" using c3 r3 by (auto elim: in_staging_Inr)
          with a(3) have d3: "dk_tree d3 (staging dir) = Some (Dir es)" by auto
          have "staged_from bad dir d es"
          proof (rule staged_fromI [OF _ _ _ d3])
            show "in_staging bad (staging dir) (case ?tree of Some es \<Rightarrow> copy_entries bad es | None \<Rightarrow> Pair (Inr ()))
                (RemoveAll bad (staging dir) e1) = (Inr (), d3)" using c3 r3 by simp
          qed (simp_all add: r1(2), simp add: RemoveAll_def r1(2))
          with S r3 Inr same sec a(1,2) show ?thesis by (auto intro!: swapped)
        qed
      qed
    qed
  qed
qed

section \<open>All or nothing\<close>

text \<open>
  C10 Whichever disk operations fail, a save leaves at the collection's path either the whole new
  tree, with all of its secrets stored, or the tree that was there before; the path can be empty only
  when two operations in a row fail, the move of the staged tree and the move back, and the old
  tree is then found beside it. No other path outside the two auxiliary ones is touched.
\<close>

theorem save_atomic:
  "let (r, d1) = Save cx bad c dir d; aux = {dir, staging dir, aside dir} in
    (case r of
      Inr u \<Rightarrow> (\<exists>es0 k0 es k. saveInPlace cx bad (fst (splitSecrets c)) (es0, k0) = (Inr (), es, k) \<and> dk_tree d1 dir = Some (Dir es)) \<and>
        readSecrets dir d1 = snd (splitSecrets c)
    | Inl e \<Rightarrow> dk_tree d1 dir = dk_tree d dir \<or> dk_tree d1 dir = None \<and> dk_tree d1 (aside dir) = dk_tree d dir \<and> (\<exists>k. bad k \<and> bad (Suc k))) \<and>
    dk_tree d1 |` (- aux) = dk_tree d |` (- aux)"
proof -
  obtain r d1 where S: "Save cx bad c dir d = (r, d1)" by force
  then show ?thesis
  proof (rule Save_cases)
    fix e assume "r = Inl e" "same_dir dir d d1"
    with S show ?thesis by (auto simp: same_dir_def restrict_map_def)
  next
    fix existed st es k d4
    assume a: "saveInPlace cx bad (fst (splitSecrets c)) st = (Inr (), es, k)" "dk_tree d4 (staging dir) = Some (Dir es)"
      "same_dir dir d d4" "readSecrets dir d4 = snd (splitSecrets c)" and sw: "swap_in bad dir existed d4 = (r, d1)"
    obtain es0 k0 where "st = (es0, k0)" by force
    with swap_in_result [OF sw a(2)] swap_in_other [OF sw] S a show ?thesis
      by (auto simp: restrict_map_def readSecrets_def same_dir_def split: sum.splits)
  qed
qed

end
