(* ===== verification/StoreLoad.thy ===== *)
theory StoreLoad
  imports StoreSave
begin

text \<open>
  What is saved can be loaded: the directory tree that a successful save leaves, read back, is the
  collection again, up to the identities the format does not carry and the fields it drops.
\<close>

section \<open>The codec\<close>

text \<open>\<open>yaml.Unmarshal\<close> gives back what \<open>yaml.Marshal\<close> has written.\<close>

definition codec_ok :: "('y, 'n) codec \<Rightarrow> bool" where
  "codec_ok cx \<longleftrightarrow>
     (\<forall>f y. cx_col cx f = Inr y \<longrightarrow> ux_col cx y = Inr f) \<and> (\<forall>f y. cx_env cx f = Inr y \<longrightarrow> ux_env cx y = Inr f) \<and>
     (\<forall>f y. cx_req cx f = Inr y \<longrightarrow> ux_req cx y = Inr f) \<and> (\<forall>f y. cx_fol cx f = Inr y \<longrightarrow> ux_fol cx y = Inr f)"

lemma codec_okD:
  assumes "codec_ok cx"
  shows "cx_col cx f = Inr y \<Longrightarrow> ux_col cx y = Inr f" "cx_env cx g = Inr y \<Longrightarrow> ux_env cx y = Inr g"
    "cx_req cx h = Inr y \<Longrightarrow> ux_req cx y = Inr h" "cx_fol cx k = Inr y \<Longrightarrow> ux_fol cx y = Inr k"
  using assms by (auto simp: codec_ok_def)

section \<open>Unknown keys do not reach the model\<close>

lemma fileToAuth_merge [simp]: "fileToAuth (mergeAuthExtras a p) = fileToAuth a"
  by (auto simp: mergeAuthExtras_def merge_auth_def merge_block_def fileToAuth_def split: option.splits)

lemma mergeAuth_None [simp]: "mergeAuthExtras a p = None \<longleftrightarrow> a = None"
  by (auto simp: mergeAuthExtras_def split: option.splits)

lemma headers_merge:
  "map (\<lambda>x. \<lparr>kv_Enabled = (\<not> ok_Disabled x), kv_Key = ok_Name x, kv_Value = ok_Value x, kv_Description = []\<rparr>) (mergeKVExtras hs ps) =
   map (\<lambda>x. \<lparr>kv_Enabled = (\<not> ok_Disabled x), kv_Key = ok_Name x, kv_Value = ok_Value x, kv_Description = []\<rparr>) hs"
  by (auto simp: mergeKVExtras_def split: option.splits)

lemma params_merge:
  "map kv_of_param (filter (\<lambda>p. P (op_Type p)) (mergeParamExtras hs ps)) = map kv_of_param (filter (\<lambda>p. P (op_Type p)) hs)"
proof -
  have "P (op_Type (case z of Some e \<Rightarrow> x\<lparr>op_Extra := e\<rparr> | None \<Rightarrow> x)) = P (op_Type x)"
    "kv_of_param (case z of Some e \<Rightarrow> x\<lparr>op_Extra := e\<rparr> | None \<Rightarrow> x) = kv_of_param x" for x :: "'a ocParam" and z
    by (simp_all add: kv_of_param_def split: option.splits)
  then show ?thesis by (auto simp: mergeParamExtras_def filter_map comp_def)
qed

lemma chain_merge: "fileToChain (layer_chain ch p) = fileToChain ch"
  by (auto simp: layer_chain_def fileToChain_def split: option.splits)

lemma scripts_merge: "fileToScripts (layer_scripts s p) = fileToScripts s"
  by (auto simp: layer_scripts_def fileToScripts_def split: option.splits)

lemma body_merge:
  "(case merge_block ob_Extra (\<lambda>e. ob_Extra_update (\<lambda>_. e)) b p of None \<Rightarrow> d
     | Some b \<Rightarrow> zero_body\<lparr>body_Type := ob_Type b, body_Content := ob_Data b, body_FilePath := ob_FilePath b,
         body_ContentType := ob_ContentType b, body_GraphQLVariables := ob_GraphQLVars b\<rparr>) =
   (case b of None \<Rightarrow> d
     | Some b \<Rightarrow> zero_body\<lparr>body_Type := ob_Type b, body_Content := ob_Data b, body_FilePath := ob_FilePath b,
         body_ContentType := ob_ContentType b, body_GraphQLVariables := ob_GraphQLVars b\<rparr>)"
  by (auto simp: merge_block_def split: option.splits)

lemma auth_merge:
  "(case mergeAuthExtras a p of None \<Rightarrow> d | Some x \<Rightarrow> fileToAuth (Some x)) =
   (case a of None \<Rightarrow> d | Some x \<Rightarrow> fileToAuth (Some x))"
proof (cases a)
  case (Some x)
  then obtain y where y: "mergeAuthExtras a p = Some y" by (cases "mergeAuthExtras a p") auto
  have "fileToAuth (Some y) = fileToAuth (Some x)" unfolding y [symmetric] Some by simp
  then show ?thesis using y by (simp add: Some)
qed (simp add: mergeAuthExtras_def)

lemma read_merged_auth:
  "d = auth_of_type AuthInherit \<Longrightarrow>
   (case mergeAuthExtras (authToFile a) p of None \<Rightarrow> d | Some x \<Rightarrow> fileToAuth (Some x)) = kept_auth a"
  by (simp add: auth_merge kept_auth_read)

lemma fileToRequest_layer: "fileToRequest gen (layer_request p rf) n = fileToRequest gen rf n"
proof (cases p)
  case (Some q)
  show ?thesis
    by (cases "of_HTTP rf"; cases "of_HTTP q")
      (simp_all add: Some layer_request_def fileToRequest_def layer_http_def headers_merge params_merge body_merge
        auth_merge chain_merge scripts_merge Let_def params_merge [of "\<lambda>t. t = _"] params_merge [of "\<lambda>t. t \<noteq> _"])
qed (simp add: layer_request_def)

lemma layer_info [simp]:
  "oi_Type (of_Info (layer_request p rf)) = oi_Type (of_Info rf)" "oi_Seq (of_Info (layer_request p rf)) = oi_Seq (of_Info rf)"
  by (simp_all add: layer_request_def split: option.splits)

section \<open>Sorting by sequence number\<close>

lemma insort_key_map:
  "(\<And>y. y \<in> set ys \<Longrightarrow> k (h x) \<le> k (h y) \<longleftrightarrow> l x \<le> l y) \<Longrightarrow> insort_key k (h x) (map h ys) = map h (insort_key l x ys)"
  by (induction ys) auto

lemma sort_key_map:
  "(\<And>x y. x \<in> set xs \<Longrightarrow> y \<in> set xs \<Longrightarrow> k (h x) \<le> k (h y) \<longleftrightarrow> l x \<le> l y) \<Longrightarrow> sort_key k (map h xs) = map h (sort_key l xs)"
proof (induction xs)
  case (Cons x xs)
  have "sort_key k (map h (x # xs)) = insort_key k (h x) (map h (sort_key l xs))" using Cons by simp
  also have "\<dots> = map h (insort_key l x (sort_key l xs))" using Cons.prems by (intro insort_key_map) auto
  finally show ?case by simp
qed simp

lemma in_seq_apsnd: "map h (in_seq xs) = in_seq (map (apsnd h) xs)"
proof -
  have "sort_key fst (map (apsnd h) xs) = map (apsnd h) (sort_key fst xs)" by (rule sort_key_map) simp
  then show ?thesis by (simp add: in_seq_def comp_def)
qed

lemma sort_indices:
  assumes "distinct js" "set js = {..<n}"
  shows "sort js = [0..<n]"
proof (rule sorted_distinct_set_unique)
  show "set (sort js) = set [0..<n]" using assms(2) by (simp add: lessThan_atLeast0)
qed (use assms(1) in simp_all)

lemma in_seq_indices:
  assumes "distinct js" "set js = {..<length xs}"
  shows "in_seq (map (\<lambda>i. (int (Suc i), g (xs ! i))) js) = map g xs"
proof -
  have "sort_key fst (map (\<lambda>i. (int (Suc i), g (xs ! i))) js) = map (\<lambda>i. (int (Suc i), g (xs ! i))) (sort js)"
    by (rule sort_key_map) simp
  moreover have "map g (map ((!) xs) [0..<length xs]) = map g xs" by (simp only: map_nth)
  ultimately show ?thesis by (simp add: in_seq_def sort_indices [OF assms] comp_def)
qed

text \<open>The indices that the names of a directory stand for, in the order of the names.\<close>

definition index_list :: "(string \<Rightarrow> nat option) \<Rightarrow> (string \<times> 'v) list \<Rightarrow> nat list" where
  "index_list f es = List.map_filter (\<lambda>e. f (fst e)) es"

lemma index_list_simps [simp]:
  "index_list f [] = []"
  "index_list f (e # es) = (case f (fst e) of None \<Rightarrow> index_list f es | Some i \<Rightarrow> i # index_list f es)"
  by (simp_all add: index_list_def List.map_filter_simps split: option.split)

lemma set_index_list: "set (index_list f es) = {i. \<exists>e\<in>set es. f (fst e) = Some i}"
  by (induction es) (auto split: option.splits)

lemma distinct_index_list:
  assumes "sorted_names es" "\<And>a b i. f a = Some i \<Longrightarrow> f b = Some i \<Longrightarrow> a = b"
  shows "distinct (index_list f es)"
  using assms(1)
proof (induction es)
  case (Cons e es)
  then have "\<And>x. x \<in> set es \<Longrightarrow> fst x \<noteq> fst e" by (auto simp: sorted_names_def)
  moreover have "distinct (index_list f es)" using Cons by (simp add: sorted_names_def)
  ultimately show ?case by (auto simp: set_index_list split: option.splits) (metis assms(2) fst_conv)
qed simp

lemma in_seq_index_list:
  assumes "sorted_names es" "\<And>a i. f a = Some i \<longleftrightarrow> i < length xs \<and> a = names ! i"
    "length names = length xs" "\<And>i. i < length xs \<Longrightarrow> names ! i \<in> fst ` set es"
  shows "in_seq (map (\<lambda>i. (int (Suc i), g (xs ! i))) (index_list f es)) = map g xs"
proof (rule in_seq_indices)
  show "distinct (index_list f es)" by (rule distinct_index_list [OF assms(1)]) (simp add: assms(2))
  show "set (index_list f es) = {..<length xs}" using assms(2,4) by (fastforce simp: set_index_list image_iff)
qed

section \<open>What the files of a directory hold\<close>

fun anon_folder :: "folder \<Rightarrow> folder" where
  "anon_folder (Folder i n fs rs a vs) = Folder [] n (map anon_folder fs) rs a vs"

fun stored_folder :: "folder \<Rightarrow> folder" where
  "stored_folder (Folder i n fs rs a vs) = Folder [] n (map stored_folder fs) (map kept_request rs) (kept_auth a) vs"

definition reads_items :: "('y, 'n) codec \<Rightarrow> 'y entries \<Rightarrow> folder list \<Rightarrow> request list \<Rightarrow> bool" where
  "reads_items cx es fs rs \<longleftrightarrow>
     (\<forall>gen n. \<exists>fols reqs n1. load_loop cx gen es n = Inr (fols, reqs, n1) \<and>
        map anon_folder (in_seq fols) = map stored_folder fs \<and> in_seq reqs = map kept_request rs)"

definition stored_req :: "('y, 'n) codec \<Rightarrow> nat \<Rightarrow> request \<Rightarrow> 'y node \<Rightarrow> bool" where
  "stored_req cx i r nd \<longleftrightarrow>
     (\<exists>y rf. nd = File y \<and> ux_req cx y = Inr rf \<and> oi_Type (of_Info rf) = ''http'' \<and> oi_Seq (of_Info rf) = int (Suc i) \<and>
        (\<forall>gen n. fileToRequest gen rf n = (kept_request r, n)))"

definition stored_fol :: "('y, 'n) codec \<Rightarrow> nat \<Rightarrow> folder \<Rightarrow> 'y node \<Rightarrow> bool" where
  "stored_fol cx i f nd \<longleftrightarrow>
     (\<exists>sub y ff. nd = Dir sub \<and> map_of sub folderFile = Some (File y) \<and> ux_fol cx y = Inr ff \<and>
        oi_Name (ff_Info ff) = fo_Name f \<and> oi_Seq (ff_Info ff) = int (Suc i) \<and> fileToVars (ff_Vars ff) = fo_Variables f \<and>
        (case ff_Auth ff of None \<Rightarrow> auth_of_type AuthInherit | Some a \<Rightarrow> fileToAuth (Some a)) = kept_auth (fo_Auth f) \<and>
        reads_items cx sub (fo_Folders f) (fo_Requests f))"

definition ignored :: "string \<Rightarrow> 'y node \<Rightarrow> bool" where
  "ignored name nd \<longleftrightarrow>
     (case nd of File y \<Rightarrow> name = collectionFile \<or> name = folderFile \<or> \<not> has_suffix name ymlExt
      | Dir sub \<Rightarrow> name = environmentsDir \<or> map_of sub folderFile = None)"

text \<open>Every entry is the file of a request, the directory of a folder, or not looked at.\<close>

definition laid_out :: "('y, 'n) codec \<Rightarrow> (string \<Rightarrow> nat option) \<Rightarrow> (string \<Rightarrow> nat option) \<Rightarrow> folder list \<Rightarrow> request list
    \<Rightarrow> string \<Rightarrow> 'y node \<Rightarrow> bool" where
  "laid_out cx rq fl fs rs name nd \<longleftrightarrow>
     (case (rq name, fl name) of
        (Some i, None) \<Rightarrow> stored_req cx i (rs ! i) nd \<and> name \<noteq> collectionFile \<and> name \<noteq> folderFile \<and> has_suffix name ymlExt
      | (None, Some i) \<Rightarrow> stored_fol cx i (fs ! i) nd \<and> name \<noteq> environmentsDir
      | (None, None) \<Rightarrow> ignored name nd
      | (Some i, Some j) \<Rightarrow> False)"

lemma load_loop_laid_out:
  assumes "\<And>name nd. (name, nd) \<in> set es \<Longrightarrow> laid_out cx rq fl fs rs name nd"
  shows "\<exists>fols reqs n1. load_loop cx gen es n = Inr (fols, reqs, n1) \<and>
    map (apsnd anon_folder) fols = map (\<lambda>i. (int (Suc i), stored_folder (fs ! i))) (index_list fl es) \<and>
    reqs = map (\<lambda>i. (int (Suc i), kept_request (rs ! i))) (index_list rq es)"
  using assms
proof (induction es arbitrary: n)
  case (Cons e es)
  obtain name nd where e: "e = (name, nd)" by force
  have IH: "\<And>n. \<exists>fols reqs n1. load_loop cx gen es n = Inr (fols, reqs, n1) \<and>
    map (apsnd anon_folder) fols = map (\<lambda>i. (int (Suc i), stored_folder (fs ! i))) (index_list fl es) \<and>
    reqs = map (\<lambda>i. (int (Suc i), kept_request (rs ! i))) (index_list rq es)"
    using Cons by simp
  have L: "laid_out cx rq fl fs rs name nd" using Cons.prems e by simp
  consider (req) i where "rq name = Some i" "fl name = None" | (fol) i where "rq name = None" "fl name = Some i"
    | (none) "rq name = None" "fl name = None"
    using L by (auto simp: laid_out_def split: option.splits)
  then show ?case
  proof cases
    case req
    then obtain y rf where y: "nd = File y" "ux_req cx y = Inr rf" "oi_Type (of_Info rf) = ''http''"
      "oi_Seq (of_Info rf) = int (Suc i)" "\<And>gen n. fileToRequest gen rf n = (kept_request (rs ! i), n)"
      "name \<noteq> collectionFile" "name \<noteq> folderFile" "has_suffix name ymlExt"
      using L by (auto simp: laid_out_def stored_req_def)
    show ?thesis using IH [of n] req by (auto simp: e y)
  next
    case fol
    then obtain sub y ff where y: "nd = Dir sub" "map_of sub folderFile = Some (File y)" "ux_fol cx y = Inr ff"
      "oi_Name (ff_Info ff) = fo_Name (fs ! i)" "oi_Seq (ff_Info ff) = int (Suc i)"
      "fileToVars (ff_Vars ff) = fo_Variables (fs ! i)"
      "(case ff_Auth ff of None \<Rightarrow> auth_of_type AuthInherit | Some a \<Rightarrow> fileToAuth (Some a)) = kept_auth (fo_Auth (fs ! i))"
      "reads_items cx sub (fo_Folders (fs ! i)) (fo_Requests (fs ! i))" "name \<noteq> environmentsDir"
      using L by (auto simp: laid_out_def stored_fol_def)
    then obtain fols reqs n1 where l: "load_loop cx gen sub n = Inr (fols, reqs, n1)"
      "map anon_folder (in_seq fols) = map stored_folder (fo_Folders (fs ! i))"
      "in_seq reqs = map kept_request (fo_Requests (fs ! i))"
      unfolding reads_items_def by blast
    show ?thesis using IH [of "Suc n1"] fol l by (cases "fs ! i") (auto simp: e y)
  next
    case none
    with L have "load_loop cx gen ((name, nd) # es) n = load_loop cx gen es n"
      by (cases nd) (auto simp: laid_out_def ignored_def)
    with IH [of n] none show ?thesis by (auto simp: e)
  qed
qed simp

section \<open>Names\<close>

text \<open>Item names have no dot: a request file is never named like a folder.\<close>

abbreviation nodot :: "string \<Rightarrow> bool" where
  "nodot s \<equiv> CHR ''.'' \<notin> set s"

lemma unique_loop_fresh: "unique_loop base used i name \<notin> set used"
  by (induction base used i name rule: unique_loop.induct) (subst unique_loop.simps, simp)

lemma digit_chars: "c \<in> set (itoa (int i)) \<Longrightarrow> is_digit c"
  using nat_digits_digits [of i] by (auto simp: list_all_iff)

lemma nodot_itoa [simp]: "nodot (itoa (int i))"
  using digit_chars [of "CHR ''.''" i] by (auto simp: is_digit_def simp del: itoa_nat)

lemma nodot_itoa_Suc [simp]: "nodot (itoa (1 + int i))"
  using nodot_itoa [of "Suc i"] by (simp del: itoa_nat nodot_itoa)

lemma unique_loop_nodot: "nodot base \<Longrightarrow> nodot name \<Longrightarrow> nodot (unique_loop base used i name)"
proof (induction base used i name rule: unique_loop.induct)
  case (1 base used i name)
  then show ?case by (subst unique_loop.simps) (auto simp: suffixed_def simp del: itoa_nat)
qed

lemma dash_runs_chars: "c \<in> set (dash_runs b s) \<Longrightarrow> slug_char c \<or> c = CHR ''-''"
  by (induction b s rule: dash_runs.induct) (auto split: if_splits)

lemma set_trim_byte: "set (trim_byte c s) \<subseteq> set s"
  by (auto simp: trim_byte_def dest!: set_dropWhileD)

lemma slug_nodot: "nodot fb \<Longrightarrow> nodot (slug name fb)"
  using dash_runs_chars [of "CHR ''.''"] set_trim_byte [of "CHR ''-''"]
  by (auto simp: slug_def Let_def slug_char_def less_eq_char_def dest!: subsetD)

lemma item_slug_nodot [simp]: "nodot kind \<Longrightarrow> nodot (item_slug kind f i x)"
  by (simp add: item_slug_def slug_nodot del: itoa_nat)

lemma uniqueName_props:
  assumes "uniqueName base used = (name, used1)"
  shows "name \<notin> set used" "used1 = name # used" "nodot base \<Longrightarrow> nodot name"
  using assms unique_loop_fresh [of base used 2 base] unique_loop_nodot [of base base used 2]
  by (auto simp: uniqueName_def Let_def)

lemma yml_inject [simp]: "a @ ymlExt = b @ ymlExt \<longleftrightarrow> a = b"
  by (simp add: ymlExt_def)

lemma yml_has_dot: "\<not> nodot (a @ ymlExt)"
  by (simp add: ymlExt_def)

lemma yml_suffix [simp]: "has_suffix (a @ ymlExt) ymlExt"
  by (simp add: suffix_def)

section \<open>What the writers do to a directory\<close>

lemma writeYAML_Inr:
  assumes "writeYAML bad name doc st = (Inr (), st1)"
  obtains y where "doc = Inr y" "fst st1 = put_entry name (File y) (fst st)"
    "\<And>sub. map_of (fst st) name \<noteq> Some (Dir sub)"
  using assms by (auto simp: writeYAML_def split: sum.splits if_splits option.splits node.splits)

lemma MkdirAll_Inr:
  assumes "MkdirAll bad name st = (Inr (), st1)" "sorted_names (fst st)"
  shows "sorted_names (fst st1)" "map_of (fst st1) = (map_of (fst st))(name \<mapsto> Dir (subdir name (fst st)))"
    "subdir name (fst st1) = subdir name (fst st)"
  using assms
  by (auto simp: MkdirAll_def subdir_def ents.get_put ents.wf_put map_upd_triv split: if_splits option.splits node.splits)

lemma within_dir_eq:
  assumes "within_dir name act st = (r, st1)" "sorted_names (fst st)"
  obtains sub k where "act (subdir name (fst st), snd st) = (r, sub, k)" "sorted_names (fst st1)"
    "map_of (fst st1) = (map_of (fst st))(name \<mapsto> Dir sub)"
  using assms by (auto simp: within_dir_def ents.get_put ents.wf_put split: prod.splits)

lemma sweep_loop_Inr:
  assumes "sweep_loop bad keep xs st = (Inr (), st1)" "sorted_names (fst st)"
  shows "sorted_names (fst st1) \<and>
    (\<forall>n. map_of (fst st1) n =
      (if n \<notin> set keep \<and> (\<exists>nd. (n, nd) \<in> set xs \<and> (case nd of Dir sub \<Rightarrow> map_of sub folderFile \<noteq> None | File y \<Rightarrow> has_suffix n ymlExt))
       then None else map_of (fst st) n))"
  using assms
proof (induction bad keep xs st rule: sweep_loop.induct)
  case (2 bad keep name nd rest st)
  then show ?case
    by (cases nd) (auto simp: ents.get_del ents.wf_del split: if_splits)
qed auto

text \<open>After a sweep, an entry is one to keep, or one that the loader does not look at.\<close>

lemma sweepDir_Inr:
  assumes "sweepDir bad keep st = (Inr (), st1)" "sorted_names (fst st)"
  shows "sorted_names (fst st1)" "\<And>n. n \<in> set keep \<Longrightarrow> map_of (fst st1) n = map_of (fst st) n"
    "\<And>n nd. n \<notin> set keep \<Longrightarrow> map_of (fst st1) n = Some nd \<Longrightarrow>
       (case nd of File y \<Rightarrow> \<not> has_suffix n ymlExt | Dir sub \<Rightarrow> map_of sub folderFile = None)"
proof -
  from assms have "sweep_loop bad keep (fst st) st = (Inr (), st1)" by (simp add: sweepDir_def)
  note L = sweep_loop_Inr [OF this assms(2)]
  then show "sorted_names (fst st1)" "\<And>n. n \<in> set keep \<Longrightarrow> map_of (fst st1) n = map_of (fst st) n" by auto
  show "case nd of File y \<Rightarrow> \<not> has_suffix n ymlExt | Dir sub \<Rightarrow> map_of sub folderFile = None"
    if "n \<notin> set keep" "map_of (fst st1) n = Some nd" for n nd
    using L that by (cases nd) (auto split: if_splits dest: map_of_SomeD)
qed

lemma write_each_Inr:
  assumes "write_each bad base doc i xs used keep st = (Inr (used1, keep1), st1)" "sorted_names (fst st)"
    "\<And>j x. nodot (base j x)"
  shows "\<exists>names. length names = length xs \<and> distinct names \<and> set names \<inter> set used = {} \<and> (\<forall>n\<in>set names. nodot n) \<and>
    set used1 = set used \<union> set names \<and> set keep1 = set keep \<union> (\<lambda>n. n @ ymlExt) ` set names \<and> sorted_names (fst st1) \<and>
    (\<forall>n. n \<notin> (\<lambda>n. n @ ymlExt) ` set names \<longrightarrow> map_of (fst st1) n = map_of (fst st) n) \<and>
    (\<forall>j<length xs. \<exists>es y. doc (i + j) (xs ! j) (names ! j @ ymlExt) es = Inr y \<and>
       map_of (fst st1) (names ! j @ ymlExt) = Some (File y))"
  using assms
proof (induction bad base doc i xs used keep st arbitrary: used1 keep1 st1 rule: write_each.induct)
  case (2 bad base doc i x xs used keep st)
  obtain name u where u: "uniqueName (base i x) used = (name, u)" by force
  note up = uniqueName_props [OF u]
  from 2(2) u obtain st2 where w: "writeYAML bad (name @ ymlExt) (doc i x (name @ ymlExt) (fst st)) st = (Inr (), st2)"
    and r: "write_each bad base doc (Suc i) xs u ((name @ ymlExt) # keep) st2 = (Inr (used1, keep1), st1)"
    by (auto simp: Let_def split: sum.splits prod.splits)
  from w obtain y where y: "doc i x (name @ ymlExt) (fst st) = Inr y" "fst st2 = put_entry (name @ ymlExt) (File y) (fst st)"
    by (rule writeYAML_Inr) blast
  have s2: "sorted_names (fst st2)" by (simp add: y ents.wf_put 2(3))
  from 2(1) [OF refl u [symmetric] refl w [symmetric] refl r s2 2(4)] obtain names where n: "length names = length xs" "distinct names"
      "set names \<inter> set u = {}" "\<forall>n\<in>set names. nodot n" "set used1 = set u \<union> set names"
      "set keep1 = insert (name @ ymlExt) (set keep) \<union> (\<lambda>n. n @ ymlExt) ` set names" "sorted_names (fst st1)"
      "\<And>n. n \<notin> (\<lambda>n. n @ ymlExt) ` set names \<Longrightarrow> map_of (fst st1) n = map_of (fst st2) n"
      "\<And>j. j < length xs \<Longrightarrow> \<exists>es y. doc (Suc i + j) (xs ! j) (names ! j @ ymlExt) es = Inr y \<and>
         map_of (fst st1) (names ! j @ ymlExt) = Some (File y)"
    by auto
  have "name \<notin> set names" using n(3) up(2) by auto
  then have "map_of (fst st1) (name @ ymlExt) = Some (File y)" using n(8) [of "name @ ymlExt"] y 2(3) by (auto simp: ents.get_put)
  then have "\<exists>es y. doc (i + j) ((x # xs) ! j) ((name # names) ! j @ ymlExt) es = Inr y \<and>
      map_of (fst st1) ((name # names) ! j @ ymlExt) = Some (File y)" if "j < length (x # xs)" for j
    using n(9) [of "j - 1"] y that by (cases j) auto
  moreover have "map_of (fst st1) m = map_of (fst st) m" if "m \<notin> (\<lambda>n. n @ ymlExt) ` set (name # names)" for m
    using n(8) [of m] that by (simp add: y ents.get_put 2(3))
  ultimately show ?case using n up \<open>name \<notin> set names\<close> 2(4)
    by (intro exI [of _ "name # names"]) auto
qed auto

section \<open>Saving and loading the items of a container\<close>

lemma requestToFile_info [simp]:
  "oi_Type (of_Info (requestToFile r q)) = ''http''" "oi_Seq (of_Info (requestToFile r q)) = q"
  by (simp_all add: requestToFile_def info_def)

lemma request_doc_stored:
  assumes "request_doc cx i r file es = Inr y" "codec_ok cx" "rq_ID r \<noteq> []"
  shows "stored_req cx i r (File y)"
proof -
  from codec_okD(3) [OF assms(2) assms(1) [unfolded request_doc_def]] show ?thesis
    by (auto simp: stored_req_def fileToRequest_layer fileToRequest_back [OF assms(3)])
qed

lemma folder_doc_stored:
  assumes "folder_doc cx i f es = Inr y" "codec_ok cx"
  shows "\<exists>ff. ux_fol cx y = Inr ff \<and> oi_Name (ff_Info ff) = fo_Name f \<and> oi_Seq (ff_Info ff) = int (Suc i) \<and>
    fileToVars (ff_Vars ff) = fo_Variables f \<and>
    (case ff_Auth ff of None \<Rightarrow> auth_of_type AuthInherit | Some a \<Rightarrow> fileToAuth (Some a)) = kept_auth (fo_Auth f)"
  using codec_okD(4) [OF assms(2) assms(1) [unfolded folder_doc_def Let_def]]
  by (cases "readFile (ux_fol cx) folderFile es") (auto simp: info_def read_merged_auth kept_auth_read)

text \<open>The requests of a folder tree have identities, as the session gives them.\<close>

definition with_ids :: "folder list \<Rightarrow> request list \<Rightarrow> bool" where
  "with_ids fs rs \<longleftrightarrow> (\<forall>r\<in>set (tree_requests fs rs). rq_ID r \<noteq> [])"

lemma with_ids_requests: "with_ids fs rs \<Longrightarrow> i < length rs \<Longrightarrow> rq_ID (rs ! i) \<noteq> []"
  by (auto simp: with_ids_def tree_requests_def)

lemma with_ids_folder: "with_ids (f # fs) rs \<Longrightarrow> with_ids (fo_Folders f) (fo_Requests f) \<and> with_ids fs rs"
  by (cases f) (auto simp: with_ids_def tree_requests_def)

text \<open>
  Directories as the program leaves them: entries in order, and no directory with the name of one
  of the two special files.
\<close>

fun tidy :: "'y node \<Rightarrow> bool" where
  "tidy (File y) = True"
| "tidy (Dir es) \<longleftrightarrow> sorted_names es \<and>
     (\<forall>e\<in>set es. tidy (snd e) \<and> (case snd e of File y \<Rightarrow> True | Dir sub \<Rightarrow> fst e \<noteq> collectionFile \<and> fst e \<noteq> folderFile))"

lemma tidy_DirD:
  assumes "tidy (Dir es)" "map_of es n = Some nd"
  shows "tidy nd" "\<And>sub. nd = Dir sub \<Longrightarrow> n \<noteq> collectionFile \<and> n \<noteq> folderFile"
proof -
  have "(n, nd) \<in> set es" using assms(2) by (rule map_of_SomeD)
  with assms(1) have t: "tidy (snd (n, nd)) \<and>
      (case snd (n, nd) of File y \<Rightarrow> True | Dir sub \<Rightarrow> fst (n, nd) \<noteq> collectionFile \<and> fst (n, nd) \<noteq> folderFile)"
    unfolding tidy.simps by blast
  then show "tidy nd" by simp
  show "n \<noteq> collectionFile \<and> n \<noteq> folderFile" if "nd = Dir sub" for sub using t that by simp
qed

definition pick :: "string list \<Rightarrow> string \<Rightarrow> nat option" where
  "pick names n = (if n \<in> set names then Some (LEAST i. i < length names \<and> names ! i = n) else None)"

lemma pick_Some: "distinct names \<Longrightarrow> pick names n = Some i \<longleftrightarrow> i < length names \<and> n = names ! i"
proof
  assume d: "distinct names"
  { assume "pick names n = Some i"
    then have "n \<in> set names" and i: "i = (LEAST i. i < length names \<and> names ! i = n)" by (auto simp: pick_def split: if_splits)
    then obtain j where "j < length names \<and> names ! j = n" by (auto simp: in_set_conv_nth)
    from LeastI [of "\<lambda>i. i < length names \<and> names ! i = n", OF this] show "i < length names \<and> n = names ! i" unfolding i by simp }
  assume a: "i < length names \<and> n = names ! i"
  with d have "(LEAST i. i < length names \<and> names ! i = n) = i"
    by (intro Least_equality) (auto simp: nth_eq_iff_index_eq)
  with a show "pick names n = Some i" by (auto simp: pick_def)
qed

lemma pick_None [simp]: "n \<notin> set names \<Longrightarrow> pick names n = None"
  by (simp add: pick_def)

text \<open>What \<open>saveItems\<close> needs of the directory it works in, and what it makes of it.\<close>

definition tidy_dirs :: "string list \<Rightarrow> 'y entries \<Rightarrow> bool" where
  "tidy_dirs used es \<longleftrightarrow> sorted_names es \<and> (\<forall>n sub. n \<notin> set used \<and> map_of es n = Some (Dir sub) \<longrightarrow> tidy (Dir sub))"

definition no_odd_dirs :: "'y entries \<Rightarrow> bool" where
  "no_odd_dirs es \<longleftrightarrow> (\<forall>n sub. map_of es n = Some (Dir sub) \<longrightarrow> n \<noteq> collectionFile \<and> n \<noteq> folderFile)"

definition not_swept :: "string \<Rightarrow> 'y node \<Rightarrow> bool" where
  "not_swept n nd \<longleftrightarrow> (case nd of File y \<Rightarrow> \<not> has_suffix n ymlExt | Dir sub \<Rightarrow> map_of sub folderFile = None)"

lemma not_swept_ignored: "not_swept n nd \<Longrightarrow> ignored n nd"
  by (auto simp: not_swept_def ignored_def split: node.splits)

lemma tidy_subdir: "tidy (Dir es) \<Longrightarrow> tidy_dirs used es \<and> no_odd_dirs es"
  unfolding tidy_dirs_def no_odd_dirs_def using tidy_DirD by (metis tidy.simps(2))

lemma tidy_subdir_of: "tidy_dirs used es \<Longrightarrow> n \<notin> set used \<Longrightarrow> tidy (Dir (subdir n es))"
proof -
  assume a: "tidy_dirs used es" "n \<notin> set used"
  have e: "tidy (Dir [])" by (simp add: sorted_names_def)
  show ?thesis
  proof (cases "map_of es n")
    case (Some nd)
    with a e show ?thesis by (cases nd) (simp_all del: tidy.simps(2) add: subdir_def tidy_dirs_def)
  qed (simp del: tidy.simps(2) add: subdir_def e)
qed

lemma tidy_put_file:
  "tidy_dirs used es \<Longrightarrow> tidy_dirs used (put_entry n (File y) es)"
  "sorted_names es \<Longrightarrow> no_odd_dirs es \<Longrightarrow> no_odd_dirs (put_entry n (File y) es)"
  by (auto simp: tidy_dirs_def no_odd_dirs_def ents.get_put ents.wf_put)

lemma special_names: "set items_used = {''opencollection'', ''folder'', environmentsDir}"
  "set items_keep = {collectionFile, folderFile, environmentsDir}"
  by (simp_all add: items_used_def items_keep_def trim_suffix_def name_defs suffix_def)

lemma request_file_names:
  assumes "n \<notin> set items_used"
  shows "n @ ymlExt \<noteq> collectionFile" "n @ ymlExt \<noteq> folderFile" "n @ ymlExt \<noteq> environmentsDir"
proof -
  have "collectionFile = ''opencollection'' @ ymlExt" "folderFile = ''folder'' @ ymlExt" by (simp_all add: name_defs)
  moreover have "n \<noteq> ''opencollection''" "n \<noteq> ''folder''" using assms by (auto simp: special_names)
  ultimately show "n @ ymlExt \<noteq> collectionFile" "n @ ymlExt \<noteq> folderFile" by (metis yml_inject)+
  have "nodot environmentsDir" by (simp add: environmentsDir_def)
  then show "n @ ymlExt \<noteq> environmentsDir" by (metis yml_has_dot)
qed

text \<open>The folders of a container, written after its requests.\<close>

definition folders_done :: "('y, 'n) codec \<Rightarrow> nat \<Rightarrow> folder list \<Rightarrow> string list \<Rightarrow> string list \<Rightarrow> string list \<Rightarrow> 'y entries \<Rightarrow> 'y entries \<Rightarrow> bool" where
  "folders_done cx i fs used keep names es es1 \<longleftrightarrow>
     length names = length fs \<and> distinct names \<and> set names \<inter> set used = {} \<and> (\<forall>n\<in>set names. nodot n) \<and> sorted_names es1 \<and>
     (\<forall>j<length fs. \<exists>nd. map_of es1 (names ! j) = Some nd \<and> stored_fol cx (i + j) (fs ! j) nd) \<and>
     (\<forall>n\<in>set keep - set names. map_of es1 n = map_of es n) \<and>
     (\<forall>n nd. n \<notin> set keep \<union> set names \<and> map_of es1 n = Some nd \<longrightarrow> not_swept n nd)"

lemma folders_done_Nil:
  "sweepDir bad keep st = (Inr (), st1) \<Longrightarrow> sorted_names (fst st) \<Longrightarrow> folders_done cx i [] used keep [] (fst st) (fst st1)"
  using sweepDir_Inr [of bad keep st st1] by (auto simp: folders_done_def not_swept_def)

lemma folders_done_Cons:
  assumes "folders_done cx (Suc i) fs (name # used) (name # keep) names es2 es1" "nodot name" "name \<notin> set used"
    "stored_fol cx i f nd" "map_of es2 = (map_of es)(name \<mapsto> nd)"
  shows "folders_done cx i (f # fs) used keep (name # names) es es1"
proof -
  have "\<exists>nd. map_of es1 ((name # names) ! j) = Some nd \<and> stored_fol cx (i + j) ((f # fs) ! j) nd" if "j < length (f # fs)" for j
    using assms that by (cases j) (auto simp: folders_done_def)
  then show ?thesis using assms by (auto simp: folders_done_def)
qed

text \<open>Once requests and folders are in place, the loader reads them back.\<close>

lemma sorted_names_distinct: "sorted_names es \<Longrightarrow> distinct (map fst es)"
  by (induction es) (auto simp: sorted_names_def)

lemma items_readable:
  assumes F: "folders_done cx 0 fs used keep fnames es es1"
    and R: "length rnames = length rs" "distinct rnames" "set rnames \<inter> set items_used = {}"
      "set keep = set items_keep \<union> (\<lambda>n. n @ ymlExt) ` set rnames"
      "\<And>j. j < length rs \<Longrightarrow> \<exists>nd. map_of es (rnames ! j @ ymlExt) = Some nd \<and> stored_req cx j (rs ! j) nd"
    and used: "set items_used \<subseteq> set used" and odd: "no_odd_dirs es"
  shows "reads_items cx es1 fs rs"
proof -
  let ?files = "map (\<lambda>n. n @ ymlExt) rnames"
  let ?rq = "pick ?files" and ?fl = "pick fnames"
  have dr: "distinct ?files" using R(2) by (simp add: distinct_map inj_on_def)
  have df: "distinct fnames" and lf: "length fnames = length fs" using F by (simp_all add: folders_done_def)
  have dj: "n \<notin> set ?files" if "n \<in> set fnames" for n
    using F that yml_has_dot by (auto simp: folders_done_def)
  have req: "\<exists>nd. map_of es1 (?files ! j) = Some nd \<and> stored_req cx j (rs ! j) nd" if "j < length rs" for j
  proof -
    have m: "?files ! j \<in> set ?files" using that R(1) by (intro nth_mem) simp
    then have "?files ! j \<in> set keep - set fnames" using R(4) dj by auto
    then have "map_of es1 (?files ! j) = map_of es (?files ! j)" using F by (simp add: folders_done_def)
    with R(5) [OF that] that R(1) show ?thesis by simp
  qed
  have fol: "\<exists>nd. map_of es1 (fnames ! j) = Some nd \<and> stored_fol cx j (fs ! j) nd" if "j < length fs" for j
    using F that by (simp add: folders_done_def)
  have L: "laid_out cx ?rq ?fl fs rs name nd" if "(name, nd) \<in> set es1" for name nd
  proof -
    have m: "map_of es1 name = Some nd"
      using F that sorted_names_distinct by (intro map_of_is_SomeI) (auto simp: folders_done_def)
    show ?thesis
    proof (cases "name \<in> set ?files")
      case True
      then obtain j where j: "j < length rs" "name = ?files ! j" using R(1) by (metis in_set_conv_nth length_map)
      with req m have "stored_req cx j (rs ! j) nd" by fastforce
      moreover have "?rq name = Some j" using j R(1) by (simp add: pick_Some [OF dr])
      moreover have "?fl name = None" using True dj [of name] by (intro pick_None) blast
      moreover have "rnames ! j \<notin> set items_used" using R(1,3) j by (metis disjoint_iff nth_mem)
      ultimately show ?thesis using request_file_names [of "rnames ! j"] j R(1) by (simp add: laid_out_def)
    next
      case nr: False
      show ?thesis
      proof (cases "name \<in> set fnames")
        case True
        then obtain j where j: "j < length fs" "name = fnames ! j" using lf by (metis in_set_conv_nth)
        with fol m have "stored_fol cx j (fs ! j) nd" by fastforce
        moreover have "?fl name = Some j" using j lf by (simp add: pick_Some [OF df])
        moreover have "name \<noteq> environmentsDir" using F True used by (auto simp: folders_done_def special_names)
        ultimately show ?thesis using nr by (simp add: laid_out_def)
      next
        case nf: False
        have "ignored name nd"
        proof (cases "name \<in> set items_keep")
          case True
          then have "map_of es name = Some nd" using F R(4) nf m by (simp add: folders_done_def)
          then show ?thesis using odd True
            by (cases nd) (auto simp: no_odd_dirs_def ignored_def special_names environmentsDir_def ymlExt_def suffix_def)
        next
          case False
          then have "not_swept name nd" using F R(4) nr nf m by (auto simp: folders_done_def)
          then show ?thesis by (rule not_swept_ignored)
        qed
        then show ?thesis using nr nf by (simp add: laid_out_def)
      qed
    qed
  qed
  have s1: "sorted_names es1" using F by (simp add: folders_done_def)
  have qr: "in_seq (map (\<lambda>i. (int (Suc i), kept_request (rs ! i))) (index_list ?rq es1)) = map kept_request rs"
  proof (rule in_seq_index_list [OF s1, where names = ?files])
    show "\<And>i. i < length rs \<Longrightarrow> ?files ! i \<in> fst ` set es1" using req by (metis map_of_SomeD fst_conv image_eqI)
  qed (use R(1) pick_Some [OF dr] in auto)
  have qf: "in_seq (map (\<lambda>i. (int (Suc i), stored_folder (fs ! i))) (index_list ?fl es1)) = map stored_folder fs"
  proof (rule in_seq_index_list [OF s1, where names = fnames])
    show "\<And>i. i < length fs \<Longrightarrow> fnames ! i \<in> fst ` set es1" using fol by (metis map_of_SomeD fst_conv image_eqI)
  qed (use lf pick_Some [OF df] in auto)
  show ?thesis unfolding reads_items_def
  proof (intro allI)
    fix gen n
    from load_loop_laid_out [OF L, where gen = gen and n = n] obtain fols reqs n1 where "load_loop cx gen es1 n = Inr (fols, reqs, n1)"
      "map (apsnd anon_folder) fols = map (\<lambda>i. (int (Suc i), stored_folder (fs ! i))) (index_list ?fl es1)"
      "reqs = map (\<lambda>i. (int (Suc i), kept_request (rs ! i))) (index_list ?rq es1)" by blast
    with qr qf show "\<exists>fols reqs n1. load_loop cx gen es1 n = Inr (fols, reqs, n1) \<and>
        map anon_folder (in_seq fols) = map stored_folder fs \<and> in_seq reqs = map kept_request rs"
      by (auto simp: in_seq_apsnd)
  qed
qed

lemma saveItems_readable:
  "saveItems cx bad fs rs st = (Inr (), st1) \<Longrightarrow> codec_ok cx \<Longrightarrow> tidy_dirs items_used (fst st) \<Longrightarrow>
     no_odd_dirs (fst st) \<Longrightarrow> with_ids fs rs \<Longrightarrow>
     reads_items cx (fst st1) fs rs \<and> (\<forall>n\<in>set items_keep. map_of (fst st1) n = map_of (fst st) n)"
  "save_folders cx bad i fs used keep st = (Inr (), st2) \<Longrightarrow> codec_ok cx \<Longrightarrow> tidy_dirs used (fst st) \<Longrightarrow>
     with_ids fs [] \<Longrightarrow> \<exists>names. folders_done cx i fs used keep names (fst st) (fst st2)"
proof (induction cx bad fs rs st and cx bad i fs used keep st arbitrary: st1 and st2 rule: saveItems_save_folders.induct)
  case (1 cx bad fs rs st)
  have s0: "sorted_names (fst st)" using 1(4) by (simp add: tidy_dirs_def)
  from 1(2) obtain used keep sa where w: "write_each bad (item_slug ''request-'' rq_Name) (request_doc cx) 0 rs items_used items_keep st
        = (Inr (used, keep), sa)"
    and f: "save_folders cx bad 0 fs used keep sa = (Inr (), st1)"
    by (auto split: sum.splits prod.splits)
  from write_each_Inr [OF w s0] obtain rnames where R: "length rnames = length rs" "distinct rnames"
      "set rnames \<inter> set items_used = {}" "\<forall>n\<in>set rnames. nodot n" "set used = set items_used \<union> set rnames"
      "set keep = set items_keep \<union> (\<lambda>n. n @ ymlExt) ` set rnames" "sorted_names (fst sa)"
      "\<And>n. n \<notin> (\<lambda>n. n @ ymlExt) ` set rnames \<Longrightarrow> map_of (fst sa) n = map_of (fst st) n"
      "\<And>j. j < length rs \<Longrightarrow> \<exists>es y. request_doc cx j (rs ! j) (rnames ! j @ ymlExt) es = Inr y \<and>
         map_of (fst sa) (rnames ! j @ ymlExt) = Some (File y)"
    by auto
  have written: "\<exists>y. map_of (fst sa) n = Some (File y)" if "n \<in> (\<lambda>n. n @ ymlExt) ` set rnames" for n
    using R(1,9) that by (fastforce simp: in_set_conv_nth)
  have ta: "tidy_dirs used (fst sa)" unfolding tidy_dirs_def
  proof (intro conjI allI impI)
    fix n sub
    assume n: "n \<notin> set used \<and> map_of (fst sa) n = Some (Dir sub)"
    with written have "n \<notin> (\<lambda>n. n @ ymlExt) ` set rnames" by fastforce
    with n R(5,8) 1(4) show "tidy (Dir sub)" unfolding tidy_dirs_def by (metis Un_iff)
  qed (rule R(7))
  have oa: "no_odd_dirs (fst sa)" using 1(5) R(8) written unfolding no_odd_dirs_def by (metis node.distinct(1) option.inject)
  have wf: "with_ids fs []" using 1(6) by (auto simp: with_ids_def tree_requests_def)
  from 1(1) [OF w [symmetric] refl refl f 1(3) ta wf] obtain fnames where
    F: "folders_done cx 0 fs used keep fnames (fst sa) (fst st1)" by blast
  have rd: "reads_items cx (fst st1) fs rs"
  proof (rule items_readable [OF F R(1,2,3,6)])
    show "\<exists>nd. map_of (fst sa) (rnames ! j @ ymlExt) = Some nd \<and> stored_req cx j (rs ! j) nd" if j: "j < length rs" for j
      using R(9) [OF j] request_doc_stored [OF _ 1(3) with_ids_requests [OF 1(6) j]] by blast
    show "set items_used \<subseteq> set used" unfolding R(5) by simp
  qed (rule oa)
  have "map_of (fst st1) n = map_of (fst st) n" if "n \<in> set items_keep" for n
  proof -
    have "\<not> nodot collectionFile" "\<not> nodot folderFile" by (simp_all add: name_defs)
    moreover have "\<forall>m\<in>set fnames. nodot m" "environmentsDir \<notin> set fnames" using F R(5) special_names(1)
      unfolding folders_done_def by blast+
    ultimately have "n \<notin> set fnames" using that unfolding special_names by blast
    moreover have "n \<notin> (\<lambda>n. n @ ymlExt) ` set rnames"
      using R(3) that request_file_names unfolding special_names(2) by blast
    ultimately show ?thesis using F R(6,8) that by (auto simp: folders_done_def)
  qed
  with rd show ?case by blast
next
  case (2 cx bad i used keep st)
  then show ?case using folders_done_Nil by (fastforce simp: tidy_dirs_def)
next
  case (3 cx bad i f fs used keep st)
  have s0: "sorted_names (fst st)" using 3(5) by (simp add: tidy_dirs_def)
  obtain name u where nu: "uniqueName (item_slug ''folder-'' fo_Name i f) used = (name, u)" by force
  note up = uniqueName_props [OF nu]
  let ?act = "\<lambda>sub. case writeYAML bad folderFile (folder_doc cx i f (fst sub)) sub of
      (Inl e, sub1) \<Rightarrow> (Inl e, sub1) | (Inr u, sub1) \<Rightarrow> saveItems cx bad (fo_Folders f) (fo_Requests f) sub1"
  from 3(3) nu obtain sa sb where m: "MkdirAll bad name st = (Inr (), sa)" and w: "within_dir name ?act sa = (Inr (), sb)"
    and rest: "save_folders cx bad (Suc i) fs u (name # keep) sb = (Inr (), st2)"
    by (auto split: sum.splits prod.splits)
  note M = MkdirAll_Inr [OF m s0]
  obtain sub1 k where a: "?act (subdir name (fst sa), snd sa) = (Inr (), sub1, k)"
    and sb: "sorted_names (fst sb)" "map_of (fst sb) = (map_of (fst sa))(name \<mapsto> Dir sub1)"
    by (rule within_dir_eq [OF w M(1)])
  let ?sub = "subdir name (fst st)"
  from a M(3) obtain sc where y: "writeYAML bad folderFile (folder_doc cx i f ?sub) (?sub, snd sa) = (Inr (), sc)"
    and sv: "saveItems cx bad (fo_Folders f) (fo_Requests f) sc = (Inr (), sub1, k)"
    by (auto split: sum.splits prod.splits)
  from y obtain doc where doc: "folder_doc cx i f ?sub = Inr doc" "fst sc = put_entry folderFile (File doc) ?sub"
    by (rule writeYAML_Inr) auto
  from tidy_subdir_of [OF 3(5) up(1)] have td: "tidy_dirs items_used ?sub" "no_odd_dirs ?sub" "sorted_names ?sub" by (simp_all add: tidy_subdir del: tidy.simps(2)) (simp_all)
  have ids: "with_ids (fo_Folders f) (fo_Requests f)" "with_ids fs []" using with_ids_folder [OF 3(6)] by auto
  have y2: "(Inr (), sc) = writeYAML bad folderFile (folder_doc cx i f (fst (?sub, snd sa))) (?sub, snd sa)" by (simp add: y)
  have tc: "tidy_dirs items_used (fst sc)" "no_odd_dirs (fst sc)" unfolding doc(2) using td by (simp_all add: tidy_put_file)
  note P = 3(1) [OF refl nu [symmetric] m [symmetric] refl y2 refl sv 3(4) tc ids(1)]
  then have "map_of sub1 folderFile = Some (File doc)" using td(3) by (simp add: special_names doc ents.get_put)
  with folder_doc_stored [OF doc(1) 3(4)] P have st: "stored_fol cx i f (Dir sub1)" by (auto simp: stored_fol_def)
  have es: "map_of (fst sb) = (map_of (fst st))(name \<mapsto> Dir sub1)" by (simp add: sb M(2))
  have tb: "tidy_dirs u (fst sb)" using 3(5) sb(1) unfolding tidy_dirs_def es up(2) by (simp del: tidy.simps(2))
  from 3(2) [OF refl nu [symmetric] m [symmetric] refl w [symmetric] refl rest 3(4) tb ids(2)] up(2)
  obtain names where "folders_done cx (Suc i) fs (name # used) (name # keep) names (fst sb) (fst st2)" by blast
  from folders_done_Cons [OF this _ up(1) st es] up(3) show ?case by auto
qed

end
