(* ===== verification/StoreRoundtrip.thy ===== *)
theory StoreRoundtrip
  imports StoreLoad
begin

text \<open>
  From a container to a whole collection: environments, the root file, the secrets, and the round
  trip through \<open>Save\<close> and \<open>Load\<close>.
\<close>

section \<open>Environments\<close>

definition anon_env :: "environment \<Rightarrow> environment" where
  "anon_env e = e\<lparr>env_ID := []\<rparr>"

definition stored_env :: "('y, 'n) codec \<Rightarrow> nat \<Rightarrow> environment \<Rightarrow> 'y node \<Rightarrow> bool" where
  "stored_env cx i e nd \<longleftrightarrow>
     (\<exists>y ef. nd = File y \<and> ux_env cx y = Inr ef \<and> oi_Seq (en_Info ef) = int (Suc i) \<and> oi_Name (en_Info ef) = env_Name e \<and>
        fileToVars (en_Vars ef) = env_Variables e)"

lemma env_doc_stored: "env_doc cx i e file es = Inr y \<Longrightarrow> codec_ok cx \<Longrightarrow> stored_env cx i e (File y)"
  using codec_okD(2) [of cx _ y]
  by (cases "readFile (ux_env cx) file es") (auto simp: env_doc_def stored_env_def envToFile_def info_def Let_def)

lemma load_env_loop_listing:
  assumes "\<And>name nd. (name, nd) \<in> set es \<Longrightarrow>
    (case f name of Some i \<Rightarrow> stored_env cx i (envs ! i) nd \<and> has_suffix name ymlExt
     | None \<Rightarrow> (case nd of File y \<Rightarrow> \<not> has_suffix name ymlExt | Dir sub \<Rightarrow> True))"
  shows "\<exists>xs n1. load_env_loop cx gen es n = Inr (xs, n1) \<and>
    map (apsnd anon_env) xs = map (\<lambda>i. (int (Suc i), anon_env (envs ! i))) (index_list f es)"
  using assms
proof (induction es arbitrary: n)
  case (Cons e es)
  obtain name nd where e: "e = (name, nd)" by force
  have IH: "\<And>n. \<exists>xs n1. load_env_loop cx gen es n = Inr (xs, n1) \<and>
    map (apsnd anon_env) xs = map (\<lambda>i. (int (Suc i), anon_env (envs ! i))) (index_list f es)"
    using Cons by simp
  have L: "case f name of Some i \<Rightarrow> stored_env cx i (envs ! i) nd \<and> has_suffix name ymlExt
     | None \<Rightarrow> (case nd of File y \<Rightarrow> \<not> has_suffix name ymlExt | Dir sub \<Rightarrow> True)"
    using Cons.prems e by simp
  show ?case
  proof (cases "f name")
    case None
    with L have "load_env_loop cx gen ((name, nd) # es) n = load_env_loop cx gen es n" by (cases nd) auto
    with IH [of n] None show ?thesis by (auto simp: e)
  next
    case (Some i)
    with L obtain y ef where "nd = File y" "ux_env cx y = Inr ef" "oi_Seq (en_Info ef) = int (Suc i)"
      "oi_Name (en_Info ef) = env_Name (envs ! i)" "fileToVars (en_Vars ef) = env_Variables (envs ! i)" "has_suffix name ymlExt"
      by (auto simp: stored_env_def)
    moreover from this have "anon_env \<lparr>env_ID = gen n, env_Name = oi_Name (en_Info ef), env_Variables = fileToVars (en_Vars ef)\<rparr>
        = anon_env (envs ! i)" by (simp add: anon_env_def)
    ultimately show ?thesis using IH [of "Suc n"] Some by (auto simp: e fileToEnv_def)
  qed
qed simp

lemma save_envs_readable:
  assumes S: "save_envs cx bad envs st = (Inr (), st1)" and cx: "codec_ok cx" and s0: "sorted_names (fst st)"
    and sub: "sorted_names (subdir environmentsDir (fst st))"
  shows "sorted_names (fst st1)" "\<And>n. n \<noteq> environmentsDir \<Longrightarrow> map_of (fst st1) n = map_of (fst st) n"
    "\<exists>es k. loadEnvironments cx gen (fst st1) n0 = Inr (es, k) \<and> map anon_env es = map anon_env envs"
proof -
  let ?act = "\<lambda>sub. case write_each bad (item_slug ''env-'' env_Name) (env_doc cx) 0 envs [] [] sub of
      (Inl e, sub1) \<Rightarrow> (Inl e, sub1) | (Inr (used, keep), sub1) \<Rightarrow> sweepDir bad keep sub1"
  obtain sa where a: "sorted_names (fst sa)" "\<And>n. n \<noteq> environmentsDir \<Longrightarrow> map_of (fst sa) n = map_of (fst st) n"
      "sorted_names (subdir environmentsDir (fst sa))"
      "(case map_of (fst sa) environmentsDir of None \<Rightarrow> (Inr (), sa) | Some (File y) \<Rightarrow> (Inl ''not a directory'', sa)
        | Some (Dir d) \<Rightarrow> within_dir environmentsDir ?act sa) = (Inr (), st1)"
      "map_of (fst sa) environmentsDir = None \<Longrightarrow> envs = []"
  proof (cases "envs = []")
    case True
    with S s0 sub that [of st] show ?thesis by (auto simp: save_envs_def)
  next
    case False
    with S obtain sb where m: "MkdirAll bad environmentsDir st = (Inr (), sb)"
      by (auto simp: save_envs_def split: sum.splits prod.splits)
    note M = MkdirAll_Inr [OF m s0]
    show ?thesis by (rule that [of sb]) (use S False m M sub in \<open>auto simp: save_envs_def\<close>)
  qed
  have *: "sorted_names (fst st1) \<and> (\<forall>n. n \<noteq> environmentsDir \<longrightarrow> map_of (fst st1) n = map_of (fst st) n) \<and>
    (\<exists>es k. loadEnvironments cx gen (fst st1) n0 = Inr (es, k) \<and> map anon_env es = map anon_env envs)"
  proof (cases "map_of (fst sa) environmentsDir")
    case None
    with a show ?thesis by (auto simp: loadEnvironments_def)
  next
    case (Some nd)
    with a(4) obtain d where d: "nd = Dir d" by (cases nd) auto
    with a(4) Some have w: "within_dir environmentsDir ?act sa = (Inr (), st1)" by simp
    obtain sub1 k where act: "?act (subdir environmentsDir (fst sa), snd sa) = (Inr (), sub1, k)"
      and st1: "sorted_names (fst st1)" "map_of (fst st1) = (map_of (fst sa))(environmentsDir \<mapsto> Dir sub1)"
      by (rule within_dir_eq [OF w a(1)])
    from act obtain used keep sc where we: "write_each bad (item_slug ''env-'' env_Name) (env_doc cx) 0 envs [] []
        (subdir environmentsDir (fst sa), snd sa) = (Inr (used, keep), sc)"
      and sw: "sweepDir bad keep sc = (Inr (), sub1, k)"
      by (auto split: sum.splits prod.splits)
    from write_each_Inr [OF we] a(3) obtain names where N: "length names = length envs" "distinct names"
      "set keep = (\<lambda>n. n @ ymlExt) ` set names" "sorted_names (fst sc)"
      "\<And>j. j < length envs \<Longrightarrow> \<exists>es y. env_doc cx j (envs ! j) (names ! j @ ymlExt) es = Inr y \<and>
         map_of (fst sc) (names ! j @ ymlExt) = Some (File y)"
      by auto
    note W = sweepDir_Inr [OF sw N(4)]
    let ?files = "map (\<lambda>n. n @ ymlExt) names"
    have dn: "distinct ?files" using N(2) by (simp add: distinct_map inj_on_def)
    have held: "\<exists>nd. map_of sub1 (?files ! j) = Some nd \<and> stored_env cx j (envs ! j) nd" if "j < length envs" for j
    proof -
      have "?files ! j \<in> set keep" using that N(1,3) by auto
      with N(5) [OF that] W(2) env_doc_stored [OF _ cx] that N(1) show ?thesis by fastforce
    qed
    have L: "case pick ?files name of Some i \<Rightarrow> stored_env cx i (envs ! i) nd \<and> has_suffix name ymlExt
       | None \<Rightarrow> (case nd of File y \<Rightarrow> \<not> has_suffix name ymlExt | Dir sub \<Rightarrow> True)" if "(name, nd) \<in> set sub1" for name nd
    proof -
      have m: "map_of sub1 name = Some nd"
        using that W(1) sorted_names_distinct by (intro map_of_is_SomeI) auto
      show ?thesis
      proof (cases "name \<in> set ?files")
        case True
        then obtain j where j: "j < length envs" "name = ?files ! j" using N(1) by (metis in_set_conv_nth length_map)
        with held [OF j(1)] m have "stored_env cx j (envs ! j) nd" by auto
        moreover have "pick ?files name = Some j" using j N(1) by (simp add: pick_Some [OF dn])
        ultimately show ?thesis using j N(1) by simp
      next
        case False
        then have "name \<notin> set keep" using N(3) by auto
        then show ?thesis using W(3) [of name nd] m False by (cases nd) auto
      qed
    qed
    from load_env_loop_listing [OF L, where gen = gen and n = n0] obtain xs n1 where
      x: "load_env_loop cx gen sub1 n0 = Inr (xs, n1)"
      "map (apsnd anon_env) xs = map (\<lambda>i. (int (Suc i), anon_env (envs ! i))) (index_list (pick ?files) sub1)" by blast
    have "in_seq (map (\<lambda>i. (int (Suc i), anon_env (envs ! i))) (index_list (pick ?files) sub1)) = map anon_env envs"
    proof (rule in_seq_index_list [where names = ?files])
      show "sorted_names sub1" using W(1) by simp
      show "\<And>i. i < length envs \<Longrightarrow> ?files ! i \<in> fst ` set sub1" using held by (metis map_of_SomeD fst_conv image_eqI)
    qed (use N(1) pick_Some [OF dn] in auto)
    with x st1 a(2) show ?thesis by (auto simp: loadEnvironments_def in_seq_apsnd)
  qed
  then show "sorted_names (fst st1)" "\<And>n. n \<noteq> environmentsDir \<Longrightarrow> map_of (fst st1) n = map_of (fst st) n"
    "\<exists>es k. loadEnvironments cx gen (fst st1) n0 = Inr (es, k) \<and> map anon_env es = map anon_env envs" by blast+
qed

section \<open>Secrets\<close>

definition anon_collection :: "collection \<Rightarrow> collection" where
  "anon_collection c = c\<lparr>co_ID := [], co_Folders := map anon_folder (co_Folders c),
     co_Environments := map anon_env (co_Environments c)\<rparr>"

definition kept_root_auth :: "auth \<Rightarrow> auth" where
  "kept_root_auth a = (if auth_Type a = [] \<or> auth_Type a = AuthInherit then auth_of_type AuthNone else kept_auth a)"

definition stored_collection :: "collection \<Rightarrow> collection" where
  "stored_collection c =
     c\<lparr>co_ID := [], co_Folders := map stored_folder (co_Folders c), co_Requests := map kept_request (co_Requests c),
       co_Environments := map anon_env (co_Environments c), co_Auth := kept_root_auth (co_Auth c)\<rparr>"

text \<open>Identities play no part in the traversal of the secrets.\<close>

lemma visit_list_map:
  "(\<And>i x s. x \<in> set xs \<Longrightarrow> g i (h x) s = apfst h (f i x s)) \<Longrightarrow>
     visit_list g k (map h xs) s = apfst (map h) (visit_list f k xs s)"
  by (induction xs arbitrary: k s) (auto split: prod.splits)

lemma visit_anon_folder: "visit_folder fn p (anon_folder f) s = apfst anon_folder (visit_folder fn p f s)"
proof (induction f arbitrary: p s)
  case (Folder i n fs rs a vs)
  then have "visit_list (\<lambda>j. visit_folder fn (q j)) 0 (map anon_folder fs) s = apfst (map anon_folder)
      (visit_list (\<lambda>j. visit_folder fn (q j)) 0 fs s)" for q s
    by (intro visit_list_map) auto
  then show ?case by (auto split: prod.splits)
qed

lemma visit_anon_env: "visit_env fn i (anon_env e) s = apfst anon_env (visit_env fn i e s)"
  by (auto simp: visit_env_def anon_env_def split: prod.splits)

lemma eachSecret_anon: "eachSecret fn (anon_collection c) s = apfst anon_collection (eachSecret fn c s)"
proof -
  have f: "eachFolderSecret pre fn (map anon_folder fs) s = apfst (map anon_folder) (eachFolderSecret pre fn fs s)" for pre fs s
    unfolding eachFolderSecret_def by (intro visit_list_map visit_anon_folder)
  have e: "visit_list (visit_env fn) 0 (map anon_env es) s = apfst (map anon_env) (visit_list (visit_env fn) 0 es s)" for es s
    by (intro visit_list_map visit_anon_env)
  show ?thesis by (auto simp: eachSecret_def anon_collection_def f e split: prod.splits)
qed

lemma applySecrets_anon: "anon_collection (applySecrets m c) = applySecrets m (anon_collection c)"
  by (simp add: apply_secrets_eq eachSecret_anon)

text \<open>What a file keeps has no secrets of its own, and blanking commutes with keeping.\<close>

lemma opt_slot_if: "set (opt_slot n get (if b then x else None)) \<subseteq> set (opt_slot n get x)"
  by (simp add: opt_slot_def)

lemma auth_of_type_slots [simp]: "auth_slots (auth_of_type t) = []"
  by (simp add: auth_slots_def auth_of_type_def opt_slot_def)

lemma kept_auth_slots: "set (auth_slots (kept_auth a)) \<subseteq> set (auth_slots a)"
proof (cases "auth_Type a = [] \<or> auth_Type a = AuthInherit")
  case False
  show ?thesis unfolding kept_auth_def Let_def if_not_P [OF False] auth_slots_def auth.select_convs set_append
    by (intro Un_mono opt_slot_if)
qed (simp add: kept_auth_def)

lemma kept_auth_blank: "blank_auth (kept_auth a) = kept_auth (blank_auth a)"
  by (simp add: kept_auth_def blank_auth_def auth_of_type_def Let_def)

lemma root_auth_slots: "set (auth_slots (kept_root_auth a)) \<subseteq> set (auth_slots a)"
  using kept_auth_slots [of a] by (simp add: kept_root_auth_def)

lemma root_auth_blank: "blank_auth (kept_root_auth a) = kept_root_auth (blank_auth a)"
  by (simp add: kept_root_auth_def kept_auth_blank) (simp add: blank_auth_def auth_of_type_def)

lemma beneath_mono: "set xs \<subseteq> set ys \<Longrightarrow> set (beneath p xs) \<subseteq> set (beneath p ys)"
  by (auto simp: beneath_def)

lemma indexed_mono:
  "(\<And>x. x \<in> set xs \<Longrightarrow> set (f (g x)) \<subseteq> set (f' x)) \<Longrightarrow> set (indexed seg f k (map g xs)) \<subseteq> set (indexed seg f' k xs)"
proof (induction xs arbitrary: k)
  case (Cons x xs)
  then show ?case using beneath_mono [of "f (g x)" "f' x" "[seg k]"] by (auto; blast)
qed simp

lemma kept_request_slots: "set (request_slots (kept_request r)) \<subseteq> set (request_slots r)"
  using kept_auth_slots by (auto simp: request_slots_def kept_request_def)

lemma kept_request_blank: "blank_request (kept_request r) = kept_request (blank_request r)"
  by (simp add: blank_request_def kept_request_def kept_auth_blank)

lemma stored_folder_slots: "set (folder_slots (stored_folder f)) \<subseteq> set (folder_slots f)"
proof (induction f)
  case (Folder i n fs rs a vs)
  have "set (indexed (\<lambda>j. ''r'' @ itoa (int j)) request_slots 0 (map kept_request rs))
      \<subseteq> set (indexed (\<lambda>j. ''r'' @ itoa (int j)) request_slots 0 rs)" by (intro indexed_mono kept_request_slots)
  moreover have "set (indexed (\<lambda>j. ''f'' @ itoa (int j)) folder_slots 0 (map stored_folder fs))
      \<subseteq> set (indexed (\<lambda>j. ''f'' @ itoa (int j)) folder_slots 0 fs)" by (intro indexed_mono) (rule Folder)
  ultimately show ?case using kept_auth_slots [of a]
    unfolding stored_folder.simps folder_slots_eq set_append by blast
qed

lemma stored_folder_blank: "blank_folder (stored_folder f) = stored_folder (blank_folder f)"
  by (induction f) (simp add: kept_request_blank kept_auth_blank)

lemma stored_slots: "set (col_slots (stored_collection c)) \<subseteq> set (col_slots c)"
proof -
  have "set (indexed (\<lambda>j. ''e'' @ itoa (int j)) (\<lambda>e. vars_slots ''v'' (env_Variables e)) 0 (map anon_env es))
     \<subseteq> set (indexed (\<lambda>j. ''e'' @ itoa (int j)) (\<lambda>e. vars_slots ''v'' (env_Variables e)) 0 es)" for es
    by (intro indexed_mono) (simp add: anon_env_def)
  moreover have "set (indexed (\<lambda>j. ''r'' @ itoa (int j)) request_slots 0 (map kept_request rs))
      \<subseteq> set (indexed (\<lambda>j. ''r'' @ itoa (int j)) request_slots 0 rs)" for rs by (intro indexed_mono kept_request_slots)
  moreover have "set (indexed (\<lambda>j. ''f'' @ itoa (int j)) folder_slots 0 (map stored_folder fs))
      \<subseteq> set (indexed (\<lambda>j. ''f'' @ itoa (int j)) folder_slots 0 fs)" for fs by (intro indexed_mono stored_folder_slots)
  moreover have "set (beneath [''col''] (auth_slots (kept_root_auth a))) \<subseteq> set (beneath [''col''] (auth_slots a))" for a
    by (intro beneath_mono root_auth_slots)
  ultimately show ?thesis by (simp add: col_slots_def stored_collection_def del: itoa_nat) blast
qed

lemma stored_blank: "stored_collection (blank_collection c) = blank_collection (stored_collection c)"
  by (auto simp: stored_collection_def blank_collection_def root_auth_blank kept_request_blank stored_folder_blank
      anon_env_def blank_env_def)

text \<open>Filling the secrets of a collection into what its blanked copy has kept gives what it keeps itself.\<close>

lemma secrets_return:
  assumes "anon_collection c1 = stored_collection (fst (splitSecrets c))"
  shows "anon_collection (applySecrets (snd (splitSecrets c)) c1) = stored_collection c"
proof -
  have "agrees (logged_slots (col_slots c)) (col_slots (stored_collection c))"
    using agrees_col_slots [of c] stored_slots [of c] unfolding agrees_def by blast
  with eachSecret_traverses [of "stored_collection c", unfolded traverses_def]
  have "fst (eachSecret (fill_secret (logged_slots (col_slots c))) (blank_collection (stored_collection c)) ()) = stored_collection c"
    by simp
  then show ?thesis
    unfolding applySecrets_anon assms split_secrets_eq fst_conv snd_conv stored_blank by (simp add: apply_secrets_eq)
qed

section \<open>The collection\<close>

lemma read_root_auth:
  "(case (authToFile a :: 'n ocAuth option) of None \<Rightarrow> auth_of_type AuthNone | Some x \<Rightarrow> fileToAuth (Some x)) = kept_root_auth a"
proof (cases "authToFile a :: 'n ocAuth option")
  case (Some x)
  then have "\<not> (auth_Type a = [] \<or> auth_Type a = AuthInherit)" using authToFile_None by (metis option.distinct(1))
  then show ?thesis using Some fileToAuth_back [of a, where 'a = 'n] by (simp add: kept_root_auth_def)
next
  case None
  then have "auth_Type a = [] \<or> auth_Type a = AuthInherit" by (simp only: authToFile_None)
  then show ?thesis by (simp add: None kept_root_auth_def)
qed

lemma collection_doc_stored:
  assumes "collection_doc cx c es = Inr y" "codec_ok cx"
  obtains root where "ux_col cx y = Inr root" "oi_Name (cl_Info root) = co_Name c" "fileToVars (cl_Vars root) = co_Variables c"
    "(case cl_Auth root of None \<Rightarrow> auth_of_type AuthNone | Some a \<Rightarrow> fileToAuth (Some a)) = kept_root_auth (co_Auth c)"
  by (cases "readFile (ux_col cx) collectionFile es")
    (rule that [OF codec_okD(1) [OF assms(2) assms(1) [unfolded collection_doc_def Let_def]]];
      simp add: info_def auth_merge read_root_auth)+

lemma loadEnvironments_cong:
  "map_of es environmentsDir = map_of es1 environmentsDir \<Longrightarrow> loadEnvironments cx gen es n = loadEnvironments cx gen es1 n"
  by (simp add: loadEnvironments_def)

text \<open>What \<open>saveInPlace\<close> has written, \<open>Load\<close> reads.\<close>

lemma saveInPlace_loads:
  assumes S: "saveInPlace cx bad c st = (Inr (), es, k)" and cx: "codec_ok cx" and t: "tidy (Dir (fst st))"
    and ids: "with_ids (co_Folders c) (co_Requests c)" and d: "dk_tree d dir = Some (Dir es)"
  shows "\<exists>c1. Load cx gen dir d = Inr (applySecrets (readSecrets dir d) c1) \<and> anon_collection c1 = stored_collection c"
proof -
  from S obtain sa sb where w: "writeYAML bad collectionFile (collection_doc cx c (fst st)) st = (Inr (), sa)"
    and e: "save_envs cx bad (co_Environments c) sa = (Inr (), sb)"
    and i: "saveItems cx bad (co_Folders c) (co_Requests c) sb = (Inr (), es, k)"
    by (auto simp: saveInPlace_def split: sum.splits prod.splits)
  from w obtain y where y: "collection_doc cx c (fst st) = Inr y" "fst sa = put_entry collectionFile (File y) (fst st)"
    by (rule writeYAML_Inr) blast
  have td: "tidy_dirs [] (fst st)" "no_odd_dirs (fst st)" "sorted_names (fst st)"
    using tidy_subdir [OF t] t by auto
  have names: "collectionFile \<noteq> environmentsDir" "collectionFile \<in> set items_keep" "environmentsDir \<in> set items_keep"
    by (simp_all add: name_defs items_keep_def)
  have ta: "tidy_dirs [] (fst sa)" "no_odd_dirs (fst sa)" "sorted_names (fst sa)"
    unfolding y(2) using td by (simp_all add: tidy_put_file ents.wf_put)
  have "tidy (Dir (subdir environmentsDir (fst sa)))" by (rule tidy_subdir_of [OF ta(1)]) simp
  then have "sorted_names (subdir environmentsDir (fst sa))" by simp
  note E = save_envs_readable [OF e cx ta(3) this]
  have tb: "tidy_dirs items_used (fst sb)" "no_odd_dirs (fst sb)"
    using ta E(1,2) by (auto simp: tidy_dirs_def no_odd_dirs_def special_names name_defs simp del: tidy.simps(2))
      (metis+)?
  from saveItems_readable(1) [OF i cx tb ids]
  have I: "reads_items cx es (co_Folders c) (co_Requests c)" "\<And>n. n \<in> set items_keep \<Longrightarrow> map_of es n = map_of (fst sb) n" by auto
  from collection_doc_stored [OF y(1) cx] obtain root where R: "ux_col cx y = Inr root" "oi_Name (cl_Info root) = co_Name c"
    "fileToVars (cl_Vars root) = co_Variables c"
    "(case cl_Auth root of None \<Rightarrow> auth_of_type AuthNone | Some a \<Rightarrow> fileToAuth (Some a)) = kept_root_auth (co_Auth c)" .
  have root: "map_of es collectionFile = Some (File y)"
    using I(2) [OF names(2)] E(2) [OF names(1)] td(3) by (simp add: y ents.get_put)
  from E(3) [of gen 1] obtain envs n1 where N: "loadEnvironments cx gen es 1 = Inr (envs, n1)"
      "map anon_env envs = map anon_env (co_Environments c)"
    using loadEnvironments_cong [OF I(2) [OF names(3)]] by metis
  from I(1) obtain fols reqs n2 where L: "load_loop cx gen es n1 = Inr (fols, reqs, n2)"
      "map anon_folder (in_seq fols) = map stored_folder (co_Folders c)" "in_seq reqs = map kept_request (co_Requests c)"
    unfolding reads_items_def by blast
  let ?c1 = "\<lparr>co_ID = gen 0, co_Name = co_Name c, co_Folders = in_seq fols, co_Requests = in_seq reqs, co_Environments = envs,
      co_Variables = co_Variables c, co_Auth = kept_root_auth (co_Auth c)\<rparr>"
  have "Load cx gen dir d = Inr (applySecrets (readSecrets dir d) ?c1)"
    using R by (simp add: Load_def d root N [unfolded One_nat_def] L loadItems_def)
  moreover have "anon_collection ?c1 = stored_collection c"
    using L N by (simp add: anon_collection_def stored_collection_def)
  ultimately show ?thesis by blast
qed

section \<open>Round trip\<close>

text \<open>The tree that is copied into the staging directory, and what lies there already, are tidy.\<close>

lemma tidyI:
  assumes "sorted_names es" "\<And>n nd. map_of es n = Some nd \<Longrightarrow> tidy nd"
    "\<And>n sub. map_of es n = Some (Dir sub) \<Longrightarrow> n \<noteq> collectionFile \<and> n \<noteq> folderFile"
  shows "tidy (Dir es)"
proof -
  have m: "map_of es (fst e) = Some (snd e)" if "e \<in> set es" for e
    using that assms(1) sorted_names_distinct by (intro map_of_is_SomeI) auto
  show ?thesis unfolding tidy.simps
  proof (intro conjI ballI)
    fix e assume e: "e \<in> set es"
    show "tidy (snd e)" by (rule assms(2) [OF m [OF e]])
    show "case snd e of File y \<Rightarrow> True | Dir sub \<Rightarrow> fst e \<noteq> collectionFile \<and> fst e \<noteq> folderFile"
      using assms(3) [of "fst e"] m [OF e] by (cases "snd e") auto
  qed (rule assms(1))
qed

lemma tidy_map_upd:
  assumes "tidy (Dir es)" "sorted_names es1" "map_of es1 = (map_of es)(n \<mapsto> nd)" "tidy nd"
    "\<And>sub. nd = Dir sub \<Longrightarrow> n \<noteq> collectionFile \<and> n \<noteq> folderFile"
  shows "tidy (Dir es1)"
  using assms tidy_DirD [OF assms(1)] by (intro tidyI) (auto split: if_splits)

lemma tidy_Cons:
  assumes "tidy (Dir ((name, nd) # rest))"
  shows "tidy (Dir rest)" "tidy nd" "\<And>sub. nd = Dir sub \<Longrightarrow> name \<noteq> collectionFile \<and> name \<noteq> folderFile"
  using assms by (auto simp: sorted_names_def)

lemma copy_entries_tidy:
  "copy_entries bad xs st = (Inr (), st1) \<Longrightarrow> tidy (Dir xs) \<Longrightarrow> tidy (Dir (fst st)) \<Longrightarrow> tidy (Dir (fst st1))"
proof (induction bad xs st arbitrary: st1 rule: copy_entries.induct)
  case (1 bad st)
  then show ?case by simp
next
  case (2 bad name y rest st)
  from 2(2) obtain sa where w: "writeYAML bad name (Inr y) st = (Inr (), sa)" and r: "copy_entries bad rest sa = (Inr (), st1)"
    by (auto split: sum.splits prod.splits)
  have s0: "sorted_names (fst st)" using 2(4) by simp
  from w have "fst sa = put_entry name (File y) (fst st)" by (rule writeYAML_Inr) auto
  then have "sorted_names (fst sa)" "map_of (fst sa) = (map_of (fst st))(name \<mapsto> File y)"
    using s0 by (simp_all add: ents.wf_put ents.get_put)
  from tidy_map_upd [OF 2(4) this] have "tidy (Dir (fst sa))" by simp
  then show ?case by (rule 2(1) [OF w [symmetric] refl r tidy_Cons(1) [OF 2(3)]])
next
  case (3 bad name sub rest st)
  from 3(3) obtain sa sb where m: "MkdirAll bad name st = (Inr (), sa)" and w: "within_dir name (copy_entries bad sub) sa = (Inr (), sb)"
    and r: "copy_entries bad rest sb = (Inr (), st1)"
    by (auto split: sum.splits prod.splits)
  have s0: "sorted_names (fst st)" using 3(5) by simp
  note M = MkdirAll_Inr [OF m s0] and T = tidy_Cons [OF 3(4)]
  obtain sub1 k where a: "copy_entries bad sub (subdir name (fst sa), snd sa) = (Inr (), sub1, k)" "sorted_names (fst sb)"
    "map_of (fst sb) = (map_of (fst sa))(name \<mapsto> Dir sub1)"
    by (rule within_dir_eq [OF w M(1)])
  have "tidy_dirs [] (fst st)" using tidy_subdir [OF 3(5)] by blast
  then have "tidy (Dir (subdir name (fst sa)))" unfolding M(3) by (rule tidy_subdir_of) simp
  with 3(1) [OF m [symmetric] refl a(1) T(2)] have "tidy (Dir sub1)" by (simp del: tidy.simps(2))
  moreover have "map_of (fst sb) = (map_of (fst st))(name \<mapsto> Dir sub1)" by (simp add: a(3) M(2))
  ultimately have "tidy (Dir (fst sb))" using T(3) [OF refl] by (intro tidy_map_upd [OF 3(5) a(2)])
  then show ?case by (rule 3(2) [OF m [symmetric] refl w [symmetric] refl r T(1)])
qed

lemma blank_folder_requests: "folder_requests (blank_folder f) = map blank_request (folder_requests f)"
  by (induction f) (simp add: map_concat comp_def cong: map_cong)

lemma with_ids_blank: "with_ids fs rs \<Longrightarrow> with_ids (map blank_folder fs) (map blank_request rs)"
  by (auto simp: with_ids_def tree_requests_def blank_folder_requests blank_request_def)

definition tidy_at :: "string \<Rightarrow> 'y disk \<Rightarrow> bool" where
  "tidy_at p d \<longleftrightarrow> (case dk_tree d p of None \<Rightarrow> True | Some nd \<Rightarrow> tidy nd)"

end
