(* ===== verification/StoreProps.thy ===== *)
theory StoreProps
  imports StoreRoundtrip ItemProps
begin

text \<open>
  The names of files, the instances of the storage results, and what a save loses.
\<close>

section \<open>File names\<close>

lemma unique_loop_result:
  assumes "2 \<le> i" "name = (if i = 2 then base else suffixed base (i - 1))"
    "i \<noteq> 2 \<Longrightarrow> insert base (suffixed base ` {2..<i - 1}) \<subseteq> set used"
  shows "\<exists>k. 2 \<le> k \<and> unique_loop base used i name = (if k = 2 then base else suffixed base (k - 1)) \<and>
    (if k = 2 then {} else insert base (suffixed base ` {2..<k - 1})) \<subseteq> set used"
  using assms
proof (induction base used i name rule: unique_loop.induct)
  case (1 base used i name)
  show ?case
  proof (cases "name \<in> set used")
    case False
    then have "unique_loop base used i name = name" by (subst unique_loop.simps) simp
    with 1(2-4) show ?thesis by (intro exI [of _ i]) auto
  next
    case True
    then have u: "unique_loop base used i name = unique_loop base used (Suc i) (suffixed base i)"
      by (subst unique_loop.simps) simp
    have "{2..<Suc i - 1} = (if i = 2 then {} else insert (i - 1) {2..<i - 1})" using 1(2) by auto
    then have "insert base (suffixed base ` {2..<Suc i - 1}) \<subseteq> set used" using 1(2-4) True by (auto split: if_splits)
    from 1(1) [OF True _ _ this] 1(2) show ?thesis unfolding u by auto
  qed
qed

text \<open>
  C28 Choosing a file name ends, with the first free one of the name itself and its numbered
  variants, after at most as many attempts as there are names in use; the choice is recorded.
\<close>

theorem uniqueName_first_free:
  "let (name, used1) = uniqueName base used in
     name \<notin> set used \<and> used1 = name # used \<and>
     (name = base \<or> (\<exists>i. 2 \<le> i \<and> i \<le> Suc (length used) \<and> name = suffixed base i \<and>
        insert base (suffixed base ` {2..<i}) \<subseteq> set used))"
proof -
  obtain name used1 where u: "uniqueName base used = (name, used1)" by force
  note p = uniqueName_props [OF u]
  from unique_loop_result [of 2 base base used] u obtain k where
    k: "2 \<le> k" "name = (if k = 2 then base else suffixed base (k - 1))"
      "(if k = 2 then {} else insert base (suffixed base ` {2..<k - 1})) \<subseteq> set used"
    by (auto simp: uniqueName_def Let_def)
  have "k = 2 \<or> k - 1 \<le> Suc (length used)" if "k \<noteq> 2"
  proof -
    have "base \<noteq> suffixed base j" for j by (simp add: suffixed_def del: itoa_nat)
    then have "Suc (k - 3) = card (insert base (suffixed base ` {2..<k - 1}))"
      by (subst card_insert_disjoint) (auto simp: card_image inj_on_def suffixed_inject)
    also have "\<dots> \<le> card (set used)" using k(3) that by (intro card_mono) auto
    finally have "Suc (k - 3) \<le> length used" using card_length [of used] by linarith
    then show ?thesis using k(1) that by simp
  qed
  with k p show ?thesis unfolding u by (cases "k = 2") (auto intro!: exI [of _ "k - 1"])
qed

section \<open>Instances\<close>

text \<open>A codec that keeps the records as they are.\<close>

datatype ydoc = YCol "unit ocCollectionFile" | YEnv "unit ocEnvironmentFile" | YReq "unit ocRequestFile" | YFol "unit ocFolderFile"

definition plain_codec :: "(ydoc, unit) codec" where
  "plain_codec =
     \<lparr>cx_col = (\<lambda>f. Inr (YCol f)), ux_col = (\<lambda>y. case y of YCol f \<Rightarrow> Inr f | _ \<Rightarrow> Inl ''parse''),
      cx_env = (\<lambda>f. Inr (YEnv f)), ux_env = (\<lambda>y. case y of YEnv f \<Rightarrow> Inr f | _ \<Rightarrow> Inl ''parse''),
      cx_req = (\<lambda>f. Inr (YReq f)), ux_req = (\<lambda>y. case y of YReq f \<Rightarrow> Inr f | _ \<Rightarrow> Inl ''parse''),
      cx_fol = (\<lambda>f. Inr (YFol f)), ux_fol = (\<lambda>y. case y of YFol f \<Rightarrow> Inr f | _ \<Rightarrow> Inl ''parse'')\<rparr>"

lemma plain_codec_ok: "codec_ok plain_codec"
  by (simp add: codec_ok_def plain_codec_def)

definition empty_disk :: "ydoc disk" where
  "empty_disk = \<lparr>dk_tree = Map.empty, dk_secrets = Map.empty, dk_clock = 0\<rparr>"

definition token_request :: "string \<Rightarrow> string \<Rightarrow> string \<Rightarrow> request" where
  "token_request name url token =
     zero_request\<lparr>rq_ID := name, rq_Name := name, rq_Method := ''GET'', rq_URL := url,
       rq_Auth := (auth_of_type AuthBearer)\<lparr>auth_Bearer := Some \<lparr>be_Token = token\<rparr>\<rparr>\<rparr>"

definition token_collection :: "request list \<Rightarrow> collection" where
  "token_collection rs = zero_collection\<lparr>co_Name := ''API'', co_Requests := rs,
     co_Folders := [Folder ''f'' ''Sub'' [] [] (auth_of_type AuthInherit) []]\<rparr>"

definition req_A :: request where "req_A = token_request ''A'' ''http://a/'' ''ta''"
definition req_B :: request where "req_B = token_request ''B'' ''http://b/'' ''tb''"

definition both_saved :: "ydoc disk" where
  "both_saved = snd (Save plain_codec (\<lambda>_. False) (token_collection [req_A, req_B]) ''/c'' empty_disk)"

text \<open>
  C9 A collection that was saved loads as it was, whatever was on the disk before, up to the
  identities of folders and environments, which the format does not carry, and up to what
  \<open>stored_collection\<close> says a file does not keep: its secrets return from the store, its items from
  files in their order.
\<close>

theorem save_then_load:
  assumes "codec_ok cx" and "Save cx bad c dir d = (Inr (), d1)" and "with_ids (co_Folders c) (co_Requests c)"
    and "tidy_at dir d" and "tidy_at (staging dir) d"
  shows "\<exists>c1. Load cx gen dir d1 = Inr c1 \<and> anon_collection c1 = stored_collection c"
  using assms(2)
proof (rule Save_cases)
  fix existed st es k d4
  assume s: "saveInPlace cx bad (fst (splitSecrets c)) st = (Inr (), es, k)" "dk_tree d4 (staging dir) = Some (Dir es)"
    "readSecrets dir d4 = snd (splitSecrets c)" "swap_in bad dir existed d4 = (Inr (), d1)" "staged_from bad dir d (fst st)"
  have empty: "tidy (Dir [])" by (simp add: sorted_names_def)
  have t: "tidy (Dir (fst st))"
    using s(5) assms(4,5) empty copy_entries_tidy [of bad _ "(_, _)" "(_, _)"] unfolding staged_from_def tidy_at_def
    by (fastforce split: option.splits node.splits simp del: tidy.simps(2))
  have ids: "with_ids (co_Folders (fst (splitSecrets c))) (co_Requests (fst (splitSecrets c)))"
    using with_ids_blank [OF assms(3)] by (simp add: split_secrets_eq blank_collection_def)
  from swap_in_result [OF s(4,2)] have d: "dk_tree d1 dir = Some (Dir es)" and sec: "readSecrets dir d1 = snd (splitSecrets c)"
    using s(3) by (simp_all add: readSecrets_def)
  from saveInPlace_loads [OF s(1) assms(1) t ids d, of gen] show ?thesis
    using secrets_return by (auto simp: sec)
qed simp

theorem save_then_load_witness:
  "\<exists>c1. Load plain_codec (\<lambda>n. ''id'') ''/c'' both_saved = Inr c1 \<and> co_Requests c1 = [kept_request req_A, kept_request req_B]"
proof -
  let ?c = "token_collection [req_A, req_B]"
  have "fst (Save plain_codec (\<lambda>_. False) ?c ''/c'' empty_disk) = Inr ()" by code_simp
  then have s: "Save plain_codec (\<lambda>_. False) ?c ''/c'' empty_disk = (Inr (), both_saved)"
    by (simp add: both_saved_def prod_eq_iff)
  have "with_ids (co_Folders ?c) (co_Requests ?c)"
    by (simp add: with_ids_def tree_requests_def token_collection_def token_request_def req_A_def req_B_def)
  from save_then_load [OF plain_codec_ok s this, of "\<lambda>n. ''id''"] obtain c1 where
    l: "Load plain_codec (\<lambda>n. ''id'') ''/c'' both_saved = Inr c1" and "anon_collection c1 = stored_collection ?c"
    by (auto simp: tidy_at_def empty_disk_def)
  then have "co_Requests (anon_collection c1) = co_Requests (stored_collection ?c)" by simp
  with l show ?thesis by (simp add: anon_collection_def stored_collection_def token_collection_def)
qed

section \<open>What a save loses\<close>

text \<open>
  The fields of a form body are not written: whatever a request holds, after saving and loading
  its form is empty.
\<close>

theorem form_fields_lost:
  "body_Form (rq_Body (fst (fileToRequest gen (requestToFile r sq) n))) = []"
  by (simp add: fileToRequest_def requestToFile_def Let_def zero_request_def zero_body_def split: option.split)


definition foreign_disk :: "ydoc disk" where
  "foreign_disk = empty_disk\<lparr>dk_tree := [''/c'' \<mapsto> Dir
     [(''chat.yml'', File (YReq \<lparr>of_Info = info ''Chat'' ''i'' ''websocket'' 1, of_HTTP = None, of_Docs = [], of_Scripts = None,
         of_Chain = [], of_Assertions = [], of_Vars = [], of_Extra = []\<rparr>)),
      (''opencollection.yml'', File (YCol \<lparr>cl_Info = info ''API'' [] ''collection'' 0, cl_Auth = None, cl_Vars = [], cl_Extra = []\<rparr>))]]\<rparr>"

text \<open>
  Saving a collection deletes the request files that loading it skipped: a file of another
  request type, as other tools write them, is gone after the collection is loaded and saved again.
\<close>

theorem save_deletes_skipped_files:
  "case Load plain_codec (\<lambda>n. ''id'') ''/c'' foreign_disk of
     Inr c \<Rightarrow> (case dk_tree (snd (Save plain_codec (\<lambda>_. False) c ''/c'' foreign_disk)) ''/c'' of
        Some (Dir es) \<Rightarrow> map fst es = [''opencollection.yml''] | _ \<Rightarrow> False)
   | Inl e \<Rightarrow> False"
  by code_simp

end
