(* ===== verification/WebSocket.thy ===== *)
theory WebSocket
  imports GoHttp "HOL-Library.Word"
begin

unbundle bit_operations_syntax

text \<open>
  \<open>internal/websocket\<close>: the frame codec (\<open>frame.go\<close>), the connection (\<open>conn.go\<close>) and the upgrade
  handshake (\<open>handshake.go\<close>). Bytes are 8-bit words. The masking keys drawn from \<open>crypto/rand\<close> are a
  function of a counter; the network is the bytes still to be read, the bytes written, and for
  each write the number of bytes after which it fails, if it does.
\<close>

type_synonym bytes = "8 word list"
type_synonym mask_key = "8 word \<times> 8 word \<times> 8 word \<times> 8 word"

section \<open>Frames\<close>

definition OpContinuation :: "8 word" where "OpContinuation = 0x0"
definition OpText :: "8 word" where "OpText = 0x1"
definition OpBinary :: "8 word" where "OpBinary = 0x2"
definition OpClose :: "8 word" where "OpClose = 0x8"
definition OpPing :: "8 word" where "OpPing = 0x9"
definition OpPong :: "8 word" where "OpPong = 0xA"

lemmas op_defs = OpContinuation_def OpText_def OpBinary_def OpClose_def OpPing_def OpPong_def

definition maxFramePayload :: nat where "maxFramePayload = 64 * 2 ^ 20"

record frame =
  fr_Fin :: bool
  fr_Opcode :: "8 word"
  fr_Payload :: bytes

definition IsControl :: "frame \<Rightarrow> bool" where
  "IsControl f \<longleftrightarrow> fr_Opcode f AND 0x8 \<noteq> 0"

text \<open>\<open>binary.BigEndian\<close>: the \<open>k\<close> low bytes of a number, most significant first, and back.\<close>

fun be_bytes :: "nat \<Rightarrow> nat \<Rightarrow> bytes" where
  "be_bytes 0 n = []"
| "be_bytes (Suc k) n = be_bytes k (n div 256) @ [word_of_nat n]"

definition be_val :: "bytes \<Rightarrow> nat" where
  "be_val bs = foldl (\<lambda>acc b. acc * 256 + unat b) 0 bs"

fun key_at :: "mask_key \<Rightarrow> nat \<Rightarrow> 8 word" where
  "key_at (a, b, c, d) i = (if i mod 4 = 0 then a else if i mod 4 = 1 then b else if i mod 4 = 2 then c else d)"

definition key_bytes :: "mask_key \<Rightarrow> bytes" where
  "key_bytes key = map (key_at key) [0..<4]"

definition maskPayload :: "bytes \<Rightarrow> mask_key \<Rightarrow> bytes" where
  "maskPayload data key = map (\<lambda>(i, b). b XOR key_at key i) (zip [0..<length data] data)"

text \<open>The two bytes and the extended length of the header, then the key and the payload.\<close>

definition frame_head :: "frame \<Rightarrow> bool \<Rightarrow> bytes" where
  "frame_head f masked =
     (let b0 = (fr_Opcode f AND 0x0f) OR (if fr_Fin f then 0x80 else 0);
          m = (if masked then 0x80 else 0); n = length (fr_Payload f)
      in if n \<le> 125 then [b0, word_of_nat n OR m]
         else if n \<le> 0xffff then [b0, 126 OR m] @ be_bytes 2 n
         else [b0, 127 OR m] @ be_bytes 8 n)"

definition WriteFrame :: "frame \<Rightarrow> mask_key option \<Rightarrow> bytes" where
  "WriteFrame f key =
     (case key of
        None \<Rightarrow> frame_head f False @ fr_Payload f
      | Some k \<Rightarrow> frame_head f True @ key_bytes k @ maskPayload (fr_Payload f) k)"

text \<open>\<open>io.ReadFull\<close>: exactly \<open>k\<close> bytes, or the error that depends on whether any was read.\<close>

definition ReadFull :: "nat \<Rightarrow> bytes \<Rightarrow> (bytes \<times> bytes) result" where
  "ReadFull k bs =
     (if k \<le> length bs then Inr (take k bs, drop k bs)
      else Inl (if bs = [] then ''EOF'' else ''unexpected EOF''))"

text \<open>The payload length: seven bits of the second byte, or the two or eight bytes after it.\<close>

definition read_length :: "8 word \<Rightarrow> bytes \<Rightarrow> (nat \<times> bytes) result" where
  "read_length b1 s =
     (let n = unat (b1 AND 0x7f) in
      if n = 126 then map_sum id (apfst be_val) (ReadFull 2 s)
      else if n = 127 then map_sum id (apfst be_val) (ReadFull 8 s)
      else Inr (n, s))"

definition ReadFrame :: "bytes \<Rightarrow> (frame \<times> bytes) result" where
  "ReadFrame s0 =
     bind_result (ReadFull 2 s0) (\<lambda>(h, s1).
     bind_result (read_length (h ! 1) s1) (\<lambda>(n, s2).
       let masked = (h ! 1 AND 0x80 \<noteq> 0) in
       if maxFramePayload < n then Inl ''websocket: frame payload exceeds cap''
       else bind_result (if masked then ReadFull 4 s2 else Inr ([0, 0, 0, 0], s2)) (\<lambda>(key, s3).
         bind_result (ReadFull n s3) (\<lambda>(p, s4).
           Inr (\<lparr>fr_Fin = (h ! 0 AND 0x80 \<noteq> 0), fr_Opcode = h ! 0 AND 0x0f,
                  fr_Payload = (if masked then maskPayload p (key ! 0, key ! 1, key ! 2, key ! 3) else p)\<rparr>, s4)))))"

section \<open>Reading what was written\<close>

lemma length_be_bytes [simp]: "length (be_bytes k n) = k"
  by (induction k arbitrary: n) auto

lemma be_val_snoc: "be_val (bs @ [b]) = be_val bs * 256 + unat b"
  by (simp add: be_val_def)

lemma be_val_bytes: "n < 256 ^ k \<Longrightarrow> be_val (be_bytes k n) = n"
proof (induction k arbitrary: n)
  case 0
  then show ?case by (simp add: be_val_def)
next
  case (Suc k)
  then have "n div 256 < 256 ^ k" by (simp add: less_mult_imp_div_less)
  then have "be_val (be_bytes k (n div 256)) = n div 256" by (rule Suc.IH)
  then show ?case by (simp add: be_val_snoc unat_of_nat mult.commute [of _ 256])
qed

lemma be_val_bound: "be_val bs < 256 ^ length bs"
proof (induction bs rule: rev_induct)
  case (snoc b bs)
  have "unat b < 256" using unsigned_less [of b, where 'a = nat] by simp
  with snoc show ?case by (simp add: be_val_snoc)
qed (simp add: be_val_def)

lemma length_mask [simp]: "length (maskPayload data key) = length data"
  by (simp add: maskPayload_def)

lemma mask_twice [simp]: "maskPayload (maskPayload data key) key = data"
  by (rule nth_equalityI) (simp_all add: maskPayload_def xor.assoc)

lemma key_back: "(key_bytes key ! 0, key_bytes key ! 1, key_bytes key ! 2, key_bytes key ! 3) = key"
  by (cases key) (simp add: key_bytes_def)

lemma length_key [simp]: "length (key_bytes key) = 4"
  by (simp add: key_bytes_def)

lemma ReadFull_append [simp]: "length a = k \<Longrightarrow> ReadFull k (a @ b) = Inr (a, b)"
  by (simp add: ReadFull_def)

text \<open>The bits of the constants of the header.\<close>

lemma byte_consts:
  "n < 8 \<Longrightarrow> bit (128 :: int) n = (n = 7)" "n < 8 \<Longrightarrow> bit (15 :: int) n = (n < 4)" "n < 8 \<Longrightarrow> bit (127 :: int) n = (n < 7)"
  by (auto simp: less_Suc_eq numeral_eq_Suc)

lemma top_bit: "w AND 0x80 = (0 :: 8 word) \<longleftrightarrow> \<not> bit w 7"
proof
  assume "w AND 0x80 = 0"
  then have "bit (w AND 0x80) 7 = bit 0 7" by simp
  then show "\<not> bit w 7" by (simp add: bit_and_iff)
next
  assume "\<not> bit w 7"
  then show "w AND 0x80 = 0" by (intro bit_word_eqI) (auto simp: bit_and_iff byte_consts)
qed

lemma head_bits [simp]:
  "(op AND 0x0f OR 0x80) AND 0x0f = (op AND 0x0f :: 8 word)" "(op AND 0x0f) AND 0x0f = (op AND 0x0f :: 8 word)"
  "bit (op AND 0x0f OR 0x80 :: 8 word) 7" "\<not> bit (op AND 0x0f :: 8 word) 7" "bit (w OR 0x80 :: 8 word) 7"
  by (rule bit_word_eqI, auto simp: bit_and_iff bit_or_iff byte_consts)+

lemma low_bits: "w AND 0x7f = (take_bit 7 w :: 8 word)" "(w OR 0x80) AND 0x7f = (take_bit 7 w :: 8 word)"
  by (rule bit_word_eqI, auto simp: bit_and_iff bit_or_iff byte_consts bit_take_bit_iff)+

lemma short_length [simp]: "n < 128 \<Longrightarrow> unat (take_bit 7 (word_of_nat n :: 8 word)) = n"
  by (simp only: unsigned_take_bit_eq unat_of_nat) (simp add: take_bit_nat_def)

lemma short_length_top [simp]: "n < 128 \<Longrightarrow> \<not> bit (word_of_nat n :: 8 word) 7"
  by transfer (simp add: bit_take_bit_iff bit_iff_odd)

lemma ReadFull_2 [simp]: "ReadFull 2 (a # b # s) = Inr ([a, b], s)"
  by (simp add: ReadFull_def)

lemma ReadFull_all [simp]: "ReadFull (length a) (a @ b) = Inr (a, b)"
  by simp

text \<open>A frame from its parts: the first two bytes, the extended length, the key and the payload.\<close>

definition body_bytes :: "mask_key option \<Rightarrow> bytes \<Rightarrow> bytes" where
  "body_bytes key p = (case key of None \<Rightarrow> p | Some k \<Rightarrow> key_bytes k @ maskPayload p k)"

lemma ReadFrame_parts:
  assumes "ext = [] \<and> unat (b1 AND 0x7f) = n \<and> n < 126 \<or> unat (b1 AND 0x7f) = 126 \<and> length ext = 2 \<and> be_val ext = n \<or>
      unat (b1 AND 0x7f) = 127 \<and> length ext = 8 \<and> be_val ext = n"
    and "n \<le> maxFramePayload" and "n = length p" and "b1 AND 0x80 = 0 \<longleftrightarrow> key = None"
  shows "ReadFrame (b0 # b1 # ext @ body_bytes key p @ rest) =
    Inr (\<lparr>fr_Fin = (b0 AND 0x80 \<noteq> 0), fr_Opcode = b0 AND 0x0f, fr_Payload = p\<rparr>, rest)"
proof -
  have len: "read_length b1 (ext @ s) = Inr (n, s)" for s
    using assms(1) by (auto simp: read_length_def)
  show ?thesis
  proof (cases key)
    case None
    then show ?thesis using assms(2-4) by (simp add: ReadFrame_def Let_def len body_bytes_def)
  next
    case (Some k)
    have "ReadFull n (maskPayload p k @ rest) = Inr (maskPayload p k, rest)" using assms(3) by simp
    then show ?thesis using Some assms(2-4) key_back [of k, unfolded One_nat_def]
      by (simp add: ReadFrame_def Let_def len body_bytes_def)
  qed
qed

text \<open>
  C12 Reading a frame back from the wire gives the frame and leaves what follows it, for each of the
  three encodings of the length and with or without a mask, as long as its payload is within the
  reader's cap and its opcode has four bits.
\<close>

theorem frame_roundtrip:
  assumes "length (fr_Payload f) \<le> maxFramePayload" and "fr_Opcode f AND 0x0f = fr_Opcode f"
  shows "ReadFrame (WriteFrame f key @ rest) = Inr (f, rest)"
proof -
  let ?n = "length (fr_Payload f)" and ?m = "if key = None then 0 else 0x80 :: 8 word"
  define b0 where "b0 = (fr_Opcode f AND 0x0f) OR (if fr_Fin f then 0x80 else 0)"
  have "b0 AND 0x80 \<noteq> 0 \<longleftrightarrow> fr_Fin f" "b0 AND 0x0f = fr_Opcode f AND 0x0f" by (simp_all add: b0_def top_bit)
  then have b0: "(\<lparr>fr_Fin = (b0 AND 0x80 \<noteq> 0), fr_Opcode = b0 AND 0x0f, fr_Payload = fr_Payload f\<rparr> :: frame) = f" using assms(2) by simp
  have parts: "ReadFrame (b0 # b1 # ext @ body_bytes key (fr_Payload f) @ rest) = Inr (f, rest)"
    if "ext = [] \<and> unat (b1 AND 0x7f) = ?n \<and> ?n < 126 \<or> unat (b1 AND 0x7f) = 126 \<and> length ext = 2 \<and> be_val ext = ?n \<or>
      unat (b1 AND 0x7f) = 127 \<and> length ext = 8 \<and> be_val ext = ?n" "b1 AND 0x80 = 0 \<longleftrightarrow> key = None" for b1 ext
    using ReadFrame_parts [OF that(1) assms(1) refl that(2), of b0 rest] by (simp only: b0)
  have w: "WriteFrame f key @ rest = frame_head f (key \<noteq> None) @ body_bytes key (fr_Payload f) @ rest"
    by (cases key) (simp_all add: WriteFrame_def body_bytes_def)
  consider (small) "?n \<le> 125" | (medium) "125 < ?n" "?n \<le> 0xffff" | (large) "0xffff < ?n" by linarith
  then show ?thesis
  proof cases
    case small
    then show ?thesis using parts [of "[]" "word_of_nat ?n OR ?m"] unfolding w
      by (cases key) (simp_all add: frame_head_def Let_def b0_def low_bits top_bit split: if_splits)
  next
    case medium
    then show ?thesis using parts [of "be_bytes 2 ?n" "126 OR ?m"] unfolding w
      by (cases key) (simp_all add: frame_head_def Let_def b0_def be_val_bytes split: if_splits)
  next
    case large
    then show ?thesis using parts [of "be_bytes 8 ?n" "127 OR ?m"] assms(1) unfolding w
      by (cases key) (simp_all add: frame_head_def Let_def b0_def be_val_bytes maxFramePayload_def split: if_splits)
  qed
qed

text \<open>What the reader accepts is within its cap, and it consumes at least two bytes.\<close>

lemma ReadFull_length: "ReadFull k s = Inr (a, b) \<Longrightarrow> length a = k \<and> length b + k = length s"
  by (auto simp: ReadFull_def split: if_splits)

lemma read_length_less: "read_length b1 s = Inr (n, s1) \<Longrightarrow> length s1 \<le> length s"
  by (auto simp: read_length_def Let_def map_sum_def dest!: ReadFull_length split: if_splits sum.splits)

lemma ReadFrame_Inr:
  assumes "ReadFrame s = Inr (f, s1)"
  shows "length (fr_Payload f) \<le> maxFramePayload" "length s1 < length s"
  using assms
  by (auto simp: ReadFrame_def bind_result_Inr Let_def split: if_splits dest!: ReadFull_length read_length_less)

section \<open>The connection\<close>

text \<open>
  \<open>ws_cut n\<close> is the number of bytes after which the \<open>n\<close>-th write fails (\<open>None\<close>: it does not);
  \<open>ws_keys n\<close> is the \<open>n\<close>-th masking key, or the error of \<open>rand.Read\<close>.
\<close>

record net =
  ws_in :: bytes
  ws_out :: bytes
  ws_cut :: "nat \<Rightarrow> nat option"
  ws_keys :: "nat \<Rightarrow> mask_key result"
  ws_n :: nat
  ws_closed :: bool

definition writeFrameLocked :: "frame \<Rightarrow> net \<Rightarrow> unit result \<times> net" where
  "writeFrameLocked f c =
     (let n = ws_n c; c1 = c\<lparr>ws_n := Suc n\<rparr> in
      case ws_keys c n of
        Inl e \<Rightarrow> (Inl e, c1)
      | Inr key \<Rightarrow>
         (let w = WriteFrame f (Some key) in
          case ws_cut c n of
            None \<Rightarrow> (Inr (), c1\<lparr>ws_out := ws_out c @ w\<rparr>)
          | Some k \<Rightarrow> (Inl ''i/o timeout'', c1\<lparr>ws_out := ws_out c @ take k w\<rparr>)))"

definition WriteMessage :: "8 word \<Rightarrow> bytes \<Rightarrow> net \<Rightarrow> unit result \<times> net" where
  "WriteMessage op data = writeFrameLocked \<lparr>fr_Fin = True, fr_Opcode = op, fr_Payload = data\<rparr>"

definition writeControl :: "8 word \<Rightarrow> bytes \<Rightarrow> net \<Rightarrow> unit result \<times> net" where
  "writeControl op payload =
     writeFrameLocked \<lparr>fr_Fin = True, fr_Opcode = op, fr_Payload = (if 125 < length payload then take 125 payload else payload)\<rparr>"

text \<open>\<open>ReadMessage\<close>: the loop carries the opcode and the bytes of the message so far. Every turn consumes input.\<close>

definition maxMessageBytes :: nat where "maxMessageBytes = maxFramePayload"

lemma writeFrameLocked_in [simp]: "ws_in (snd (writeFrameLocked f c)) = ws_in c"
  by (simp add: writeFrameLocked_def Let_def split: sum.splits option.splits)

lemma writeControl_in [simp]: "writeControl op p c = (r, c1) \<Longrightarrow> ws_in c1 = ws_in c"
  using writeFrameLocked_in unfolding writeControl_def by (metis snd_conv)

function read_loop :: "8 word \<Rightarrow> bytes \<Rightarrow> net \<Rightarrow> (8 word \<times> bytes) result \<times> net" where
  "read_loop msgOp buf c =
     (case ReadFrame (ws_in c) of
        Inl e \<Rightarrow> (Inl e, c)
      | Inr (f, rest) \<Rightarrow>
         (let c1 = c\<lparr>ws_in := rest\<rparr>; op = fr_Opcode f in
          if op = OpPing
          then (case writeControl OpPong (fr_Payload f) c1 of
                  (Inl e, c2) \<Rightarrow> (Inl e, c2)
                | (Inr u, c2) \<Rightarrow> read_loop msgOp buf c2)
          else if op = OpPong then read_loop msgOp buf c1
          else if op = OpClose then (Inl ''EOF'', snd (writeControl OpClose (fr_Payload f) c1))
          else if op = OpContinuation \<or> op = OpText \<or> op = OpBinary
          then (let msgOp1 = (if op \<noteq> OpContinuation then op else msgOp) in
                if maxMessageBytes < length buf + length (fr_Payload f)
                then (Inl ''websocket: message exceeds limit'', c1)
                else if fr_Fin f then (Inr (msgOp1, buf @ fr_Payload f), c1)
                else read_loop msgOp1 (buf @ fr_Payload f) c1)
          else (Inl ''websocket: unexpected opcode'', c1)))"
  by pat_completeness auto

termination
  by (relation "measure (\<lambda>(msgOp, buf, c). length (ws_in c))")
    (auto dest: ReadFrame_Inr(2) dest!: writeControl_in [OF sym] sym [of "Inr _"])

declare read_loop.simps [simp del]

definition ReadMessage :: "net \<Rightarrow> (8 word \<times> bytes) result \<times> net" where
  "ReadMessage = read_loop 0 []"

definition Close_conn :: "net \<Rightarrow> net" where
  "Close_conn c = (snd (writeControl OpClose [] c))\<lparr>ws_closed := True\<rparr>"

section \<open>The handshake\<close>

definition acceptGUID :: string where
  "acceptGUID = ''258EAFA5-E914-47DA-95CA-C5AB0DC85B11''"

definition AcceptKey :: "(string \<Rightarrow> string) \<Rightarrow> string \<Rightarrow> string" where
  "AcceptKey sha1 key = base64 (sha1 (key @ acceptGUID))"

definition crlf :: string where "crlf = [CHR 0x0D, CHR 0x0A]"

text \<open>\<open>header\<close> in the order the map is ranged over; \<open>uri\<close> and \<open>host\<close> are fields of the parsed URL.\<close>

definition writeUpgrade :: "string \<Rightarrow> string \<Rightarrow> string \<Rightarrow> headers \<Rightarrow> string" where
  "writeUpgrade uri host key header =
     ''GET '' @ (if uri = [] then ''/'' else uri) @ '' HTTP/1.1'' @ crlf @ ''Host: '' @ host @ crlf @
     ''Upgrade: websocket'' @ crlf @ ''Connection: Upgrade'' @ crlf @ ''Sec-WebSocket-Key: '' @ key @ crlf @
     ''Sec-WebSocket-Version: 13'' @ crlf @
     concat (map (\<lambda>(k, vs). concat (map (\<lambda>v. k @ '': '' @ v @ crlf) vs)) header) @ crlf"

text \<open>\<open>verifyUpgrade\<close> on the parsed response: its status and headers, or the error of reading it.\<close>

definition verifyUpgrade :: "(string \<Rightarrow> string) \<Rightarrow> (int \<times> string \<times> headers) result \<Rightarrow> string \<Rightarrow> unit result" where
  "verifyUpgrade sha1 resp key =
     (case resp of
        Inl e \<Rightarrow> Inl (''websocket: read handshake: '' @ e)
      | Inr (code, status, h) \<Rightarrow>
         if code \<noteq> 101 then Inl (''websocket: handshake failed: '' @ status)
         else if \<not> equal_fold (hdr_get h ''Upgrade'') ''websocket'' then Inl ''websocket: server did not upgrade''
         else if hdr_get h ''Sec-WebSocket-Accept'' \<noteq> AcceptKey sha1 key then Inl ''websocket: bad Sec-WebSocket-Accept''
         else Inr ())"

text \<open>
  \<open>Dial\<close>: the URL as \<open>url.Parse\<close> gives it, and what the network does: connecting to an address, the
  TLS handshake for a host name, the random key, the write of the request and the server's answer.
  \<open>dn_ctx\<close> is \<open>ctx.Err()\<close> once the handshake is over. The second component of the result is the
  socket: \<open>None\<close> when none was opened, \<open>Some open\<close> otherwise.
\<close>

record ws_url =
  wu_Scheme :: string
  wu_Host :: string
  wu_Hostname :: string
  wu_Port :: string
  wu_RequestURI :: string

record dial_net =
  dn_parse :: "string \<Rightarrow> ws_url result"
  dn_dial :: "string \<Rightarrow> unit result"
  dn_tls :: "string \<Rightarrow> unit result"
  dn_rand :: "string result"
  dn_write :: "string \<Rightarrow> unit result"
  dn_response :: "(int \<times> string \<times> headers) result"
  dn_ctx :: "string option"

definition GenerateKey :: "string result \<Rightarrow> string result" where
  "GenerateKey rnd = map_sum id base64 rnd"

definition JoinHostPort :: "string \<Rightarrow> string \<Rightarrow> string" where
  "JoinHostPort host port =
     (if CHR '':'' \<in> set host \<or> CHR ''%'' \<in> set host then ''['' @ host @ '']:'' @ port else host @ '':'' @ port)"

definition dial_address :: "ws_url \<Rightarrow> bool \<Rightarrow> string" where
  "dial_address u secure =
     (if wu_Port u = [] then JoinHostPort (wu_Hostname u) (if secure then ''443'' else ''80'') else wu_Host u)"

definition aborted :: "dial_net \<Rightarrow> string \<Rightarrow> string" where
  "aborted w e = (case dn_ctx w of Some ce \<Rightarrow> ''websocket: handshake aborted: '' @ ce | None \<Rightarrow> e)"

definition Dial :: "(string \<Rightarrow> string) \<Rightarrow> dial_net \<Rightarrow> string \<Rightarrow> headers \<Rightarrow> bool result \<times> bool option" where
  "Dial sha1 w rawURL header =
     (case dn_parse w rawURL of
        Inl e \<Rightarrow> (Inl (''websocket: bad url: '' @ e), None)
      | Inr u \<Rightarrow>
         (let scheme = to_lower (wu_Scheme u); secure = scheme \<in> {''wss'', ''https''} in
          if scheme \<notin> {''ws'', ''http'', ''wss'', ''https''}
          then (Inl (''websocket: unsupported scheme '' @ wu_Scheme u), None)
          else case dn_dial w (dial_address u secure) of
            Inl e \<Rightarrow> (Inl (''websocket: dial: '' @ e), None)
          | Inr _ \<Rightarrow>
             (case (if secure then dn_tls w (wu_Hostname u) else Inr ()) of
                Inl e \<Rightarrow> (Inl (''websocket: tls: '' @ e), Some False)
              | Inr _ \<Rightarrow>
                 (case GenerateKey (dn_rand w) of
                    Inl e \<Rightarrow> (Inl e, Some False)
                  | Inr key \<Rightarrow>
                     (case dn_write w (writeUpgrade (wu_RequestURI u) (wu_Host u) key header) of
                        Inl e \<Rightarrow> (Inl (aborted w e), Some False)
                      | Inr _ \<Rightarrow>
                         (case verifyUpgrade sha1 (dn_response w) key of
                            Inl e \<Rightarrow> (Inl (aborted w e), Some False)
                          | Inr _ \<Rightarrow> (Inr secure, Some True)))))))"

section \<open>Messages\<close>

text \<open>A message in fragments, each preceded by control frames, as a server sends it.\<close>

fun fragments :: "8 word \<Rightarrow> (frame list \<times> bytes) list \<Rightarrow> frame list" where
  "fragments op [] = []"
| "fragments op ((ctl, p) # fs) = ctl @ [\<lparr>fr_Fin = (fs = []), fr_Opcode = op, fr_Payload = p\<rparr>] @ fragments OpContinuation fs"

definition wire :: "frame list \<Rightarrow> bytes" where
  "wire fs = concat (map (\<lambda>f. WriteFrame f None) fs)"

lemma wire_simps [simp]: "wire [] = []" "wire (f # fs) = WriteFrame f None @ wire fs" "wire (fs @ gs) = wire fs @ wire gs"
  by (simp_all add: wire_def)

definition heartbeat :: "frame \<Rightarrow> bool" where
  "heartbeat f \<longleftrightarrow> (fr_Opcode f = OpPing \<or> fr_Opcode f = OpPong) \<and> length (fr_Payload f) \<le> 125"

text \<open>The answers to them, in order, and the connection after writing some frames.\<close>

definition pongs :: "frame list \<Rightarrow> frame list" where
  "pongs fs = map (\<lambda>f. \<lparr>fr_Fin = True, fr_Opcode = OpPong, fr_Payload = fr_Payload f\<rparr>) (filter (\<lambda>f. fr_Opcode f = OpPing) fs)"

definition send_all :: "frame list \<Rightarrow> net \<Rightarrow> net" where
  "send_all fs c = fold (\<lambda>f c. snd (writeFrameLocked f c)) fs c"

definition healthy :: "net \<Rightarrow> bool" where
  "healthy c \<longleftrightarrow> ws_cut c = (\<lambda>_. None) \<and> (\<forall>n. \<exists>k. ws_keys c n = Inr k)"

lemma send_all_simps [simp]:
  "send_all [] c = c" "send_all (f # fs) c = send_all fs (snd (writeFrameLocked f c))"
  "send_all (fs @ gs) c = send_all gs (send_all fs c)"
  by (simp_all add: send_all_def)

lemma write_in_update: "snd (writeFrameLocked f (c\<lparr>ws_in := s\<rparr>)) = (snd (writeFrameLocked f c))\<lparr>ws_in := s\<rparr>"
  by (simp add: writeFrameLocked_def Let_def split: sum.split option.split)

lemma send_in_update: "send_all fs (c\<lparr>ws_in := s\<rparr>) = (send_all fs c)\<lparr>ws_in := s\<rparr>"
  by (induction fs arbitrary: c) (simp_all add: write_in_update)

lemma healthy_write: "healthy c \<Longrightarrow> fst (writeFrameLocked f c) = Inr () \<and> healthy (snd (writeFrameLocked f c))"
proof -
  assume h: "healthy c"
  then obtain k where "ws_keys c (ws_n c) = Inr k" unfolding healthy_def by blast
  with h show ?thesis by (auto simp: writeFrameLocked_def Let_def healthy_def)
qed

lemma healthy_in [simp]: "healthy (c\<lparr>ws_in := s\<rparr>) = healthy c"
  by (simp add: healthy_def)

lemma healthy_send: "healthy c \<Longrightarrow> healthy (send_all fs c)"
  by (induction fs arbitrary: c) (simp_all add: healthy_write)

lemma op_nibbles: "OpText AND 0x0f = OpText" "OpBinary AND 0x0f = OpBinary" "OpContinuation AND 0x0f = OpContinuation"
  "OpPing AND 0x0f = OpPing" "OpPong AND 0x0f = OpPong"
  by (simp_all add: op_defs)

text \<open>One turn of the loop.\<close>

lemma op_distinct: "OpPong \<noteq> OpPing" "OpClose \<notin> {OpPing, OpPong}" "OpText \<notin> {OpPing, OpPong, OpClose, OpContinuation}"
  "OpBinary \<notin> {OpPing, OpPong, OpClose, OpContinuation}" "OpContinuation \<notin> {OpPing, OpPong, OpClose}"
  by (simp_all add: op_defs)

lemma read_ping:
  assumes "ReadFrame (ws_in c) = Inr (f, rest)" "fr_Opcode f = OpPing"
    "writeControl OpPong (fr_Payload f) (c\<lparr>ws_in := rest\<rparr>) = (Inr (), c2)"
  shows "read_loop m buf c = read_loop m buf c2"
  using assms by (subst read_loop.simps) (simp add: Let_def)

lemma read_pong:
  assumes "ReadFrame (ws_in c) = Inr (f, rest)" "fr_Opcode f = OpPong"
  shows "read_loop m buf c = read_loop m buf (c\<lparr>ws_in := rest\<rparr>)"
  using assms op_distinct by (subst read_loop.simps) (simp add: Let_def)

lemma read_data:
  assumes "ReadFrame (ws_in c) = Inr (f, rest)" "fr_Opcode f \<in> {OpContinuation, OpText, OpBinary}"
    "length buf + length (fr_Payload f) \<le> maxMessageBytes" "m1 = (if fr_Opcode f \<noteq> OpContinuation then fr_Opcode f else m)"
  shows "read_loop m buf c =
    (if fr_Fin f then (Inr (m1, buf @ fr_Payload f), c\<lparr>ws_in := rest\<rparr>) else read_loop m1 (buf @ fr_Payload f) (c\<lparr>ws_in := rest\<rparr>))"
proof -
  have "fr_Opcode f \<noteq> OpPing" "fr_Opcode f \<noteq> OpPong" "fr_Opcode f \<noteq> OpClose"
    "fr_Opcode f = OpContinuation \<or> fr_Opcode f = OpText \<or> fr_Opcode f = OpBinary"
    using assms(2) op_distinct by auto
  then show ?thesis using assms(1,3,4) by (subst read_loop.simps) (simp add: Let_def)
qed

lemma write_pong:
  assumes "healthy c" "length p \<le> 125" "writeFrameLocked \<lparr>fr_Fin = True, fr_Opcode = OpPong, fr_Payload = p\<rparr> c = (Inr (), c2)"
  shows "writeControl OpPong p (c\<lparr>ws_in := s\<rparr>) = (Inr (), c2\<lparr>ws_in := s\<rparr>)"
proof -
  let ?p = "\<lparr>fr_Fin = True, fr_Opcode = OpPong, fr_Payload = p\<rparr>"
  have "writeControl OpPong p (c\<lparr>ws_in := s\<rparr>) = writeFrameLocked ?p (c\<lparr>ws_in := s\<rparr>)"
    using assms(2) by (simp add: writeControl_def)
  also have "\<dots> = (Inr (), c2\<lparr>ws_in := s\<rparr>)"
    using healthy_write [of "c\<lparr>ws_in := s\<rparr>" ?p] assms(1,3) write_in_update [where f = ?p and c = c and s = s] by (intro prod_eqI) simp_all
  finally show ?thesis .
qed

lemma read_heartbeats:
  assumes "\<forall>f\<in>set ctl. heartbeat f" "healthy c"
  shows "read_loop m buf (c\<lparr>ws_in := wire ctl @ s\<rparr>) = read_loop m buf ((send_all (pongs ctl) c)\<lparr>ws_in := s\<rparr>)"
  using assms
proof (induction ctl arbitrary: c)
  case (Cons f ctl)
  then have f: "fr_Opcode f = OpPing \<or> fr_Opcode f = OpPong" "length (fr_Payload f) \<le> 125" by (auto simp: heartbeat_def)
  let ?c = "c\<lparr>ws_in := wire (f # ctl) @ s\<rparr>"
  have "ReadFrame (WriteFrame f None @ (wire ctl @ s)) = Inr (f, wire ctl @ s)"
    by (rule frame_roundtrip) (use f op_nibbles in \<open>auto simp: maxFramePayload_def\<close>)
  then have r: "ReadFrame (ws_in ?c) = Inr (f, wire ctl @ s)" by simp
  show ?case
  proof (cases "fr_Opcode f = OpPing")
    case True
    let ?p = "\<lparr>fr_Fin = True, fr_Opcode = OpPong, fr_Payload = fr_Payload f\<rparr>"
    obtain c2 where c2: "writeFrameLocked ?p c = (Inr (), c2)" "healthy c2"
      using healthy_write [OF Cons.prems(2), of ?p] by (metis prod.collapse)
    have "?c\<lparr>ws_in := wire ctl @ s\<rparr> = c\<lparr>ws_in := wire ctl @ s\<rparr>" by simp
    note write_pong [OF Cons.prems(2) f(2) c2(1), of "wire ctl @ s", folded this]
    from read_ping [OF r True this] Cons.IH [OF _ c2(2)] Cons.prems(1) True c2(1) show ?thesis by (simp add: pongs_def)
  next
    case False
    with f have p: "fr_Opcode f = OpPong" by blast
    from read_pong [OF r p] Cons.IH [OF _ Cons.prems(2)] Cons.prems(1) False show ?thesis by (simp add: pongs_def)
  qed
qed (simp add: pongs_def)

lemma read_fragments:
  assumes "fs \<noteq> []" "\<forall>(ctl, p)\<in>set fs. \<forall>f\<in>set ctl. heartbeat f" "healthy c"
    "op \<in> {OpText, OpBinary} \<or> op = OpContinuation \<and> op1 = m"  "op \<in> {OpText, OpBinary} \<Longrightarrow> op1 = op"
    "length buf + length (concat (map snd fs)) \<le> maxMessageBytes"
  shows "read_loop m buf (c\<lparr>ws_in := wire (fragments op fs) @ s\<rparr>) =
    (Inr (op1, buf @ concat (map snd fs)), (send_all (pongs (concat (map fst fs))) c)\<lparr>ws_in := s\<rparr>)"
  using assms
proof (induction fs arbitrary: op m buf c)
  case (Cons x fs)
  obtain ctl p where x: "x = (ctl, p)" by force
  let ?f = "\<lparr>fr_Fin = (fs = []), fr_Opcode = op, fr_Payload = p\<rparr>" and ?s = "wire (fragments OpContinuation fs) @ s"
  let ?c = "send_all (pongs ctl) c"
  have "\<forall>f\<in>set ctl. heartbeat f" using Cons.prems(2) x by auto
  note B = read_heartbeats [OF this Cons.prems(3), of m buf "WriteFrame ?f None @ ?s"]
  have "ReadFrame (WriteFrame ?f None @ ?s) = Inr (?f, ?s)"
    by (rule frame_roundtrip) (use Cons.prems(4,6) op_nibbles x in \<open>auto simp: maxMessageBytes_def\<close>)
  then have r: "ReadFrame (ws_in (?c\<lparr>ws_in := WriteFrame ?f None @ ?s\<rparr>)) = Inr (?f, ?s)" by simp
  have ops: "op \<in> {OpContinuation, OpText, OpBinary}" "(if op \<noteq> OpContinuation then op else m) = op1"
    using Cons.prems(4,5) op_distinct by auto
  have hc: "healthy ?c" using Cons.prems(3) by (rule healthy_send)
  have pc: "pongs (ctl @ gs) = pongs ctl @ pongs gs" for gs by (simp add: pongs_def)
  have step: "read_loop m buf (?c\<lparr>ws_in := WriteFrame ?f None @ ?s\<rparr>) =
      (if fs = [] then (Inr (op1, buf @ p), ?c\<lparr>ws_in := ?s\<rparr>) else read_loop op1 (buf @ p) (?c\<lparr>ws_in := ?s\<rparr>))"
  proof -
    have "fr_Opcode ?f \<in> {OpContinuation, OpText, OpBinary}" "op1 = (if fr_Opcode ?f \<noteq> OpContinuation then fr_Opcode ?f else m)"
      "length buf + length (fr_Payload ?f) \<le> maxMessageBytes" using ops Cons.prems(6) x by (auto split: if_splits)
    from read_data [OF r this(1,3,2)] show ?thesis by simp
  qed
  have first: "read_loop m buf (c\<lparr>ws_in := wire (fragments op (x # fs)) @ s\<rparr>) =
      (if fs = [] then (Inr (op1, buf @ p), ?c\<lparr>ws_in := ?s\<rparr>) else read_loop op1 (buf @ p) (?c\<lparr>ws_in := ?s\<rparr>))"
    using B [unfolded step] by (simp only: x fragments.simps wire_simps append_assoc append.simps)
  show ?case
  proof (cases "fs = []")
    case True
    then show ?thesis using first by (simp add: x pc)
  next
    case False
    have "read_loop op1 (buf @ p) (?c\<lparr>ws_in := ?s\<rparr>) =
        (Inr (op1, (buf @ p) @ concat (map snd fs)), (send_all (pongs (concat (map fst fs))) ?c)\<lparr>ws_in := s\<rparr>)"
      by (rule Cons.IH) (use False Cons.prems hc x in \<open>auto simp: op_defs\<close>)
    with False first show ?thesis by (simp add: x pc)
  qed
qed simp

text \<open>
  C11 A message that the server splits into any number of fragments, with pings and pongs before
  each, arrives whole: its type is that of the first fragment, its bytes are those of all of them
  in order, every ping was answered with a pong of the same payload, and nothing behind the
  message is consumed.
\<close>

theorem message_reassembled:
  assumes "fs \<noteq> []" and "op = OpText \<or> op = OpBinary" and "\<forall>(ctl, p)\<in>set fs. \<forall>f\<in>set ctl. heartbeat f"
    and "length (concat (map snd fs)) \<le> maxMessageBytes" and "healthy c" and "ws_in c = wire (fragments op fs) @ rest"
  shows "ReadMessage c =
    (Inr (op, concat (map snd fs)), (send_all (pongs (concat (map fst fs))) c)\<lparr>ws_in := rest\<rparr>)"
proof -
  have "c = c\<lparr>ws_in := wire (fragments op fs) @ rest\<rparr>" using assms(6) by simp
  with read_fragments [OF assms(1,3,5), of op op 0 "[]" rest] assms(2,4) show ?thesis by (simp add: ReadMessage_def)
qed

theorem message_reassembled_witness:
  "let ping = \<lparr>fr_Fin = True, fr_Opcode = OpPing, fr_Payload = [9]\<rparr>;
       key = (1, 2, 3, 4);
       c = \<lparr>ws_in = wire (fragments OpText [([], [104]), ([ping], [105])]) @ [7], ws_out = [], ws_cut = \<lambda>_. None,
             ws_keys = \<lambda>_. Inr key, ws_n = 0, ws_closed = False\<rparr>
   in ReadMessage c =
      (Inr (OpText, [104, 105]),
       c\<lparr>ws_in := [7], ws_out := WriteFrame \<lparr>fr_Fin = True, fr_Opcode = OpPong, fr_Payload = [9]\<rparr> (Some key), ws_n := 1\<rparr>)"
proof -
  let ?ping = "\<lparr>fr_Fin = True, fr_Opcode = OpPing, fr_Payload = [9]\<rparr>"
  let ?c = "\<lparr>ws_in = wire (fragments OpText [([], [104]), ([?ping], [105])]) @ [7], ws_out = [], ws_cut = \<lambda>_. None,
    ws_keys = \<lambda>_. Inr (1, 2, 3, 4), ws_n = 0, ws_closed = False\<rparr>"
  have "ReadMessage ?c = (Inr (OpText, concat (map snd [([], [104]), ([?ping], [105])])),
      (send_all (pongs (concat (map fst [([], [104]), ([?ping], [105 :: 8 word])]))) ?c)\<lparr>ws_in := [7]\<rparr>)"
    by (rule message_reassembled) (simp_all add: heartbeat_def healthy_def maxMessageBytes_def maxFramePayload_def)
  then show ?thesis by (simp add: Let_def pongs_def writeFrameLocked_def)
qed

theorem frame_roundtrip_witness:
  "ReadFrame (WriteFrame \<lparr>fr_Fin = True, fr_Opcode = OpText, fr_Payload = replicate 126 65\<rparr> (Some (1, 2, 3, 4)) @ [7]) =
    Inr (\<lparr>fr_Fin = True, fr_Opcode = OpText, fr_Payload = replicate 126 65\<rparr>, [7])"
  by (rule frame_roundtrip) (simp_all add: maxFramePayload_def op_defs)

section \<open>Bounds and anomalies\<close>

definition delivered :: "8 word \<Rightarrow> nat \<Rightarrow> (8 word \<times> bytes) result \<times> net \<Rightarrow> bool" where
  "delivered m n r =
     (case r of
        (Inr (op, data), c1) \<Rightarrow> length data \<le> maxMessageBytes \<and> op \<in> {m, OpText, OpBinary} \<and> length (ws_in c1) < n
      | (Inl e, c1) \<Rightarrow> length (ws_in c1) \<le> n)"

lemma delivered_weaken:
  "delivered m' k r \<Longrightarrow> k \<le> n \<Longrightarrow> m' \<in> {m, OpText, OpBinary} \<Longrightarrow> delivered m n r"
  by (auto simp: delivered_def split: prod.splits sum.splits)

lemma read_loop_delivered: "delivered m (length (ws_in c)) (read_loop m buf c)"
proof (induction m buf c rule: read_loop.induct)
  case (1 m buf c)
  show ?case
  proof (cases "ReadFrame (ws_in c)")
    case (Inl e)
    then show ?thesis by (subst read_loop.simps) (simp add: delivered_def)
  next
    case (Inr fr)
    obtain f rest where fr: "fr = (f, rest)" by force
    have r: "ReadFrame (ws_in c) = Inr (f, rest)" using Inr fr by simp
    then have less: "length rest < length (ws_in c)" by (rule ReadFrame_Inr(2))
    note IH = 1 [OF r refl refl refl]
    consider (ping) "fr_Opcode f = OpPing" | (pong) "fr_Opcode f = OpPong" | (close) "fr_Opcode f = OpClose"
      | (data) "fr_Opcode f \<in> {OpContinuation, OpText, OpBinary}"
      | (other) "fr_Opcode f \<notin> {OpPing, OpPong, OpClose, OpContinuation, OpText, OpBinary}" by blast
    then show ?thesis
    proof cases
      case ping
      obtain u c2 where w: "writeControl OpPong (fr_Payload f) (c\<lparr>ws_in := rest\<rparr>) = (u, c2)" by force
      then have "ws_in c2 = rest" by simp
      with IH(1) [OF ping w [symmetric]] show ?thesis using less
        by (subst read_loop.simps) (auto simp: Let_def r ping w delivered_def split: sum.splits)
    next
      case pong
      from delivered_weaken [OF IH(2)] show ?thesis using less pong op_distinct
        by (subst read_loop.simps) (simp add: Let_def r)
    next
      case close
      obtain u c2 where w: "writeControl OpClose (fr_Payload f) (c\<lparr>ws_in := rest\<rparr>) = (u, c2)" by force
      then have "ws_in c2 = rest" by simp
      with less show ?thesis using op_distinct
        by (subst read_loop.simps) (simp add: Let_def r close w delivered_def)
    next
      case data
      then have other: "fr_Opcode f \<noteq> OpPing" "fr_Opcode f \<noteq> OpPong" "fr_Opcode f \<noteq> OpClose"
        "fr_Opcode f = OpContinuation \<or> fr_Opcode f = OpText \<or> fr_Opcode f = OpBinary"
        using op_distinct by auto
      let ?m = "if fr_Opcode f \<noteq> OpContinuation then fr_Opcode f else m"
      have m: "?m \<in> {m, OpText, OpBinary}" using other(4) by auto
      show ?thesis
      proof (cases "maxMessageBytes < length buf + length (fr_Payload f)")
        case True
        then show ?thesis using less other by (subst read_loop.simps) (simp add: Let_def r delivered_def)
      next
        case False
        note turn = read_data [OF r data, of buf ?m m]
        show ?thesis
        proof (cases "fr_Fin f")
          case True
          with turn False m less show ?thesis by (simp add: delivered_def)
        next
          case notfin: False
          from delivered_weaken [OF IH(3) [OF other refl False notfin] _ m] turn False notfin less show ?thesis by simp
        qed
      qed
    next
      case other
      then show ?thesis using less by (subst read_loop.simps) (simp add: Let_def r delivered_def)
    qed
  qed
qed

text \<open>
  Whatever the server sends, a message that \<open>ReadMessage\<close> returns is no longer than its limit and
  is typed text, binary or, when its first frame is a continuation, 0: the loop never accumulates
  more than the limit, however many fragments there are. A call consumes input or fails.
\<close>

theorem message_within_limit:
  "case ReadMessage c of
     (Inr (op, data), c1) \<Rightarrow> length data \<le> maxMessageBytes \<and> op \<in> {0, OpText, OpBinary} \<and> length (ws_in c1) < length (ws_in c)
   | (Inl e, c1) \<Rightarrow> length (ws_in c1) \<le> length (ws_in c)"
  using read_loop_delivered [of 0 c "[]"] by (simp add: ReadMessage_def delivered_def)

text \<open>
  The documentation of \<open>ReadMessage\<close> says that the opcode it returns is \<open>OpText\<close> or \<open>OpBinary\<close>. A final
  continuation frame with no message before it, which a conforming reader refuses, is returned as a
  message of opcode 0; and a new text frame inside an unfinished message, which it must refuse
  too, is appended to it.
\<close>

theorem orphan_continuation_accepted:
  assumes "length p \<le> maxMessageBytes"
  shows "fst (ReadMessage (c\<lparr>ws_in := WriteFrame \<lparr>fr_Fin = True, fr_Opcode = OpContinuation, fr_Payload = p\<rparr> None\<rparr>)) = Inr (0, p)"
  (is "fst (ReadMessage (c\<lparr>ws_in := WriteFrame ?f None\<rparr>)) = _")
proof -
  have "ReadFrame (WriteFrame ?f None @ []) = Inr (?f, [])"
    by (rule frame_roundtrip) (use assms op_nibbles in \<open>auto simp: maxMessageBytes_def\<close>)
  then have "ReadFrame (ws_in (c\<lparr>ws_in := WriteFrame ?f None\<rparr>)) = Inr (?f, [])" by simp
  from read_data [OF this, of "[]" 0 0] assms show ?thesis by (simp add: ReadMessage_def)
qed

lemma GenerateKey_Inr: "GenerateKey r = Inr k \<longleftrightarrow> (\<exists>x. r = Inr x \<and> k = base64 x)"
  by (cases r) (auto simp: GenerateKey_def)

text \<open>
  \<open>Dial\<close> leaves a socket open only when it returns a connection, and it returns one only when the
  server answered the upgrade of this very request: status 101, an \<open>Upgrade\<close> to websocket and the
  accept value of the key that was sent; a \<open>wss\<close> or \<open>https\<close> URL is never dialled without TLS.
\<close>

theorem Dial_safe:
  "case Dial sha1 w url hs of
     (Inl e, sock) \<Rightarrow> sock \<noteq> Some True
   | (Inr secure, sock) \<Rightarrow> sock = Some True \<and>
       (\<exists>u rnd status h. dn_parse w url = Inr u \<and> dn_rand w = Inr rnd \<and>
          secure = (to_lower (wu_Scheme u) \<in> {''wss'', ''https''}) \<and>
          dn_dial w (dial_address u secure) = Inr () \<and> (if secure then dn_tls w (wu_Hostname u) else Inr ()) = Inr () \<and>
          dn_response w = Inr (101, status, h) \<and> equal_fold (hdr_get h ''Upgrade'') ''websocket'' \<and>
          hdr_get h ''Sec-WebSocket-Accept'' = AcceptKey sha1 (base64 rnd))"
  by (auto simp: Dial_def verifyUpgrade_def GenerateKey_Inr Let_def split: sum.splits if_splits prod.splits)

end
