(* ===== verification/EventStream.thy ===== *)
theory EventStream
  imports GoStrings
begin

text \<open>
  \<open>internal/sse/sse.go\<close>: the event-stream parser over \<open>bufio.Scanner\<close> with its own split function.
  A reader is the list of what its reads return and the error of the last; the scanner asks the
  split function for a line, and reads on when there is none yet.
\<close>

abbreviation LF :: char where "LF \<equiv> CHR 0x0A"
abbreviation CR :: char where "CR \<equiv> CHR 0x0D"

section \<open>Splitting into lines\<close>

text \<open>The length of the first line and that of the line with its terminator, unless more bytes are needed.\<close>

fun line_end :: "bool \<Rightarrow> string \<Rightarrow> (nat \<times> nat) option" where
  "line_end atEOF [] = (if atEOF then Some (0, 0) else None)"
| "line_end atEOF (c # s) =
     (if c = LF then Some (0, 1)
      else if c = CR
      then (case s of
              d # _ \<Rightarrow> Some (0, if d = LF then 2 else 1)
            | [] \<Rightarrow> if atEOF then Some (0, 1) else None)
      else map_option (\<lambda>(n, a). (Suc n, Suc a)) (line_end atEOF s))"

definition scanLines :: "string \<Rightarrow> bool \<Rightarrow> nat \<times> string option" where
  "scanLines data atEOF =
     (if atEOF \<and> data = [] then (0, None)
      else case line_end atEOF data of
             None \<Rightarrow> (0, None)
           | Some (n, a) \<Rightarrow> (a, Some (take n data)))"

section \<open>The scanner\<close>

text \<open>
  \<open>sc_fail\<close> is the error after the last read, \<open>''EOF''\<close> at the end of the stream; \<open>sc_err\<close> is the error
  the scanner has seen. A read fills at most the free part of the buffer, whose size limit is \<open>maxLine\<close>.
\<close>

record scanner =
  sc_reads :: "string list"
  sc_fail :: string
  sc_buf :: string
  sc_err :: "string option"

definition maxLine :: nat where "maxLine = 2 ^ 20"

definition read_some :: "scanner \<Rightarrow> scanner" where
  "read_some s =
     (case sc_reads s of
        [] \<Rightarrow> s\<lparr>sc_err := Some (sc_fail s)\<rparr>
      | c # cs \<Rightarrow>
         (let k = maxLine - length (sc_buf s)
          in s\<lparr>sc_buf := sc_buf s @ take k c, sc_reads := (if length c \<le> k then cs else drop k c # cs)\<rparr>))"

definition split_now :: "scanner \<Rightarrow> nat \<times> string option" where
  "split_now s =
     (if sc_buf s \<noteq> [] \<or> sc_err s \<noteq> None then scanLines (sc_buf s) (sc_err s \<noteq> None) else (0, None))"

definition reads_left :: "scanner \<Rightarrow> nat" where
  "reads_left s = (if sc_err s = None then Suc (sum_list (map (Suc \<circ> length) (sc_reads s))) else 0)"

lemma read_some_less:
  "sc_err s = None \<Longrightarrow> length (sc_buf s) < maxLine \<Longrightarrow> reads_left (read_some s) < reads_left s"
  by (auto simp: read_some_def reads_left_def Let_def split: list.splits)

function Scan :: "scanner \<Rightarrow> string option \<times> scanner" where
  "Scan s =
     (case split_now s of
        (adv, Some tok) \<Rightarrow> (Some tok, s\<lparr>sc_buf := drop adv (sc_buf s)\<rparr>)
      | (adv, None) \<Rightarrow>
          if sc_err s \<noteq> None then (None, s\<lparr>sc_buf := []\<rparr>)
          else if maxLine \<le> length (sc_buf s)
          then (None, s\<lparr>sc_err := Some ''bufio.Scanner: token too long''\<rparr>)
          else Scan (read_some s))"
  by pat_completeness auto

termination
  by (relation "measure reads_left") (auto intro: read_some_less)

declare Scan.simps [simp del]

text \<open>The bytes a scanner still has to deliver.\<close>

definition pending :: "scanner \<Rightarrow> string" where
  "pending s = sc_buf s @ concat (sc_reads s)"

lemma pending_read [simp]: "pending (read_some s) = pending s"
  by (auto simp: pending_def read_some_def Let_def split: list.split)

lemma line_end_advance: "line_end e s = Some (n, a) \<Longrightarrow> n \<le> a \<and> a \<le> length s \<and> (s \<noteq> [] \<longrightarrow> 0 < a)"
proof (induction s arbitrary: n a)
  case (Cons c s)
  show ?case
  proof (cases "c = LF \<or> c = CR")
    case True
    with Cons.prems show ?thesis by (auto split: if_splits list.splits)
  next
    case False
    with Cons.prems obtain n0 a0 where "line_end e s = Some (n0, a0)" "n = Suc n0" "a = Suc a0" by auto
    with Cons.IH show ?thesis by auto
  qed
qed (auto split: if_splits)

lemma line_end_total: "line_end True s \<noteq> None"
  by (induction s) (auto split: list.split)

lemma scanLines_advance: "scanLines data e = (a, Some t) \<Longrightarrow> 0 < a \<and> a \<le> length data"
  using line_end_advance by (fastforce simp: scanLines_def split: if_splits option.splits)

lemma split_now_advance: "split_now s = (a, Some t) \<Longrightarrow> 0 < a \<and> a \<le> length (sc_buf s)"
  by (auto simp: split_now_def dest: scanLines_advance split: if_splits)

lemma Scan_shrinks: "Scan s = (Some t, s1) \<Longrightarrow> length (pending s1) < length (pending s)"
proof (induction s rule: Scan.induct)
  case (1 s)
  show ?case
  proof (cases "split_now s")
    case (Pair a tok)
    show ?thesis
    proof (cases tok)
      case (Some u)
      with 1(2) Pair split_now_advance [of s a u] show ?thesis by (subst (asm) Scan.simps) (auto simp: pending_def)
    next
      case None
      with 1(2) Pair have "sc_err s = None" "length (sc_buf s) < maxLine" "Scan (read_some s) = (Some t, s1)"
        by (subst (asm) Scan.simps, auto split: if_splits)+
      with 1(1) [OF Pair [symmetric] None] show ?thesis by simp
    qed
  qed
qed

section \<open>Events\<close>

record sse_event =
  ev_ID :: string
  ev_Type :: string
  ev_Data :: string
  ev_Retry :: int

record parser =
  pr_sc :: scanner
  pr_lastID :: string
  pr_retry :: int

definition NewParser :: "string list \<Rightarrow> string \<Rightarrow> parser" where
  "NewParser reads failure =
     \<lparr>pr_sc = \<lparr>sc_reads = reads, sc_fail = failure, sc_buf = [], sc_err = None\<rparr>, pr_lastID = [], pr_retry = 0\<rparr>"

definition splitField :: "string \<Rightarrow> string \<times> string" where
  "splitField line =
     (case index_byte line CHR '':'' of
        None \<Rightarrow> (line, [])
      | Some i \<Rightarrow> (take i line, trim_prefix (drop (Suc i) line) '' ''))"

text \<open>The fields of the event in progress: its type, its data, and whether it has any.\<close>

type_synonym fields = "string \<times> string \<times> bool"

definition field_line :: "string \<Rightarrow> fields \<Rightarrow> string \<times> int \<Rightarrow> fields \<times> string \<times> int" where
  "field_line line fs st =
     (let (typ, data, has) = fs; (lastID, retry) = st; (field, value) = splitField line in
      if field = ''event'' then ((value, data, has), lastID, retry)
      else if field = ''data'' then ((typ, data @ value @ [LF], True), lastID, retry)
      else if field = ''id'' then (fs, if CHR 0x00 \<in> set value then lastID else value, retry)
      else if field = ''retry'' then (fs, lastID, case atoi value of Some n \<Rightarrow> n | None \<Rightarrow> retry)
      else (fs, lastID, retry))"

definition dispatch :: "fields \<Rightarrow> string \<times> int \<Rightarrow> sse_event" where
  "dispatch fs st =
     \<lparr>ev_ID = fst st, ev_Type = (if fst fs = [] then ''message'' else fst fs),
      ev_Data = trim_suffix (fst (snd fs)) [LF], ev_Retry = snd st\<rparr>"

function next_loop :: "fields \<Rightarrow> parser \<Rightarrow> sse_event result \<times> parser" where
  "next_loop fs p =
     (case Scan (pr_sc p) of
        (None, s) \<Rightarrow>
          (Inl (case sc_err s of Some e \<Rightarrow> e | None \<Rightarrow> ''EOF''), p\<lparr>pr_sc := s\<rparr>)
      | (Some line, s) \<Rightarrow>
          let p1 = p\<lparr>pr_sc := s\<rparr> in
          if line = []
          then if \<not> snd (snd fs) then next_loop ([], [], False) p1
               else (Inr (dispatch fs (pr_lastID p, pr_retry p)), p1)
          else if hd line = CHR '':'' then next_loop fs p1
          else let (fs1, lastID, retry) = field_line line fs (pr_lastID p, pr_retry p)
               in next_loop fs1 (p1\<lparr>pr_lastID := lastID, pr_retry := retry\<rparr>))"
  by pat_completeness auto

termination
  by (relation "measure (\<lambda>(fs, p). length (pending (pr_sc p)))") (auto dest: Scan_shrinks sym [of "(_, _)"])

declare next_loop.simps [simp del]

definition Next :: "parser \<Rightarrow> sse_event result \<times> parser" where
  "Next = next_loop ([], [], False)"

section \<open>The stream as lines\<close>

function es_lines :: "string \<Rightarrow> string list" where
  "es_lines s = (case scanLines s True of (a, Some t) \<Rightarrow> t # es_lines (drop a s) | _ \<Rightarrow> [])"
  by pat_completeness auto

termination
  by (relation "measure length") (auto dest!: sym [of "(_, _)"] scanLines_advance)

declare es_lines.simps [simp del]

lemma line_end_stable: "line_end False s = Some x \<Longrightarrow> line_end e (s @ r) = Some x"
  by (induction s arbitrary: x) (fastforce split: if_splits list.splits)+

lemma line_end_open: "line_end False s = None \<Longrightarrow> line_end e (s @ r) = Some (n, a) \<Longrightarrow> length s \<le> Suc n"
proof (induction s arbitrary: n a)
  case (Cons c s)
  show ?case
  proof (cases "c = LF \<or> c = CR")
    case True
    with Cons.prems show ?thesis by (auto split: if_splits list.splits)
  next
    case False
    with Cons.prems obtain n0 a0 where "line_end e (s @ r) = Some (n0, a0)" "n = Suc n0" by auto
    with Cons.IH [of n0 a0] Cons.prems(1) False show ?thesis by simp
  qed
qed simp

definition scanner_ok :: "scanner \<Rightarrow> bool" where
  "scanner_ok s \<longleftrightarrow> sc_err s = None \<or> sc_err s = Some (sc_fail s) \<and> sc_reads s = []"

lemma read_some_ok [simp]: "scanner_ok s \<Longrightarrow> scanner_ok (read_some s)" "sc_fail (read_some s) = sc_fail s"
  by (auto simp: scanner_ok_def read_some_def Let_def split: list.splits)

text \<open>What the split function says of the buffer, against the whole rest of the stream.\<close>

lemma split_now_pending:
  assumes "scanner_ok s" "scanLines (pending s) True = (a, Some t)"
  shows "split_now s = (a, Some t) \<or> snd (split_now s) = None \<and> sc_err s = None \<and> length (sc_buf s) \<le> Suc (length t)"
proof (cases "sc_err s = None")
  case False
  with assms have "pending s = sc_buf s" by (simp add: scanner_ok_def pending_def)
  with assms(2) False show ?thesis by (simp add: split_now_def)
next
  case True
  from assms(2) obtain n where n: "line_end True (sc_buf s @ concat (sc_reads s)) = Some (n, a)" "t = take n (pending s)"
    by (auto simp: scanLines_def pending_def split: if_splits option.splits)
  then have len: "length t = n" using line_end_advance [OF n(1)] unfolding pending_def by (simp only: length_take) linarith
  show ?thesis
  proof (cases "line_end False (sc_buf s)")
    case None
    with line_end_open [OF None n(1)] True len show ?thesis by (simp add: split_now_def scanLines_def)
  next
    case (Some x)
    with line_end_stable [OF Some] n(1) have x: "x = (n, a)" by simp
    then have "n \<le> length (sc_buf s)" "sc_buf s \<noteq> []" using line_end_advance Some by (force, auto)
    with Some x True n(2) show ?thesis by (simp add: split_now_def scanLines_def pending_def)
  qed
qed

lemma Scan_next:
  assumes "scanner_ok s" "scanLines (pending s) True = (a, Some t)" "length t + 2 \<le> maxLine"
  obtains s1 where "Scan s = (Some t, s1)" "pending s1 = drop a (pending s)" "scanner_ok s1" "sc_fail s1 = sc_fail s"
  using assms
proof (induction s arbitrary: thesis rule: Scan.induct)
  case (1 s)
  from split_now_pending [OF 1(3,4)] show ?case
  proof
    assume n: "split_now s = (a, Some t)"
    let ?s = "s\<lparr>sc_buf := drop a (sc_buf s)\<rparr>"
    have "Scan s = (Some t, ?s)" using n by (subst Scan.simps) simp
    moreover have "pending ?s = drop a (pending s)" using split_now_advance [OF n] by (simp add: pending_def)
    moreover have "scanner_ok ?s" using 1(3) by (simp add: scanner_ok_def)
    ultimately show ?case by (rule 1(2)) simp
  next
    assume n: "snd (split_now s) = None \<and> sc_err s = None \<and> length (sc_buf s) \<le> Suc (length t)"
    obtain b where b: "split_now s = (b, None)" using n by (cases "split_now s") simp
    have small: "\<not> maxLine \<le> length (sc_buf s)" using n 1(5) by simp
    with n b have eq: "Scan s = Scan (read_some s)" by (subst Scan.simps) simp
    from n have e: "\<not> sc_err s \<noteq> None" by simp
    obtain s1 where "Scan (read_some s) = (Some t, s1)" "pending s1 = drop a (pending (read_some s))" "scanner_ok s1"
      "sc_fail s1 = sc_fail (read_some s)"
      by (rule 1(1) [OF b [symmetric] refl e small]) (use 1(3-5) in simp_all)
    with eq show ?case by (intro 1(2) [of s1]) simp_all
  qed
qed

lemma Scan_end:
  assumes "scanner_ok s" "pending s = []"
  obtains s1 where "Scan s = (None, s1)" "sc_err s1 = Some (sc_fail s)"
  using assms
proof (induction s arbitrary: thesis rule: Scan.induct)
  case (1 s)
  have b: "split_now s = (0, None)" "sc_buf s = []" using 1(4) by (auto simp: split_now_def scanLines_def pending_def)
  show ?case
  proof (cases "sc_err s = None")
    case True
    then have "Scan s = Scan (read_some s)" using b by (subst Scan.simps) (simp add: maxLine_def)
    moreover obtain s1 where "Scan (read_some s) = (None, s1)" "sc_err s1 = Some (sc_fail (read_some s))"
      by (rule 1(1) [OF b(1) [symmetric] refl]) (use True b 1(3,4) in \<open>simp_all add: maxLine_def\<close>)
    ultimately show ?thesis by (intro 1(2) [of s1]) simp_all
  next
    case False
    then have "Scan s = (None, s\<lparr>sc_buf := []\<rparr>)" using b by (subst Scan.simps) simp
    with False 1(2,3) show ?thesis by (auto simp: scanner_ok_def)
  qed
qed

section \<open>The events of a stream\<close>

text \<open>What the lines of a stream mean, without reads and buffers.\<close>

fun events_of :: "fields \<Rightarrow> string \<times> int \<Rightarrow> string list \<Rightarrow> sse_event list" where
  "events_of fs st [] = []"
| "events_of fs st (l # ls) =
     (if l = []
      then (if snd (snd fs) then Cons (dispatch fs st) else id) (events_of ([], [], False) st ls)
      else if hd l = CHR '':'' then events_of fs st ls
      else events_of (fst (field_line l fs st)) (snd (field_line l fs st)) ls)"

lemma next_loop_shrinks: "next_loop fs p = (Inr ev, p1) \<Longrightarrow> length (pending (pr_sc p1)) < length (pending (pr_sc p))"
proof (induction fs p rule: next_loop.induct)
  case (1 fs p)
  show ?case
  proof (cases "Scan (pr_sc p)")
    case (Pair tok s)
    show ?thesis
    proof (cases tok)
      case None
      with 1(4) Pair show ?thesis by (subst (asm) next_loop.simps) simp
    next
      case (Some line)
      with Pair have S: "Scan (pr_sc p) = (Some line, s)" by simp
      then have less: "length (pending s) < length (pending (pr_sc p))" by (rule Scan_shrinks)
      let ?p = "p\<lparr>pr_sc := s\<rparr>" and ?f = "field_line line fs (pr_lastID p, pr_retry p)"
      have "next_loop fs p = (if line = [] then if \<not> snd (snd fs) then next_loop ([], [], False) ?p else (Inr (dispatch fs (pr_lastID p, pr_retry p)), ?p)
          else if hd line = CHR '':'' then next_loop fs ?p
          else next_loop (fst ?f) (?p\<lparr>pr_lastID := fst (snd ?f), pr_retry := snd (snd ?f)\<rparr>))"
        by (subst next_loop.simps) (simp add: S Let_def split: prod.split)
      with 1(1) [OF S [symmetric] refl] 1(2) [OF S [symmetric] refl] 1(3) [OF S [symmetric] refl, of ?p ?f "fst ?f" "snd ?f" "fst (snd ?f)" "snd (snd ?f)"] 1(4) less
      show ?thesis by (auto split: if_splits)
    qed
  qed
qed

function drain :: "parser \<Rightarrow> sse_event list \<times> string" where
  "drain p = (case Next p of (Inl e, p1) \<Rightarrow> ([], e) | (Inr ev, p1) \<Rightarrow> apfst (Cons ev) (drain p1))"
  by pat_completeness auto

termination
  by (relation "measure (\<lambda>p. length (pending (pr_sc p)))") (auto simp: Next_def dest!: sym [of "(_, _)"] next_loop_shrinks)

declare drain.simps [simp del]

text \<open>The same from the middle of an event.\<close>

definition drain_from :: "fields \<Rightarrow> parser \<Rightarrow> sse_event list \<times> string" where
  "drain_from fs p = (case next_loop fs p of (Inl e, p1) \<Rightarrow> ([], e) | (Inr ev, p1) \<Rightarrow> apfst (Cons ev) (drain p1))"

lemma drain_is: "drain p = drain_from ([], [], False) p"
  by (subst drain.simps) (simp add: drain_from_def Next_def)

lemma drain_line:
  assumes "Scan (pr_sc p) = (Some l, s)"
  shows "drain_from fs p =
    (let p1 = p\<lparr>pr_sc := s\<rparr>; st = (pr_lastID p, pr_retry p); f = field_line l fs st in
     if l = [] then (if snd (snd fs) then apfst (Cons (dispatch fs st)) else id) (drain_from ([], [], False) p1)
     else if hd l = CHR '':'' then drain_from fs p1
     else drain_from (fst f) (p1\<lparr>pr_lastID := fst (snd f), pr_retry := snd (snd f)\<rparr>))"
  unfolding drain_from_def by (subst next_loop.simps)
    (simp add: assms Let_def drain_is [unfolded drain_from_def] split: prod.split)

lemma drain_lines:
  assumes "scanner_ok (pr_sc p)" "\<forall>l\<in>set ls. length l + 2 \<le> maxLine" "es_lines (pending (pr_sc p)) = ls"
  shows "drain_from fs p = (events_of fs (pr_lastID p, pr_retry p) ls, sc_fail (pr_sc p))"
  using assms
proof (induction ls arbitrary: fs p)
  case Nil
  have "pending (pr_sc p) = []"
  proof (rule ccontr)
    assume "pending (pr_sc p) \<noteq> []"
    then obtain a t where "scanLines (pending (pr_sc p)) True = (a, Some t)"
      using line_end_total by (fastforce simp: scanLines_def split: option.splits)
    with Nil.prems(3) show False by (subst (asm) es_lines.simps) simp
  qed
  from Scan_end [OF Nil.prems(1) this] obtain s where "Scan (pr_sc p) = (None, s)" "sc_err s = Some (sc_fail (pr_sc p))" .
  then show ?case by (simp add: drain_from_def next_loop.simps)
next
  case (Cons l ls)
  from Cons.prems(3) obtain a where a: "scanLines (pending (pr_sc p)) True = (a, Some l)" "es_lines (drop a (pending (pr_sc p))) = ls"
    by (subst (asm) es_lines.simps) (auto split: prod.splits option.splits)
  have "length l + 2 \<le> maxLine" using Cons.prems(2) by simp
  from Scan_next [OF Cons.prems(1) a(1) this] obtain s where
    s: "Scan (pr_sc p) = (Some l, s)" "pending s = drop a (pending (pr_sc p))" "scanner_ok s" "sc_fail s = sc_fail (pr_sc p)" .
  have IH: "drain_from fs' (p\<lparr>pr_sc := s, pr_lastID := i, pr_retry := r\<rparr>) = (events_of fs' (i, r) ls, sc_fail (pr_sc p))" for fs' i r
    using Cons.IH [of "p\<lparr>pr_sc := s, pr_lastID := i, pr_retry := r\<rparr>" fs'] Cons.prems(2) s a(2) by simp
  have IH1: "drain_from fs' (p\<lparr>pr_sc := s\<rparr>) = (events_of fs' (pr_lastID p, pr_retry p) ls, sc_fail (pr_sc p))" for fs'
    using Cons.IH [of "p\<lparr>pr_sc := s\<rparr>" fs'] Cons.prems(2) s a(2) by simp
  show ?case unfolding drain_line [OF s(1)] by (simp add: Let_def IH IH1)
qed

lemma drain_new:
  assumes "\<forall>l\<in>set (es_lines (concat reads)). length l + 2 \<le> maxLine"
  shows "drain (NewParser reads failure) = (events_of ([], [], False) ([], 0) (es_lines (concat reads)), failure)"
  using drain_lines [of "NewParser reads failure" _ "([], [], False)", OF _ assms]
  by (simp add: drain_is NewParser_def scanner_ok_def pending_def)

text \<open>
  C23 The events a client gets by calling \<open>Next\<close> until it fails are those that the lines of the stream
  spell, and the error is that of the last read: neither depends on how the network cuts the stream
  into reads, even between the two bytes of a line end. Lines have to fit the scanner's buffer.
\<close>

theorem reads_do_not_matter:
  assumes "\<forall>l\<in>set (es_lines (concat reads)). length l + 2 \<le> maxLine"
  shows "drain (NewParser reads failure) = (events_of ([], [], False) ([], 0) (es_lines (concat reads)), failure)"
  by (rule drain_new [OF assms])

section \<open>Streams that spell given events\<close>

definition event_lines :: "sse_event \<Rightarrow> string list" where
  "event_lines e =
     [''id: '' @ ev_ID e, ''event: '' @ ev_Type e, ''retry: '' @ itoa (ev_Retry e)] @
     map (\<lambda>d. ''data: '' @ d) (split_on LF (ev_Data e)) @ [[]]"

definition event_stream :: "string \<Rightarrow> sse_event list \<Rightarrow> string" where
  "event_stream eol es = concat (map (\<lambda>l. l @ eol) (concat (map event_lines es)))"

definition one_line :: "string \<Rightarrow> bool" where
  "one_line s \<longleftrightarrow> LF \<notin> set s \<and> CR \<notin> set s"

definition event_ok :: "sse_event \<Rightarrow> bool" where
  "event_ok e \<longleftrightarrow> one_line (ev_ID e) \<and> CHR 0x00 \<notin> set (ev_ID e) \<and> one_line (ev_Type e) \<and> ev_Type e \<noteq> [] \<and>
     CR \<notin> set (ev_Data e) \<and> - (2 ^ 63) \<le> ev_Retry e \<and> ev_Retry e < 2 ^ 63"

lemma line_end_skip:
  "one_line l \<Longrightarrow> line_end e (l @ s) = map_option (\<lambda>(n, a). (length l + n, length l + a)) (line_end e s)"
proof (induction l)
  case Nil
  show ?case by (cases "line_end e s") auto
next
  case (Cons c l)
  then have "c \<noteq> LF" "c \<noteq> CR" "one_line l" by (auto simp: one_line_def)
  with Cons.IH show ?case by (cases "line_end e s") auto
qed

lemma line_end_line:
  assumes "one_line l" "eol \<in> {[LF], [CR], [CR, LF]}" "s = [] \<or> hd s \<noteq> LF \<or> eol \<noteq> [CR]"
  shows "line_end True (l @ eol @ s) = Some (length l, length l + length eol)"
proof -
  have "line_end True (eol @ s) = Some (0, length eol)" using assms(2,3) by (cases s) auto
  then show ?thesis by (simp add: line_end_skip assms(1))
qed

lemma es_lines_cons:
  assumes "one_line l" "eol \<in> {[LF], [CR], [CR, LF]}" "s = [] \<or> hd s \<noteq> LF \<or> eol \<noteq> [CR]"
  shows "es_lines (l @ eol @ s) = l # es_lines s"
proof -
  have "line_end True (l @ eol @ s) = Some (length l, length l + length eol)" by (rule line_end_line [OF assms])
  then have "scanLines (l @ eol @ s) True = (length l + length eol, Some l)" using assms(2) by (auto simp: scanLines_def)
  then show ?thesis by (subst es_lines.simps) simp
qed

lemma es_lines_concat:
  assumes "eol \<in> {[LF], [CR], [CR, LF]}" "\<forall>l\<in>set ls. one_line l"
  shows "es_lines (concat (map (\<lambda>l. l @ eol) ls)) = ls"
  using assms(2)
proof (induction ls)
  case Nil
  show ?case by (subst es_lines.simps) (simp add: scanLines_def)
next
  case (Cons l ls)
  let ?s = "concat (map (\<lambda>l. l @ eol) ls)"
  have "?s = [] \<or> hd ?s \<noteq> LF \<or> eol \<noteq> [CR]"
    using Cons.prems by (cases ls; cases "hd ls") (auto simp: one_line_def)
  from es_lines_cons [OF _ assms(1) this, of l] Cons show ?case by simp
qed

lemma field_lines:
  "field_line (''id: '' @ v) fs st = (fs, if CHR 0x00 \<in> set v then fst st else v, snd st)"
  "field_line (''event: '' @ v) fs st = ((v, snd fs), st)"
  "field_line (''retry: '' @ v) fs st = (fs, fst st, case atoi v of Some n \<Rightarrow> n | None \<Rightarrow> snd st)"
  "field_line (''data: '' @ v) fs st = ((fst fs, fst (snd fs) @ v @ [LF], True), st)"
proof -
  have "splitField (''id: '' @ v) = (''id'', v)" "splitField (''event: '' @ v) = (''event'', v)"
    "splitField (''retry: '' @ v) = (''retry'', v)" "splitField (''data: '' @ v) = (''data'', v)"
    by (simp_all add: splitField_def trim_prefix_def)
  then show "field_line (''id: '' @ v) fs st = (fs, if CHR 0x00 \<in> set v then fst st else v, snd st)"
    "field_line (''event: '' @ v) fs st = ((v, snd fs), st)"
    "field_line (''retry: '' @ v) fs st = (fs, fst st, case atoi v of Some n \<Rightarrow> n | None \<Rightarrow> snd st)"
    "field_line (''data: '' @ v) fs st = ((fst fs, fst (snd fs) @ v @ [LF], True), st)"
    unfolding field_line_def by (simp_all only: Let_def case_prod_unfold fst_conv snd_conv) simp_all
qed

lemma events_of_field:
  "k \<noteq> [] \<Longrightarrow> hd k \<noteq> CHR '':'' \<Longrightarrow>
    events_of fs st ((k @ v) # ls) = events_of (fst (field_line (k @ v) fs st)) (snd (field_line (k @ v) fs st)) ls"
  by simp

lemma events_of_fields:
  "events_of fs st ((''id: '' @ v) # ls) = events_of fs (if CHR 0x00 \<in> set v then fst st else v, snd st) ls"
  "events_of fs st ((''event: '' @ v) # ls) = events_of (v, snd fs) st ls"
  "events_of fs st ((''retry: '' @ v) # ls) = events_of fs (fst st, case atoi v of Some n \<Rightarrow> n | None \<Rightarrow> snd st) ls"
  "events_of fs st ((''data: '' @ v) # ls) = events_of (fst fs, fst (snd fs) @ v @ [LF], True) st ls"
  by (subst events_of_field; (simp only: field_lines fst_conv snd_conv)?; simp)+

lemma data_lines:
  assumes "ds \<noteq> [] \<or> has"
  shows "events_of (typ, data, has) st (map (\<lambda>d. ''data: '' @ d) ds @ [] # ls) =
    dispatch (typ, data @ concat (map (\<lambda>d. d @ [LF]) ds), True) st # events_of ([], [], False) st ls"
  using assms
proof (induction ds arbitrary: data has)
  case Nil
  then show ?case by (simp add: dispatch_def)
next
  case (Cons d ds)
  from Cons.IH [of True "data @ d @ [LF]"] show ?case
    by (simp only: list.map append_Cons append_Nil events_of_fields [unfolded append_Cons append_Nil] fst_conv snd_conv) simp
qed

lemma concat_split_on: "concat (map (\<lambda>d. d @ [c]) (split_on c s)) = s @ [c]"
  by (induction s) (auto split: list.splits)

lemma events_of_event:
  assumes "event_ok e"
  shows "events_of ([], [], False) st (event_lines e @ ls) = e # events_of ([], [], False) (ev_ID e, ev_Retry e) ls"
proof -
  have "events_of ([], [], False) st (event_lines e @ ls) =
      dispatch (ev_Type e, ev_Data e @ [LF], True) (ev_ID e, ev_Retry e) # events_of ([], [], False) (ev_ID e, ev_Retry e) ls"
    using assms unfolding event_lines_def event_ok_def
    by (simp only: append_Cons append_Nil append_assoc events_of_fields [unfolded append_Cons append_Nil] atoi_itoa data_lines split_on_not_Nil concat_split_on
        if_False fst_conv snd_conv option.case simp_thms)
  moreover have "dispatch (ev_Type e, ev_Data e @ [LF], True) (ev_ID e, ev_Retry e) = e"
    using assms by (simp add: dispatch_def event_ok_def trim_suffix_def)
  ultimately show ?thesis by simp
qed

lemma one_line_itoa: "one_line (itoa n)"
  by (simp add: one_line_def itoa_def nat_digits_no_char is_digit_def)

lemma set_split_on: "d \<in> set (split_on c s) \<Longrightarrow> set d \<subseteq> set s"
  by (induction s arbitrary: d) (fastforce split: if_splits list.splits)+

lemma event_lines_one_line: "event_ok e \<Longrightarrow> l \<in> set (event_lines e) \<Longrightarrow> one_line l"
proof -
  assume e: "event_ok e" and l: "l \<in> set (event_lines e)"
  have "one_line d" if "d \<in> set (split_on LF (ev_Data e))" for d
    using e that split_on_no_sep [OF that] set_split_on [OF that] by (auto simp: one_line_def event_ok_def)
  with e l one_line_itoa [of "ev_Retry e"] show "one_line l" by (auto simp: event_lines_def event_ok_def one_line_def)
qed

lemma events_of_events:
  "\<forall>e\<in>set es. event_ok e \<Longrightarrow> events_of ([], [], False) st (concat (map event_lines es)) = es"
  by (induction es arbitrary: st) (simp_all add: events_of_event)

text \<open>
  C24 A server that writes its events field by field, with any of the three line ends, is understood:
  however the stream arrives in reads, the client gets those events in order and then the end of the
  stream. The texts must be representable: no line ends in the identifier and the type, no NUL in the
  identifier, no carriage return in the data.
\<close>

theorem event_stream_roundtrip:
  assumes "\<forall>e\<in>set es. event_ok e" and "eol \<in> {[LF], [CR], [CR, LF]}" and "concat reads = event_stream eol es"
    and "\<forall>e\<in>set es. \<forall>l\<in>set (event_lines e). length l + 2 \<le> maxLine"
  shows "drain (NewParser reads ''EOF'') = (es, ''EOF'')"
proof -
  have "es_lines (concat reads) = concat (map event_lines es)"
    unfolding assms(3) event_stream_def
    by (rule es_lines_concat [OF assms(2)]) (use assms(1) event_lines_one_line in auto)
  with drain_new [of reads] assms(4) events_of_events [OF assms(1)] show ?thesis by simp
qed

theorem event_stream_roundtrip_witness:
  "let e = \<lparr>ev_ID = ''7'', ev_Type = ''tick'', ev_Data = ''a'' @ [LF] @ ''b'', ev_Retry = 50\<rparr>;
       s = event_stream [CR, LF] [e, e]
   in drain (NewParser [take 6 s, drop 6 s] ''EOF'') = ([e, e], ''EOF'')"
  unfolding Let_def
  by (rule event_stream_roundtrip [where eol = "[CR, LF]"])
    (simp_all add: event_ok_def one_line_def event_lines_def maxLine_def itoa_def nat_digits.simps)

theorem reads_do_not_matter_witness:
  "drain (NewParser [''data: x'' @ [CR], [LF] @ ''id: 3'', [LF, LF]] ''reset'') =
    ([\<lparr>ev_ID = ''3'', ev_Type = ''message'', ev_Data = ''x'', ev_Retry = 0\<rparr>], ''reset'')"
proof -
  have l: "es_lines (concat [''data: x'' @ [CR], [LF] @ ''id: 3'', [LF, LF]]) = [''data: x'', ''id: 3'', []]"
    by (subst es_lines.simps, simp add: scanLines_def)+
  show ?thesis
    by (subst reads_do_not_matter, unfold l)
      (simp_all add: maxLine_def field_line_def splitField_def trim_prefix_def dispatch_def trim_suffix_def suffix_Cons)
qed

text \<open>
  The specification takes a \<open>retry\<close> field only when its value consists of digits alone; the parser
  also takes a signed number, and reports a negative reconnection time to the client.
\<close>

theorem negative_retry:
  "drain (NewParser [''retry: -5'' @ [LF] @ ''data: x'' @ [LF, LF]] ''EOF'') =
    ([\<lparr>ev_ID = [], ev_Type = ''message'', ev_Data = ''x'', ev_Retry = -5\<rparr>], ''EOF'')"
proof -
  have l: "es_lines (concat [''retry: -5'' @ [LF] @ ''data: x'' @ [LF, LF]]) = [''retry: -5'', ''data: x'', []]"
    by (subst es_lines.simps, simp add: scanLines_def)+
  show ?thesis
    by (subst drain_new, unfold l)
      (simp_all add: maxLine_def field_line_def splitField_def trim_prefix_def dispatch_def trim_suffix_def suffix_Cons atoi_def
        is_digit_def digits_val_def digit_val_def)
qed

end
