(* ===== verification/Report.thy ===== *)
theory Report
  imports Runner
begin

text \<open>
  \<open>internal/runner/report.go\<close>: the JSON and the JUnit rendering of a run. The documents are the
  values given to \<open>json.MarshalIndent\<close> and \<open>xml.MarshalIndent\<close>, which are parameters, as are the two
  conversions of a duration to a decimal.
\<close>

section \<open>JSON\<close>

record jsonCheck =
  jc_Name :: string
  jc_Passed :: bool
  jc_Error :: string

record 'f jsonResult =
  jr_Path :: string
  jr_Method :: string
  jr_URL :: string
  jr_Status :: int
  jr_DurationMs :: 'f
  jr_OK :: bool
  jr_Skipped :: bool
  jr_Error :: string
  jr_Checks :: "jsonCheck list"

record 'f jsonReport =
  jp_Requests :: nat
  jp_ChecksPassed :: nat
  jp_ChecksFailed :: nat
  jp_Failed :: bool
  jp_Results :: "'f jsonResult list"

definition json_check :: "Check \<Rightarrow> jsonCheck" where
  "json_check c = \<lparr>jc_Name = ch_Name c, jc_Passed = ch_Passed c, jc_Error = ch_Error c\<rparr>"

definition json_result :: "(int \<Rightarrow> 'f) \<Rightarrow> RequestResult \<Rightarrow> 'f jsonResult" where
  "json_result ms r =
     \<lparr>jr_Path = rr_Path r, jr_Method = rr_Method r, jr_URL = rr_URL r, jr_Status = rr_StatusCode r,
      jr_DurationMs = ms (rr_Duration r), jr_OK = result_OK r, jr_Skipped = rr_Skipped r,
      jr_Error = rr_Err r, jr_Checks = map json_check (rr_Checks r)\<rparr>"

definition json_report :: "(int \<Rightarrow> 'f) \<Rightarrow> RequestResult list \<Rightarrow> 'f jsonReport" where
  "json_report ms rs =
     (let (reqs, passed, failed) = Totals rs
      in \<lparr>jp_Requests = reqs, jp_ChecksPassed = passed, jp_ChecksFailed = failed,
          jp_Failed = Report_Failed rs, jp_Results = map (json_result ms) rs\<rparr>)"

definition report_JSON :: "('f jsonReport \<Rightarrow> string result) \<Rightarrow> (int \<Rightarrow> 'f) \<Rightarrow> RequestResult list \<Rightarrow> string result" where
  "report_JSON marshal ms rs = map_sum id (\<lambda>b. b @ [CHR 0x0A]) (marshal (json_report ms rs))"

section \<open>JUnit\<close>

record junitFailure =
  jf_Message :: string
  jf_Content :: string

record junitTestcase =
  tc_Name :: string
  tc_Classname :: string
  tc_Time :: string
  tc_Failure :: "junitFailure option"
  tc_Skipped :: bool

record junitTestsuite =
  ju_Name :: string
  ju_Tests :: nat
  ju_Failures :: nat
  ju_Skipped :: nat
  ju_Cases :: "junitTestcase list"

record junitTestsuites =
  jd_Tests :: nat
  jd_Failures :: nat
  jd_Skipped :: nat
  jd_Suite :: junitTestsuite

definition failureMessage :: "RequestResult \<Rightarrow> string" where
  "failureMessage r =
     (if rr_Err r \<noteq> [] then rr_Err r
      else let failed = map ch_Name (filter (\<lambda>c. \<not> ch_Passed c) (rr_Checks r)) in
        if failed \<noteq> [] then itoa (int (length failed)) @ '' check(s) failed: '' @ join '', '' failed
        else ''failed'')"

definition failureDetail :: "RequestResult \<Rightarrow> string" where
  "failureDetail r =
     (let nl = CHR 0x0A;
          b = (if rr_Err r \<noteq> [] then ''error: '' @ rr_Err r @ [nl] else []) @
              concat (map (\<lambda>c. if ch_Passed c then []
                               else if ch_Error c \<noteq> [] then ch_Name c @ '': '' @ ch_Error c @ [nl]
                               else ch_Name c @ '': failed'' @ [nl]) (rr_Checks r))
      in rev (dropWhile (\<lambda>c. c = nl) (rev b)))"

text \<open>One turn of the loop of \<open>JUnit\<close>: the case of the request, and the counters.\<close>

definition add_case :: "(int \<Rightarrow> string) \<Rightarrow> RequestResult \<Rightarrow> junitTestsuite \<Rightarrow> junitTestsuite" where
  "add_case secs r suite =
     (let tc = \<lparr>tc_Name = rr_Path r, tc_Classname = rr_Method r, tc_Time = secs (rr_Duration r),
                tc_Failure = None, tc_Skipped = False\<rparr>;
          (tc1, suite1) =
            (if rr_Skipped r \<and> result_OK r
             then (tc\<lparr>tc_Skipped := True\<rparr>, suite\<lparr>ju_Skipped := Suc (ju_Skipped suite)\<rparr>)
             else if \<not> result_OK r
             then (tc\<lparr>tc_Failure := Some \<lparr>jf_Message = failureMessage r, jf_Content = failureDetail r\<rparr>\<rparr>,
                   suite\<lparr>ju_Failures := Suc (ju_Failures suite)\<rparr>)
             else (tc, suite))
      in suite1\<lparr>ju_Cases := ju_Cases suite1 @ [tc1], ju_Tests := Suc (ju_Tests suite1)\<rparr>)"

definition junit_doc :: "(int \<Rightarrow> string) \<Rightarrow> RequestResult list \<Rightarrow> junitTestsuites" where
  "junit_doc secs rs =
     (let suite = fold (add_case secs) rs
            \<lparr>ju_Name = ''helena'', ju_Tests = 0, ju_Failures = 0, ju_Skipped = 0, ju_Cases = []\<rparr>
      in \<lparr>jd_Tests = ju_Tests suite, jd_Failures = ju_Failures suite, jd_Skipped = ju_Skipped suite, jd_Suite = suite\<rparr>)"

definition report_JUnit :: "(junitTestsuites \<Rightarrow> string result) \<Rightarrow> string \<Rightarrow> (int \<Rightarrow> string) \<Rightarrow> RequestResult list \<Rightarrow> string result" where
  "report_JUnit marshal xml_header secs rs =
     map_sum id (\<lambda>b. xml_header @ b @ [CHR 0x0A]) (marshal (junit_doc secs rs))"

section \<open>Agreement\<close>

definition failures :: "junitTestsuites \<Rightarrow> junitTestcase list" where
  "failures d = filter (\<lambda>t. tc_Failure t \<noteq> None) (ju_Cases (jd_Suite d))"

lemma suite_counts:
  assumes "s1 = fold (add_case secs) rs s"
  shows "ju_Tests s1 = ju_Tests s + length rs"
    "ju_Failures s1 = ju_Failures s + length (filter (\<lambda>r. \<not> result_OK r) rs)"
    "ju_Skipped s1 = ju_Skipped s + length (filter (\<lambda>r. rr_Skipped r \<and> result_OK r) rs)"
    "length (ju_Cases s1) = length (ju_Cases s) + length rs"
    "length (filter (\<lambda>t. tc_Failure t \<noteq> None) (ju_Cases s1)) =
       length (filter (\<lambda>t. tc_Failure t \<noteq> None) (ju_Cases s)) + length (filter (\<lambda>r. \<not> result_OK r) rs)"
    "length (filter tc_Skipped (ju_Cases s1)) =
       length (filter tc_Skipped (ju_Cases s)) + length (filter (\<lambda>r. rr_Skipped r \<and> result_OK r) rs)"
    "map tc_Name (ju_Cases s1) = map tc_Name (ju_Cases s) @ map rr_Path rs"
  unfolding assms by (induction rs arbitrary: s) (auto simp: add_case_def Let_def)

text \<open>
  Both renderings tell the truth about the run, so that a pipeline can branch on either: the
  counters of the JUnit document are those of its cases, one case for each request in order; it has
  a failure exactly when the \<open>failed\<close> flag of the JSON report is set, which is the exit code; and the
  requests, failures and skips of the two documents are the same.
\<close>

theorem reports_agree:
  "let d = junit_doc secs rs; s = jd_Suite d; j = json_report ms rs in
     jd_Tests d = ju_Tests s \<and> jd_Failures d = ju_Failures s \<and> jd_Skipped d = ju_Skipped s \<and>
     ju_Tests s = length (ju_Cases s) \<and> ju_Tests s = jp_Requests j \<and>
     ju_Failures s = length (failures d) \<and> ju_Skipped s = length (filter tc_Skipped (ju_Cases s)) \<and>
     map tc_Name (ju_Cases s) = map jr_Path (jp_Results j) \<and>
     ju_Failures s = length (filter (\<lambda>r. \<not> jr_OK r) (jp_Results j)) \<and>
     (0 < jd_Failures d \<longleftrightarrow> jp_Failed j) \<and> (jp_Failed j \<longleftrightarrow> Report_Failed rs)"
proof -
  let ?start = "\<lparr>ju_Name = ''helena'', ju_Tests = 0, ju_Failures = 0, ju_Skipped = 0, ju_Cases = []\<rparr>"
  have "(filter (\<lambda>r. \<not> result_OK r) rs \<noteq> []) = Report_Failed rs" by (auto simp: Report_Failed_def list_ex_iff filter_empty_conv)
  with suite_counts [OF refl, of secs rs ?start] show ?thesis
    by (simp add: junit_doc_def json_report_def failures_def Totals_def Let_def json_result_def filter_map comp_def)
qed

end
