(* ===== verification/CurlImport.thy ===== *)
theory CurlImport
  imports ApiModel GoHttp
begin

text \<open>
  \<open>internal/importer/curl.go\<close>: the shell tokenizer, the flags of a \<open>curl\<close> command, and the request
  made of them. \<open>url.Parse\<close> is a parameter that gives the host and the path of a URL.
\<close>

section \<open>The shell tokenizer\<close>

datatype quoting = Normal | Single | Double

definition is_blank :: "char \<Rightarrow> bool" where
  "is_blank c \<longleftrightarrow> c = CHR '' '' \<or> c = CHR 0x09 \<or> c = CHR 0x0A \<or> c = CHR 0x0D"

definition flushed :: "bool \<Rightarrow> string \<Rightarrow> string list" where
  "flushed started cur = (if started then [cur] else [])"

fun tokenize :: "quoting \<Rightarrow> bool \<Rightarrow> string \<Rightarrow> string \<Rightarrow> string list result" where
  "tokenize q started cur [] =
     (if q \<noteq> Normal then Inl ''curl: unterminated quote in command'' else Inr (flushed started cur))"
| "tokenize Normal started cur (c # s) =
     (if is_blank c
      then map_sum id ((@) (flushed started cur)) (tokenize Normal False (if started then [] else cur) s)
      else if c = CHR 0x27 then tokenize Single True cur s
      else if c = CHR 0x22 then tokenize Double True cur s
      else if c = CHR 0x5C
      then (case s of
              [] \<Rightarrow> tokenize Normal started cur []
            | d # s1 \<Rightarrow>
                if d = CHR 0x0A then tokenize Normal started cur s1
                else if d = CHR 0x0D
                then (case s1 of
                        [] \<Rightarrow> tokenize Normal started cur []
                      | e # s2 \<Rightarrow> if e = CHR 0x0A then tokenize Normal started cur s2 else tokenize Normal started cur s1)
                else tokenize Normal True (cur @ [d]) s1)
      else tokenize Normal True (cur @ [c]) s)"
| "tokenize Single started cur (c # s) =
     (if c = CHR 0x27 then tokenize Normal started cur s else tokenize Single started (cur @ [c]) s)"
| "tokenize Double started cur (c # s) =
     (if c = CHR 0x22 then tokenize Normal started cur s
      else if c = CHR 0x5C
      then (case s of
              [] \<Rightarrow> tokenize Double started (cur @ [CHR 0x5C]) []
            | n # s1 \<Rightarrow>
                if n = CHR 0x22 \<or> n = CHR 0x5C \<or> n = CHR ''$'' \<or> n = CHR 0x60
                then tokenize Double started (cur @ [n]) s1
                else if n = CHR 0x0A then tokenize Double started cur s1
                else tokenize Double started (cur @ [CHR 0x5C]) s)
      else tokenize Double started (cur @ [c]) s)"

definition tokenizeShell :: "string \<Rightarrow> string list result" where
  "tokenizeShell s = tokenize Normal False [] s"

section \<open>Flags\<close>

definition curlValueShorts :: "string list" where
  "curlValueShorts = [''-X'', ''-H'', ''-d'', ''-F'', ''-u'', ''-A'', ''-e'', ''-b'', ''-o'', ''-m'', ''-x'', ''-E'', ''-T'', ''-w'']"

definition curlValueFlags :: "string list" where
  "curlValueFlags = [''-o'', ''--output'', ''-m'', ''--max-time'', ''--connect-timeout'', ''-w'', ''--write-out'',
     ''-x'', ''--proxy'', ''-E'', ''--cert'', ''--key'', ''--cacert'', ''-T'', ''--upload-file'', ''--retry'', ''--resolve'', ''--limit-rate'']"

definition splitFlag :: "string \<Rightarrow> string \<times> string \<times> bool" where
  "splitFlag tok =
     (if has_prefix tok ''--''
      then (case cut tok CHR ''='' of (k, v, found) \<Rightarrow> if found then (k, v, False) else (tok, [], False))
      else if 2 < length tok \<and> take 2 tok \<in> set curlValueShorts then (take 2 tok, drop 2 tok, True)
      else (tok, [], False))"

definition urlencodeData :: "string \<Rightarrow> string" where
  "urlencodeData s =
     (case cut s CHR ''='' of
        (name, content, found) \<Rightarrow>
          if found \<and> name \<noteq> [] then name @ ''='' @ QueryEscape content else QueryEscape (trim_prefix s ''=''))"

text \<open>The local variables of \<open>FromCurl\<close>.\<close>

record curl_state =
  cu_Method :: string
  cu_methodSet :: bool
  cu_Headers :: "key_value list"
  cu_Auth :: "auth option"
  cu_url :: string
  cu_dataParts :: "string list"
  cu_hasData :: bool
  cu_formParts :: "key_value list"
  cu_getMode :: bool
  cu_contentType :: string

definition curl_start :: curl_state where
  "curl_start = \<lparr>cu_Method = [], cu_methodSet = False, cu_Headers = [], cu_Auth = None, cu_url = [],
     cu_dataParts = [], cu_hasData = False, cu_formParts = [], cu_getMode = False, cu_contentType = []\<rparr>"

definition enabled_row :: "string \<Rightarrow> string \<Rightarrow> key_value" where
  "enabled_row k v = \<lparr>kv_Enabled = True, kv_Key = k, kv_Value = v, kv_Description = []\<rparr>"

definition add_header :: "string \<Rightarrow> string \<Rightarrow> curl_state \<Rightarrow> curl_state" where
  "add_header k v c = c\<lparr>cu_Headers := cu_Headers c @ [enabled_row k v]\<rparr>"

text \<open>The arms of the switch for the flags that take a value.\<close>

definition flag_arms :: "(string \<times> (string \<Rightarrow> curl_state \<Rightarrow> curl_state)) list" where
  "flag_arms =
     (let meth = (\<lambda>v c. c\<lparr>cu_Method := to_upper (trim_space v), cu_methodSet := True\<rparr>);
          header = (\<lambda>v c. case cut v CHR '':'' of
            (k0, v0, found) \<Rightarrow>
              let k = trim_space k0; val = trim_space v0 in
              if found \<and> k \<noteq> []
              then (add_header k val c)\<lparr>cu_contentType := if equal_fold k ''Content-Type'' then val else cu_contentType c\<rparr>
              else c);
          user = (\<lambda>v c. case cut v CHR '':'' of
            (u, p, _) \<Rightarrow> c\<lparr>cu_Auth := Some ((auth_of_type AuthBasic)\<lparr>auth_Basic := Some \<lparr>ba_Username = u, ba_Password = p\<rparr>\<rparr>)\<rparr>);
          url = (\<lambda>v c. if cu_url c = [] then c\<lparr>cu_url := v\<rparr> else c);
          data = (\<lambda>v c. c\<lparr>cu_dataParts := cu_dataParts c @ [v], cu_hasData := True\<rparr>);
          form = (\<lambda>v c. case cut v CHR ''='' of
            (k0, val, _) \<Rightarrow>
              let k = trim_space k0 in if k \<noteq> [] then c\<lparr>cu_formParts := cu_formParts c @ [enabled_row k val]\<rparr> else c)
      in [(''-X'', meth), (''--request'', meth), (''-H'', header), (''--header'', header),
          (''-A'', add_header ''User-Agent''), (''--user-agent'', add_header ''User-Agent''),
          (''-e'', add_header ''Referer''), (''--referer'', add_header ''Referer''),
          (''-b'', add_header ''Cookie''), (''--cookie'', add_header ''Cookie''),
          (''-u'', user), (''--user'', user), (''--url'', url),
          (''-d'', data), (''--data'', data), (''--data-raw'', data), (''--data-ascii'', data), (''--data-binary'', data),
          (''--data-urlencode'', data \<circ> urlencodeData), (''-F'', form), (''--form'', form)])"

text \<open>\<open>value\<close>: the inline value, or the next token, with the tokens after it.\<close>

definition flag_value :: "string \<Rightarrow> bool \<Rightarrow> string list \<Rightarrow> (string \<times> string list) option" where
  "flag_value inline attached rest =
     (if inline \<noteq> [] \<or> attached then Some (inline, rest)
      else case rest of [] \<Rightarrow> None | v # rest1 \<Rightarrow> Some (v, rest1))"

function curl_loop :: "string list \<Rightarrow> curl_state \<Rightarrow> curl_state" where
  "curl_loop [] c = c"
| "curl_loop (raw # rest) c =
     (if raw = [] then curl_loop rest c
      else if \<not> has_prefix raw ''-'' \<or> raw = ''-''
      then curl_loop rest (if cu_url c = [] then c\<lparr>cu_url := raw\<rparr> else c)
      else let (flag, inline, attached) = splitFlag raw in
        case map_of flag_arms flag of
          Some arm \<Rightarrow>
            (case flag_value inline attached rest of
               Some (v, rest1) \<Rightarrow> curl_loop rest1 (arm v c)
             | None \<Rightarrow> curl_loop rest c)
        | None \<Rightarrow>
            if flag = ''-G'' \<or> flag = ''--get'' then curl_loop rest (c\<lparr>cu_getMode := True\<rparr>)
            else if \<not> attached \<and> inline = [] \<and> flag \<in> set curlValueFlags then curl_loop (drop 1 rest) c
            else curl_loop rest c)"
  by pat_completeness auto

termination
  by (relation "measure (\<lambda>(toks, c). length toks)") (auto simp: flag_value_def split: if_splits list.splits)

declare curl_loop.simps [simp del]

section \<open>The request\<close>

definition dropMultipartContentType :: "key_value list \<Rightarrow> key_value list" where
  "dropMultipartContentType =
     filter (\<lambda>h. \<not> (equal_fold (kv_Key h) ''Content-Type'' \<and> contains (to_lower (kv_Value h)) ''multipart/form-data''))"

definition looksLikeForm :: "string \<Rightarrow> bool" where
  "looksLikeForm data \<longleftrightarrow> contains data ''='' \<and> \<not> list_ex (\<lambda>c. c = CHR '' '' \<or> c = CHR 0x09 \<or> c = CHR 0x0A) data"

definition unescaped :: "string \<Rightarrow> string" where
  "unescaped s = (case QueryUnescape s of Some t \<Rightarrow> t | None \<Rightarrow> s)"

definition form_row :: "string \<Rightarrow> key_value list" where
  "form_row part =
     (if part = [] then []
      else case cut part CHR ''='' of
        (k0, v0, _) \<Rightarrow> let k = unescaped k0; v = unescaped v0 in if k = [] then [] else [enabled_row k v])"

definition parseFormData :: "string \<Rightarrow> key_value list" where
  "parseFormData data = concat (map form_row (split_on CHR ''&'' data))"

definition empty_body :: "string \<Rightarrow> body" where
  "empty_body t = zero_body\<lparr>body_Type := t\<rparr>"

definition text_body :: "string \<Rightarrow> string \<Rightarrow> body" where
  "text_body t d = (empty_body t)\<lparr>body_Content := d\<rparr>"

definition form_body :: "string \<Rightarrow> key_value list \<Rightarrow> body" where
  "form_body t f = (empty_body t)\<lparr>body_Form := f\<rparr>"

definition bodyFromData :: "string \<Rightarrow> string \<Rightarrow> body" where
  "bodyFromData data contentType =
     (let ct = to_lower contentType; trimmed = trim_space data in
      if contains ct ''json'' then text_body BodyJSON data
      else if contains ct ''xml'' then text_body BodyXML data
      else if contains ct ''x-www-form-urlencoded'' then form_body BodyForm (parseFormData data)
      else if ct \<noteq> [] then text_body BodyText data
      else if has_prefix trimmed ''{'' \<or> has_prefix trimmed ''['' then text_body BodyJSON data
      else if looksLikeForm data then form_body BodyForm (parseFormData data)
      else text_body BodyText data)"

definition appendQuery :: "string \<Rightarrow> string \<Rightarrow> string" where
  "appendQuery rawURL extra =
     (if extra = [] then rawURL else rawURL @ (if contains rawURL ''?'' then ''&'' else ''?'') @ extra)"

definition curlName :: "(string \<Rightarrow> (string \<times> string) result) \<Rightarrow> string \<Rightarrow> string \<Rightarrow> string" where
  "curlName parse meth rawURL =
     (let label = (case parse rawURL of
            Inr (host, path) \<Rightarrow> if host \<noteq> [] then trim_suffix (host @ path) ''/'' else rawURL
          | Inl e \<Rightarrow> rawURL)
      in meth @ '' '' @ (if label = [] then rawURL else label))"

definition curl_request :: "(string \<Rightarrow> (string \<times> string) result) \<Rightarrow> curl_state \<Rightarrow> request result" where
  "curl_request parse c =
     (if cu_url c = [] then Inl ''curl: no URL found in command''
      else
        let data = join ''&'' (cu_dataParts c);
            (meth, url, body, headers) =
              (if cu_formParts c \<noteq> []
               then (if cu_methodSet c then cu_Method c else ''POST'', cu_url c, form_body BodyMultipart (cu_formParts c),
                     dropMultipartContentType (cu_Headers c))
               else if cu_hasData c
               then (if cu_getMode c
                     then (if cu_methodSet c then cu_Method c else ''GET'', appendQuery (cu_url c) data, empty_body BodyNone, cu_Headers c)
                     else (if cu_methodSet c then cu_Method c else ''POST'', cu_url c, bodyFromData data (cu_contentType c), cu_Headers c))
               else (cu_Method c, cu_url c, empty_body BodyNone, cu_Headers c));
            m = (if meth = [] then ''GET'' else meth)
        in Inr (zero_request\<lparr>rq_Name := curlName parse m url, rq_Method := m, rq_URL := url, rq_Headers := headers,
             rq_Body := body, rq_Auth := (case cu_Auth c of None \<Rightarrow> rq_Auth zero_request | Some a \<Rightarrow> a)\<rparr>))"

definition FromCurl :: "(string \<Rightarrow> (string \<times> string) result) \<Rightarrow> string \<Rightarrow> request result" where
  "FromCurl parse command =
     bind_result (tokenizeShell command) (\<lambda>toks.
       let args = (case toks of t # ts \<Rightarrow> if t = ''curl'' \<or> has_suffix t ''/curl'' then ts else toks | [] \<Rightarrow> toks)
       in curl_request parse (curl_loop args curl_start))"

end
