(* ===== verification/Exporter.thy ===== *)
theory Exporter
  imports Auth
begin

text \<open>
  \<open>internal/exporter\<close>: a built request as a \<open>curl\<close> or \<open>wget\<close> command (\<open>exporter.go\<close>) and as JavaScript,
  Python and Go source (\<open>codegen.go\<close>). \<open>httpclient.Build\<close>, \<open>URL.String\<close> and the JSON encoder of strings
  are parameters.
\<close>

section \<open>Shell words\<close>

definition safe_byte :: "char \<Rightarrow> bool" where
  "safe_byte c \<longleftrightarrow> between 97 c 122 \<or> between 65 c 90 \<or> between 48 c 57 \<or> c \<in> set ''-_./:+%,''"

definition needsShellQuote :: "string \<Rightarrow> bool" where
  "needsShellQuote s \<longleftrightarrow> s = [] \<or> \<not> list_all safe_byte s"

definition alwaysQuote :: "string \<Rightarrow> string" where
  "alwaysQuote s =
     [CHR 0x27] @ concat (map (\<lambda>c. if c = CHR 0x27 then [CHR 0x27, CHR 0x5C, CHR 0x27, CHR 0x27] else [c]) s) @ [CHR 0x27]"

definition shellQuote :: "string \<Rightarrow> string" where
  "shellQuote s = (if \<not> needsShellQuote s then s else alwaysQuote s)"

section \<open>The parts of a request\<close>

definition sortedHeaderKeys :: "headers \<Rightarrow> string list" where
  "sortedHeaderKeys h = sort (map fst h)"

definition header_pairs :: "headers \<Rightarrow> (string \<times> string) list" where
  "header_pairs h = concat (map (\<lambda>k. map (Pair k) (case map_of h k of Some vs \<Rightarrow> vs | None \<Rightarrow> [])) (sortedHeaderKeys h))"

definition exportHeaders :: "http_request \<Rightarrow> (string \<times> string) list" where
  "exportHeaders req =
     header_pairs (hr_Header req) @
     (if hr_Host req \<noteq> [] \<and> hr_Host req \<noteq> rurl_Host (hr_URL req) then [(''Host'', hr_Host req)] else [])"

definition readBodyBytes :: "http_request \<Rightarrow> string result" where
  "readBodyBytes req = (case hr_Body req of None \<Rightarrow> Inr [] | Some r \<Rightarrow> r)"

definition line_joint :: string where
  "line_joint = '' '' @ [CHR 0x5C, CHR 0x0A] @ ''  ''"

section \<open>Commands\<close>

definition renderCurl :: "(req_url \<Rightarrow> string) \<Rightarrow> http_request \<Rightarrow> settings \<Rightarrow> string result" where
  "renderCurl url_string req s =
     bind_result (readBodyBytes req) (\<lambda>body.
       Inr (join line_joint
         ([''curl -X '' @ hr_Method req @ '' '' @ alwaysQuote (url_string (hr_URL req))] @
          (if se_InsecureSkipVerify s then [''-k''] else []) @
          (if se_FollowRedirects s then [''-L''] else []) @
          (if 0 < se_TimeoutSeconds s then [''--max-time '' @ itoa (se_TimeoutSeconds s)] else []) @
          map (\<lambda>(k, v). ''-H '' @ shellQuote (k @ '': '' @ v)) (exportHeaders req) @
          (if body \<noteq> [] then [''--data-raw '' @ shellQuote body] else []))))"

definition renderWget :: "(req_url \<Rightarrow> string) \<Rightarrow> http_request \<Rightarrow> settings \<Rightarrow> string result" where
  "renderWget url_string req s =
     bind_result (readBodyBytes req) (\<lambda>body.
       Inr (join line_joint
         ([''wget --method='' @ hr_Method req] @
          (if se_InsecureSkipVerify s then [''--no-check-certificate''] else []) @
          (if \<not> se_FollowRedirects s then [''--max-redirect=0''] else []) @
          (if 0 < se_TimeoutSeconds s then [''--timeout='' @ itoa (se_TimeoutSeconds s)] else []) @
          map (\<lambda>(k, v). ''--header='' @ shellQuote (k @ '': '' @ v)) (exportHeaders req) @
          (if body \<noteq> [] then [''--body-data='' @ shellQuote body] else []) @
          [''-qO-'', alwaysQuote (url_string (hr_URL req))])))"

definition ToCurl :: "(request \<Rightarrow> http_request result) \<Rightarrow> (req_url \<Rightarrow> string) \<Rightarrow> request \<Rightarrow> settings \<Rightarrow> string result" where
  "ToCurl build url_string r s = bind_result (build r) (\<lambda>req. renderCurl url_string req s)"

definition ToWget :: "(request \<Rightarrow> http_request result) \<Rightarrow> (req_url \<Rightarrow> string) \<Rightarrow> request \<Rightarrow> settings \<Rightarrow> string result" where
  "ToWget build url_string r s = bind_result (build r) (\<lambda>req. renderWget url_string req s)"

section \<open>Source text\<close>

text \<open>\<open>enc\<close> is the JSON encoder with HTML escaping off, which ends its output with a line feed.\<close>

definition nl :: string where "nl = [CHR 0x0A]"
definition tab :: string where "tab = [CHR 0x09]"
definition dq :: string where "dq = [CHR 0x22]"

definition jsLit :: "(string \<Rightarrow> string) \<Rightarrow> string \<Rightarrow> string" where
  "jsLit enc s = rev (dropWhile (\<lambda>c. c = CHR 0x0A) (rev (enc s)))"

fun fetch_headers :: "(string \<Rightarrow> string) \<Rightarrow> (string \<times> string) list \<Rightarrow> string" where
  "fetch_headers enc [] = []"
| "fetch_headers enc ((k, v) # hs) =
     ''    '' @ jsLit enc k @ '': '' @ jsLit enc v @ (if hs = [] then [] else '','') @ nl @ fetch_headers enc hs"

definition renderFetch :: "(string \<Rightarrow> string) \<Rightarrow> (req_url \<Rightarrow> string) \<Rightarrow> http_request \<Rightarrow> string result" where
  "renderFetch enc url_string req =
     bind_result (readBodyBytes req) (\<lambda>body.
       let hdrs = exportHeaders req in
       Inr (''fetch('' @ jsLit enc (url_string (hr_URL req)) @ '', {'' @ nl @
            ''  method: '' @ jsLit enc (hr_Method req) @ '','' @ nl @
            (if hdrs \<noteq> [] then ''  headers: {'' @ nl @ fetch_headers enc hdrs @ ''  },'' @ nl else []) @
            (if body \<noteq> [] then ''  body: '' @ jsLit enc body @ '','' @ nl else []) @
            ''})'' @ nl @ ''  .then((r) => r.text())'' @ nl @ ''  .then(console.log);''))"

definition renderPython :: "(string \<Rightarrow> string) \<Rightarrow> (req_url \<Rightarrow> string) \<Rightarrow> http_request \<Rightarrow> settings \<Rightarrow> string result" where
  "renderPython enc url_string req s =
     bind_result (readBodyBytes req) (\<lambda>body.
       let hdrs = exportHeaders req in
       Inr (''import requests'' @ nl @ nl @ ''response = requests.request('' @ nl @
            ''    '' @ jsLit enc (hr_Method req) @ '','' @ nl @
            ''    '' @ jsLit enc (url_string (hr_URL req)) @ '','' @ nl @
            (if hdrs \<noteq> []
             then ''    headers={'' @ nl @
                  concat (map (\<lambda>(k, v). ''        '' @ jsLit enc k @ '': '' @ jsLit enc v @ '','' @ nl) hdrs) @ ''    },'' @ nl
             else []) @
            (if body \<noteq> [] then ''    data='' @ jsLit enc body @ '','' @ nl else []) @
            (if se_InsecureSkipVerify s then ''    verify=False,'' @ nl else []) @
            (if \<not> se_FollowRedirects s then ''    allow_redirects=False,'' @ nl else []) @
            (if 0 < se_TimeoutSeconds s then ''    timeout='' @ itoa (se_TimeoutSeconds s) @ '','' @ nl else []) @
            '')'' @ nl @ ''print(response.text)''))"

definition panic_block :: string where
  "panic_block = tab @ ''if err != nil {'' @ nl @ tab @ tab @ ''panic(err)'' @ nl @ tab @ ''}'' @ nl"

definition go_imports :: "bool \<Rightarrow> settings \<Rightarrow> string list" where
  "go_imports has_body s =
     sort (map (\<lambda>p. dq @ p @ dq)
       ([''fmt'', ''io'', ''net/http''] @ (if has_body then [''strings''] else []) @
        (if se_InsecureSkipVerify s then [''crypto/tls''] else []) @ (if 0 < se_TimeoutSeconds s then [''time''] else [])))"

definition renderGo :: "(req_url \<Rightarrow> string) \<Rightarrow> http_request \<Rightarrow> settings \<Rightarrow> string result" where
  "renderGo url_string req s =
     bind_result (readBodyBytes req) (\<lambda>body.
       let custom = se_InsecureSkipVerify s \<or> 0 < se_TimeoutSeconds s \<or> \<not> se_FollowRedirects s in
       Inr (''package main'' @ nl @ nl @ ''import ('' @ nl @
            concat (map (\<lambda>p. tab @ p @ nl) (go_imports (body \<noteq> []) s)) @
            '')'' @ nl @ nl @ ''func main() {'' @ nl @
            (if body \<noteq> [] then tab @ ''body := strings.NewReader('' @ quoted body @ '')'' @ nl else []) @
            tab @ ''req, err := http.NewRequest('' @ quoted (hr_Method req) @ '', '' @ quoted (url_string (hr_URL req)) @ '', '' @
              (if body \<noteq> [] then ''body'' else ''nil'') @ '')'' @ nl @ panic_block @
            concat (map (\<lambda>(k, v). tab @ ''req.Header.Add('' @ quoted k @ '', '' @ quoted v @ '')'' @ nl) (exportHeaders req)) @
            (if custom
             then tab @ ''client := &http.Client{}'' @ nl @
                  (if 0 < se_TimeoutSeconds s
                   then tab @ ''client.Timeout = '' @ itoa (se_TimeoutSeconds s) @ '' * time.Second'' @ nl else []) @
                  (if se_InsecureSkipVerify s
                   then tab @ ''client.Transport = &http.Transport{TLSClientConfig: &tls.Config{InsecureSkipVerify: true}}'' @ nl
                   else []) @
                  (if \<not> se_FollowRedirects s
                   then tab @ ''client.CheckRedirect = func(*http.Request, []*http.Request) error { return http.ErrUseLastResponse }'' @ nl
                   else [])
             else []) @
            tab @ ''resp, err := '' @ (if custom then ''client'' else ''http.DefaultClient'') @ ''.Do(req)'' @ nl @ panic_block @
            tab @ ''defer resp.Body.Close()'' @ nl @ tab @ ''out, _ := io.ReadAll(resp.Body)'' @ nl @
            tab @ ''fmt.Println(string(out))'' @ nl @ ''}''))"

definition ToFetch :: "(request \<Rightarrow> http_request result) \<Rightarrow> (string \<Rightarrow> string) \<Rightarrow> (req_url \<Rightarrow> string) \<Rightarrow> request \<Rightarrow> string result" where
  "ToFetch build enc url_string r = bind_result (build r) (renderFetch enc url_string)"

definition ToPython :: "(request \<Rightarrow> http_request result) \<Rightarrow> (string \<Rightarrow> string) \<Rightarrow> (req_url \<Rightarrow> string) \<Rightarrow> request \<Rightarrow> settings \<Rightarrow> string result" where
  "ToPython build enc url_string r s = bind_result (build r) (\<lambda>req. renderPython enc url_string req s)"

definition ToGo :: "(request \<Rightarrow> http_request result) \<Rightarrow> (req_url \<Rightarrow> string) \<Rightarrow> request \<Rightarrow> settings \<Rightarrow> string result" where
  "ToGo build url_string r s = bind_result (build r) (\<lambda>req. renderGo url_string req s)"

end
