(* ===== verification/CurlRoundtrip.thy ===== *)
theory CurlRoundtrip
  imports CurlImport Exporter EnvText
begin

text \<open>
  The exported \<open>curl\<close> command read by the importer: how the tokenizer reads the exporter's quoting,
  and what the flag loop makes of the words.
\<close>

section \<open>Words\<close>

definition plain :: "string \<Rightarrow> bool" where
  "plain s \<longleftrightarrow> s \<noteq> [] \<and> list_all (\<lambda>c. \<not> is_blank c \<and> c \<noteq> CHR 0x27 \<and> c \<noteq> CHR 0x22 \<and> c \<noteq> CHR 0x5C) s"

text \<open>A text that the tokenizer reads as these words, whatever follows it.\<close>

definition spells :: "string \<Rightarrow> string list \<Rightarrow> bool" where
  "spells l ws \<longleftrightarrow> ws \<noteq> [] \<and>
     (\<forall>r. tokenize Normal False [] (l @ r) = map_sum id ((@) (butlast ws)) (tokenize Normal True (last ws) r))"

lemma map_sum_Nil [simp]: "map_sum id ((@) []) r = r"
  by (cases r) simp_all

lemma map_sum_append [simp]: "map_sum id ((@) xs) (map_sum id ((@) ys) r) = map_sum id ((@) (xs @ ys)) r"
  by (cases r) simp_all

lemma tokenize_plain:
  "plain s \<Longrightarrow> tokenize Normal started cur (s @ r) = tokenize Normal True (cur @ s) r"
proof (induction s arbitrary: started cur)
  case (Cons c s)
  then show ?case by (cases "s = []") (auto simp: plain_def)
qed (simp add: plain_def)

lemma tokenize_single:
  "tokenize Single True cur (concat (map (\<lambda>c. if c = CHR 0x27 then [CHR 0x27, CHR 0x5C, CHR 0x27, CHR 0x27] else [c]) s) @ CHR 0x27 # r) =
    tokenize Normal True (cur @ s) r"
  by (induction s arbitrary: cur) (simp_all add: is_blank_def)

lemma tokenize_quote: "tokenize Normal started cur (alwaysQuote s @ r) = tokenize Normal True (cur @ s) r"
  using tokenize_single [of cur s r] by (simp add: alwaysQuote_def is_blank_def)

lemma safe_plain: "\<not> needsShellQuote s \<Longrightarrow> plain s"
  by (auto simp: needsShellQuote_def plain_def safe_byte_def is_blank_def between_def list_all_iff)

lemma tokenize_shell_quote: "tokenize Normal started cur (shellQuote s @ r) = tokenize Normal True (cur @ s) r"
  by (simp add: shellQuote_def tokenize_quote tokenize_plain safe_plain)

lemma spells_plain: "plain s \<Longrightarrow> spells s [s]"
  by (simp add: spells_def tokenize_plain)

lemma spells_quoted: "spells (alwaysQuote s) [s]" "plain p \<Longrightarrow> spells (p @ shellQuote s) [p @ s]" "spells (shellQuote s) [s]"
  by (simp_all add: spells_def tokenize_quote tokenize_plain tokenize_shell_quote)

lemma spells_space:
  assumes "spells a ws" "spells b vs" "sep \<in> {'' '', line_joint}"
  shows "spells (a @ sep @ b) (ws @ vs)"
proof -
  have sep: "tokenize Normal True cur (sep @ r) = map_sum id ((@) [cur]) (tokenize Normal False [] r)" for cur r
    using assms(3) by (cases "tokenize Normal False [] r") (auto simp: line_joint_def is_blank_def flushed_def)
  have glue: "butlast ws @ last ws # xs = ws @ xs" for xs
    using assms(1) append_butlast_last_id [of ws] unfolding spells_def by (metis append_Cons append_Nil append_assoc)
  from assms(1,2) show ?thesis by (simp add: spells_def sep butlast_append glue)
qed

lemma spells_lines:
  "list_all2 spells ls wss \<Longrightarrow> ls \<noteq> [] \<Longrightarrow> spells (join line_joint ls) (concat wss)"
proof (induction ls wss rule: list_all2_induct)
  case (Cons l ls ws wss)
  show ?case
  proof (cases "ls = []")
    case True
    with Cons show ?thesis by simp
  next
    case False
    with Cons have "spells (l @ line_joint @ join line_joint ls) (ws @ concat wss)" by (intro spells_space) simp_all
    with False show ?thesis by (cases ls) simp_all
  qed
qed simp

lemma spells_tokens: "spells l ws \<Longrightarrow> tokenizeShell l = Inr ws"
  by (auto simp: spells_def tokenizeShell_def flushed_def dest!: spec [of _ "[]"])

section \<open>The words of an exported command\<close>

definition curl_words :: "http_request \<Rightarrow> string \<Rightarrow> settings \<Rightarrow> string \<Rightarrow> string list" where
  "curl_words req url s body =
     [''curl'', ''-X'', hr_Method req, url] @
     (if se_InsecureSkipVerify s then [''-k''] else []) @ (if se_FollowRedirects s then [''-L''] else []) @
     (if 0 < se_TimeoutSeconds s then [''--max-time'', itoa (se_TimeoutSeconds s)] else []) @
     concat (map (\<lambda>(k, v). [''-H'', k @ '': '' @ v]) (exportHeaders req)) @
     (if body \<noteq> [] then [''--data-raw'', body] else [])"

lemma plain_itoa: "plain (itoa n)"
proof -
  have "list_all (\<lambda>c. \<not> is_blank c \<and> c \<noteq> CHR 0x27 \<and> c \<noteq> CHR 0x22 \<and> c \<noteq> CHR 0x5C) (nat_digits m)" for m
    using nat_digits_digits [of m] by (auto simp: list_all_iff is_digit_def is_blank_def)
  then show ?thesis by (simp add: plain_def itoa_def is_blank_def)
qed

lemma spells_value: "plain f \<Longrightarrow> spells (f @ '' '' @ shellQuote v) [f, v]"
  using spells_space [OF spells_plain spells_quoted(3), of f "'' ''" v] by simp

text \<open>Optional lines and header lines.\<close>

lemma spells_optional: "(b \<Longrightarrow> spells l ws) \<Longrightarrow> list_all2 spells (if b then [l] else []) (if b then [ws] else [])"
  by simp

lemma concat_optional: "concat (if b then [ws] else []) = (if b then ws else [])"
  by simp

lemma curl_spelled:
  assumes "renderCurl url_string req s = Inr cmd" "readBodyBytes req = Inr body" "plain (hr_Method req)"
  shows "tokenizeShell cmd = Inr (curl_words req (url_string (hr_URL req)) s body)"
proof -
  let ?url = "url_string (hr_URL req)"
  let ?ls = "[''curl -X '' @ hr_Method req @ '' '' @ alwaysQuote ?url] @ (if se_InsecureSkipVerify s then [''-k''] else []) @
    (if se_FollowRedirects s then [''-L''] else []) @
    (if 0 < se_TimeoutSeconds s then [''--max-time '' @ itoa (se_TimeoutSeconds s)] else []) @
    map (\<lambda>(k, v). ''-H '' @ shellQuote (k @ '': '' @ v)) (exportHeaders req) @ (if body \<noteq> [] then [''--data-raw '' @ shellQuote body] else [])"
  let ?ws = "[[''curl'', ''-X'', hr_Method req, ?url]] @ (if se_InsecureSkipVerify s then [[''-k'']] else []) @
    (if se_FollowRedirects s then [[''-L'']] else []) @ (if 0 < se_TimeoutSeconds s then [[''--max-time'', itoa (se_TimeoutSeconds s)]] else []) @
    map (\<lambda>(k, v). [''-H'', k @ '': '' @ v]) (exportHeaders req) @ (if body \<noteq> [] then [[''--data-raw'', body]] else [])"
  have p: "plain ''curl''" "plain ''-X''" "plain ''-k''" "plain ''-L''" "plain ''--max-time''" "plain ''-H''" "plain ''--data-raw''"
    by (simp_all add: plain_def is_blank_def)
  note two = spells_space [OF spells_plain spells_space [OF spells_plain spells_space [OF spells_plain]]]
  have "spells (''curl -X '' @ hr_Method req @ '' '' @ alwaysQuote ?url) [''curl'', ''-X'', hr_Method req, ?url]"
    using two [OF p(1,2) assms(3) spells_quoted(1), of "'' ''" "'' ''" "'' ''" ?url] by simp
  moreover have "spells (''--max-time '' @ itoa n) [''--max-time'', itoa n]" for n
    using spells_space [OF spells_plain [OF p(5)] spells_plain [OF plain_itoa], of "'' ''"] by (simp del: itoa_nat)
  moreover have "list_all2 spells (map (\<lambda>(k, v). ''-H '' @ shellQuote (k @ '': '' @ v)) hs) (map (\<lambda>(k, v). [''-H'', k @ '': '' @ v]) hs)" for hs
    using spells_value [OF p(6)] by (induction hs) auto
  ultimately have "list_all2 spells ?ls ?ws"
    using spells_plain [OF p(3)] spells_plain [OF p(4)] spells_value [OF p(7), of body]
    by (intro list_all2_appendI spells_optional) simp_all
  from spells_tokens [OF spells_lines [OF this]] assms(1,2) show ?thesis
    by (simp add: renderCurl_def curl_words_def concat_optional del: itoa_nat)
qed

section \<open>What the importer makes of them\<close>

lemma splitFlag_samples:
  "splitFlag ''-X'' = (''-X'', [], False)" "splitFlag ''-H'' = (''-H'', [], False)" "splitFlag ''-k'' = (''-k'', [], False)"
  "splitFlag ''-L'' = (''-L'', [], False)" "splitFlag ''--max-time'' = (''--max-time'', [], False)"
  "splitFlag ''--data-raw'' = (''--data-raw'', [], False)"
  by code_simp+

lemma loop_words:
  "curl_loop (''-X'' # v # ws) c = curl_loop ws (c\<lparr>cu_Method := to_upper (trim_space v), cu_methodSet := True\<rparr>)"
  "curl_loop (''-k'' # ws) c = curl_loop ws c" "curl_loop (''-L'' # ws) c = curl_loop ws c"
  "curl_loop (''--max-time'' # v # ws) c = curl_loop ws c"
  "curl_loop (''--data-raw'' # v # ws) c = curl_loop ws (c\<lparr>cu_dataParts := cu_dataParts c @ [v], cu_hasData := True\<rparr>)"
  by (subst curl_loop.simps; simp add: splitFlag_samples flag_arms_def flag_value_def curlValueFlags_def Let_def)+

lemma loop_url:
  "url \<noteq> [] \<Longrightarrow> hd url \<noteq> CHR ''-'' \<Longrightarrow> curl_loop (url # ws) c = curl_loop ws (if cu_url c = [] then c\<lparr>cu_url := url\<rparr> else c)"
  by (subst curl_loop.simps) (cases url; simp)

definition header_ok :: "string \<times> string \<Rightarrow> bool" where
  "header_ok h \<longleftrightarrow> (case h of (k, v) \<Rightarrow> k \<noteq> [] \<and> CHR '':'' \<notin> set k \<and> trimmed k \<and> trimmed v)"

definition note_type :: "string \<times> string \<Rightarrow> string \<Rightarrow> string" where
  "note_type h ct = (if equal_fold (fst h) ''Content-Type'' then snd h else ct)"

lemma loop_header:
  assumes "header_ok (k, v)"
  shows "curl_loop (''-H'' # (k @ '': '' @ v) # ws) c =
    curl_loop ws (c\<lparr>cu_Headers := cu_Headers c @ [enabled_row k v], cu_contentType := note_type (k, v) (cu_contentType c)\<rparr>)"
proof -
  have "cut (k @ '': '' @ v) CHR '':'' = (k, CHR '' '' # v, True)"
    using assms cut_append [of "CHR '':''" k "CHR '' '' # v"] by (simp add: header_ok_def)
  then show ?thesis using assms
    by (subst curl_loop.simps)
      (simp add: splitFlag_samples flag_arms_def flag_value_def Let_def header_ok_def trim_space_id trim_cons_space add_header_def
        note_type_def)
qed

lemma loop_headers:
  "list_all header_ok hs \<Longrightarrow>
    curl_loop (concat (map (\<lambda>(k, v). [''-H'', k @ '': '' @ v]) hs) @ ws) c =
    curl_loop ws (c\<lparr>cu_Headers := cu_Headers c @ map (case_prod enabled_row) hs, cu_contentType := fold note_type hs (cu_contentType c)\<rparr>)"
proof (induction hs arbitrary: c)
  case (Cons h hs)
  then show ?case by (cases h) (simp add: loop_header [simplified])
qed simp

text \<open>
  C22 Importing an exported \<open>curl\<close> command gives back the request that Helena would send: its method,
  its URL, its headers in the exporter's order with the host override, and its body, typed by the
  content type that goes with it; whatever quotes, spaces or line breaks the URL, the header values
  and the body contain.
\<close>

theorem curl_roundtrip:
  assumes "renderCurl url_string req s = Inr cmd" and "readBodyBytes req = Inr body"
    and "plain (hr_Method req)" and "to_upper (trim_space (hr_Method req)) = hr_Method req"
    and "url = url_string (hr_URL req)" and "url \<noteq> []" and "hd url \<noteq> CHR ''-''"
    and "list_all header_ok (exportHeaders req)"
  shows "FromCurl parse cmd =
    Inr (zero_request\<lparr>rq_Name := curlName parse (hr_Method req) url, rq_Method := hr_Method req, rq_URL := url,
      rq_Headers := map (\<lambda>(k, v). enabled_row k v) (exportHeaders req),
      rq_Body := (if body = [] then empty_body BodyNone else bodyFromData body (fold note_type (exportHeaders req) []))\<rparr>)"
proof -
  have m: "hr_Method req \<noteq> []" using assms(3) by (simp add: plain_def)
  define args where "args = tl (curl_words req url s body)"
  have words: "curl_words req url s body = ''curl'' # args" by (simp add: args_def curl_words_def)
  have run: "curl_loop args curl_start =
      curl_start\<lparr>cu_Method := hr_Method req, cu_methodSet := True, cu_url := url,
        cu_Headers := map (case_prod enabled_row) (exportHeaders req), cu_contentType := fold note_type (exportHeaders req) [],
        cu_dataParts := (if body = [] then [] else [body]), cu_hasData := (body \<noteq> [])\<rparr>"
    using assms(4,6-8) unfolding args_def
    by (simp add: curl_words_def loop_words loop_url loop_headers [simplified] loop_headers [of _ "[]", simplified] curl_start_def
        curl_loop.simps(1))
  have "FromCurl parse cmd = curl_request parse (curl_loop args curl_start)"
    using curl_spelled [OF assms(1-3)] assms(5) words by (simp add: FromCurl_def)
  then show ?thesis using m assms(6) unfolding run by (simp add: curl_request_def curl_start_def Let_def)
qed

definition plain_url :: "req_url \<Rightarrow> string" where
  "plain_url u = rurl_Scheme u @ ''://'' @ rurl_Host u @ rurl_EscapedPath u"

definition post_req :: http_request where
  "post_req = \<lparr>hr_Method = ''POST'', hr_URL = \<lparr>rurl_Scheme = ''http'', rurl_Host = ''h'', rurl_Path = ''/a'', rurl_EscapedPath = ''/a'',
     rurl_RawQuery = []\<rparr>, hr_Host = ''v.example'', hr_Header = [(''Content-Type'', [''application/json''])],
     hr_Body = Some (Inr ([CHR ''{'', CHR 0x27, CHR 0x0A, CHR ''}'']))\<rparr>"

theorem curl_roundtrip_witness:
  "\<exists>cmd. renderCurl plain_url post_req DefaultSettings = Inr cmd \<and>
    FromCurl (\<lambda>_. Inl ''no'') cmd = Inr (zero_request\<lparr>rq_Name := ''POST http://h/a'', rq_Method := ''POST'', rq_URL := ''http://h/a'',
      rq_Headers := [enabled_row ''Content-Type'' ''application/json'', enabled_row ''Host'' ''v.example''],
      rq_Body := text_body BodyJSON [CHR ''{'', CHR 0x27, CHR 0x0A, CHR ''}'']\<rparr>)"
proof -
  obtain cmd where c: "renderCurl plain_url post_req DefaultSettings = Inr cmd"
    by (simp add: renderCurl_def post_req_def readBodyBytes_def)
  have h: "exportHeaders post_req = [(''Content-Type'', ''application/json''), (''Host'', ''v.example'')]"
    by (simp add: exportHeaders_def post_req_def header_pairs_def sortedHeaderKeys_def)
  have s: "to_upper (trim_space ''POST'') = ''POST''" by code_simp
  have ok: "list_all header_ok (exportHeaders post_req)" unfolding h by code_simp
  have b: "bodyFromData [CHR ''{'', CHR 0x27, CHR 0x0A, CHR ''}''] (fold note_type (exportHeaders post_req) []) =
      text_body BodyJSON [CHR ''{'', CHR 0x27, CHR 0x0A, CHR ''}'']" unfolding h by code_simp
  have "plain (hr_Method post_req)" "to_upper (trim_space (hr_Method post_req)) = hr_Method post_req"
    "readBodyBytes post_req = Inr [CHR ''{'', CHR 0x27, CHR 0x0A, CHR ''}'']"
    by (simp_all add: post_req_def plain_def is_blank_def readBodyBytes_def s)
  from curl_roundtrip [OF c this(3,1,2) refl _ _ ok, of "\<lambda>_. Inl ''no''"] c show ?thesis
    unfolding b unfolding h by (simp add: plain_url_def post_req_def curlName_def)
qed

text \<open>
  The method is the only part of the command that is not quoted: a quote in it, which the HTTP
  grammar allows, makes the exported command unreadable.
\<close>

theorem method_unquoted:
  "list_all token_char [CHR ''A'', CHR 0x27] \<and>
   (case renderCurl plain_url (post_req\<lparr>hr_Method := [CHR ''A'', CHR 0x27], hr_Body := None, hr_Header := [], hr_Host := []\<rparr>) DefaultSettings of
      Inr cmd \<Rightarrow> tokenizeShell cmd = Inl ''curl: unterminated quote in command''
    | Inl e \<Rightarrow> False)"
  by code_simp

end
