(* ===== verification/OAuth2.thy ===== *)
theory OAuth2
  imports Auth CookieJar
begin

text \<open>
  \<open>internal/auth/oauth2.go\<close> and \<open>oauth2_authcode.go\<close>: the token cache, the caching resolver with its two
  grants, the token endpoint and the browser flow. The clock, the random bytes, the token endpoint,
  the browser with the callbacks it causes, URL parsing and the decoder of a token response are the
  fields of \<open>oauth_env\<close>; what the resolver does with them is recorded in the state.
\<close>

section \<open>The token cache\<close>

record TokenEntry =
  te_AccessToken :: string
  te_RefreshToken :: string
  te_ExpiresAt :: int

text \<open>The map of a cache; \<open>None\<close> is the nil cache.\<close>

type_synonym token_cache = "(string \<rightharpoonup> TokenEntry) option"

definition NewTokenCache :: token_cache where
  "NewTokenCache = Some Map.empty"

definition cache_Get :: "string \<Rightarrow> token_cache \<Rightarrow> TokenEntry option" where
  "cache_Get k c = (case c of None \<Rightarrow> None | Some m \<Rightarrow> m k)"

definition cache_Set :: "string \<Rightarrow> TokenEntry \<Rightarrow> token_cache \<Rightarrow> token_cache" where
  "cache_Set k e c = map_option (\<lambda>m. m(k \<mapsto> e)) c"

definition cache_Clear :: "string \<Rightarrow> token_cache \<Rightarrow> token_cache" where
  "cache_Clear k c = map_option (\<lambda>m. m(k := None)) c"

definition cache_ClearAll :: "token_cache \<Rightarrow> token_cache" where
  "cache_ClearAll c = map_option (\<lambda>m. Map.empty) c"

definition cache_ClearNamespace :: "string \<Rightarrow> token_cache \<Rightarrow> token_cache" where
  "cache_ClearNamespace namespace c =
     map_option (\<lambda>m k. if has_prefix k (namespace @ ''|'') then None else m k) c"

definition CacheKey :: "string \<Rightarrow> oauth2_auth \<Rightarrow> string" where
  "CacheKey namespace a =
     join ''|'' [namespace, o2_Grant a, o2_TokenURL a, o2_AuthURL a, o2_ClientID a, o2_ClientSecret a,
       o2_RedirectURI a, o2_Scope a, o2_Audience a, if o2_UsePKCE a then ''1'' else ''0'']"

section \<open>The token endpoint\<close>

record tokenResponse =
  tr_AccessToken :: string
  tr_ExpiresIn :: string
  tr_RefreshToken :: string

text \<open>\<open>oe_flow n url\<close> are the queries of the callbacks after opening \<open>url\<close>, in the order of their arrival.\<close>

record oauth_env =
  oe_now :: "nat \<Rightarrow> int"
  oe_rand :: "nat \<Rightarrow> nat \<Rightarrow> string result"
  oe_sha256 :: "string \<Rightarrow> string"
  oe_badurl :: "string \<Rightarrow> string option"
  oe_post :: "nat \<Rightarrow> string \<Rightarrow> string \<Rightarrow> (int \<times> string \<times> string result) result"
  oe_decode :: "string \<Rightarrow> tokenResponse result"
  oe_parse :: "string \<Rightarrow> (string \<times> string \<times> string \<times> (string \<Rightarrow> string)) result"
  oe_listen :: "string \<Rightarrow> string result"
  oe_open :: "nat \<Rightarrow> string \<Rightarrow> string option"
  oe_flow :: "nat \<Rightarrow> string \<Rightarrow> (string \<times> string) list list"

record oauth_state =
  os_cache :: token_cache
  os_tick :: nat
  os_posts :: "(string \<times> (string \<times> string) list) list"
  os_tabs :: "string list"

definition now_at :: "oauth_env \<Rightarrow> oauth_state \<Rightarrow> int" where
  "now_at env s = oe_now env (os_tick s)"

definition os_step :: "oauth_state \<Rightarrow> oauth_state" where
  "os_step s = s\<lparr>os_tick := Suc (os_tick s)\<rparr>"

text \<open>\<open>url.Values\<close>: \<open>Set\<close> and \<open>Encode\<close>.\<close>

definition values_set :: "string \<Rightarrow> string \<Rightarrow> (string \<times> string) list \<Rightarrow> (string \<times> string) list" where
  "values_set k v q = filter (\<lambda>p. fst p \<noteq> k) q @ [(k, v)]"

definition values_encode :: "(string \<times> string) list \<Rightarrow> string" where
  "values_encode q = join ''&'' (map (\<lambda>(k, v). QueryEscape k @ ''='' @ QueryEscape v) (sort_key fst q))"

definition optional_pair :: "string \<Rightarrow> string \<Rightarrow> (string \<times> string) list" where
  "optional_pair k v = (if v \<noteq> [] then [(k, v)] else [])"

definition tokenEndpointError :: "string \<Rightarrow> string \<Rightarrow> string" where
  "tokenEndpointError grant status =
     ''oauth2 '' @ grant @ '': token endpoint returned '' @ status @ '' (response body withheld)''"

definition maxTokenResponseBytes :: nat where "maxTokenResponseBytes = 2 ^ 20"

text \<open>\<open>strconv.ParseInt\<close> of a lifetime in seconds; the duration and the instant wrap at 64 bits of nanoseconds.\<close>

definition parseTokenResponse :: "oauth_env \<Rightarrow> int \<Rightarrow> string \<Rightarrow> TokenEntry result" where
  "parseTokenResponse env now body =
     (case oe_decode env body of
        Inl e \<Rightarrow> Inl (''oauth2 client_credentials: decode response: '' @ e)
      | Inr tr \<Rightarrow>
         if tr_AccessToken tr = []
         then Inl (''oauth2 client_credentials: response missing access_token: '' @ trim_space body)
         else
           let expiresIn = (if tr_ExpiresIn tr \<noteq> []
                            then (case atoi (tr_ExpiresIn tr) of Some n \<Rightarrow> n | None \<Rightarrow> 3600) else 3600)
           in Inr \<lparr>te_AccessToken = tr_AccessToken tr, te_RefreshToken = tr_RefreshToken tr,
                   te_ExpiresAt = after_seconds now expiresIn\<rparr>)"

text \<open>
  One exchange with the token endpoint; \<open>labels\<close> are the three phrases with which the error messages
  of the three callers differ.
\<close>

definition post_token :: "oauth_env \<Rightarrow> string \<Rightarrow> string \<times> string \<times> string \<Rightarrow> string \<Rightarrow> (string \<times> string) list
    \<Rightarrow> oauth_state \<Rightarrow> TokenEntry result \<times> oauth_state" where
  "post_token env grant labels url form s =
     (let pre = ''oauth2 '' @ grant @ '': ''; (build, send, read) = labels in
      case oe_badurl env url of
        Some e \<Rightarrow> (Inl (pre @ build @ e), s)
      | None \<Rightarrow>
         (let s1 = (os_step s)\<lparr>os_posts := os_posts s @ [(url, form)]\<rparr> in
          (case oe_post env (os_tick s) url (values_encode form) of
             Inl e \<Rightarrow> (Inl (pre @ send @ e), s1)
           | Inr (code, status, Inl e) \<Rightarrow> (Inl (pre @ read @ e), s1)
           | Inr (code, status, Inr body) \<Rightarrow>
               if code < 200 \<or> 300 \<le> code then (Inl (tokenEndpointError grant status), s1)
               else (parseTokenResponse env (now_at env s1) (take maxTokenResponseBytes body), s1))))"

definition FetchClientCredentialsToken :: "oauth_env \<Rightarrow> oauth2_auth \<Rightarrow> oauth_state \<Rightarrow> TokenEntry result \<times> oauth_state" where
  "FetchClientCredentialsToken env a =
     post_token env ''client_credentials'' (''build request: '', [], ''read response: '') (o2_TokenURL a)
       ([(''grant_type'', ''client_credentials''), (''client_id'', o2_ClientID a)] @
        optional_pair ''client_secret'' (o2_ClientSecret a) @ optional_pair ''scope'' (o2_Scope a) @
        optional_pair ''audience'' (o2_Audience a))"

definition refreshToken :: "oauth_env \<Rightarrow> oauth2_auth \<Rightarrow> string \<Rightarrow> oauth_state \<Rightarrow> TokenEntry result \<times> oauth_state" where
  "refreshToken env a refresh =
     post_token env ''refresh_token'' (''build request: '', [], ''read response: '') (o2_TokenURL a)
       ([(''grant_type'', ''refresh_token''), (''refresh_token'', refresh)] @ optional_pair ''client_id'' (o2_ClientID a) @
        optional_pair ''client_secret'' (o2_ClientSecret a) @ optional_pair ''scope'' (o2_Scope a))"

definition exchangeAuthorizationCode :: "oauth_env \<Rightarrow> oauth2_auth \<Rightarrow> string \<Rightarrow> string \<Rightarrow> string \<Rightarrow> oauth_state
    \<Rightarrow> TokenEntry result \<times> oauth_state" where
  "exchangeAuthorizationCode env a code redirectURI codeVerifier =
     post_token env ''authorization_code'' (''build token request: '', ''token exchange: '', ''read token response: '') (o2_TokenURL a)
       ([(''grant_type'', ''authorization_code''), (''code'', code), (''redirect_uri'', redirectURI), (''client_id'', o2_ClientID a)] @
        optional_pair ''client_secret'' (o2_ClientSecret a) @ optional_pair ''code_verifier'' codeVerifier)"

section \<open>The client credentials grant\<close>

definition skew :: int where "skew = 30 * 10 ^ 9"

definition usable :: "int \<Rightarrow> TokenEntry \<Rightarrow> bool" where
  "usable now t \<longleftrightarrow> skew < te_ExpiresAt t - now"

definition cached :: "oauth_env \<Rightarrow> string \<Rightarrow> oauth_state \<Rightarrow> TokenEntry option" where
  "cached env ck s =
     (case cache_Get ck (os_cache s) of
        Some t \<Rightarrow> if usable (now_at env s) t then Some t else None
      | None \<Rightarrow> None)"

definition store_token :: "string \<Rightarrow> TokenEntry result \<times> oauth_state \<Rightarrow> string result \<times> oauth_state" where
  "store_token ck r =
     (case r of
        (Inl e, s) \<Rightarrow> (Inl e, s)
      | (Inr entry, s) \<Rightarrow> (Inr (te_AccessToken entry), s\<lparr>os_cache := cache_Set ck entry (os_cache s)\<rparr>))"

text \<open>Waiting for the ck's lock takes time, after which the cache is read again.\<close>

definition clientCredentialsToken :: "oauth_env \<Rightarrow> string \<Rightarrow> oauth2_auth \<Rightarrow> oauth_state \<Rightarrow> string result \<times> oauth_state" where
  "clientCredentialsToken env namespace a s =
     (if o2_TokenURL a = [] then (Inl ''oauth2 client_credentials: token URL is empty'', s)
      else if o2_ClientID a = [] then (Inl ''oauth2 client_credentials: client id is empty'', s)
      else let ck = CacheKey namespace a in
        case cached env ck s of
          Some t \<Rightarrow> (Inr (te_AccessToken t), s)
        | None \<Rightarrow>
           (let s1 = os_step s in
            case cached env ck s1 of
              Some t \<Rightarrow> (Inr (te_AccessToken t), s1)
            | None \<Rightarrow> store_token ck (FetchClientCredentialsToken env a s1)))"

section \<open>The authorization code grant\<close>

definition raw_url_base64 :: "string \<Rightarrow> string" where
  "raw_url_base64 b = filter (\<lambda>c. c \<noteq> CHR ''='')
     (map (\<lambda>c. if c = CHR ''+'' then CHR ''-'' else if c = CHR ''/'' then CHR ''_'' else c) (base64 b))"

definition randomURLToken :: "oauth_env \<Rightarrow> nat \<Rightarrow> oauth_state \<Rightarrow> string result \<times> oauth_state" where
  "randomURLToken env n s =
     (if n = 0 then (Inl ''randomURLToken: byteLen must be positive'', s)
      else (map_sum id raw_url_base64 (oe_rand env (os_tick s) n), os_step s))"

definition pickListenAddr :: "oauth_env \<Rightarrow> string \<Rightarrow> (string \<times> string) result" where
  "pickListenAddr env userSet =
     (if userSet = [] then Inr (''127.0.0.1:0'', [])
      else case oe_parse env userSet of
        Inl e \<Rightarrow> Inl (''invalid redirect URI '' @ quoted userSet @ '': '' @ e)
      | Inr (host, port, rawq, render) \<Rightarrow>
         if host \<noteq> ''localhost'' \<and> host \<noteq> ''127.0.0.1'' \<and> host \<noteq> ''::1''
         then Inl (''redirect URI host must be localhost / 127.0.0.1; got '' @ quoted host)
         else if port = [] then Inl (''redirect URI '' @ quoted userSet @ '' must include an explicit port'')
         else Inr (''127.0.0.1:'' @ port, userSet))"

definition buildAuthCodeURL :: "oauth_env \<Rightarrow> oauth2_auth \<Rightarrow> string \<Rightarrow> string \<Rightarrow> string \<Rightarrow> string" where
  "buildAuthCodeURL env a redirectURI state codeChallenge =
     (case oe_parse env (o2_AuthURL a) of
        Inl e \<Rightarrow> o2_AuthURL a
      | Inr (host, port, rawq, render) \<Rightarrow>
         let q1 = values_set ''redirect_uri'' redirectURI (values_set ''client_id'' (o2_ClientID a)
               (values_set ''response_type'' ''code'' (Query rawq)));
             q2 = (if o2_Scope a \<noteq> [] then values_set ''scope'' (o2_Scope a) q1 else q1);
             q3 = (if o2_Audience a \<noteq> [] then values_set ''audience'' (o2_Audience a) q2 else q2);
             q4 = values_set ''state'' state q3;
             q5 = (if codeChallenge \<noteq> []
                   then values_set ''code_challenge_method'' ''S256'' (values_set ''code_challenge'' codeChallenge q4) else q4)
         in render (values_encode q5))"

definition query_get :: "string \<Rightarrow> (string \<times> string) list \<Rightarrow> string" where
  "query_get k q = (case map_of q k of Some v \<Rightarrow> v | None \<Rightarrow> [])"

text \<open>The callback handler: the HTTP status of its page, and what it sends to the waiting flow.\<close>

definition callback :: "string \<Rightarrow> (string \<times> string) list \<Rightarrow> int \<times> string result" where
  "callback state q =
     (if query_get ''error'' q \<noteq> []
      then (400, Inl (''oauth2 authorization_code: '' @ query_get ''error'' q @ '': '' @ trim_space (query_get ''error_description'' q)))
      else if query_get ''state'' q \<noteq> state then (400, Inl ''oauth2 authorization_code: state mismatch'')
      else if query_get ''code'' q = [] then (400, Inl ''oauth2 authorization_code: callback missing code'')
      else (200, Inr (query_get ''code'' q)))"

text \<open>
  The flow takes the outcome of the first callback; without one it times out. (The two channels of the
  code are buffered: callbacks of both kinds that arrive before it waits are not ordered there.)
\<close>

definition await_code :: "string \<Rightarrow> (string \<times> string) list list \<Rightarrow> string result" where
  "await_code state qs =
     (case qs of
        [] \<Rightarrow> Inl ''oauth2 authorization_code: timed out waiting for callback: context deadline exceeded''
      | q # _ \<Rightarrow> snd (callback state q))"

text \<open>The interactive part, from the random state to the exchange of the code.\<close>

definition browser_flow :: "oauth_env \<Rightarrow> oauth2_auth \<Rightarrow> oauth_state \<Rightarrow> TokenEntry result \<times> oauth_state" where
  "browser_flow env a s0 =
     (case randomURLToken env 24 s0 of
        (Inl e, s1) \<Rightarrow> (Inl (''oauth2 authorization_code: generate state: '' @ e), s1)
      | (Inr state, s1) \<Rightarrow>
         (case (if o2_UsePKCE a then randomURLToken env 48 s1 else (Inr [], s1)) of
            (Inl e, s2) \<Rightarrow> (Inl (''oauth2 authorization_code: generate code_verifier: '' @ e), s2)
          | (Inr verifier, s2) \<Rightarrow>
             (let challenge = (if o2_UsePKCE a then raw_url_base64 (oe_sha256 env verifier) else []) in
              case pickListenAddr env (o2_RedirectURI a) of
                Inl e \<Rightarrow> (Inl (''oauth2 authorization_code: '' @ e), s2)
              | Inr (addr, redirect0) \<Rightarrow>
                 (case oe_listen env addr of
                    Inl e \<Rightarrow> (Inl (''oauth2 authorization_code: bind callback listener on '' @ addr @ '': '' @ e), s2)
                  | Inr bound \<Rightarrow>
                     (let redirect = (if redirect0 = [] then ''http://'' @ bound @ ''/callback'' else redirect0);
                          url = buildAuthCodeURL env a redirect state challenge;
                          s3 = (os_step s2)\<lparr>os_tabs := os_tabs s2 @ [url]\<rparr> in
                      case oe_open env (os_tick s2) url of
                        Some e \<Rightarrow> (Inl (''oauth2 authorization_code: open browser: '' @ e), s3)
                      | None \<Rightarrow>
                         (case await_code state (oe_flow env (os_tick s3) url) of
                            Inl e \<Rightarrow> (Inl e, s3)
                          | Inr code \<Rightarrow> exchangeAuthorizationCode env a code redirect verifier s3))))))"

definition authorizationCodeToken :: "oauth_env \<Rightarrow> bool \<Rightarrow> string \<Rightarrow> oauth2_auth \<Rightarrow> oauth_state \<Rightarrow> string result \<times> oauth_state" where
  "authorizationCodeToken env has_starter namespace a s =
     (if \<not> has_starter then (Inl ErrOAuth2NotImplemented, s)
      else if o2_AuthURL a = [] then (Inl ''oauth2 authorization_code: auth URL is empty'', s)
      else if o2_TokenURL a = [] then (Inl ''oauth2 authorization_code: token URL is empty'', s)
      else if o2_ClientID a = [] then (Inl ''oauth2 authorization_code: client id is empty'', s)
      else let ck = CacheKey namespace a in
        case cached env ck s of
          Some t \<Rightarrow> (Inr (te_AccessToken t), s)
        | None \<Rightarrow>
           (let s1 = os_step s in
            case cached env ck s1 of
              Some t \<Rightarrow> (Inr (te_AccessToken t), s1)
            | None \<Rightarrow>
               (case cache_Get ck (os_cache s1) of
                  None \<Rightarrow> store_token ck (browser_flow env a s1)
                | Some t \<Rightarrow>
                   if te_RefreshToken t = [] then store_token ck (browser_flow env a s1)
                   else case refreshToken env a (te_RefreshToken t) s1 of
                     (Inr entry, s2) \<Rightarrow>
                       if te_AccessToken entry \<noteq> []
                       then store_token ck (Inr (entry\<lparr>te_RefreshToken :=
                              (if te_RefreshToken entry = [] then te_RefreshToken t else te_RefreshToken entry)\<rparr>), s2)
                       else store_token ck (browser_flow env a s2)
                   | (Inl e, s2) \<Rightarrow> store_token ck (browser_flow env a s2))))"

definition OAuth2ClientCredentials :: string where "OAuth2ClientCredentials = ''client_credentials''"
definition OAuth2AuthorizationCode :: string where "OAuth2AuthorizationCode = ''authorization_code''"

definition resolver_Token :: "oauth_env \<Rightarrow> bool \<Rightarrow> string \<Rightarrow> oauth2_auth \<Rightarrow> oauth_state \<Rightarrow> string result \<times> oauth_state" where
  "resolver_Token env has_starter namespace a s =
     (if o2_Grant a = OAuth2ClientCredentials then clientCredentialsToken env namespace a s
      else if o2_Grant a = OAuth2AuthorizationCode then authorizationCodeToken env has_starter namespace a s
      else (Inl ErrOAuth2NotImplemented, s))"

section \<open>What the resolver guarantees\<close>

lemma os_step_simps [simp]:
  "os_cache (os_step s) = os_cache s" "os_posts (os_step s) = os_posts s" "os_tabs (os_step s) = os_tabs s"
  by (simp_all add: os_step_def)

lemma post_token_cache [simp]: "post_token env g l u f s = (r, s1) \<Longrightarrow> os_cache s1 = os_cache s \<and> os_tabs s1 = os_tabs s"
  by (auto simp: post_token_def Let_def os_step_def split: option.splits sum.splits prod.splits if_splits)

lemma parse_token_some: "parseTokenResponse env now body = Inr e \<Longrightarrow> te_AccessToken e \<noteq> []"
  by (auto simp: parseTokenResponse_def Let_def split: sum.splits if_splits)

lemma post_token_form:
  assumes "post_token env g l u f s = (Inr e, s1)"
  shows "os_posts s1 = os_posts s @ [(u, f)] \<and> te_AccessToken e \<noteq> []"
proof -
  obtain b d r where l: "l = (b, d, r)" by (metis prod_cases3)
  have u: "oe_badurl env u = None" using assms by (cases "oe_badurl env u") (simp_all add: post_token_def Let_def l)
  obtain code status x where p: "oe_post env (os_tick s) u (values_encode f) = Inr (code, status, x)"
    using assms u by (cases "oe_post env (os_tick s) u (values_encode f)") (auto simp: post_token_def Let_def l)
  obtain body where x: "x = Inr body" using assms u p by (cases x) (simp_all add: post_token_def Let_def l)
  have c: "\<not> (code < 200 \<or> 300 \<le> code)" using assms u p x by (auto simp: post_token_def Let_def l)
  with assms u p x show ?thesis by (auto simp: post_token_def Let_def l dest: parse_token_some)
qed

lemma randomURLToken_frame: "randomURLToken env n s = (r, s1) \<Longrightarrow> os_cache s1 = os_cache s \<and> os_posts s1 = os_posts s \<and> os_tabs s1 = os_tabs s"
  by (auto simp: randomURLToken_def split: if_splits)

text \<open>
  The callback that let the flow go on, and what was exchanged for the token: the state is random
  and was in the opened URL, the code came with it, and the exchange sends the verifier whose hash
  was in the URL.
\<close>

definition authorized :: "oauth_env \<Rightarrow> oauth2_auth \<Rightarrow> oauth_state \<Rightarrow> oauth_state \<Rightarrow> bool" where
  "authorized env a s s1 \<longleftrightarrow>
     (\<exists>rnd verifier redirect q qs form m n.
        oe_rand env m 24 = Inr rnd \<and>
        os_tabs s1 = os_tabs s @ [buildAuthCodeURL env a redirect (raw_url_base64 rnd)
          (if o2_UsePKCE a then raw_url_base64 (oe_sha256 env verifier) else [])] \<and>
        oe_flow env n (last (os_tabs s1)) = q # qs \<and>
        query_get ''error'' q = [] \<and> query_get ''state'' q = raw_url_base64 rnd \<and> query_get ''code'' q \<noteq> [] \<and>
        last (os_posts s1) = (o2_TokenURL a, form) \<and>
        map_of form ''code'' = Some (query_get ''code'' q) \<and> map_of form ''redirect_uri'' = Some redirect \<and>
        map_of form ''code_verifier'' = (if verifier \<noteq> [] then Some verifier else None))"

lemma randomURLToken_Inr:
  "randomURLToken env n s = (Inr x, s1) \<Longrightarrow> n \<noteq> 0 \<and> (\<exists>rnd. oe_rand env (os_tick s) n = Inr rnd \<and> x = raw_url_base64 rnd) \<and> s1 = os_step s"
  by (cases "oe_rand env (os_tick s) n") (auto simp: randomURLToken_def split: if_splits)

lemma await_code_Inr:
  assumes "await_code state qs = Inr code"
  obtains q qs' where "qs = q # qs'" "query_get ''error'' q = []" "query_get ''state'' q = state" "query_get ''code'' q = code" "code \<noteq> []"
  using assms by (cases qs) (auto simp: await_code_def callback_def split: if_splits)

lemma exchange_Inr:
  assumes "exchangeAuthorizationCode env a code redirect verifier s = (Inr e, s1)"
  shows "os_cache s1 = os_cache s \<and> os_tabs s1 = os_tabs s \<and> te_AccessToken e \<noteq> [] \<and>
    (\<exists>form. last (os_posts s1) = (o2_TokenURL a, form) \<and> map_of form ''code'' = Some code \<and>
      map_of form ''redirect_uri'' = Some redirect \<and> map_of form ''code_verifier'' = (if verifier \<noteq> [] then Some verifier else None))"
  using assms post_token_cache post_token_form unfolding exchangeAuthorizationCode_def by (fastforce simp: optional_pair_def)

lemma browser_flow_Inr:
  assumes "browser_flow env a s = (Inr e, s1)"
  shows "authorized env a s s1 \<and> os_cache s1 = os_cache s \<and> te_AccessToken e \<noteq> []"
proof -
  obtain state sa where a: "randomURLToken env 24 s = (Inr state, sa)"
    using assms by (auto simp: browser_flow_def split: prod.splits sum.splits)
  obtain verifier sb where b: "(if o2_UsePKCE a then randomURLToken env 48 sa else (Inr [], sa)) = (Inr verifier, sb)"
    using assms a by (auto simp: browser_flow_def split: prod.splits sum.splits)
  let ?ch = "if o2_UsePKCE a then raw_url_base64 (oe_sha256 env verifier) else []"
  obtain addr redirect0 bound where c: "pickListenAddr env (o2_RedirectURI a) = Inr (addr, redirect0)" "oe_listen env addr = Inr bound"
    using assms a b by (auto simp: browser_flow_def Let_def split: prod.splits sum.splits)
  define redirect where "redirect = (if redirect0 = [] then ''http://'' @ bound @ ''/callback'' else redirect0)"
  define url where "url = buildAuthCodeURL env a redirect state ?ch"
  define sc where "sc = (os_step sb)\<lparr>os_tabs := os_tabs sb @ [url]\<rparr>"
  have "browser_flow env a s = (case oe_open env (os_tick sb) url of
      Some m \<Rightarrow> (Inl (''oauth2 authorization_code: open browser: '' @ m), sc)
    | None \<Rightarrow> (case await_code state (oe_flow env (os_tick sc) url) of
        Inl m \<Rightarrow> (Inl m, sc) | Inr code \<Rightarrow> exchangeAuthorizationCode env a code redirect verifier sc))"
    by (simp only: browser_flow_def Let_def a b c sc_def url_def redirect_def prod.case sum.case)
  with assms have w: "(case await_code state (oe_flow env (os_tick sc) url) of
      Inl m \<Rightarrow> (Inl m, sc) | Inr code \<Rightarrow> exchangeAuthorizationCode env a code redirect verifier sc) = (Inr e, s1)"
    by (cases "oe_open env (os_tick sb) url") simp_all
  obtain code where d: "await_code state (oe_flow env (os_tick sc) url) = Inr code"
    using w by (auto split: sum.splits)
  with w have x: "exchangeAuthorizationCode env a code redirect verifier sc = (Inr e, s1)" by simp
  obtain q qs where q: "oe_flow env (os_tick sc) url = q # qs" "query_get ''error'' q = []" "query_get ''state'' q = state"
    "query_get ''code'' q = code" "code \<noteq> []" by (rule await_code_Inr [OF d])
  obtain rnd where rnd: "oe_rand env (os_tick s) 24 = Inr rnd" "state = raw_url_base64 rnd" and sa: "sa = os_step s"
    using randomURLToken_Inr [OF a] by blast
  have "os_tabs sb = os_tabs s \<and> os_cache sb = os_cache s" using b sa by (auto dest: randomURLToken_Inr split: if_splits)
  then have sc: "os_tabs sc = os_tabs s @ [url]" "os_cache sc = os_cache s" by (simp_all add: sc_def)
  from exchange_Inr [OF x] obtain form where f: "last (os_posts s1) = (o2_TokenURL a, form)" "map_of form ''code'' = Some code"
    "map_of form ''redirect_uri'' = Some redirect" "map_of form ''code_verifier'' = (if verifier \<noteq> [] then Some verifier else None)"
    and t: "os_tabs s1 = os_tabs s @ [url]" "os_cache s1 = os_cache s" "te_AccessToken e \<noteq> []" using sc by auto
  have "authorized env a s s1" unfolding authorized_def
    by (rule exI [of _ rnd], rule exI [of _ verifier], rule exI [of _ redirect], rule exI [of _ q], rule exI [of _ qs],
        rule exI [of _ form], rule exI [of _ "os_tick s"], rule exI [of _ "os_tick sc"])
      (use q rnd f t in \<open>simp add: url_def\<close>)
  with t show ?thesis by simp
qed

lemma exchange_cache [simp]: "os_cache (snd (exchangeAuthorizationCode env a code redirect verifier s)) = os_cache s"
  using post_token_cache unfolding exchangeAuthorizationCode_def by (metis prod.collapse)

lemma browser_flow_cache: "os_cache (snd (browser_flow env a s)) = os_cache s"
proof -
  obtain r1 s1 where a: "randomURLToken env 24 s = (r1, s1)" by force
  then have c1: "os_cache s1 = os_cache s" by (simp add: randomURLToken_frame)
  show ?thesis
  proof (cases r1)
    case (Inl e)
    then show ?thesis using a c1 by (simp add: browser_flow_def)
  next
    case r1: (Inr state)
    obtain r2 s2 where b: "(if o2_UsePKCE a then randomURLToken env 48 s1 else (Inr [], s1)) = (r2, s2)" by force
    then have c2: "os_cache s2 = os_cache s" using c1 by (auto dest: randomURLToken_frame split: if_splits)
    show ?thesis
    proof (cases r2)
      case (Inl e)
      show ?thesis unfolding browser_flow_def a b r1 Inl prod.case sum.case snd_conv by (rule c2)
    next
      case r2: (Inr verifier)
      show ?thesis
        unfolding browser_flow_def a b r1 r2 prod.case sum.case Let_def
        using c2 by (simp split del: if_split split: sum.split prod.split option.split)
    qed
  qed
qed

text \<open>The outcomes of the resolver: from the cache, by refreshing, or through the browser.\<close>

definition from_cache :: "oauth_env \<Rightarrow> string \<Rightarrow> oauth_state \<Rightarrow> string \<Rightarrow> oauth_state \<Rightarrow> bool" where
  "from_cache env k s token s1 \<longleftrightarrow>
     (\<exists>t n. cache_Get k (os_cache s) = Some t \<and> te_AccessToken t = token \<and> skew < te_ExpiresAt t - oe_now env n \<and>
        os_posts s1 = os_posts s \<and> os_tabs s1 = os_tabs s \<and> os_cache s1 = os_cache s)"

definition by_refresh :: "oauth2_auth \<Rightarrow> string \<Rightarrow> oauth_state \<Rightarrow> string \<Rightarrow> oauth_state \<Rightarrow> bool" where
  "by_refresh a k s token s1 \<longleftrightarrow>
     (\<exists>t form e. cache_Get k (os_cache s) = Some t \<and> os_tabs s1 = os_tabs s \<and> os_posts s1 = os_posts s @ [(o2_TokenURL a, form)] \<and>
        map_of form ''refresh_token'' = Some (te_RefreshToken t) \<and> te_RefreshToken e \<noteq> [] \<and>
        te_AccessToken e = token \<and> os_cache s1 = cache_Set k e (os_cache s))"

definition by_browser :: "oauth_env \<Rightarrow> oauth2_auth \<Rightarrow> string \<Rightarrow> oauth_state \<Rightarrow> string \<Rightarrow> oauth_state \<Rightarrow> bool" where
  "by_browser env a k s token s1 \<longleftrightarrow>
     (\<exists>e s2. authorized env a s2 s1 \<and> os_tabs s2 = os_tabs s \<and> te_AccessToken e = token \<and> os_cache s1 = cache_Set k e (os_cache s))"

definition outcome :: "oauth_env \<Rightarrow> oauth2_auth \<Rightarrow> string \<Rightarrow> oauth_state \<Rightarrow> string result \<times> oauth_state \<Rightarrow> bool" where
  "outcome env a k s rs =
     (case rs of
        (Inl e, s1) \<Rightarrow> os_cache s1 = os_cache s
      | (Inr token, s1) \<Rightarrow> from_cache env k s token s1 \<or> by_refresh a k s token s1 \<or> by_browser env a k s token s1)"

lemma cached_outcome:
  assumes "cached env k s2 = Some t" "os_cache s2 = os_cache s" "os_posts s2 = os_posts s" "os_tabs s2 = os_tabs s"
  shows "outcome env a k s (Inr (te_AccessToken t), s2)"
proof -
  have "cache_Get k (os_cache s) = Some t \<and> skew < te_ExpiresAt t - oe_now env (os_tick s2)"
    using assms(1,2) by (auto simp: cached_def usable_def now_at_def split: option.splits if_splits)
  with assms show ?thesis by (auto simp: outcome_def from_cache_def)
qed

lemma browser_outcome:
  assumes "os_cache s2 = os_cache s" "os_tabs s2 = os_tabs s"
  shows "outcome env a k s (store_token k (browser_flow env a s2))"
proof (cases "browser_flow env a s2")
  case (Pair r s1)
  show ?thesis
  proof (cases r)
    case (Inl e)
    with Pair assms browser_flow_cache [of env a s2] show ?thesis by (simp add: outcome_def store_token_def)
  next
    case (Inr e)
    with Pair have b: "browser_flow env a s2 = (Inr e, s1)" by simp
    from browser_flow_Inr [OF b] assms
    have "authorized env a s2 (s1\<lparr>os_cache := cache_Set k e (os_cache s1)\<rparr>)" "os_cache s1 = os_cache s"
      by (simp_all add: authorized_def)
    with b assms show ?thesis by (auto simp: outcome_def store_token_def by_browser_def)
  qed
qed

lemma refresh_outcome:
  assumes "refreshToken env a (te_RefreshToken t) s2 = (Inr e, s3)" "os_cache s2 = os_cache s" "os_posts s2 = os_posts s"
    "os_tabs s2 = os_tabs s" "cache_Get k (os_cache s) = Some t" "te_RefreshToken t \<noteq> []"
  shows "outcome env a k s (store_token k (Inr (e\<lparr>te_RefreshToken :=
    (if te_RefreshToken e = [] then te_RefreshToken t else te_RefreshToken e)\<rparr>), s3))"
proof -
  let ?e = "e\<lparr>te_RefreshToken := (if te_RefreshToken e = [] then te_RefreshToken t else te_RefreshToken e)\<rparr>"
  obtain form where "os_posts s3 = os_posts s @ [(o2_TokenURL a, form)]" "map_of form ''refresh_token'' = Some (te_RefreshToken t)"
    "os_cache s3 = os_cache s" "os_tabs s3 = os_tabs s"
    using post_token_form [OF assms(1) [unfolded refreshToken_def]] post_token_cache [OF assms(1) [unfolded refreshToken_def]] assms(2-4)
    by (auto simp: optional_pair_def)
  with assms(5,6) have "by_refresh a k s (te_AccessToken e) (s3\<lparr>os_cache := cache_Set k ?e (os_cache s3)\<rparr>)"
    unfolding by_refresh_def by (intro exI [of _ t] exI [of _ form] exI [of _ ?e]) auto
  then show ?thesis by (simp add: outcome_def store_token_def)
qed

lemma authorization_code_outcome: "outcome env a (CacheKey namespace a) s (authorizationCodeToken env starter namespace a s)"
proof -
  let ?k = "CacheKey namespace a" and ?s = "os_step s"
  have err: "outcome env a ?k s (Inl m, s)" for m by (simp add: outcome_def)
  show ?thesis
  proof (cases "cached env ?k s")
    case (Some t)
    then show ?thesis using cached_outcome [OF Some refl refl refl, of a] err by (simp add: authorizationCodeToken_def Let_def)
  next
    case none: None
    show ?thesis
    proof (cases "cached env ?k ?s")
      case (Some t)
      then show ?thesis using cached_outcome [OF Some, of s a] none err by (simp add: authorizationCodeToken_def Let_def)
    next
      case None
      have flow: "outcome env a ?k s (store_token ?k (browser_flow env a ?s))" by (rule browser_outcome) simp_all
      show ?thesis
      proof (cases "cache_Get ?k (os_cache s)")
        case no_entry: None
        then show ?thesis using none None err flow by (simp add: authorizationCodeToken_def Let_def)
      next
        case (Some t)
        obtain r s2 where r: "refreshToken env a (te_RefreshToken t) ?s = (r, s2)" by force
        have "os_cache s2 = os_cache s" "os_tabs s2 = os_tabs s" using post_token_cache [OF r [unfolded refreshToken_def]] by simp_all
        then have flow2: "outcome env a ?k s (store_token ?k (browser_flow env a s2))" by (rule browser_outcome)
        show ?thesis
        proof (cases r)
          case (Inl m)
          then show ?thesis using none None Some err flow flow2 r by (simp add: authorizationCodeToken_def Let_def)
        next
          case (Inr e)
          show ?thesis
            using none None Some err flow flow2 r Inr refresh_outcome [OF r [unfolded Inr] _ _ _ Some]
            by (simp add: authorizationCodeToken_def Let_def)
        qed
      qed
    qed
  qed
qed

text \<open>
  C25 A token that the resolver returns was in the cache and still valid for longer than the safety
  margin, without any request; or it was traded for the refresh token of the cached entry, without
  opening a browser; or a browser tab was opened and its code exchanged, and then the code arrived
  in a callback that carried the random state of that very URL, and the exchange proves with the
  verifier who asked for it. The token is in the cache afterwards.
\<close>

theorem authorization_code_token:
  "let (r, s1) = authorizationCodeToken env starter namespace a s; k = CacheKey namespace a in
   case r of
     Inl e \<Rightarrow> os_cache s1 = os_cache s
   | Inr token \<Rightarrow> from_cache env k s token s1 \<or> by_refresh a k s token s1 \<or> by_browser env a k s token s1"
  using authorization_code_outcome [of env a namespace s starter] by (simp add: outcome_def Let_def case_prod_unfold)

section \<open>Anomalies\<close>

definition sample_config :: "string \<Rightarrow> string \<Rightarrow> oauth2_auth" where
  "sample_config secret redirect =
     \<lparr>o2_Grant = OAuth2ClientCredentials, o2_TokenURL = ''http://idp/token'', o2_AuthURL = [], o2_ClientID = ''app'',
      o2_ClientSecret = secret, o2_Scope = [], o2_RedirectURI = redirect, o2_UsePKCE = False, o2_Audience = []\<rparr>"

lemma colliding_keys: "CacheKey ns (sample_config ''p|q'' []) = CacheKey ns (sample_config ''p'' ''q|'')"
  by (simp add: CacheKey_def sample_config_def)

lemma client_credentials_cached:
  assumes "clientCredentialsToken env ns a s = (Inr token, s1)" "os_cache s \<noteq> None"
  shows "\<exists>t. cache_Get (CacheKey ns a) (os_cache s1) = Some t \<and> te_AccessToken t = token"
proof (cases "cached env (CacheKey ns a) s")
  case (Some t)
  with assms show ?thesis by (auto simp: clientCredentialsToken_def Let_def cached_def split: if_splits option.splits)
next
  case none: None
  show ?thesis
  proof (cases "cached env (CacheKey ns a) (os_step s)")
    case (Some t)
    with none assms show ?thesis by (auto simp: clientCredentialsToken_def Let_def cached_def split: if_splits option.splits)
  next
    case None
    obtain r s2 where f: "FetchClientCredentialsToken env a (os_step s) = (r, s2)" by force
    then have "os_cache s2 = os_cache s" using post_token_cache unfolding FetchClientCredentialsToken_def by fastforce
    with none None f assms show ?thesis
      by (cases r) (auto simp: clientCredentialsToken_def Let_def store_token_def cache_Set_def cache_Get_def split: if_splits)
  qed
qed

text \<open>
  C39 The key of a cached token is meant to tell apart every configuration that gets another token. Its
  fields are joined with a bar and not escaped, so two configurations with different client secrets
  can have one key: the second is then given the token of the first, and its secret is never sent.
\<close>

theorem token_of_other_config:
  assumes "clientCredentialsToken env ns (sample_config ''p|q'' []) s = (Inr token, s1)" and "os_cache s \<noteq> None"
    and "\<forall>t n. cache_Get (CacheKey ns (sample_config ''p|q'' [])) (os_cache s1) = Some t \<longrightarrow> usable (oe_now env n) t"
  shows "o2_ClientSecret (sample_config ''p|q'' []) \<noteq> o2_ClientSecret (sample_config ''p'' ''q|'') \<and>
    clientCredentialsToken env ns (sample_config ''p'' ''q|'') s1 = (Inr token, s1)"
proof -
  let ?a = "sample_config ''p|q'' []" and ?b = "sample_config ''p'' ''q|''"
  have f: "o2_TokenURL ?b \<noteq> []" "o2_ClientID ?b \<noteq> []" "o2_TokenURL ?a \<noteq> []" "o2_ClientID ?a \<noteq> []" by (simp_all add: sample_config_def)
  obtain t where t: "cache_Get (CacheKey ns ?a) (os_cache s1) = Some t" "te_AccessToken t = token"
    using client_credentials_cached [OF assms(1,2)] by blast
  then have "cached env (CacheKey ns ?b) s1 = Some t" using assms(3) colliding_keys [of ns] by (simp add: cached_def now_at_def)
  then show ?thesis using t f by (simp add: clientCredentialsToken_def Let_def sample_config_def)
qed

definition idp_env :: oauth_env where
  "idp_env =
     \<lparr>oe_now = \<lambda>_. 0, oe_rand = \<lambda>_ _. Inl ''none'', oe_sha256 = id, oe_badurl = \<lambda>_. None,
      oe_post = \<lambda>_ _ _. Inr (200, ''200 OK'', Inr ''body''),
      oe_decode = \<lambda>_. Inr \<lparr>tr_AccessToken = ''t'', tr_ExpiresIn = ''3600'', tr_RefreshToken = []\<rparr>,
      oe_parse = \<lambda>_. Inl ''none'', oe_listen = Inr, oe_open = \<lambda>_ _. None, oe_flow = \<lambda>_ _. []\<rparr>"

definition oauth_zero :: oauth_state where
  "oauth_zero = \<lparr>os_cache = NewTokenCache, os_tick = 0, os_posts = [], os_tabs = []\<rparr>"

theorem token_of_other_config_witness:
  "\<exists>s1. clientCredentialsToken idp_env ''c'' (sample_config ''p|q'' []) oauth_zero = (Inr ''t'', s1) \<and>
    clientCredentialsToken idp_env ''c'' (sample_config ''p'' ''q|'') s1 = (Inr ''t'', s1)"
proof -
  let ?k = "CacheKey ''c'' (sample_config ''p|q'' [])"
  let ?e = "\<lparr>te_AccessToken = ''t'', te_RefreshToken = [], te_ExpiresAt = 3600 * 10 ^ 9\<rparr>"
  have at: "atoi ''3600'' = Some 3600" by code_simp
  have "FetchClientCredentialsToken idp_env (sample_config ''p|q'' []) (os_step oauth_zero) =
      (Inr ?e, snd (FetchClientCredentialsToken idp_env (sample_config ''p|q'' []) (os_step oauth_zero)))"
    by (simp add: FetchClientCredentialsToken_def post_token_def idp_env_def parseTokenResponse_def Let_def now_at_def
        after_seconds_exact at)
  then obtain s2 where f: "FetchClientCredentialsToken idp_env (sample_config ''p|q'' []) (os_step oauth_zero) = (Inr ?e, s2)" by blast
  then have c: "os_cache s2 = Some Map.empty"
    using post_token_cache unfolding FetchClientCredentialsToken_def by (fastforce simp: oauth_zero_def NewTokenCache_def)
  obtain s1 where r: "clientCredentialsToken idp_env ''c'' (sample_config ''p|q'' []) oauth_zero = (Inr ''t'', s1)"
    "os_cache s1 = Some (Map.empty(?k \<mapsto> ?e))"
    using f c by (simp add: clientCredentialsToken_def sample_config_def [of "''p|q''" "[]"] cached_def cache_Get_def cache_Set_def oauth_zero_def
        NewTokenCache_def store_token_def Let_def)
  have "\<forall>t n. cache_Get ?k (os_cache s1) = Some t \<longrightarrow> usable (oe_now idp_env n) t"
    by (simp add: r(2) cache_Get_def usable_def skew_def idp_env_def)
  from token_of_other_config [OF r(1) _ this] r show ?thesis by (simp add: oauth_zero_def NewTokenCache_def)
qed

text \<open>
  A redirect address on the IPv6 loopback is accepted, but the listener is bound to the IPv4 one:
  the browser's callback goes where nothing listens, and the flow waits until it times out.
\<close>

theorem ipv6_redirect_unreachable:
  "pickListenAddr (env\<lparr>oe_parse := \<lambda>_. Inr (''::1'', p # ps, rawq, render)\<rparr>) (c # u) = Inr (''127.0.0.1:'' @ p # ps, c # u)"
  by (simp add: pickListenAddr_def)

end
