(* ===== verification/OAuth2Flight.thy ===== *)
theory OAuth2Flight
  imports OAuth2
begin

text \<open>
  Concurrent sends that need the same token: the steps of \<open>clientCredentialsToken\<close> of any number of
  clients, interleaved. A client looks the token up, waits for the lock of its key, looks it up again
  and fetches it, holding the lock; the clock stands still.
\<close>

datatype pc = Idle | Waiting | Holding | Fetching | Finished "string result"

record flight =
  fl_cache :: "string \<rightharpoonup> TokenEntry"
  fl_lock :: "nat option"
  fl_pc :: "nat \<Rightarrow> pc"
  fl_fetches :: nat

definition at :: "nat \<Rightarrow> pc \<Rightarrow> flight \<Rightarrow> flight" where
  "at i p s = s\<lparr>fl_pc := (fl_pc s)(i := p)\<rparr>"

definition hit :: "int \<Rightarrow> string \<Rightarrow> flight \<Rightarrow> string option" where
  "hit now k s = (case fl_cache s k of Some t \<Rightarrow> if usable now t then Some (te_AccessToken t) else None | None \<Rightarrow> None)"

text \<open>\<open>reply\<close> are the entries the token endpoint may answer with.\<close>

inductive client_step :: "(TokenEntry \<Rightarrow> bool) \<Rightarrow> int \<Rightarrow> string \<Rightarrow> flight \<Rightarrow> flight \<Rightarrow> bool" for reply now k where
  quick_hit: "fl_pc s i = Idle \<Longrightarrow> hit now k s = Some token \<Longrightarrow> client_step reply now k s (at i (Finished (Inr token)) s)"
| quick_miss: "fl_pc s i = Idle \<Longrightarrow> hit now k s = None \<Longrightarrow> client_step reply now k s (at i Waiting s)"
| lock: "fl_pc s i = Waiting \<Longrightarrow> fl_lock s = None \<Longrightarrow> client_step reply now k s (at i Holding (s\<lparr>fl_lock := Some i\<rparr>))"
| late_hit: "fl_pc s i = Holding \<Longrightarrow> hit now k s = Some token \<Longrightarrow>
    client_step reply now k s (at i (Finished (Inr token)) (s\<lparr>fl_lock := None\<rparr>))"
| late_miss: "fl_pc s i = Holding \<Longrightarrow> hit now k s = None \<Longrightarrow> client_step reply now k s (at i Fetching s)"
| stored: "fl_pc s i = Fetching \<Longrightarrow> reply e \<Longrightarrow>
    client_step reply now k s (at i (Finished (Inr (te_AccessToken e)))
      (s\<lparr>fl_cache := (fl_cache s)(k \<mapsto> e), fl_lock := None, fl_fetches := Suc (fl_fetches s)\<rparr>))"
| failed: "fl_pc s i = Fetching \<Longrightarrow> client_step reply now k s (at i (Finished (Inl m)) (s\<lparr>fl_lock := None\<rparr>))"

definition flight_start :: "flight \<Rightarrow> bool" where
  "flight_start s \<longleftrightarrow> fl_lock s = None \<and> (\<forall>i. fl_pc s i = Idle) \<and> fl_fetches s = 0"

text \<open>The holder of the lock is the client between its second look and the end; one that fetches has seen no token.\<close>

fun critical :: "pc \<Rightarrow> bool" where
  "critical Holding = True"
| "critical Fetching = True"
| "critical _ = False"

definition flight_ok :: "int \<Rightarrow> string \<Rightarrow> flight \<Rightarrow> bool" where
  "flight_ok now k s \<longleftrightarrow>
     (\<forall>i. critical (fl_pc s i) \<longleftrightarrow> fl_lock s = Some i) \<and>
     (\<forall>i. fl_pc s i = Fetching \<longrightarrow> hit now k s = None) \<and>
     (\<forall>i token. fl_pc s i = Finished (Inr token) \<longrightarrow> hit now k s = Some token) \<and>
     fl_fetches s \<le> (case hit now k s of None \<Rightarrow> 0 | Some _ \<Rightarrow> 1)"

lemma flight_okD:
  assumes "flight_ok now k s"
  shows "critical (fl_pc s i) \<longleftrightarrow> fl_lock s = Some i" "fl_pc s i = Fetching \<Longrightarrow> hit now k s = None"
    "fl_pc s i = Finished (Inr token) \<Longrightarrow> hit now k s = Some token" "fl_fetches s \<le> (case hit now k s of None \<Rightarrow> 0 | Some _ \<Rightarrow> 1)"
  using assms by (auto simp: flight_ok_def)

lemma hit_simps [simp]:
  "hit now k (at i p s) = hit now k s" "hit now k (s\<lparr>fl_lock := l\<rparr>) = hit now k s"
  "fl_pc (at i p s) = (fl_pc s)(i := p)" "fl_lock (at i p s) = fl_lock s" "fl_fetches (at i p s) = fl_fetches s"
  by (simp_all add: hit_def at_def)

text \<open>A step of one client, given what it does to the lock.\<close>

lemma flight_ok_move:
  assumes "flight_ok now k s" "critical p \<longleftrightarrow> l = Some i" "\<And>j. j \<noteq> i \<Longrightarrow> l = Some j \<longleftrightarrow> fl_lock s = Some j"
    "p = Fetching \<Longrightarrow> hit now k s = None" "\<And>token. p = Finished (Inr token) \<Longrightarrow> hit now k s = Some token"
  shows "flight_ok now k (at i p (s\<lparr>fl_lock := l\<rparr>))"
  using assms(2-) flight_okD [OF assms(1)] unfolding flight_ok_def by (auto simp: at_def hit_def)

lemma flight_ok_at:
  assumes "flight_ok now k s" "critical p \<longleftrightarrow> critical (fl_pc s i)"
    "p = Fetching \<Longrightarrow> hit now k s = None" "\<And>token. p = Finished (Inr token) \<Longrightarrow> hit now k s = Some token"
  shows "flight_ok now k (at i p s)"
  using flight_ok_move [of now k s p "fl_lock s" i] flight_okD(1) [OF assms(1), of i] assms by simp

lemma flight_ok_release:
  assumes "flight_ok now k s" "critical (fl_pc s i)" "\<And>token. r = Inr token \<Longrightarrow> hit now k s = Some token"
  shows "flight_ok now k (at i (Finished r) (s\<lparr>fl_lock := None\<rparr>))"
  using flight_ok_move [of now k s "Finished r" None i] flight_okD(1) [OF assms(1), of i] assms by simp

lemma flight_step_ok:
  assumes "client_step reply now k s s1" "flight_ok now k s" "\<forall>e. reply e \<longrightarrow> usable now e"
  shows "flight_ok now k s1"
  using assms
proof (induction rule: client_step.induct)
  case (stored s i e)
  note ok = flight_okD [OF stored.prems(1)]
  have u: "usable now e" using stored.hyps(2) stored.prems(2) by blast
  have "fl_fetches s = 0" "fl_lock s = Some i" using ok(4) ok(2) [OF stored.hyps(1)] ok(1) [of i] stored.hyps(1) by simp_all
  moreover have "fl_pc s j \<noteq> Finished (Inr token)" for j token using ok(2) [OF stored.hyps(1)] ok(3) by fastforce
  moreover have "critical (fl_pc s j) \<longleftrightarrow> i = j" for j using ok(1) [of j] ok(1) [of i] stored.hyps(1) by auto
  moreover from this have "j \<noteq> i \<Longrightarrow> fl_pc s j \<noteq> Fetching" for j by (metis critical.simps(2))
  ultimately show ?case using u by (simp add: flight_ok_def hit_def at_def)
next
  case (lock s i)
  then show ?case by (intro flight_ok_move) auto
qed (auto intro: flight_ok_release flight_ok_at)


definition flight_zero :: flight where
  "flight_zero = \<lparr>fl_cache = Map.empty, fl_lock = None, fl_pc = \<lambda>_. Idle, fl_fetches = 0\<rparr>"

definition long_lived :: TokenEntry where
  "long_lived = \<lparr>te_AccessToken = ''t'', te_RefreshToken = [], te_ExpiresAt = 10 ^ 12\<rparr>"


end
