(* ===== verification/NTLM.thy ===== *)
theory NTLM
  imports GoJson ApiModel "HOL-Library.Word"
begin

unbundle bit_operations_syntax

text \<open>
  \<open>internal/auth/ntlm.go\<close>: MD4, the NTLMv2 responses and the three messages of the handshake, on
  bytes as 8-bit words. HMAC-MD5, base64 decoding, the random challenge and the clock are
  parameters.
\<close>

type_synonym bytes = "8 word list"

section \<open>Little-endian fields\<close>

fun le_bytes :: "nat \<Rightarrow> nat \<Rightarrow> bytes" where
  "le_bytes 0 n = []"
| "le_bytes (Suc k) n = word_of_nat n # le_bytes k (n div 256)"

definition le_val :: "bytes \<Rightarrow> nat" where
  "le_val bs = foldr (\<lambda>b acc. unat b + 256 * acc) bs 0"

text \<open>The field of \<open>k\<close> bytes at an offset.\<close>

definition le_at :: "nat \<Rightarrow> nat \<Rightarrow> bytes \<Rightarrow> nat" where
  "le_at k off m = le_val (take k (drop off m))"

definition to_bytes :: "string \<Rightarrow> bytes" where
  "to_bytes s = map (\<lambda>c. word_of_nat (of_char c)) s"

definition of_bytes :: "bytes \<Rightarrow> string" where
  "of_bytes bs = map (\<lambda>b. char_of (unat b)) bs"

section \<open>MD4\<close>

type_synonym md4_state = "32 word \<times> 32 word \<times> 32 word \<times> 32 word"

definition md4_f :: "32 word \<Rightarrow> 32 word \<Rightarrow> 32 word \<Rightarrow> 32 word" where
  "md4_f x y z = (x AND y) OR (NOT x AND z)"

definition md4_g :: "32 word \<Rightarrow> 32 word \<Rightarrow> 32 word \<Rightarrow> 32 word" where
  "md4_g x y z = (x AND y) OR (x AND z) OR (y AND z)"

definition md4_h :: "32 word \<Rightarrow> 32 word \<Rightarrow> 32 word \<Rightarrow> 32 word" where
  "md4_h x y z = x XOR y XOR z"

definition rotl :: "32 word \<Rightarrow> nat \<Rightarrow> 32 word" where
  "rotl x n = push_bit n x OR drop_bit (32 - n) x"

definition round1 :: "32 word list \<Rightarrow> nat \<Rightarrow> md4_state \<Rightarrow> md4_state" where
  "round1 x i st =
     (let (aa, bb, cc, dd) = st;
          aa = rotl (aa + md4_f bb cc dd + x ! i) 3;
          dd = rotl (dd + md4_f aa bb cc + x ! (i + 1)) 7;
          cc = rotl (cc + md4_f dd aa bb + x ! (i + 2)) 11;
          bb = rotl (bb + md4_f cc dd aa + x ! (i + 3)) 19
      in (aa, bb, cc, dd))"

definition round2 :: "32 word list \<Rightarrow> nat \<Rightarrow> md4_state \<Rightarrow> md4_state" where
  "round2 x i st =
     (let (aa, bb, cc, dd) = st;
          aa = rotl (aa + md4_g bb cc dd + x ! i + 0x5a827999) 3;
          dd = rotl (dd + md4_g aa bb cc + x ! (i + 4) + 0x5a827999) 5;
          cc = rotl (cc + md4_g dd aa bb + x ! (i + 8) + 0x5a827999) 9;
          bb = rotl (bb + md4_g cc dd aa + x ! (i + 12) + 0x5a827999) 13
      in (aa, bb, cc, dd))"

definition round3 :: "32 word list \<Rightarrow> nat \<Rightarrow> md4_state \<Rightarrow> md4_state" where
  "round3 x i st =
     (let (aa, bb, cc, dd) = st;
          aa = rotl (aa + md4_h bb cc dd + x ! i + 0x6ed9eba1) 3;
          dd = rotl (dd + md4_h aa bb cc + x ! (i + 8) + 0x6ed9eba1) 9;
          cc = rotl (cc + md4_h dd aa bb + x ! (i + 4) + 0x6ed9eba1) 11;
          bb = rotl (bb + md4_h cc dd aa + x ! (i + 12) + 0x6ed9eba1) 15
      in (aa, bb, cc, dd))"

definition md4_block :: "bytes \<Rightarrow> md4_state \<Rightarrow> md4_state" where
  "md4_block blk st =
     (let x = map (\<lambda>i. word_of_nat (le_at 4 (4 * i) blk)) [0..<16];
          (a, b, c, d) = st;
          (aa, bb, cc, dd) = fold (round3 x) [0, 2, 1, 3] (fold (round2 x) [0, 1, 2, 3] (fold (round1 x) [0, 4, 8, 12] st))
      in (a + aa, b + bb, c + cc, d + dd))"

function md4_blocks :: "bytes \<Rightarrow> md4_state \<Rightarrow> md4_state" where
  "md4_blocks data st = (if data = [] then st else md4_blocks (drop 64 data) (md4_block (take 64 data) st))"
  by pat_completeness auto

termination
  by (relation "measure (\<lambda>(data, st). length data)") auto

declare md4_blocks.simps [simp del]

text \<open>The byte \<open>0x80\<close>, zeros up to 56 modulo 64, and the length in bits as an unsigned 64-bit number.\<close>

definition md4_pad :: "bytes \<Rightarrow> bytes" where
  "md4_pad data = data @ [0x80] @ replicate ((119 - length data mod 64) mod 64) 0 @ le_bytes 8 (length data * 8)"

definition md4 :: "bytes \<Rightarrow> bytes" where
  "md4 data =
     (let (a, b, c, d) = md4_blocks (md4_pad data) (0x67452301, 0xefcdab89, 0x98badcfe, 0x10325476)
      in le_bytes 4 (unat a) @ le_bytes 4 (unat b) @ le_bytes 4 (unat c) @ le_bytes 4 (unat d))"

section \<open>UTF-16\<close>

text \<open>\<open>[]rune(s)\<close>: a byte that does not start a valid encoding is one replacement character.\<close>

definition rune_value :: "string \<Rightarrow> nat" where
  "rune_value u =
     (case map of_char u of
        [a] \<Rightarrow> a
      | [a, b] \<Rightarrow> (a - 192) * 64 + (b - 128)
      | [a, b, c] \<Rightarrow> ((a - 224) * 64 + (b - 128)) * 64 + (c - 128)
      | [a, b, c, d] \<Rightarrow> (((a - 240) * 64 + (b - 128)) * 64 + (c - 128)) * 64 + (d - 128)
      | _ \<Rightarrow> 65533)"

function runes :: "string \<Rightarrow> nat list" where
  "runes s =
     (if s = [] then []
      else let w = rune_width s in
        if w = 0 then 65533 # runes (drop 1 s) else rune_value (take w s) # runes (drop w s))"
  by pat_completeness auto

termination
  by (relation "measure length") auto

declare runes.simps [simp del]

lemma runes_ascii:
  "runes [] = []"
  "between 0 c 127 \<Longrightarrow> runes (c # s) = of_char c # runes s"
  by (subst runes.simps, simp add: rune_width_def rune_value_def Let_def)+

definition utf16_unit :: "nat \<Rightarrow> nat list" where
  "utf16_unit r = (if r < 65536 then [r] else [55296 + (r - 65536) div 1024, 56320 + (r - 65536) mod 1024])"

definition utf16le :: "string \<Rightarrow> bytes" where
  "utf16le s = concat (map (le_bytes 2) (concat (map utf16_unit (runes s))))"

section \<open>Responses\<close>

text \<open>\<open>hmac\<close> is HMAC-MD5: a key and a message.\<close>

type_synonym hmac = "bytes \<Rightarrow> bytes \<Rightarrow> bytes"

definition ntowfv2 :: "hmac \<Rightarrow> string \<Rightarrow> string \<Rightarrow> string \<Rightarrow> bytes" where
  "ntowfv2 hmac password user domain = hmac (md4 (utf16le password)) (utf16le (to_upper user @ domain))"

definition ntlmv2Response :: "hmac \<Rightarrow> bytes \<Rightarrow> bytes \<Rightarrow> bytes \<Rightarrow> bytes \<Rightarrow> bytes \<Rightarrow> bytes \<times> bytes" where
  "ntlmv2Response hmac ntowf serverChallenge clientChallenge timestamp targetInfo =
     (let temp = [1, 1, 0, 0, 0, 0, 0, 0] @ timestamp @ clientChallenge @ [0, 0, 0, 0] @ targetInfo @ [0, 0, 0, 0];
          ntProof = hmac ntowf (serverChallenge @ temp)
      in (ntProof @ temp, ntProof))"

definition lmv2Response :: "hmac \<Rightarrow> bytes \<Rightarrow> bytes \<Rightarrow> bytes \<Rightarrow> bytes" where
  "lmv2Response hmac ntowf serverChallenge clientChallenge =
     hmac ntowf (serverChallenge @ clientChallenge) @ clientChallenge"

section \<open>Messages\<close>

definition ntlmSignature :: bytes where
  "ntlmSignature = [0x4E, 0x54, 0x4C, 0x4D, 0x53, 0x53, 0x50, 0]"

definition ntlmNegotiateUnicode :: "32 word" where "ntlmNegotiateUnicode = 0x00000001"
definition ntlmRequestTarget :: "32 word" where "ntlmRequestTarget = 0x00000004"
definition ntlmNegotiateNTLM :: "32 word" where "ntlmNegotiateNTLM = 0x00000200"
definition ntlmNegotiateAlwaysSign :: "32 word" where "ntlmNegotiateAlwaysSign = 0x00008000"
definition ntlmNegotiateExtendedSecurity :: "32 word" where "ntlmNegotiateExtendedSecurity = 0x00080000"
definition ntlmNegotiateTargetInfo :: "32 word" where "ntlmNegotiateTargetInfo = 0x00800000"

definition ntlmNegotiate :: bytes where
  "ntlmNegotiate =
     ntlmSignature @ le_bytes 4 1 @
     le_bytes 4 (unat (ntlmNegotiateUnicode OR ntlmRequestTarget OR ntlmNegotiateNTLM OR ntlmNegotiateAlwaysSign OR
       ntlmNegotiateExtendedSecurity)) @
     le_bytes 4 0 @ le_bytes 4 32 @ le_bytes 4 0 @ le_bytes 4 32"

definition errBadChallenge :: string where
  "errBadChallenge = ''ntlm: malformed CHALLENGE message''"

text \<open>The server challenge, the target information and the flags.\<close>

definition parseChallenge :: "bytes \<Rightarrow> (bytes \<times> bytes \<times> 32 word) result" where
  "parseChallenge msg =
     (if length msg < 32 \<or> take 8 msg \<noteq> ntlmSignature \<or> le_at 4 8 msg \<noteq> 2 then Inl errBadChallenge
      else
        let flags = word_of_nat (le_at 4 20 msg);
            serverChallenge = take 8 (drop 24 msg);
            targetInfo =
              (if 48 \<le> length msg
               then let tiLen = le_at 2 40 msg; tiOff = le_at 4 44 msg in
                 if 0 < tiLen \<and> tiOff + tiLen \<le> length msg then take tiLen (drop tiOff msg) else []
               else [])
        in Inr (serverChallenge, targetInfo, flags))"

text \<open>
  \<open>field\<close> of \<open>ntlmAuthenticate\<close>: the length twice in 16 bits and the offset in 32, for the data appended to
  the payload; \<open>fields\<close> does it for a list of them.
\<close>

definition field_ref :: "bytes \<Rightarrow> bytes \<Rightarrow> bytes" where
  "field_ref payload data = le_bytes 2 (length data) @ le_bytes 2 (length data) @ le_bytes 4 (64 + length payload)"

fun fields :: "bytes \<Rightarrow> bytes list \<Rightarrow> bytes \<times> bytes" where
  "fields payload [] = ([], payload)"
| "fields payload (d # ds) = apfst ((@) (field_ref payload d)) (fields (payload @ d) ds)"

definition ntlmAuthenticate :: "string \<Rightarrow> string \<Rightarrow> string \<Rightarrow> bytes \<Rightarrow> bytes \<Rightarrow> 32 word \<Rightarrow> bytes" where
  "ntlmAuthenticate domain user workstation lmResp ntResp flags =
     (let (refs, payload) = fields [] [lmResp, ntResp, utf16le domain, utf16le user, utf16le workstation, []]
      in ntlmSignature @ le_bytes 4 3 @ refs @ le_bytes 4 (unat flags) @ payload)"

definition ntlmType3 :: "hmac \<Rightarrow> string \<Rightarrow> string \<Rightarrow> string \<Rightarrow> string \<Rightarrow> bytes \<Rightarrow> bytes \<Rightarrow> bytes \<Rightarrow> bytes result" where
  "ntlmType3 hmac user password domain workstation challenge clientChallenge timestamp =
     bind_result (parseChallenge challenge) (\<lambda>(serverChallenge, targetInfo, flags).
       let ntowf = ntowfv2 hmac password user domain;
           ntResp = fst (ntlmv2Response hmac ntowf serverChallenge clientChallenge timestamp targetInfo);
           lmResp = lmv2Response hmac ntowf serverChallenge clientChallenge;
           respFlags = flags AND (ntlmNegotiateUnicode OR ntlmNegotiateExtendedSecurity OR ntlmNegotiateTargetInfo) OR
             ntlmNegotiateNTLM OR ntlmNegotiateAlwaysSign
       in Inr (ntlmAuthenticate domain user workstation lmResp ntResp respFlags))"

section \<open>Headers\<close>

text \<open>\<open>strings.Fields\<close> on ASCII white space.\<close>

definition ascii_blank :: "char \<Rightarrow> bool" where
  "ascii_blank c \<longleftrightarrow> c = CHR '' '' \<or> between 9 c 13"

function words_of :: "string \<Rightarrow> string list" where
  "words_of s =
     (let t = dropWhile ascii_blank s in
      if t = [] then [] else takeWhile (\<lambda>c. \<not> ascii_blank c) t # words_of (dropWhile (\<lambda>c. \<not> ascii_blank c) t))"
  by pat_completeness auto

termination
proof (relation "measure length")
  fix s t assume t: "t = dropWhile ascii_blank s" "t \<noteq> []"
  then have "\<not> ascii_blank (hd t)" using hd_dropWhile [of ascii_blank s] by simp
  then have "length (dropWhile (\<lambda>c. \<not> ascii_blank c) t) < length t"
    using t(2) by (cases t) (simp_all add: le_imp_less_Suc length_dropWhile_le)
  also have "\<dots> \<le> length s" using t(1) by (simp add: length_dropWhile_le)
  finally show "(dropWhile (\<lambda>c. \<not> ascii_blank c) t, s) \<in> measure length" by simp
qed simp

declare words_of.simps [simp del]

definition NTLMOffered :: "string list \<Rightarrow> bool" where
  "NTLMOffered hs = list_ex (\<lambda>h. case words_of h of f # _ \<Rightarrow> equal_fold f ''NTLM'' | [] \<Rightarrow> False) hs"

definition NTLMNegotiateHeader :: string where
  "NTLMNegotiateHeader = ''NTLM '' @ base64 (of_bytes ntlmNegotiate)"

fun NTLMChallenge :: "(string \<Rightarrow> bytes result) \<Rightarrow> string list \<Rightarrow> bytes option" where
  "NTLMChallenge decode64 [] = None"
| "NTLMChallenge decode64 (h # hs) =
     (case words_of h of
        [f, v] \<Rightarrow>
          if equal_fold f ''NTLM''
          then (case decode64 v of Inr b \<Rightarrow> Some b | Inl e \<Rightarrow> NTLMChallenge decode64 hs)
          else NTLMChallenge decode64 hs
      | _ \<Rightarrow> NTLMChallenge decode64 hs)"

text \<open>A Windows file time from the Unix time in nanoseconds; Go's division truncates.\<close>

definition ntlmTimestamp :: "int \<Rightarrow> bytes" where
  "ntlmTimestamp unixNano =
     le_bytes 8 (unat (word_of_int (sgn unixNano * (\<bar>unixNano\<bar> div 100)) + word_of_int 116444736000000000 :: 64 word))"

definition NTLMAuthenticateHeader :: "hmac \<Rightarrow> bytes result \<Rightarrow> int \<Rightarrow> bytes \<Rightarrow> ntlm_auth \<Rightarrow> string result" where
  "NTLMAuthenticateHeader hmac rnd now challenge a =
     (case rnd of
        Inl e \<Rightarrow> Inl (''ntlm: client challenge: '' @ e)
      | Inr cc \<Rightarrow>
         map_sum id (\<lambda>msg. ''NTLM '' @ base64 (of_bytes msg))
           (ntlmType3 hmac (nt_Username a) (nt_Password a) (nt_Domain a) (nt_Workstation a) challenge cc (ntlmTimestamp now)))"

section \<open>The message as the server reads it\<close>

text \<open>The data of the field whose reference is at an offset.\<close>

definition read_field :: "nat \<Rightarrow> bytes \<Rightarrow> bytes" where
  "read_field off m = take (le_at 2 off m) (drop (le_at 4 (off + 4) m) m)"

lemma length_le_bytes [simp]: "length (le_bytes k n) = k"
  by (induction k arbitrary: n) auto

lemma le_val_bytes: "n < 256 ^ k \<Longrightarrow> le_val (le_bytes k n) = n"
proof (induction k arbitrary: n)
  case (Suc k)
  then have "n div 256 < 256 ^ k" by (simp add: less_mult_imp_div_less)
  with Suc.IH show ?case by (simp add: le_val_def unat_of_nat)
qed (simp add: le_val_def)

lemma le_at_skip: "le_at k (length a + i) (a @ b) = le_at k i b"
  by (simp add: le_at_def)

lemma length_signature [simp]: "length ntlmSignature = 8"
  by (simp add: ntlmSignature_def)

lemma length_field_ref [simp]: "length (field_ref p d) = 8"
  by (simp add: field_ref_def)

text \<open>A field found through its reference, wherever the header has put it.\<close>

lemma read_field_at:
  assumes "m = h1 @ field_ref p d @ h2 @ p @ d @ rest" "length h1 = off" "length h2 + off = 56"
    "length d < 65536" "64 + length p < 2 ^ 32"
  shows "read_field off m = d"
proof -
  have r: "drop off m = field_ref p d @ h2 @ p @ d @ rest" using assms(1,2) by simp
  then have l: "le_at 2 off m = length d" using assms(4) by (simp add: le_at_def field_ref_def le_val_bytes)
  have "drop (off + 4) m = drop 4 (field_ref p d @ h2 @ p @ d @ rest)" unfolding r [symmetric] by (simp add: add.commute)
  then have o: "le_at 4 (off + 4) m = 64 + length p" using assms(5) by (simp add: le_at_def field_ref_def le_val_bytes)
  have "64 + length p = length (h1 @ field_ref p d @ h2 @ p)" using assms(2,3) by simp
  then have "drop (64 + length p) m = d @ rest" unfolding assms(1) by (simp only: append_assoc [symmetric] append_eq_conv_conj) simp
  then show ?thesis by (simp add: read_field_def l o)
qed

lemma le_at_here:
  assumes "m = h @ le_bytes k n @ rest" "length h = off" "n < 256 ^ k"
  shows "le_at k off m = n"
  using assms by (simp add: le_at_def le_val_bytes)

text \<open>The assembled message: signature, type, six references, flags and payload.\<close>

definition message :: "bytes list \<Rightarrow> 32 word \<Rightarrow> bytes" where
  "message ds flags =
     ntlmSignature @ le_bytes 4 3 @ concat (map (\<lambda>i. field_ref (concat (take i ds)) (ds ! i)) [0..<6]) @
     le_bytes 4 (unat flags) @ concat ds"

lemma ntlmAuthenticate_message:
  "ntlmAuthenticate domain user workstation lmResp ntResp flags =
     message [lmResp, ntResp, utf16le domain, utf16le user, utf16le workstation, []] flags"
  by (simp add: ntlmAuthenticate_def message_def upt_conv_Cons)

lemma length_field_refs: "length (concat (map (\<lambda>i. field_ref (f i) (g i)) xs)) = 8 * length xs"
  by (induction xs) auto

lemma message_field:
  assumes "length ds = 6" "i < 6" "length (ds ! i) < 65536" "length (concat ds) < 2 ^ 32 - 64"
  shows "read_field (12 + 8 * i) (message ds flags) = ds ! i"
proof -
  let ?r = "\<lambda>i. field_ref (concat (take i ds)) (ds ! i)"
  have ds: "concat ds = concat (take i ds) @ ds ! i @ concat (drop (Suc i) ds)"
    using assms(1,2) by (metis concat.simps(2) concat_append id_take_nth_drop)
  have "[0..<6] = [0..<i] @ i # [Suc i..<6]" using assms(2) by (metis le0 less_imp_le_nat upt_add_eq_append le_add_diff_inverse upt_conv_Cons)
  then have m: "message ds flags = (ntlmSignature @ le_bytes 4 3 @ concat (map ?r [0..<i])) @ ?r i @
      (concat (map ?r [Suc i..<6]) @ le_bytes 4 (unat flags)) @ concat (take i ds) @ ds ! i @ concat (drop (Suc i) ds)"
    by (simp add: message_def ds)
  show ?thesis
    by (rule read_field_at [OF m]) (use assms ds in \<open>simp_all add: length_field_refs ntlmSignature_def\<close>)
qed

lemma message_header:
  assumes "length ds = 6"
  shows "take 8 (message ds flags) = ntlmSignature" "le_at 4 8 (message ds flags) = 3"
    "le_at 4 60 (message ds flags) = unat flags"
proof -
  show "take 8 (message ds flags) = ntlmSignature" by (simp add: message_def ntlmSignature_def)
  show "le_at 4 8 (message ds flags) = 3"
    by (rule le_at_here [where h = ntlmSignature]) (simp_all add: message_def ntlmSignature_def)
  have "unat flags < 256 ^ 4" using unsigned_less [of flags] by simp
  then show "le_at 4 60 (message ds flags) = unat flags"
    by (intro le_at_here [where h = "ntlmSignature @ le_bytes 4 3 @
          concat (map (\<lambda>i. field_ref (concat (take i ds)) (ds ! i)) [0..<6])"])
      (simp_all add: message_def ntlmSignature_def length_field_refs)
qed

text \<open>
  C27 The AUTHENTICATE message is well formed: a server that follows the six references of its header
  finds the two responses and the domain, user and workstation that went into it, in the slots that
  the protocol gives them, and the flags after them, as long as every field has less than 64 KiB.
\<close>

theorem authenticate_readable:
  assumes "list_all (\<lambda>d. length d < 65536) [lmResp, ntResp, utf16le domain, utf16le user, utf16le workstation]"
  shows "let m = ntlmAuthenticate domain user workstation lmResp ntResp flags in
    take 8 m = ntlmSignature \<and> le_at 4 8 m = 3 \<and> le_at 4 60 m = unat flags \<and>
    map (\<lambda>i. read_field (12 + 8 * i) m) [0..<6] = [lmResp, ntResp, utf16le domain, utf16le user, utf16le workstation, []]"
proof -
  let ?ds = "[lmResp, ntResp, utf16le domain, utf16le user, utf16le workstation, []]"
  have "list_all (\<lambda>d. length d < 65536) ?ds" using assms by simp
  then have small: "length (?ds ! i) < 65536" if "i < 6" for i using that by (simp only: list_all_length) simp
  have field: "read_field (12 + 8 * i) (message ?ds flags) = ?ds ! i" if "i < 6" for i
    by (rule message_field) (use that small assms in \<open>simp_all del: nth_Cons_numeral\<close>)
  have "map (\<lambda>i. read_field (12 + 8 * i) (message ?ds flags)) [0..<6] = map ((!) ?ds) [0..<6]"
    using field by (intro map_cong) simp_all
  also have "\<dots> = ?ds" by (simp add: upt_conv_Cons)
  finally show ?thesis
    by (simp only: Let_def ntlmAuthenticate_message message_header list.size)
qed

theorem authenticate_readable_witness:
  "read_field 36 (ntlmAuthenticate ''D'' ''U'' ''W'' [1, 2] [3] 0x8201) = utf16le ''U''"
proof -
  have "runes ''D'' = [68]" "runes ''U'' = [85]" "runes ''W'' = [87]"
    by (simp_all add: runes_ascii between_def)
  then have "list_all (\<lambda>d. length d < 65536) [[1, 2], [3], utf16le ''D'', utf16le ''U'', utf16le ''W'']"
    by (simp add: utf16le_def utf16_unit_def)
  from authenticate_readable [OF this, of "0x8201"] show ?thesis
    by (simp add: Let_def upt_conv_Cons)
qed

end
