(* ===== verification/HttpClient.thy ===== *)
theory HttpClient
  imports OAuth2 NTLM EventStream PathParam VarsRef
begin

text \<open>
  \<open>internal/httpclient/httpclient.go\<close>: how a request is built, sent, retried for digest and NTLM, and its
  answer read or streamed. The parser and printer of URLs, files, random draws and the transport
  (with redirects and cookies, as \<open>net/http\<close> does them) are parameters.
\<close>

section \<open>Parameters\<close>

text \<open>A parsed URL is its user information and the rest.\<close>

record build_env =
  be_Parse :: "string \<Rightarrow> (string option \<times> req_url) result"
  be_String :: "string option \<Rightarrow> req_url \<Rightarrow> string"
  be_ReadFile :: "string \<Rightarrow> string result"
  be_crypto :: crypto
  be_oauth2 :: "(oauth2_auth \<Rightarrow> string result) option"

text \<open>What one exchange draws: the multipart boundary, the draws of \<open>auth.Apply\<close> and of the handshakes.\<close>

record rand =
  ra_Boundary :: string
  ra_Draws :: draws
  ra_Cnonce :: "string result"
  ra_Challenge :: "NTLM.bytes result"
  ra_now :: int

text \<open>A built request: with the user information of its URL and the body bytes.\<close>

record built =
  bt_Req :: http_request
  bt_User :: "string option"
  bt_Body :: "string option"

section \<open>Resolving the texts of a request\<close>

text \<open>\<open>resolve\<close> of \<open>Build\<close>: the second component collects the missing names.\<close>

type_synonym resolver_fn = "string \<Rightarrow> string \<times> string list"

definition resolver_of :: "resolver option \<Rightarrow> resolver_fn" where
  "resolver_of res = Resolve (case res of None \<Rightarrow> New_resolver [] | Some r \<Rightarrow> r)"

definition resolving :: "resolver_fn \<Rightarrow> string \<Rightarrow> string list \<Rightarrow> string \<times> string list" where
  "resolving f s missing = (let (out, m) = f s in (out, missing @ m))"

definition resolve_row :: "resolver_fn \<Rightarrow> key_value \<Rightarrow> string list \<Rightarrow> (string \<times> string) \<times> string list" where
  "resolve_row f kv ms = (let (k, ms1) = resolving f (kv_Key kv) ms; (v, ms2) = resolving f (kv_Value kv) ms1 in ((k, v), ms2))"

fun resolve_rows :: "resolver_fn \<Rightarrow> key_value list \<Rightarrow> string list \<Rightarrow> (string \<times> string) list \<times> string list" where
  "resolve_rows f [] ms = ([], ms)"
| "resolve_rows f (kv # kvs) ms = (let (p, ms1) = resolve_row f kv ms; (ps, ms2) = resolve_rows f kvs ms1 in (p # ps, ms2))"

text \<open>The value of a path parameter: the first enabled row of the name decides; an empty one counts as unfilled.\<close>

definition path_value :: "resolver_fn \<Rightarrow> key_value list \<Rightarrow> string \<Rightarrow> string list \<Rightarrow> string option \<times> string list" where
  "path_value f params name ms =
     (case find (\<lambda>p. kv_Enabled p \<and> kv_Key p = name) params of
        None \<Rightarrow> (None, ms)
      | Some p \<Rightarrow> (let (v, ms1) = resolving f (kv_Value p) ms in (if v \<noteq> [] then Some v else None, ms1)))"

definition fill_path :: "resolver_fn \<Rightarrow> key_value list \<Rightarrow> string \<Rightarrow> string list \<Rightarrow> string \<times> string list" where
  "fill_path f params url ms =
     (if params = [] then (url, ms)
      else walk url (\<lambda>name ms. case path_value f params name ms of
          (Some v, ms1) \<Rightarrow> (v, ms1)
        | (None, ms1) \<Rightarrow> ([CHR 0x7B] @ name @ [CHR 0x7D], ms1)) ms)"

text \<open>The texts that \<open>auth.ResolveValues\<close> resolves, in its order.\<close>

definition auth_texts :: "auth \<Rightarrow> string list" where
  "auth_texts a =
     (let t = auth_Type a in
      if t = AuthBasic then (case auth_Basic a of None \<Rightarrow> [] | Some c \<Rightarrow> [ba_Username c, ba_Password c])
      else if t = AuthBearer then (case auth_Bearer a of None \<Rightarrow> [] | Some c \<Rightarrow> [be_Token c])
      else if t = AuthAPIKey then (case auth_APIKey a of None \<Rightarrow> [] | Some c \<Rightarrow> [ak_Name c, ak_Value c])
      else if t = AuthOAuth2 then
        (case auth_OAuth2 a of None \<Rightarrow> []
         | Some c \<Rightarrow> [o2_TokenURL c, o2_AuthURL c, o2_ClientID c, o2_ClientSecret c, o2_Scope c, o2_RedirectURI c, o2_Audience c])
      else if t = AuthWSSE then (case auth_WSSE a of None \<Rightarrow> [] | Some c \<Rightarrow> [ws_Username c, ws_Password c])
      else if t = AuthOAuth1 then
        (case auth_OAuth1 a of None \<Rightarrow> [] | Some c \<Rightarrow> [o1_ConsumerKey c, o1_ConsumerSecret c, o1_Token c, o1_TokenSecret c])
      else if t = AuthAWSV4 then
        (case auth_AWSV4 a of None \<Rightarrow> []
         | Some c \<Rightarrow> [aw_AccessKeyID c, aw_SecretAccessKey c, aw_Region c, aw_Service c, aw_SessionToken c])
      else if t = AuthDigest then (case auth_Digest a of None \<Rightarrow> [] | Some c \<Rightarrow> [di_Username c, di_Password c])
      else if t = AuthNTLM then
        (case auth_NTLM a of None \<Rightarrow> [] | Some c \<Rightarrow> [nt_Username c, nt_Password c, nt_Domain c, nt_Workstation c])
      else [])"

section \<open>Bodies\<close>

text \<open>\<open>mime/multipart\<close>: one field, and the writer over a list of them.\<close>

definition crlf :: string where "crlf = [CHR 0x0D, CHR 0x0A]"

definition escapeQuotes :: "string \<Rightarrow> string" where
  "escapeQuotes s = concat (map (\<lambda>c.
     if c = CHR 0x5C \<or> c = CHR 0x22 then [CHR 0x5C, c]
     else if c = CHR 0x0D then ''%0D'' else if c = CHR 0x0A then ''%0A'' else [c]) s)"

definition field_part :: "string \<Rightarrow> string \<times> string \<Rightarrow> string" where
  "field_part boundary p =
     ''--'' @ boundary @ crlf @ ''Content-Disposition: form-data; name='' @ dquote @ escapeQuotes (fst p) @ dquote @
     crlf @ crlf @ snd p"

definition multipart :: "string \<Rightarrow> (string \<times> string) list \<Rightarrow> string" where
  "multipart boundary ps =
     join crlf (map (field_part boundary) ps) @ crlf @ ''--'' @ boundary @ ''--'' @ crlf"

text \<open>The body bytes (\<open>None\<close> for no body), the content type, and the missing names.\<close>

definition graphql_body :: "resolver_fn \<Rightarrow> body \<Rightarrow> string list \<Rightarrow> ((string option \<times> string) \<times> string list) result" where
  "graphql_body f b ms =
     (let (query, ms1) = resolving f (body_Content b) ms;
          (raw, ms2) = resolving f (body_GraphQLVariables b) ms1;
          vs = trim_space raw;
          envelope = ''{'' @ dquote @ ''query'' @ dquote @ '':'' @ json_quote query
      in if vs = [] then Inr ((Some (envelope @ ''}''), BodyType_ContentType BodyGraphQL), ms2)
         else if Unmarshal vs = None then Inl ''graphql variables are not valid JSON''
         else Inr ((Some (envelope @ '','' @ dquote @ ''variables'' @ dquote @ '':'' @ vs @ ''}''),
                    BodyType_ContentType BodyGraphQL), ms2))"

definition file_body :: "(string \<Rightarrow> string result) \<Rightarrow> body \<Rightarrow> (string option \<times> string) result" where
  "file_body readFile b =
     (if body_FilePath b = [] then Inr (None, [])
      else (case readFile (body_FilePath b) of
          Inl e \<Rightarrow> Inl (''read body file '' @ quoted (body_FilePath b) @ '': '' @ e)
        | Inr data \<Rightarrow> Inr (Some data, if body_ContentType b = [] then ''application/octet-stream'' else body_ContentType b)))"

definition buildBody :: "(string \<Rightarrow> string result) \<Rightarrow> string \<Rightarrow> body \<Rightarrow> resolver_fn \<Rightarrow> string list
    \<Rightarrow> ((string option \<times> string) \<times> string list) result" where
  "buildBody readFile boundary b f ms =
     (let t = body_Type b; raw = (\<lambda>ct. let (s, ms1) = resolving f (body_Content b) ms in Inr ((Some s, ct), ms1)) in
      if t = [] \<or> t = BodyNone then Inr ((None, []), ms)
      else if t = BodyJSON \<or> t = BodyXML \<or> t = BodyText then raw (BodyType_ContentType t)
      else if t = BodyForm then
        (if body_Form b \<noteq> []
         then (let (ps, ms1) = resolve_rows f (EnabledPairs (body_Form b)) ms
               in Inr ((Some (values_encode ps), BodyType_ContentType BodyForm), ms1))
         else raw (BodyType_ContentType BodyForm))
      else if t = BodyMultipart then
        (let (ps, ms1) = resolve_rows f (EnabledPairs (body_Form b)) ms
         in Inr ((Some (multipart boundary ps), ''multipart/form-data; boundary='' @ boundary), ms1))
      else if t = BodyGraphQL then graphql_body f b ms
      else if t = BodyFile then map_sum id (\<lambda>x. (x, ms)) (file_body readFile b)
      else raw [])"

section \<open>Building\<close>

text \<open>The rows appended to the query of the URL, in their order.\<close>

definition append_param :: "string \<Rightarrow> string \<times> string \<Rightarrow> string" where
  "append_param q p = q @ (if q = [] then [] else ''&'') @ QueryEscape (fst p) @ ''='' @ QueryEscape (snd p)"

definition with_params :: "(string \<times> string) list \<Rightarrow> req_url \<Rightarrow> req_url" where
  "with_params ps u = (if ps = [] then u else u\<lparr>rurl_RawQuery := foldl append_param (rurl_RawQuery u) ps\<rparr>)"

text \<open>\<open>http.NewRequestWithContext\<close>: it checks the method, parses the URL again, and drops an empty port.\<close>

definition NewRequest :: "build_env \<Rightarrow> string \<Rightarrow> string \<Rightarrow> string option \<Rightarrow> built result" where
  "NewRequest env method url body =
     (if method = [] \<or> \<not> list_all token_char method then Inl (''net/http: invalid method '' @ quoted method)
      else map_sum id (\<lambda>(user, u).
          let host = trim_suffix (rurl_Host u) '':''; u1 = u\<lparr>rurl_Host := host\<rparr> in
          \<lparr>bt_Req = \<lparr>hr_Method = method, hr_URL = u1, hr_Host = host, hr_Header = [], hr_Body = map_option Inr body\<rparr>,
           bt_User = user, bt_Body = body\<rparr>) (be_Parse env url))"

text \<open>The user's headers: a nameless row is skipped, \<open>Host\<close> goes to its own field.\<close>

definition add_row :: "http_request \<Rightarrow> string \<times> string \<Rightarrow> http_request" where
  "add_row req p =
     (if fst p = [] then req
      else if equal_fold (fst p) ''Host'' then req\<lparr>hr_Host := snd p\<rparr>
      else req\<lparr>hr_Header := hdr_add (fst p) (snd p) (hr_Header req)\<rparr>)"

definition has_content_type :: "(string \<times> string) list \<Rightarrow> bool" where
  "has_content_type hs \<longleftrightarrow> list_ex (\<lambda>p. equal_fold (fst p) ''Content-Type'') hs"

definition add_headers :: "(string \<times> string) list \<Rightarrow> string \<Rightarrow> http_request \<Rightarrow> http_request" where
  "add_headers hs ct req =
     (let req1 = foldl add_row req hs in
      if \<not> has_content_type hs \<and> ct \<noteq> [] then set_header ''Content-Type'' ct req1 else req1)"

text \<open>The resolved parts, before the check for missing names.\<close>

record parts =
  pt_URL :: string
  pt_Body :: "string option"
  pt_ContentType :: string
  pt_Headers :: "(string \<times> string) list"
  pt_Params :: "(string \<times> string) list"
  pt_Auth :: auth

definition resolve_parts :: "build_env \<Rightarrow> string \<Rightarrow> request \<Rightarrow> resolver_fn \<Rightarrow> (parts \<times> string list) result" where
  "resolve_parts env boundary r f =
     (let (url0, ms0) = resolving f (rq_URL r) [];
          (url, ms1) = fill_path f (rq_PathParams r) url0 ms0
      in bind_result (buildBody (be_ReadFile env) boundary (rq_Body r) f ms1) (\<lambda>((body, ct), ms2).
        let (headers, ms3) = resolve_rows f (EnabledPairs (rq_Headers r)) ms2;
            (params, ms4) = resolve_rows f (EnabledPairs (rq_Params r)) ms3
        in Inr (\<lparr>pt_URL = url, pt_Body = body, pt_ContentType = ct, pt_Headers = headers, pt_Params = params,
                 pt_Auth = ResolveValues (rq_Auth r) (Some (\<lambda>s. fst (f s)))\<rparr>,
                ms4 @ concat (map (\<lambda>s. snd (f s)) (auth_texts (rq_Auth r))))))"

definition assemble :: "build_env \<Rightarrow> draws \<Rightarrow> string \<Rightarrow> parts \<Rightarrow> built result" where
  "assemble env dr method p =
     (case be_Parse env (pt_URL p) of
        Inl e \<Rightarrow> Inl (''invalid URL '' @ quoted (pt_URL p) @ '': '' @ e)
      | Inr (user, u) \<Rightarrow>
         bind_result (NewRequest env (if method = [] then ''GET'' else method) (be_String env user (with_params (pt_Params p) u)) (pt_Body p))
           (\<lambda>b. case auth_Apply (be_crypto env) dr (be_oauth2 env) (pt_Auth p) (add_headers (pt_Headers p) (pt_ContentType p) (bt_Req b)) of
               (Some e, _) \<Rightarrow> Inl (''auth: '' @ e)
             | (None, req) \<Rightarrow> Inr (b\<lparr>bt_Req := req\<rparr>)))"

definition Build :: "build_env \<Rightarrow> rand \<Rightarrow> request \<Rightarrow> resolver option \<Rightarrow> built result" where
  "Build env ra r res =
     bind_result (resolve_parts env (ra_Boundary ra) r (resolver_of res)) (\<lambda>(p, missing).
       if dedupe_from [] missing \<noteq> [] then Inl (''unresolved variables: '' @ join '', '' (dedupe_from [] missing))
       else assemble env (ra_Draws ra) (rq_Method r) p)"

section \<open>Redirects\<close>

text \<open>
  \<open>CheckRedirect\<close>, the policy that \<open>New\<close> installs: the next request with the headers that \<open>net/http\<close> forwards,
  and the URLs sent so far, the first of them being the origin.
\<close>

definition ErrUseLastResponse :: string where
  "ErrUseLastResponse = ''net/http: use last response''"

definition CheckRedirect :: "settings \<Rightarrow> string list \<Rightarrow> req_url list \<Rightarrow> http_request \<Rightarrow> string option \<times> http_request" where
  "CheckRedirect s crossHostStrip via req =
     (if \<not> se_FollowRedirects s then (Some ErrUseLastResponse, req)
      else if 10 \<le> length via then (Some (''stopped after '' @ itoa (int (length via)) @ '' redirects''), req)
      else (case via of
          [] \<Rightarrow> (None, req)
        | origin # _ \<Rightarrow>
           (let downgrade = (rurl_Scheme origin = ''https'' \<and> rurl_Scheme (hr_URL req) = ''http'');
                h1 = (if rurl_Host (hr_URL req) \<noteq> rurl_Host origin \<or> downgrade
                      then fold hdr_del crossHostStrip (hr_Header req) else hr_Header req);
                h2 = (if downgrade then hdr_del ''Authorization'' h1 else h1)
            in (None, req\<lparr>hr_Header := h2\<rparr>))))"

section \<open>Reading an answer\<close>

text \<open>An answer of the transport; its body as the reads it gives and the error after them (\<open>None\<close> is the end).\<close>

record wire =
  wi_StatusCode :: int
  wi_Status :: string
  wi_Proto :: string
  wi_Header :: headers
  wi_Reads :: "string list"
  wi_Error :: "string option"

text \<open>
  \<open>io.ReadAll(io.LimitReader(r, n))\<close>: the data and the error. A limit that is reached hides what follows,
  and a limit that is not positive ends at once.
\<close>

definition ReadLimited :: "int \<Rightarrow> wire \<Rightarrow> string \<times> string option" where
  "ReadLimited n w =
     (let data = concat (wi_Reads w) in
      if n \<le> 0 then ([], None)
      else if n \<le> int (length data) then (take (nat n) data, None)
      else (data, wi_Error w))"

text \<open>An addition of \<open>int64\<close> values.\<close>

definition wrap64 :: "int \<Rightarrow> int" where
  "wrap64 n = (n + 2 ^ 63) mod 2 ^ 64 - 2 ^ 63"

definition readCapped :: "wire \<Rightarrow> int \<Rightarrow> (string \<times> bool) result" where
  "readCapped w cap =
     (case ReadLimited (wrap64 (cap + 1)) w of
        (data, Some e) \<Rightarrow> Inl e
      | (data, None) \<Rightarrow> Inr (if cap < int (length data) then (take (nat cap) data, True) else (data, False)))"

definition maxResponseBytes :: "settings \<Rightarrow> int" where
  "maxResponseBytes s = (if 0 < se_MaxResponseBytes s then se_MaxResponseBytes s else DefaultMaxResponseBytes)"

definition drainBodyBytes :: "settings \<Rightarrow> wire \<Rightarrow> string" where
  "drainBodyBytes s w = fst (ReadLimited (maxResponseBytes s) w)"

section \<open>The CORS advice\<close>

definition corsAdvisory :: "string \<Rightarrow> bool \<Rightarrow> headers \<Rightarrow> string" where
  "corsAdvisory origin credentialed h =
     (if origin = [] then []
      else
        let allow = hdr_get h ''Access-Control-Allow-Origin'' in
        if allow = [] then
          ''a browser would block this: Origin '' @ quoted origin @ '' sent, but the response has no Access-Control-Allow-Origin''
        else if allow = ''*'' then
          (if credentialed
           then ''a browser would block this: a credentialed request from Origin '' @ quoted origin @
                '' can'' @ [CHR 0x27] @ ''t use the wildcard Access-Control-Allow-Origin: *''
           else [])
        else if equal_fold allow origin then
          (if credentialed \<and> \<not> equal_fold (hdr_get h ''Access-Control-Allow-Credentials'') ''true''
           then ''a browser would block this: a credentialed request from Origin '' @ quoted origin @
                '' needs Access-Control-Allow-Credentials: true''
           else [])
        else ''a browser would block this: Origin '' @ quoted origin @ '' is not allowed by Access-Control-Allow-Origin '' @ quoted allow)"

section \<open>Errors of the transport\<close>

text \<open>\<open>url.Error\<close> with its operation, URL and cause, or another error.\<close>

datatype do_error = UrlError string string string | OtherError string

definition redactURL :: "build_env \<Rightarrow> string \<Rightarrow> string" where
  "redactURL env raw =
     (case be_Parse env raw of
        Inl e \<Rightarrow> ''[redacted url]''
      | Inr (user, u) \<Rightarrow>
          be_String env (if user \<noteq> None then Some ''redacted'' else None)
            (if rurl_RawQuery u \<noteq> [] then u\<lparr>rurl_RawQuery := ''redacted''\<rparr> else u))"

fun sanitizeDoError :: "build_env \<Rightarrow> do_error \<Rightarrow> do_error" where
  "sanitizeDoError env (UrlError op url e) = UrlError op (redactURL env url) e"
| "sanitizeDoError env (OtherError e) = OtherError e"

fun error_text :: "do_error \<Rightarrow> string" where
  "error_text (UrlError op url e) = op @ '' '' @ quoted url @ '': '' @ e"
| "error_text (OtherError e) = e"

section \<open>Sending\<close>

text \<open>The client: its settings, the transport on an outside world, and what that world draws.\<close>

record 'n client =
  cl_settings :: settings
  cl_env :: build_env
  cl_rand :: "'n \<Rightarrow> rand"
  cl_Do :: "built \<Rightarrow> 'n \<Rightarrow> (do_error + wire) \<times> 'n"
  cl_hmac :: hmac
  cl_Decode64 :: "string \<Rightarrow> NTLM.bytes result"
  cl_RequestURI :: "req_url \<Rightarrow> string"

record http_Response =
  rs_StatusCode :: int
  rs_Status :: string
  rs_Proto :: string
  rs_Headers :: headers
  rs_Body :: string
  rs_Truncated :: bool
  rs_CORSWarning :: string
  rs_RequestURL :: string
  rs_RequestBody :: "string option"

definition request_url :: "build_env \<Rightarrow> built \<Rightarrow> string" where
  "request_url env b = be_String env (bt_User b) (hr_URL (bt_Req b))"

definition authorized_by :: "string \<Rightarrow> built \<Rightarrow> built" where
  "authorized_by hdr b = b\<lparr>bt_Req := set_header ''Authorization'' hdr (bt_Req b)\<rparr>"

text \<open>The resolver of the retries: without one the texts stay as they are.\<close>

definition retry_creds :: "request \<Rightarrow> resolver option \<Rightarrow> auth" where
  "retry_creds r res =
     ResolveValues (rq_Auth r) (Some (\<lambda>s. case res of None \<Rightarrow> s | Some rs \<Rightarrow> fst (Resolve rs s)))"

text \<open>An exchange with its answer and body, which a retry may replace.\<close>

type_synonym exchange = "wire \<times> string option"

definition digest_retry :: "'n client \<Rightarrow> request \<Rightarrow> resolver option \<Rightarrow> built \<Rightarrow> exchange \<Rightarrow> 'n \<Rightarrow> exchange \<times> 'n" where
  "digest_retry c r res b x n =
     (if wi_StatusCode (fst x) = 401 \<and> auth_Type (rq_Auth r) = AuthDigest then
        (case auth_Digest (retry_creds r res) of
           None \<Rightarrow> (x, n)
         | Some creds \<Rightarrow>
            (case DigestRespond (be_crypto (cl_env c)) (ra_Cnonce (cl_rand c n)) (hdr_values (wi_Header (fst x)) ''Www-Authenticate'')
                (hr_Method (bt_Req b)) (cl_RequestURI c (hr_URL (bt_Req b))) creds of
               Inr (Some hdr) \<Rightarrow>
                 (case Build (cl_env c) (cl_rand c n) r res of
                    Inl e \<Rightarrow> (x, n)
                  | Inr b2 \<Rightarrow>
                     (case cl_Do c (authorized_by hdr b2) n of
                        (Inl e, n1) \<Rightarrow> (x, n1)
                      | (Inr w2, n1) \<Rightarrow> ((w2, bt_Body b2), n1)))
             | _ \<Rightarrow> (x, n)))
      else (x, n))"

text \<open>A failed handshake gives the initial answer back, with the part of its body that was read.\<close>

definition restored :: "settings \<Rightarrow> wire \<Rightarrow> wire" where
  "restored s w = w\<lparr>wi_Reads := [drainBodyBytes s w], wi_Error := None\<rparr>"

definition ntlmHandshake :: "'n client \<Rightarrow> request \<Rightarrow> resolver option \<Rightarrow> ntlm_auth \<Rightarrow> 'n \<Rightarrow> exchange option \<times> 'n" where
  "ntlmHandshake c r res creds n =
     (case Build (cl_env c) (cl_rand c n) r res of
        Inl e \<Rightarrow> (None, n)
      | Inr b1 \<Rightarrow>
         (case cl_Do c (authorized_by NTLMNegotiateHeader b1) n of
            (Inl e, n1) \<Rightarrow> (None, n1)
          | (Inr w1, n1) \<Rightarrow>
             (case NTLMChallenge (cl_Decode64 c) (hdr_values (wi_Header w1) ''Www-Authenticate'') of
                None \<Rightarrow> (None, n1)
              | Some challenge \<Rightarrow>
                 (let ra = cl_rand c n1 in
                  case NTLMAuthenticateHeader (cl_hmac c) (ra_Challenge ra) (ra_now ra) challenge creds of
                    Inl e \<Rightarrow> (None, n1)
                  | Inr hdr \<Rightarrow>
                     (case Build (cl_env c) ra r res of
                        Inl e \<Rightarrow> (None, n1)
                      | Inr b2 \<Rightarrow>
                         (case cl_Do c (authorized_by hdr b2) n1 of
                            (Inl e, n2) \<Rightarrow> (None, n2)
                          | (Inr w2, n2) \<Rightarrow> (Some (w2, bt_Body b2), n2)))))))"

definition ntlm_retry :: "'n client \<Rightarrow> request \<Rightarrow> resolver option \<Rightarrow> exchange \<Rightarrow> 'n \<Rightarrow> exchange \<times> 'n" where
  "ntlm_retry c r res x n =
     (if wi_StatusCode (fst x) = 401 \<and> auth_Type (rq_Auth r) = AuthNTLM \<and>
         NTLMOffered (hdr_values (wi_Header (fst x)) ''Www-Authenticate'') then
        (case auth_NTLM (retry_creds r res) of
           None \<Rightarrow> (x, n)
         | Some creds \<Rightarrow>
            (case ntlmHandshake c r res creds n of
               (None, n1) \<Rightarrow> ((restored (cl_settings c) (fst x), snd x), n1)
             | (Some x2, n1) \<Rightarrow> (x2, n1)))
      else (x, n))"

definition response_of :: "'n client \<Rightarrow> built \<Rightarrow> exchange \<Rightarrow> http_Response result" where
  "response_of c b x =
     (case readCapped (fst x) (maxResponseBytes (cl_settings c)) of
        Inl e \<Rightarrow> Inl (''reading response body: '' @ e)
      | Inr (data, truncated) \<Rightarrow>
         (let w = fst x; hs = hr_Header (bt_Req b) in
          Inr \<lparr>rs_StatusCode = wi_StatusCode w, rs_Status = wi_Status w, rs_Proto = wi_Proto w, rs_Headers = wi_Header w,
            rs_Body = data, rs_Truncated = truncated,
            rs_CORSWarning = (if se_CORSWarning (cl_settings c)
              then corsAdvisory (hdr_get hs ''Origin'') (hdr_get hs ''Cookie'' \<noteq> []) (wi_Header w) else []),
            rs_RequestURL = request_url (cl_env c) b, rs_RequestBody = snd x\<rparr>))"

definition client_send :: "'n client \<Rightarrow> request \<Rightarrow> resolver option \<Rightarrow> 'n \<Rightarrow> http_Response result \<times> 'n" where
  "client_send c r res n =
     (case Build (cl_env c) (cl_rand c n) r res of
        Inl e \<Rightarrow> (Inl e, n)
      | Inr b \<Rightarrow>
         (case cl_Do c b n of
            (Inl e, n1) \<Rightarrow> (Inl (error_text (sanitizeDoError (cl_env c) e)), n1)
          | (Inr w, n1) \<Rightarrow>
             (let (x1, n2) = digest_retry c r res b (w, bt_Body b) n1;
                  (x2, n3) = ntlm_retry c r res x1 n2
              in (response_of c b x2, n3))))"

section \<open>Streaming\<close>

record StreamMeta =
  sm_StatusCode :: int
  sm_Status :: string
  sm_Headers :: headers
  sm_RequestURL :: string

text \<open>
  The events of an open stream go to the callback until it declines one or the stream ends. The
  callbacks work on the outside world; \<open>Stream\<close>'s timer and cancellation are not modelled.
\<close>

function stream_loop :: "(sse_event \<Rightarrow> 'n \<Rightarrow> bool \<times> 'n) \<Rightarrow> parser \<Rightarrow> 'n \<Rightarrow> string option \<times> 'n" where
  "stream_loop onEvent p n =
     (case Next p of
        (Inl e, p1) \<Rightarrow> (if e = ''EOF'' then None else Some (''sse: '' @ e), n)
      | (Inr ev, p1) \<Rightarrow>
         (case onEvent ev n of
            (False, n1) \<Rightarrow> (None, n1)
          | (True, n1) \<Rightarrow> stream_loop onEvent p1 n1))"
  by pat_completeness auto

termination
  by (relation "measure (\<lambda>(f, p, n). length (pending (pr_sc p)))") (auto simp: Next_def dest!: sym [of "(_, _)"] next_loop_shrinks)

declare stream_loop.simps [simp del]

definition Stream :: "'n client \<Rightarrow> request \<Rightarrow> resolver option \<Rightarrow> (StreamMeta \<Rightarrow> 'n \<Rightarrow> 'n) \<Rightarrow> (sse_event \<Rightarrow> 'n \<Rightarrow> bool \<times> 'n)
    \<Rightarrow> 'n \<Rightarrow> string option \<times> 'n" where
  "Stream c r res onOpen onEvent n =
     (case Build (cl_env c) (cl_rand c n) r res of
        Inl e \<Rightarrow> (Some e, n)
      | Inr b \<Rightarrow>
         (let req = bt_Req b;
              b1 = (if hdr_get (hr_Header req) ''Accept'' = [] then b\<lparr>bt_Req := set_header ''Accept'' ''text/event-stream'' req\<rparr> else b)
          in case cl_Do c b1 n of
               (Inl e, n1) \<Rightarrow> (Some (error_text (sanitizeDoError (cl_env c) e)), n1)
             | (Inr w, n1) \<Rightarrow>
                if wi_StatusCode w < 200 \<or> 300 \<le> wi_StatusCode w then (Some (''sse: server returned '' @ wi_Status w), n1)
                else
                  let n2 = onOpen \<lparr>sm_StatusCode = wi_StatusCode w, sm_Status = wi_Status w, sm_Headers = wi_Header w,
                                   sm_RequestURL = request_url (cl_env c) b1\<rparr> n1
                  in stream_loop onEvent (NewParser (wi_Reads w) (case wi_Error w of None \<Rightarrow> ''EOF'' | Some e \<Rightarrow> e)) n2))"

end
