(* ===== verification/HttpClientProps.thy ===== *)
theory HttpClientProps
  imports HttpClient AuthProps
begin

text \<open>
  What \<open>Build\<close> puts on the wire, what a redirect forwards, how many exchanges a send makes and how much
  of an answer it keeps.
\<close>

section \<open>Resolving\<close>

text \<open>A step of the resolver over a list of texts: the missing names add up in order.\<close>

definition missing_of :: "resolver_fn \<Rightarrow> string list \<Rightarrow> string list" where
  "missing_of f ts = concat (map (\<lambda>s. snd (f s)) ts)"

lemma missing_of_simps [simp]:
  "missing_of f [] = []" "missing_of f (s # ts) = snd (f s) @ missing_of f ts"
  "missing_of f (ts @ us) = missing_of f ts @ missing_of f us"
  by (simp_all add: missing_of_def)

definition row_texts :: "key_value list \<Rightarrow> string list" where
  "row_texts kvs = concat (map (\<lambda>kv. [kv_Key kv, kv_Value kv]) (EnabledPairs kvs))"

definition resolved_rows :: "resolver_fn \<Rightarrow> key_value list \<Rightarrow> (string \<times> string) list" where
  "resolved_rows f kvs = map (\<lambda>kv. (fst (f (kv_Key kv)), fst (f (kv_Value kv)))) (EnabledPairs kvs)"

lemma resolving_eq [simp]: "resolving f s ms = (fst (f s), ms @ snd (f s))"
  by (simp add: resolving_def case_prod_unfold Let_def)

lemma resolve_rows_eq:
  "resolve_rows f kvs ms = (map (\<lambda>kv. (fst (f (kv_Key kv)), fst (f (kv_Value kv)))) kvs,
     ms @ missing_of f (concat (map (\<lambda>kv. [kv_Key kv, kv_Value kv]) kvs)))"
  by (induction kvs arbitrary: ms) (simp_all add: resolve_row_def Let_def)

lemma resolve_enabled [simp]:
  "resolve_rows f (EnabledPairs kvs) ms = (resolved_rows f kvs, ms @ missing_of f (row_texts kvs))"
  by (simp add: resolve_rows_eq resolved_rows_def row_texts_def)

text \<open>The texts of the path parameters that a URL uses.\<close>

definition path_row :: "key_value list \<Rightarrow> string \<Rightarrow> key_value option" where
  "path_row params name = find (\<lambda>p. kv_Enabled p \<and> kv_Key p = name) params"

definition path_texts :: "key_value list \<Rightarrow> string \<Rightarrow> string list" where
  "path_texts params url = map kv_Value (List.map_filter (path_row params) (token_names (tokens url)))"

lemma fill_missing: "snd (fill_path f params url ms) = ms @ missing_of f (path_texts params url)"
proof -
  let ?repl = "\<lambda>name ms. case path_value f params name ms of (Some v, ms1) \<Rightarrow> (v, ms1)
      | (None, ms1) \<Rightarrow> ([CHR 0x7B] @ name @ [CHR 0x7D], ms1)"
  have r: "snd (?repl n ms) = ms @ missing_of f (map kv_Value (List.map_filter (path_row params) [n]))" for n ms
    by (simp add: path_value_def path_row_def Let_def map_filter_simps split: option.split prod.split)
  have "snd (run_tokens ?repl ts ms) = ms @ missing_of f (map kv_Value (List.map_filter (path_row params) (token_names ts)))" for ts
  proof (induction ts arbitrary: ms)
    case (Cons t ts)
    then show ?case
    proof (cases t)
      case (Inr n)
      have "snd (run_tokens ?repl (t # ts) ms) = snd (run_tokens ?repl ts (snd (?repl n ms)))"
        by (simp add: Inr case_prod_unfold)
      then show ?thesis using Cons.IH [of "snd (?repl n ms)"] unfolding r
        by (simp add: Inr map_filter_simps split: option.splits)
    qed (simp add: case_prod_unfold)
  qed (simp add: map_filter_simps)
  then show ?thesis
    by (cases "params = []") (simp_all add: fill_path_def walk_tokens path_texts_def path_row_def map_filter_def)
qed

definition body_texts :: "body \<Rightarrow> string list" where
  "body_texts b =
     (let t = body_Type b in
      if t \<in> {[], BodyNone, BodyFile} then []
      else if t = BodyMultipart \<or> t = BodyForm \<and> body_Form b \<noteq> [] then row_texts (body_Form b)
      else if t = BodyGraphQL then [body_Content b, body_GraphQLVariables b]
      else [body_Content b])"

lemma buildBody_missing:
  assumes "buildBody readFile boundary b f ms = Inr (x, ms1)"
  shows "ms1 = ms @ missing_of f (body_texts b)"
  using assms
  by (auto simp: buildBody_def body_texts_def graphql_body_def file_body_def Let_def go_defs map_sum_def
      split: if_splits sum.splits)

text \<open>All texts of a request that \<open>Build\<close> resolves, in its order.\<close>

definition request_texts :: "resolver_fn \<Rightarrow> request \<Rightarrow> string list" where
  "request_texts f r =
     [rq_URL r] @ path_texts (rq_PathParams r) (fst (f (rq_URL r))) @ body_texts (rq_Body r) @
     row_texts (rq_Headers r) @ row_texts (rq_Params r) @ auth_texts (rq_Auth r)"

lemma resolve_partsE:
  assumes "resolve_parts env boundary r f = Inr (p, missing)"
  obtains url ms1 body ct ms2 where
    "fill_path f (rq_PathParams r) (fst (f (rq_URL r))) (snd (f (rq_URL r))) = (url, ms1)"
    "buildBody (be_ReadFile env) boundary (rq_Body r) f ms1 = Inr ((body, ct), ms2)"
    "p = \<lparr>pt_URL = url, pt_Body = body, pt_ContentType = ct, pt_Headers = resolved_rows f (rq_Headers r),
      pt_Params = resolved_rows f (rq_Params r), pt_Auth = ResolveValues (rq_Auth r) (Some (\<lambda>s. fst (f s)))\<rparr>"
    "missing = ms2 @ missing_of f (row_texts (rq_Headers r) @ row_texts (rq_Params r) @ auth_texts (rq_Auth r))"
  using assms
  by (auto simp: resolve_parts_def Let_def bind_result_Inr case_prod_unfold missing_of_def) (metis prod.collapse)

lemma resolve_parts_missing:
  assumes "resolve_parts env boundary r f = Inr (p, missing)"
  shows "missing = missing_of f (request_texts f r)"
  using assms
proof (rule resolve_partsE)
  fix url ms1 body ct ms2
  assume u: "fill_path f (rq_PathParams r) (fst (f (rq_URL r))) (snd (f (rq_URL r))) = (url, ms1)"
    and b: "buildBody (be_ReadFile env) boundary (rq_Body r) f ms1 = Inr ((body, ct), ms2)"
    and m: "missing = ms2 @ missing_of f (row_texts (rq_Headers r) @ row_texts (rq_Params r) @ auth_texts (rq_Auth r))"
  have "ms1 = snd (f (rq_URL r)) @ missing_of f (path_texts (rq_PathParams r) (fst (f (rq_URL r))))"
    using fill_missing u by (metis snd_conv)
  with buildBody_missing [OF b] m show ?thesis by (simp add: request_texts_def)
qed

section \<open>The query on the wire\<close>

lemma Query_rows: "Query (foldl append_param q ps) = Query q @ ps"
proof (induction ps arbitrary: q)
  case (Cons p ps)
  have "append_param q p = (if q = [] then [] else q @ ''&'') @ QueryEscape (fst p) @ ''='' @ QueryEscape (snd p)"
    by (simp add: append_param_def)
  then have "Query (append_param q p) = Query q @ [p]" by (simp only: Query_snoc) simp
  with Cons.IH show ?case by simp
qed simp

lemma Query_with_params: "Query (rurl_RawQuery (with_params ps u)) = Query (rurl_RawQuery u) @ ps"
  by (simp add: with_params_def Query_rows)

text \<open>The pair an API key in the query adds.\<close>

definition auth_pairs :: "auth \<Rightarrow> (string \<times> string) list" where
  "auth_pairs a =
     (case auth_APIKey a of
        Some k \<Rightarrow> if auth_Type a = AuthAPIKey \<and> ak_Name k \<noteq> [] \<and> ak_Placement k = ''query'' then [(ak_Name k, ak_Value k)] else []
      | None \<Rightarrow> [])"

text \<open>A result of \<open>auth.Apply\<close> that leaves the URL alone.\<close>

definition same_url :: "http_request \<Rightarrow> string option \<times> http_request \<Rightarrow> bool" where
  "same_url req x \<longleftrightarrow> hr_URL (snd x) = hr_URL req"

lemma same_url_simps [simp]:
  "same_url req (e, req)" "same_url req (authorize g req)" "same_url req (apply_wsse cr dr req w)"
  "same_url req (apply_awsv4 cr dr req aw)"
  "(\<And>v. same_url req (h v)) \<Longrightarrow> same_url req (with_some x h req)"
  by (auto simp: same_url_def authorize_def apply_wsse_def apply_awsv4_def with_some_def set_header_def Let_def
      split: sum.splits option.splits)

lemma Query_Apply:
  "Query (rurl_RawQuery (hr_URL (snd (auth_Apply cr dr resolver a req)))) = Query (rurl_RawQuery (hr_URL req)) @ auth_pairs a"
proof (cases "auth_Type a = AuthAPIKey")
  case True
  then have "auth_Apply cr dr resolver a req = with_some (auth_APIKey a) (apply_apikey req) req"
    by (simp add: auth_Apply_def go_defs)
  with True show ?thesis
    using Query_snoc [of "rurl_RawQuery (hr_URL req)"]
    by (auto simp: auth_pairs_def with_some_def apply_apikey_def set_header_def Let_def split: option.splits)
next
  case False
  then have "same_url req (auth_Apply cr dr resolver a req)"
    by (simp add: auth_Apply_def Let_def split: option.split)
  with False show ?thesis by (simp add: same_url_def auth_pairs_def split: option.split)
qed

lemma add_headers_URL [simp]: "hr_URL (add_headers hs ct req) = hr_URL req"
proof -
  have "hr_URL (foldl add_row req hs) = hr_URL req"
    by (induction hs arbitrary: req) (simp_all add: add_row_def)
  then show ?thesis by (simp add: add_headers_def set_header_def Let_def)
qed

text \<open>The law of the URL library that \<open>NewRequest\<close> relies on: a printed URL is parsed to itself.\<close>

definition reparses :: "build_env \<Rightarrow> string option \<Rightarrow> req_url \<Rightarrow> bool" where
  "reparses env user u \<longleftrightarrow> be_Parse env (be_String env user u) = Inr (user, u)"

lemma assemble_query:
  assumes "assemble env dr method p = Inr b" "be_Parse env (pt_URL p) = Inr (user, u)"
    and "reparses env user (with_params (pt_Params p) u)"
  shows "Query (rurl_RawQuery (hr_URL (bt_Req b))) = Query (rurl_RawQuery u) @ pt_Params p @ auth_pairs (pt_Auth p)"
proof -
  let ?u = "with_params (pt_Params p) u" and ?m = "if method = [] then ''GET'' else method"
  obtain b0 where n: "NewRequest env ?m (be_String env user ?u) (pt_Body p) = Inr b0"
    and c: "(case auth_Apply (be_crypto env) dr (be_oauth2 env) (pt_Auth p) (add_headers (pt_Headers p) (pt_ContentType p) (bt_Req b0)) of
      (Some e, _) \<Rightarrow> Inl (''auth: '' @ e) | (None, req) \<Rightarrow> Inr (b0\<lparr>bt_Req := req\<rparr>)) = Inr b"
    using assms(1,2) by (auto simp: assemble_def bind_result_Inr)
  have a: "b = b0\<lparr>bt_Req := snd (auth_Apply (be_crypto env) dr (be_oauth2 env) (pt_Auth p)
      (add_headers (pt_Headers p) (pt_ContentType p) (bt_Req b0)))\<rparr>"
    using c by (auto split: prod.splits option.splits)
  have "hr_URL (bt_Req b0) = ?u\<lparr>rurl_Host := trim_suffix (rurl_Host ?u) '':''\<rparr>"
    using n assms(3) by (auto simp: NewRequest_def reparses_def Let_def split: if_splits)
  with a show ?thesis by (simp add: Query_Apply Query_with_params)
qed

lemma Build_cases:
  assumes "Build env ra r res = Inr b"
  obtains p where "resolve_parts env (ra_Boundary ra) r (resolver_of res) = Inr (p, [])"
    "missing_of (resolver_of res) (request_texts (resolver_of res) r) = []"
    "assemble env (ra_Draws ra) (rq_Method r) p = Inr b"
proof -
  obtain p missing where p: "resolve_parts env (ra_Boundary ra) r (resolver_of res) = Inr (p, missing)"
    and d: "dedupe_from [] missing = []" and a: "assemble env (ra_Draws ra) (rq_Method r) p = Inr b"
    using assms by (auto simp: Build_def bind_result_Inr split: if_splits)
  have "missing = []" using d set_dedupe_from [of "[]" missing] by simp
  with p a resolve_parts_missing [OF p] show ?thesis by (intro that) auto
qed

lemma built_query:
  assumes "Build env ra r res = Inr b"
    and "be_Parse env (fst (fill_path (resolver_of res) (rq_PathParams r) (fst (resolver_of res (rq_URL r))) [])) = Inr (user, u)"
    and "reparses env user (with_params (resolved_rows (resolver_of res) (rq_Params r)) u)"
  shows "Query (rurl_RawQuery (hr_URL (bt_Req b))) =
    Query (rurl_RawQuery u) @
    map (\<lambda>kv. (fst (resolver_of res (kv_Key kv)), fst (resolver_of res (kv_Value kv)))) (EnabledPairs (rq_Params r)) @
    auth_pairs (ResolveValues (rq_Auth r) (Some (\<lambda>s. fst (resolver_of res s))))"
proof -
  obtain p where p: "resolve_parts env (ra_Boundary ra) r (resolver_of res) = Inr (p, [])"
    and m: "missing_of (resolver_of res) (request_texts (resolver_of res) r) = []"
    and a: "assemble env (ra_Draws ra) (rq_Method r) p = Inr b"
    using assms(1) by (rule Build_cases)
  have "snd (resolver_of res (rq_URL r)) = []" using m by (simp add: request_texts_def)
  with p assms(2,3) assemble_query [OF a] show ?thesis
    by (auto simp: resolved_rows_def elim!: resolve_partsE)
qed


text \<open>
  C13 The query of a built request decodes to the pairs of the URL, then the enabled parameter rows,
  resolved and in the order of the table, then the API key if the request puts it there; whatever
  characters they hold.
\<close>

theorem Build_query:
  assumes "Build env ra r res = Inr b"
    and "be_Parse env (fst (fill_path (resolver_of res) (rq_PathParams r) (fst (resolver_of res (rq_URL r))) [])) = Inr (user, u)"
    and "reparses env user (with_params (resolved_rows (resolver_of res) (rq_Params r)) u)"
  shows "Query (rurl_RawQuery (hr_URL (bt_Req b))) =
    Query (rurl_RawQuery u) @
    map (\<lambda>kv. (fst (resolver_of res (kv_Key kv)), fst (resolver_of res (kv_Value kv)))) (EnabledPairs (rq_Params r)) @
    auth_pairs (ResolveValues (rq_Auth r) (Some (\<lambda>s. fst (resolver_of res s))))"
  by (rule built_query [OF assms])

definition sample_env :: build_env where
  "sample_env =
     \<lparr>be_Parse = (\<lambda>s. case cut s CHR ''?'' of (_, q, _) \<Rightarrow> Inr (None, (hr_URL sample_http)\<lparr>rurl_RawQuery := q\<rparr>)),
      be_String = (\<lambda>user u. ''http://h/?'' @ rurl_RawQuery u), be_ReadFile = Inl, be_crypto = sample_crypto, be_oauth2 = None\<rparr>"

definition sample_rand :: rand where
  "sample_rand = \<lparr>ra_Boundary = ''b'', ra_Draws = sample_draws, ra_Cnonce = Inl ''none'', ra_Challenge = Inl ''none'', ra_now = 0\<rparr>"

definition query_request :: request where
  "query_request = zero_request\<lparr>rq_URL := ''http://h/?a=1'',
     rq_Params := [\<lparr>kv_Enabled = True, kv_Key = ''k&'', kv_Value = ''a=1'', kv_Description = []\<rparr>,
       \<lparr>kv_Enabled = False, kv_Key = ''off'', kv_Value = [], kv_Description = []\<rparr>],
     rq_Auth := (auth_of_type AuthAPIKey)\<lparr>auth_APIKey := Some \<lparr>ak_Name = ''key'', ak_Value = ''s'', ak_Placement = ''query''\<rparr>\<rparr>\<rparr>"

theorem Build_query_witness:
  "\<exists>b. Build sample_env sample_rand query_request None = Inr b \<and>
    Query (rurl_RawQuery (hr_URL (bt_Req b))) = [(''a'', ''1''), (''k&'', ''a=1''), (''key'', ''s'')]"
proof -
  have "case Build sample_env sample_rand query_request None of Inr _ \<Rightarrow> True | Inl _ \<Rightarrow> False" by code_simp
  then obtain b where b: "Build sample_env sample_rand query_request None = Inr b" by (auto split: sum.splits)
  have p: "be_Parse sample_env (fst (fill_path (resolver_of None) (rq_PathParams query_request)
      (fst (resolver_of None (rq_URL query_request))) [])) = Inr (None, (hr_URL sample_http)\<lparr>rurl_RawQuery := ''a=1''\<rparr>)"
    by code_simp
  have r: "reparses sample_env None (with_params (resolved_rows (resolver_of None) (rq_Params query_request))
      ((hr_URL sample_http)\<lparr>rurl_RawQuery := ''a=1''\<rparr>))"
    by code_simp
  have q: "Query (rurl_RawQuery ((hr_URL sample_http)\<lparr>rurl_RawQuery := ''a=1''\<rparr>)) = [(''a'', ''1'')]"
    "map (\<lambda>kv. (fst (resolver_of None (kv_Key kv)), fst (resolver_of None (kv_Value kv)))) (EnabledPairs (rq_Params query_request)) = [(''k&'', ''a=1'')]"
    "auth_pairs (ResolveValues (rq_Auth query_request) (Some (\<lambda>s. fst (resolver_of None s)))) = [(''key'', ''s'')]"
    by code_simp+
  from Build_query [OF b p r] b show ?thesis unfolding q by simp
qed

section \<open>Missing variables\<close>

text \<open>
  Nothing with an unresolved variable goes on the wire: \<open>Build\<close> goes on only if every text of the request
  (its URL, the path parameters the URL uses, its body, headers, parameters and authentication)
  resolves, and otherwise its error names exactly the missing ones, each once.
\<close>

theorem Build_missing:
  assumes "resolve_parts env (ra_Boundary ra) r (resolver_of res) = Inr (p, missing)"
  shows "Build env ra r res =
    (if \<forall>s\<in>set (request_texts (resolver_of res) r). snd (resolver_of res s) = []
     then assemble env (ra_Draws ra) (rq_Method r) p
     else Inl (''unresolved variables: '' @ join '', '' (dedupe_from []
       (concat (map (\<lambda>s. snd (resolver_of res s)) (request_texts (resolver_of res) r))))))"
proof -
  have m: "missing = missing_of (resolver_of res) (request_texts (resolver_of res) r)"
    by (rule resolve_parts_missing [OF assms])
  have "dedupe_from [] missing = [] \<longleftrightarrow> missing = []"
    using set_dedupe_from [of "[]" missing] by auto
  then show ?thesis using m by (auto simp: Build_def assms missing_of_def)
qed

section \<open>Redirects\<close>

lemma hdr_values_del: "hdr_values (hdr_del k h) k' = (if canonical_key k = canonical_key k' then [] else hdr_values h k')"
  by (simp add: hdr_values_def hdr_del_def delete_conv')

lemma hdr_values_dels:
  "hdr_values (fold hdr_del ks h) k = (if canonical_key k \<in> canonical_key ` set ks then [] else hdr_values h k)"
  by (induction ks arbitrary: h) (auto simp: hdr_values_del)



text \<open>A header that is not flagged, such as \<open>X-WSSE\<close> or a \<open>Cookie\<close> the user wrote, goes on in clear text after a downgrade.\<close>

lemma downgrade_keeps_cookie:
  "hdr_values (hr_Header (snd (CheckRedirect DefaultSettings [] [(hr_URL sample_http)\<lparr>rurl_Scheme := ''https''\<rparr>]
    (sample_http\<lparr>hr_Header := [(''Cookie'', [''sid=1'']), (''X-Wsse'', [''t''])]\<rparr>)))) ''Cookie'' = [''sid=1'']"
  by code_simp

section \<open>Exchanges\<close>

definition run_exchanges :: "'n client \<Rightarrow> built list \<Rightarrow> 'n \<Rightarrow> 'n" where
  "run_exchanges c bs n = fold (\<lambda>b n. snd (cl_Do c b n)) bs n"

definition variant_of :: "'n client \<Rightarrow> request \<Rightarrow> resolver option \<Rightarrow> built \<Rightarrow> bool" where
  "variant_of c r res b \<longleftrightarrow>
     (\<exists>ra b0. Build (cl_env c) ra r res = Inr b0 \<and> (b = b0 \<or> (\<exists>hdr. b = authorized_by hdr b0)))"

text \<open>A part of a send that makes at most \<open>k\<close> exchanges.\<close>

definition makes :: "'n client \<Rightarrow> request \<Rightarrow> resolver option \<Rightarrow> nat \<Rightarrow> 'n \<Rightarrow> 'n \<Rightarrow> bool" where
  "makes c r res k n n1 \<longleftrightarrow>
     (\<exists>bs. n1 = run_exchanges c bs n \<and> length bs \<le> k \<and> (\<forall>b\<in>set bs. variant_of c r res b))"

lemma makes_none [simp]: "makes c r res k n n"
  unfolding makes_def by (rule exI [of _ "[]"]) (simp add: run_exchanges_def)

lemma makes_one: "cl_Do c b n = (x, n1) \<Longrightarrow> variant_of c r res b \<Longrightarrow> 0 < k \<Longrightarrow> makes c r res k n n1"
  unfolding makes_def by (rule exI [of _ "[b]"]) (simp add: run_exchanges_def)

lemma makes_trans: "makes c r res j n n1 \<Longrightarrow> makes c r res k n1 n2 \<Longrightarrow> makes c r res (j + k) n n2"
  unfolding makes_def
  by (elim exE, rename_tac bs cs, rule_tac x = "bs @ cs" in exI) (auto simp: run_exchanges_def)

lemma variant_built [intro]: "Build (cl_env c) ra r res = Inr b \<Longrightarrow> variant_of c r res b"
  "Build (cl_env c) ra r res = Inr b \<Longrightarrow> variant_of c r res (authorized_by hdr b)"
  by (auto simp: variant_of_def)

lemma digest_makes: "makes c r res (if auth_Type (rq_Auth r) = AuthDigest then 1 else 0) n (snd (digest_retry c r res b x n))"
  by (auto simp: digest_retry_def intro: makes_one split: option.splits sum.splits prod.splits)

lemma handshake_makes: "makes c r res 2 n (snd (ntlmHandshake c r res creds n))"
proof (cases "Build (cl_env c) (cl_rand c n) r res")
  case (Inr b1)
  obtain y n1 where d: "cl_Do c (authorized_by NTLMNegotiateHeader b1) n = (y, n1)" by fastforce
  have one: "makes c r res 1 n n1" by (rule makes_one [OF d]) (use Inr in auto)
  then have two: "makes c r res 2 n n1" unfolding makes_def by fastforce
  have more: "makes c r res 2 n n2" if "cl_Do c (authorized_by hdr b2) n1 = (z, n2)" "Build (cl_env c) ra r res = Inr b2" for hdr b2 z n2 ra
    using makes_trans [OF one makes_one [OF that(1), of r res 1]] that(2) by (auto simp: numeral_2_eq_2)
  show ?thesis
    by (simp add: ntlmHandshake_def Inr d Let_def split: sum.split option.split prod.split) (use two more in blast)
qed (simp add: ntlmHandshake_def)

lemma ntlm_makes: "makes c r res (if auth_Type (rq_Auth r) = AuthNTLM then 2 else 0) n (snd (ntlm_retry c r res x n))"
  using handshake_makes [of c r res n] by (auto simp: ntlm_retry_def split: option.split prod.split) (metis snd_conv)+

text \<open>
  C14 A send makes one exchange, a digest one two and an NTLM one three at most, however the server
  answers; and each exchange is the request as built, with at most the \<open>Authorization\<close> header set anew.
\<close>

theorem send_exchanges_bounded:
  "\<exists>bs. snd (client_send c r res n) = run_exchanges c bs n \<and>
    length bs \<le> (if auth_Type (rq_Auth r) = AuthNTLM then 3 else if auth_Type (rq_Auth r) = AuthDigest then 2 else 1) \<and>
    list_all (variant_of c r res) bs"
proof (cases "Build (cl_env c) (cl_rand c n) r res")
  case (Inr b)
  let ?d = "if auth_Type (rq_Auth r) = AuthDigest then 1 else 0 :: nat" and ?m = "if auth_Type (rq_Auth r) = AuthNTLM then 2 else 0 :: nat"
  obtain y n1 where d: "cl_Do c b n = (y, n1)" by fastforce
  have one: "makes c r res 1 n n1" by (rule makes_one [OF d]) (use Inr in auto)
  have "makes c r res (1 + (?d + ?m)) n (snd (client_send c r res n))"
  proof (cases y)
    case (Inl e)
    then show ?thesis using makes_trans [OF one makes_none] by (simp add: client_send_def Inr d)
  next
    case y: (Inr w)
    obtain x1 n2 where x1: "digest_retry c r res b (w, bt_Body b) n1 = (x1, n2)" by fastforce
    obtain x2 n3 where x2: "ntlm_retry c r res x1 n2 = (x2, n3)" by fastforce
    have "makes c r res ?d n1 n2" "makes c r res ?m n2 n3"
      using digest_makes [of c r res n1 b] ntlm_makes [of c r res n2] x1 x2 by (metis snd_conv)+
    then have "makes c r res (1 + (?d + ?m)) n n3" by (intro makes_trans [OF one] makes_trans)
    then show ?thesis by (simp add: client_send_def Inr d y x1 x2)
  qed
  then show ?thesis by (auto simp: makes_def list_all_iff go_defs split: if_splits)
qed (simp add: client_send_def run_exchanges_def exI [of _ "[]"])

section \<open>Bodies within the cap\<close>

lemma wrap64_id: "- (2 ^ 63) \<le> n \<Longrightarrow> n < 2 ^ 63 \<Longrightarrow> wrap64 n = n"
  by (simp add: wrap64_def)

lemma maxResponseBytes_pos: "0 < maxResponseBytes s"
  by (simp add: maxResponseBytes_def DefaultMaxResponseBytes_def)

text \<open>
  C16 Reading with a cap is exact: a body that is longer is cut at the cap and flagged, and its reader is
  not asked any further; any other body is read to its end, where an error of the reader is an
  error.
\<close>

theorem readCapped_exact:
  assumes "0 \<le> cap" and "cap < 2 ^ 63 - 1"
  shows "readCapped w cap =
    (let data = concat (wi_Reads w) in
     if cap < int (length data) then Inr (take (nat cap) data, True)
     else case wi_Error w of None \<Rightarrow> Inr (data, False) | Some e \<Rightarrow> Inl e)"
proof -
  have w: "wrap64 (cap + 1) = cap + 1" using assms by (intro wrap64_id) auto
  have "take (nat cap) (take (nat (cap + 1)) d) = take (nat cap) d" for d :: string
    by (simp add: min_def nat_le_eq_zle)
  then show ?thesis
    using assms(1) by (auto simp: readCapped_def ReadLimited_def w Let_def nat_less_iff split: option.split)
qed

definition wire_of :: "int \<Rightarrow> headers \<Rightarrow> string list \<Rightarrow> string option \<Rightarrow> wire" where
  "wire_of code h reads e = \<lparr>wi_StatusCode = code, wi_Status = [], wi_Proto = [], wi_Header = h, wi_Reads = reads, wi_Error = e\<rparr>"

theorem readCapped_exact_witness:
  "readCapped (wire_of 200 [] [''ab'', ''cd''] (Some ''reset'')) 3 = Inr (''abc'', True) \<and>
   readCapped (wire_of 200 [] [''ab'', ''cd''] (Some ''reset'')) 4 = Inl ''reset''"
  using readCapped_exact [of 3 "wire_of 200 [] [''ab'', ''cd''] (Some ''reset'')"]
    readCapped_exact [of 4 "wire_of 200 [] [''ab'', ''cd''] (Some ''reset'')"]
  by (simp add: wire_of_def)

lemma response_body_capped:
  assumes "response_of c b x = Inr resp"
  shows "int (length (rs_Body resp)) \<le> maxResponseBytes (cl_settings c)"
  using assms maxResponseBytes_pos [of "cl_settings c"]
  by (auto simp: response_of_def readCapped_def ReadLimited_def Let_def split: sum.splits prod.splits option.splits if_splits)

text \<open>The largest cap wraps to a limit below zero: every answer is then read as an empty one, without error.\<close>

theorem largest_cap_reads_nothing: "readCapped w (2 ^ 63 - 1) = Inr ([], False)"
  by (simp add: readCapped_def ReadLimited_def wrap64_def)

text \<open>
  After an NTLM handshake that fails, the user sees the first answer; but when its body is longer
  than the cap, the part that was read is shown as if it were all of it.
\<close>

theorem failed_handshake_unflagged:
  assumes "wi_StatusCode w = 401" and "auth_Type (rq_Auth r) = AuthNTLM"
    and "NTLMOffered (hdr_values (wi_Header w) ''Www-Authenticate'')"
    and "auth_NTLM (retry_creds r res) = Some creds" and "fst (ntlmHandshake c r res creds n) = None"
    and "maxResponseBytes (cl_settings c) < 2 ^ 63 - 1"
    and "maxResponseBytes (cl_settings c) < int (length (concat (wi_Reads w)))"
  shows "case response_of c b (fst (ntlm_retry c r res (w, body) n)) of
      Inr resp \<Rightarrow> rs_StatusCode resp = 401 \<and>
        rs_Body resp = take (nat (maxResponseBytes (cl_settings c))) (concat (wi_Reads w)) \<and> \<not> rs_Truncated resp
    | Inl e \<Rightarrow> False"
proof -
  let ?cap = "maxResponseBytes (cl_settings c)"
  have x: "fst (ntlm_retry c r res (w, body) n) = (restored (cl_settings c) w, body)"
    using assms(1-5) by (auto simp: ntlm_retry_def split: prod.split)
  have d: "drainBodyBytes (cl_settings c) w = take (nat ?cap) (concat (wi_Reads w))"
    using assms(7) maxResponseBytes_pos [of "cl_settings c"] by (simp add: drainBodyBytes_def ReadLimited_def Let_def)
  have "\<not> ?cap < int (length (take (nat ?cap) (concat (wi_Reads w))))"
    using maxResponseBytes_pos [of "cl_settings c"] by simp
  then have "readCapped (restored (cl_settings c) w) ?cap = Inr (take (nat ?cap) (concat (wi_Reads w)), False)"
    using readCapped_exact [of ?cap "restored (cl_settings c) w"] assms(6) maxResponseBytes_pos [of "cl_settings c"]
    by (simp add: restored_def d)
  then show ?thesis using assms(1) by (simp add: x response_of_def restored_def Let_def)
qed

definition refusing_client :: "nat client" where
  "refusing_client =
     \<lparr>cl_settings = DefaultSettings\<lparr>se_MaxResponseBytes := 2\<rparr>, cl_env = sample_env, cl_rand = (\<lambda>_. sample_rand),
      cl_Do = (\<lambda>b n. (Inl (OtherError ''closed''), Suc n)), cl_hmac = (\<lambda>_ m. m), cl_Decode64 = Inl, cl_RequestURI = rurl_Path\<rparr>"

definition ntlm_request :: request where
  "ntlm_request = query_request\<lparr>rq_Auth := (auth_of_type AuthNTLM)\<lparr>auth_NTLM :=
     Some \<lparr>nt_Username = ''u'', nt_Password = ''p'', nt_Domain = [], nt_Workstation = []\<rparr>\<rparr>\<rparr>"

theorem failed_handshake_unflagged_witness:
  "case response_of refusing_client b (fst (ntlm_retry refusing_client ntlm_request None
      (wire_of 401 [(''Www-Authenticate'', [''NTLM''])] [''a'', ''bcd''] None, None) 0)) of
     Inr resp \<Rightarrow> rs_Body resp = ''ab'' \<and> \<not> rs_Truncated resp | Inl e \<Rightarrow> False"
proof -
  let ?w = "wire_of 401 [(''Www-Authenticate'', [''NTLM''])] [''a'', ''bcd''] None"
  let ?creds = "\<lparr>nt_Username = ''u'', nt_Password = ''p'', nt_Domain = [], nt_Workstation = []\<rparr>"
  have v: "hdr_values (wi_Header ?w) ''Www-Authenticate'' = [''NTLM'']" unfolding wire_of_def by code_simp
  have "words_of ''NTLM'' = [''NTLM'']" by (subst words_of.simps, simp add: ascii_blank_def between_def words_of.simps [of "[]"])
  then have o: "NTLMOffered (hdr_values (wi_Header ?w) ''Www-Authenticate'')"
    unfolding v by (simp add: NTLMOffered_def equal_fold_def)
  have c: "auth_NTLM (retry_creds ntlm_request None) = Some ?creds" by code_simp
  have h: "fst (ntlmHandshake refusing_client ntlm_request None ?creds 0) = None"
    by (simp add: ntlmHandshake_def refusing_client_def split: sum.split)
  have "maxResponseBytes (cl_settings refusing_client) = 2" by (simp add: refusing_client_def maxResponseBytes_def)
  with failed_handshake_unflagged [OF _ _ o c h, of b None] show ?thesis
    by (auto simp: wire_of_def ntlm_request_def auth_of_type_def split: sum.splits)
qed

section \<open>Streams\<close>

text \<open>What a callback sees of a list of events, and how the stream ends.\<close>

fun deliver :: "(sse_event \<Rightarrow> 'n \<Rightarrow> bool \<times> 'n) \<Rightarrow> sse_event list \<Rightarrow> string \<Rightarrow> 'n \<Rightarrow> string option \<times> 'n" where
  "deliver onEvent [] e n = (if e = ''EOF'' then None else Some (''sse: '' @ e), n)"
| "deliver onEvent (ev # evs) e n =
     (case onEvent ev n of (False, n1) \<Rightarrow> (None, n1) | (True, n1) \<Rightarrow> deliver onEvent evs e n1)"

lemma stream_loop_drain: "stream_loop onEvent p n = deliver onEvent (fst (drain p)) (snd (drain p)) n"
proof (induction p arbitrary: n rule: drain.induct)
  case (1 p)
  obtain x p1 where p: "Next p = (x, p1)" by fastforce
  show ?case
  proof (cases x)
    case (Inr ev)
    have "drain p = apfst (Cons ev) (drain p1)" by (subst drain.simps) (simp add: p Inr)
    moreover have "stream_loop onEvent p n = (case onEvent ev n of (False, n1) \<Rightarrow> (None, n1) | (True, n1) \<Rightarrow> stream_loop onEvent p1 n1)"
      by (subst stream_loop.simps) (simp add: p Inr)
    ultimately show ?thesis using "1.IH" p Inr by (simp split: prod.split bool.split)
  qed (subst stream_loop.simps, subst drain.simps, subst drain.simps, simp add: p)
qed

text \<open>A stream with lines within the limit delivers the events that its lines spell, however it is cut into reads.\<close>

lemma stream_events:
  assumes "\<forall>l\<in>set (es_lines (concat reads)). length l + 2 \<le> maxLine"
  shows "stream_loop onEvent (NewParser reads failure) n =
    deliver onEvent (events_of ([], [], False) ([], 0) (es_lines (concat reads))) failure n"
  by (simp add: stream_loop_drain drain_new [OF assms])

section \<open>The CORS advice\<close>

text \<open>The advice accepts \<open>True\<close> for \<open>Access-Control-Allow-Credentials\<close>; browsers compare it byte for byte with \<open>true\<close>.\<close>

lemma advice_ignores_case:
  "corsAdvisory ''https://a'' True
     [(''Access-Control-Allow-Origin'', [''https://a'']), (''Access-Control-Allow-Credentials'', [''True''])] = []"
  by code_simp

end
