(* ===== verification/Responsefmt.thy ===== *)
theory Responsefmt
  imports GoJson
begin

text \<open>
  \<open>internal/responsefmt/responsefmt.go\<close>: the JSON pretty printer, the header list and the sizes and
  durations of the response view. \<open>PrettyXML\<close> is the XML library and not modelled.
\<close>

section \<open>JSON texts\<close>

text \<open>A line break and two blanks per level.\<close>

definition new_line :: "nat \<Rightarrow> string" where
  "new_line d = CHR 0x0A # replicate (2 * d) CHR '' ''"

definition opener :: "char \<Rightarrow> bool" where "opener c \<longleftrightarrow> c = CHR 0x7B \<or> c = CHR ''[''"
definition closer :: "char \<Rightarrow> bool" where "closer c \<longleftrightarrow> c = CHR 0x7D \<or> c = CHR '']''"

text \<open>
  The copy loops of \<open>json.Indent\<close> and \<open>json.Compact\<close> on a valid text. The state in a string is \<open>InStr\<close>, with a flag after a
  backslash; outside, \<open>Out\<close> has the depth and whether a line break is owed for an opened value.
\<close>

datatype text_state = Out nat bool | InStr nat bool

fun indent_from :: "text_state \<Rightarrow> string \<Rightarrow> string" where
  "indent_from st [] = []"
| "indent_from (InStr d esc) (c # s) =
     c # indent_from (if esc then InStr d False else if c = CHR 0x5C then InStr d True
                      else if c = CHR 0x22 then Out d False else InStr d False) s"
| "indent_from (Out d owed) (c # s) =
     (if json_space c then indent_from (Out d owed) s
      else if closer c then
        (if owed then c # indent_from (Out d False) s else new_line (d - 1) @ c # indent_from (Out (d - 1) False) s)
      else
        let d = (if owed then Suc d else d) in
        (if owed then new_line d else []) @
        (if opener c then c # indent_from (Out d True) s
         else if c = CHR '','' then c # new_line d @ indent_from (Out d False) s
         else if c = CHR '':'' then c # CHR '' '' # indent_from (Out d False) s
         else if c = CHR 0x22 then c # indent_from (InStr d False) s
         else c # indent_from (Out d False) s))"

text \<open>\<open>Indent\<close> drops leading space and keeps the trailing one.\<close>

definition json_Indent :: "string \<Rightarrow> string option" where
  "json_Indent s =
     (if Unmarshal s = None then None
      else let trailing = takeWhile json_space (rev s) in
        Some (indent_from (Out 0 False) (take (length s - length trailing) s) @ rev trailing))"

definition PrettyJSON :: "string \<Rightarrow> string option" where
  "PrettyJSON body = json_Indent body"

section \<open>Headers\<close>

definition FormatHeaders :: "headers \<Rightarrow> string" where
  "FormatHeaders h =
     concat (map (\<lambda>k. concat (map (\<lambda>v. k @ '': '' @ v @ [CHR 0x0A]) (case map_of h k of Some vs \<Rightarrow> vs | None \<Rightarrow> [])))
       (sort (map fst h)))"

section \<open>Sizes and durations\<close>

text \<open>\<open>%.1f\<close> of \<open>n / k\<close> for a power of two: the tenths, rounded half to even; exact below \<open>2 ^ 53\<close>.\<close>

definition tenths :: "int \<Rightarrow> int \<Rightarrow> int" where
  "tenths n k =
     (let q = 10 * n div k; r = 10 * n mod k in if k < 2 * r \<or> 2 * r = k \<and> odd q then q + 1 else q)"

definition one_decimal :: "int \<Rightarrow> int \<Rightarrow> string" where
  "one_decimal n k = itoa (tenths n k div 10) @ ''.'' @ itoa (tenths n k mod 10)"

definition HumanSize :: "int \<Rightarrow> string" where
  "HumanSize n =
     (if n < 1024 then itoa n @ '' B''
      else if n < 1024 ^ 2 then one_decimal n 1024 @ '' KB''
      else if n < 1024 ^ 3 then one_decimal n (1024 ^ 2) @ '' MB''
      else one_decimal n (1024 ^ 3) @ '' GB'')"

text \<open>\<open>fixed2\<close> is \<open>%.2f\<close> of a duration in seconds, which is not an exact number there. Durations are not negative.\<close>

definition HumanDuration :: "(int \<Rightarrow> string) \<Rightarrow> int \<Rightarrow> string" where
  "HumanDuration fixed2 d =
     (if d < 10 ^ 9 then itoa (d div 10 ^ 6) @ '' ms''
      else if d < 60 * 10 ^ 9 then fixed2 d @ '' s''
      else itoa (d div (60 * 10 ^ 9)) @ ''m '' @ itoa (d mod (60 * 10 ^ 9) div 10 ^ 9) @ ''s'')"

section \<open>Only white space changes\<close>

text \<open>A JSON text without its white space, except in strings.\<close>

fun bare :: "bool option \<Rightarrow> string \<Rightarrow> string" where
  "bare st [] = []"
| "bare (Some esc) (c # s) =
     c # bare (if esc then Some False else if c = CHR 0x5C then Some True else if c = CHR 0x22 then None else Some False) s"
| "bare None (c # s) = (if json_space c then bare None s else c # bare (if c = CHR 0x22 then Some False else None) s)"

definition in_string :: "text_state \<Rightarrow> bool option" where
  "in_string st = (case st of Out _ _ \<Rightarrow> None | InStr _ esc \<Rightarrow> Some esc)"

lemma json_space_not: "json_space c \<Longrightarrow> \<not> closer c \<and> \<not> opener c \<and> c \<noteq> CHR 0x22 \<and> c \<noteq> CHR '','' \<and> c \<noteq> CHR '':''"
  by (auto simp: json_space_def closer_def opener_def)

lemma bare_spaces: "list_all json_space w \<Longrightarrow> bare None (w @ s) = bare None s"
  by (induction w) auto

lemma bare_new_line [simp]: "bare None (new_line d @ s) = bare None s"
  by (rule bare_spaces) (simp add: new_line_def json_space_def list_all_iff)

lemma bare_blank [simp]: "bare None (CHR '' '' # s) = bare None s"
  by (simp add: json_space_def)

lemma json_space_blank [simp]: "json_space CHR '' ''"
  by (simp add: json_space_def)

lemma bare_indent: "bare (in_string st) (indent_from st s @ w) = bare (in_string st) (s @ w)"
proof (induction st s rule: indent_from.induct)
  case (3 d owed c s)
  have "json_space c \<Longrightarrow> ?case" using 3(1) by (simp add: in_string_def)
  moreover have "\<not> json_space c \<Longrightarrow> closer c \<Longrightarrow> ?case"
    using 3(2,3) by (auto simp: in_string_def closer_def)
  moreover have "\<not> json_space c \<Longrightarrow> \<not> closer c \<Longrightarrow> ?case"
    using 3(4-) by (cases "opener c"; cases "c = CHR '',''"; cases "c = CHR '':''"; cases "c = CHR 0x22")
      (auto simp: in_string_def opener_def Let_def)
  ultimately show ?case by blast
next
  case (2 d esc c s)
  then show ?case by (cases esc; cases "c = CHR 0x5C"; cases "c = CHR 0x22") (simp_all add: in_string_def)
qed simp

text \<open>
  Pretty printing changes nothing but white space outside strings, and fails only on text that is not
  JSON.
\<close>

theorem PrettyJSON_same_tokens:
  "case PrettyJSON s of Some t \<Rightarrow> bare None t = bare None s | None \<Rightarrow> Unmarshal s = None"
proof -
  define w where "w = rev (takeWhile json_space (rev s))"
  have "rev s = takeWhile json_space (rev s) @ dropWhile json_space (rev s)" by simp
  then have s: "s = take (length s - length w) s @ w"
    by (metis append_take_drop_id length_rev rev_append rev_rev_ident w_def append_eq_append_conv diff_diff_cancel length_drop length_takeWhile_le)
  have "bare None (indent_from (Out 0 False) (take (length s - length w) s) @ w) = bare None s"
    using bare_indent [of "Out 0 False" "take (length s - length w) s" w] s by (simp add: in_string_def)
  then show ?thesis by (simp add: PrettyJSON_def json_Indent_def w_def Let_def)
qed

text \<open>A size just below a unit is rounded up to it: \<open>1024.0 KB\<close>.\<close>

lemma size_below_unit: "HumanSize (1024 ^ 2 - 1) = ''1024.0 KB''"
  by code_simp

end
