(* ===== verification/Postman.thy ===== *)
theory Postman
  imports Responsefmt HttpClientProps
begin

text \<open>
  \<open>internal/importer/postman.go\<close>: Postman collections, decoded from JSON as \<open>encoding/json\<close> fills the
  structs of the file, and converted. An object that repeats a member is read by its last one. What a
  number looks like in an auth value is a parameter, and so are the fresh identities: the \<open>n\<close>-th
  draw of \<open>model.NewID\<close> is \<open>ids n\<close>.
\<close>

section \<open>Decoding\<close>

text \<open>
  The value of a struct field: the last member whose name is the field's up to case. \<open>None\<close> as the
  result of a decoder is an error of \<open>json.Unmarshal\<close>.
\<close>

definition json_field :: "(string \<times> json) list \<Rightarrow> string \<Rightarrow> json" where
  "json_field ms k = (case find (\<lambda>m. equal_fold (fst m) k) (rev ms) of Some (_, v) \<Rightarrow> v | None \<Rightarrow> JNull)"

lemma size_json_field: "size (json_field ms k) < size (JObj ms)"
proof (cases "find (\<lambda>m. equal_fold (fst m) k) (rev ms)")
  case (Some m)
  then have "m \<in> set ms" by (auto simp: find_Some_iff) (metis length_rev nth_mem set_rev)
  then have "size_prod (\<lambda>_. 0) size m \<le> size_list (size_prod (\<lambda>_. 0) size) ms"
    by (metis size_list_estimation' order_refl)
  with Some show ?thesis by (cases m) (auto simp: json_field_def)
qed (simp add: json_field_def)

fun dec_string :: "json \<Rightarrow> string option" where
  "dec_string JNull = Some []"
| "dec_string (JStr s) = Some s"
| "dec_string _ = None"

fun dec_bool :: "json \<Rightarrow> bool option" where
  "dec_bool JNull = Some False"
| "dec_bool (JBool b) = Some b"
| "dec_bool _ = None"

fun all_some :: "'a option list \<Rightarrow> 'a list option" where
  "all_some [] = Some []"
| "all_some (x # xs) = (case (x, all_some xs) of (Some a, Some as) \<Rightarrow> Some (a # as) | _ \<Rightarrow> None)"

fun dec_list :: "(json \<Rightarrow> 'a option) \<Rightarrow> json \<Rightarrow> 'a list option" where
  "dec_list f JNull = Some []"
| "dec_list f (JArr vs) = all_some (map f vs)"
| "dec_list f _ = None"

text \<open>A struct: \<open>null\<close> leaves the zero value, which the decoder of the members gives for no members.\<close>

fun dec_struct :: "((string \<times> json) list \<Rightarrow> 'a option) \<Rightarrow> json \<Rightarrow> 'a option" where
  "dec_struct f JNull = f []"
| "dec_struct f (JObj ms) = f ms"
| "dec_struct f _ = None"

definition dec_ptr :: "(json \<Rightarrow> 'a option) \<Rightarrow> json \<Rightarrow> 'a option option" where
  "dec_ptr f v = (if v = JNull then Some None else map_option Some (f v))"

section \<open>The document\<close>

text \<open>\<open>pmHeader\<close>, \<open>pmQuery\<close> and \<open>pmFormParam\<close> have the same fields.\<close>

record pm_row =
  pw_Key :: string
  pw_Value :: string
  pw_Disabled :: bool
  pw_Description :: string

record pmURL =
  pu_Raw :: string
  pu_Host :: "string list"
  pu_Path :: "string list"
  pu_Query :: "pm_row list"

record pmGraphQL =
  pg_Query :: string
  pg_Variables :: string

record pmBody =
  pb_Mode :: string
  pb_Raw :: string
  pb_Language :: string
  pb_URLEncoded :: "pm_row list"
  pb_FormData :: "pm_row list"
  pb_GraphQL :: "pmGraphQL option"

type_synonym pmAuthParam = "string \<times> json"

record pmAuth =
  pa_Type :: string
  pa_Bearer :: "pmAuthParam list"
  pa_Basic :: "pmAuthParam list"
  pa_APIKey :: "pmAuthParam list"

record pmRequest =
  pr_Method :: string
  pr_Header :: "pm_row list"
  pr_URL :: pmURL
  pr_Body :: "pmBody option"
  pr_Auth :: "pmAuth option"
  pr_Description :: string

datatype pmItem = PmItem (pi_Name: string) (pi_Item: "pmItem list") (pi_Request: "pmRequest option") (pi_Auth: "pmAuth option")

record pmCollection =
  pc_Name :: string
  pc_Item :: "pmItem list"
  pc_Auth :: "pmAuth option"

definition row_of_json :: "json \<Rightarrow> pm_row option" where
  "row_of_json = dec_struct (\<lambda>ms.
     case (dec_string (json_field ms ''key''), dec_string (json_field ms ''value''), dec_bool (json_field ms ''disabled''),
           dec_string (json_field ms ''description'')) of
       (Some k, Some v, Some d, Some e) \<Rightarrow> Some \<lparr>pw_Key = k, pw_Value = v, pw_Disabled = d, pw_Description = e\<rparr>
     | _ \<Rightarrow> None)"

text \<open>An array of strings or one string; a value of another type counts as absent.\<close>

definition pmStringList :: "json \<Rightarrow> string list" where
  "pmStringList v =
     (case dec_list dec_string v of
        Some l \<Rightarrow> l
      | None \<Rightarrow> (case dec_string v of Some s \<Rightarrow> if s \<noteq> [] then [s] else [] | None \<Rightarrow> []))"

text \<open>\<open>pmURL.UnmarshalJSON\<close>: a string, or an object.\<close>

definition url_of_json :: "json \<Rightarrow> pmURL option" where
  "url_of_json v =
     (case dec_string v of
        Some s \<Rightarrow> Some \<lparr>pu_Raw = s, pu_Host = [], pu_Path = [], pu_Query = []\<rparr>
      | None \<Rightarrow> dec_struct (\<lambda>ms.
          case (dec_string (json_field ms ''raw''), dec_list row_of_json (json_field ms ''query'')) of
            (Some raw, Some q) \<Rightarrow> Some \<lparr>pu_Raw = raw, pu_Host = pmStringList (json_field ms ''host''),
               pu_Path = pmStringList (json_field ms ''path''), pu_Query = q\<rparr>
          | _ \<Rightarrow> None) v)"

definition graphql_of_json :: "json \<Rightarrow> pmGraphQL option" where
  "graphql_of_json = dec_struct (\<lambda>ms.
     case (dec_string (json_field ms ''query''), dec_string (json_field ms ''variables'')) of
       (Some q, Some v) \<Rightarrow> Some \<lparr>pg_Query = q, pg_Variables = v\<rparr> | _ \<Rightarrow> None)"

definition language_of_json :: "json \<Rightarrow> string option" where
  "language_of_json = dec_struct (\<lambda>ms. dec_struct (\<lambda>ms. dec_string (json_field ms ''language'')) (json_field ms ''raw''))"

definition body_of_json :: "json \<Rightarrow> pmBody option" where
  "body_of_json = dec_struct (\<lambda>ms.
     case (dec_string (json_field ms ''mode''), dec_string (json_field ms ''raw''), language_of_json (json_field ms ''options''),
           dec_list row_of_json (json_field ms ''urlencoded''), dec_list row_of_json (json_field ms ''formdata''),
           dec_ptr graphql_of_json (json_field ms ''graphql'')) of
       (Some m, Some r, Some l, Some u, Some f, Some g) \<Rightarrow>
         Some \<lparr>pb_Mode = m, pb_Raw = r, pb_Language = l, pb_URLEncoded = u, pb_FormData = f, pb_GraphQL = g\<rparr>
     | _ \<Rightarrow> None)"

definition auth_param_of_json :: "json \<Rightarrow> pmAuthParam option" where
  "auth_param_of_json = dec_struct (\<lambda>ms. map_option (\<lambda>k. (k, json_field ms ''value'')) (dec_string (json_field ms ''key'')))"

definition auth_of_json :: "json \<Rightarrow> pmAuth option" where
  "auth_of_json = dec_struct (\<lambda>ms.
     case (dec_string (json_field ms ''type''), dec_list auth_param_of_json (json_field ms ''bearer''),
           dec_list auth_param_of_json (json_field ms ''basic''), dec_list auth_param_of_json (json_field ms ''apikey'')) of
       (Some t, Some be, Some ba, Some ak) \<Rightarrow> Some \<lparr>pa_Type = t, pa_Bearer = be, pa_Basic = ba, pa_APIKey = ak\<rparr>
     | _ \<Rightarrow> None)"

text \<open>\<open>pmRequest.UnmarshalJSON\<close>: a string is a \<open>GET\<close> of that URL. A \<open>null\<close> does not reach it.\<close>

definition request_of_json :: "json \<Rightarrow> pmRequest option" where
  "request_of_json v =
     (case dec_string v of
        Some s \<Rightarrow> Some \<lparr>pr_Method = [], pr_Header = [],
          pr_URL = \<lparr>pu_Raw = s, pu_Host = [], pu_Path = [], pu_Query = []\<rparr>, pr_Body = None, pr_Auth = None, pr_Description = []\<rparr>
      | None \<Rightarrow> dec_struct (\<lambda>ms.
          case (dec_string (json_field ms ''method''), dec_list row_of_json (json_field ms ''header''),
                url_of_json (json_field ms ''url''), dec_ptr body_of_json (json_field ms ''body''),
                dec_ptr auth_of_json (json_field ms ''auth''), dec_string (json_field ms ''description'')) of
            (Some m, Some h, Some u, Some b, Some a, Some d) \<Rightarrow>
              Some \<lparr>pr_Method = m, pr_Header = h, pr_URL = u, pr_Body = b, pr_Auth = a, pr_Description = d\<rparr>
          | _ \<Rightarrow> None) v)"

function item_of_json :: "json \<Rightarrow> pmItem option" where
  "item_of_json v =
     (case v of
        JNull \<Rightarrow> Some (PmItem [] [] None None)
      | JObj ms \<Rightarrow>
         (case (dec_string (json_field ms ''name''),
                case json_field ms ''item'' of JNull \<Rightarrow> Some [] | JArr vs \<Rightarrow> all_some (map item_of_json vs) | _ \<Rightarrow> None,
                dec_ptr request_of_json (json_field ms ''request''), dec_ptr auth_of_json (json_field ms ''auth'')) of
            (Some n, Some its, Some r, Some a) \<Rightarrow> Some (PmItem n its r a)
          | _ \<Rightarrow> None)
      | _ \<Rightarrow> None)"
  by pat_completeness auto

termination
proof (relation "measure size")
  fix v ms vs z
  assume v: "v = JObj ms" and vs: "json_field ms ''item'' = JArr vs" and z: "z \<in> set vs"
  have "size z \<le> size_list size vs" using z by (metis size_list_estimation' order_refl)
  then have "size z < size (JArr vs)" by simp
  also have "\<dots> < size (JObj ms)" using size_json_field [of ms "''item''"] unfolding vs .
  finally show "(z, v) \<in> measure size" by (simp add: v)
qed simp

declare item_of_json.simps [simp del]

definition collection_of_json :: "json \<Rightarrow> pmCollection option" where
  "collection_of_json = dec_struct (\<lambda>ms.
     case (dec_struct (\<lambda>ms. dec_string (json_field ms ''name'')) (json_field ms ''info''),
           dec_list item_of_json (json_field ms ''item''), dec_ptr auth_of_json (json_field ms ''auth'')) of
       (Some n, Some its, Some a) \<Rightarrow> Some \<lparr>pc_Name = n, pc_Item = its, pc_Auth = a\<rparr> | _ \<Rightarrow> None)"

text \<open>A field of type \<open>*json.RawMessage\<close> is nil for a missing member and for \<open>null\<close>.\<close>

definition looksLikePostman :: "string \<Rightarrow> bool" where
  "looksLikePostman data =
     (case Unmarshal data of
        Some (JObj ms) \<Rightarrow> json_field ms ''openapi'' = JNull \<and> json_field ms ''swagger'' = JNull \<and>
          json_field ms ''info'' \<noteq> JNull \<and> json_field ms ''item'' \<noteq> JNull
      | _ \<Rightarrow> False)"

section \<open>Conversion\<close>

definition stringOr :: "string \<Rightarrow> string \<Rightarrow> string" where
  "stringOr s dflt = (if s = [] then dflt else s)"

text \<open>The first entry of the key; \<open>sprint\<close> is \<open>fmt.Sprint\<close> of a value that is not a string.\<close>

definition pmAuthValue :: "(json \<Rightarrow> string) \<Rightarrow> pmAuthParam list \<Rightarrow> string \<Rightarrow> string" where
  "pmAuthValue sprint params k =
     (case map_of params k of
        None \<Rightarrow> [] | Some (JStr s) \<Rightarrow> s | Some JNull \<Rightarrow> [] | Some v \<Rightarrow> sprint v)"

definition pmConvertAuth :: "(json \<Rightarrow> string) \<Rightarrow> pmAuth option \<Rightarrow> auth" where
  "pmConvertAuth sprint a =
     (case a of
        None \<Rightarrow> auth_of_type []
      | Some a \<Rightarrow>
         if pa_Type a = ''noauth'' then auth_of_type AuthNone
         else if pa_Type a = ''bearer'' then
           (auth_of_type AuthBearer)\<lparr>auth_Bearer := Some \<lparr>be_Token = pmAuthValue sprint (pa_Bearer a) ''token''\<rparr>\<rparr>
         else if pa_Type a = ''basic'' then
           (auth_of_type AuthBasic)\<lparr>auth_Basic := Some \<lparr>ba_Username = pmAuthValue sprint (pa_Basic a) ''username'',
             ba_Password = pmAuthValue sprint (pa_Basic a) ''password''\<rparr>\<rparr>
         else if pa_Type a = ''apikey'' then
           (auth_of_type AuthAPIKey)\<lparr>auth_APIKey := Some \<lparr>ak_Name = pmAuthValue sprint (pa_APIKey a) ''key'',
             ak_Value = pmAuthValue sprint (pa_APIKey a) ''value'',
             ak_Placement = (if equal_fold (pmAuthValue sprint (pa_APIKey a) ''in'') ''query'' then ''query'' else ''header'')\<rparr>\<rparr>
         else auth_of_type [])"

definition pm_key_value :: "pm_row \<Rightarrow> key_value" where
  "pm_key_value p =
     \<lparr>kv_Enabled = \<not> pw_Disabled p, kv_Key = pw_Key p, kv_Value = pw_Value p, kv_Description = pw_Description p\<rparr>"

definition pmFormParams :: "pm_row list \<Rightarrow> key_value list" where
  "pmFormParams ps = map pm_key_value ps"

definition pmRawBodyType :: "pmBody \<Rightarrow> string" where
  "pmRawBodyType b =
     (let lang = to_lower (pb_Language b) in
      if contains lang ''json'' then BodyJSON else if contains lang ''xml'' then BodyXML else BodyText)"

text \<open>The escapes that \<open>json.Marshal\<close> applies to a raw message, which it also compacts.\<close>

fun html_escape :: "string \<Rightarrow> string" where
  "html_escape [] = []"
| "html_escape (c # s) =
     (if c = CHR ''<'' \<or> c = CHR ''>'' \<or> c = CHR ''&'' then [CHR 0x5C] @ ''u00'' @ hex2 (of_char c) @ html_escape s
      else if c = char_of (226::nat) \<and> take 2 s = [char_of (128::nat), char_of (168::nat)] then [CHR 0x5C] @ ''u2028'' @ html_escape (drop 2 s)
      else if c = char_of (226::nat) \<and> take 2 s = [char_of (128::nat), char_of (169::nat)] then [CHR 0x5C] @ ''u2029'' @ html_escape (drop 2 s)
      else c # html_escape s)"

definition graphql_payload :: "string \<Rightarrow> string \<Rightarrow> string option" where
  "graphql_payload query vars =
     (let v = trim_space vars; head = [CHR 0x7B] @ json_quote ''query'' @ '':'' @ json_quote query in
      if v = [] then Some (indent_from (Out 0 False) (head @ [CHR 0x7D]))
      else if Unmarshal v = None then None
      else Some (indent_from (Out 0 False)
        (head @ '','' @ json_quote ''variables'' @ '':'' @ html_escape (bare None v) @ [CHR 0x7D])))"

definition body_with :: "string \<Rightarrow> string \<Rightarrow> body" where
  "body_with t content = zero_body\<lparr>body_Type := t, body_Content := content\<rparr>"

definition pmConvertBody :: "pmBody \<Rightarrow> body" where
  "pmConvertBody b =
     (if pb_Mode b = ''raw'' then body_with (pmRawBodyType b) (pb_Raw b)
      else if pb_Mode b = ''urlencoded'' then zero_body\<lparr>body_Type := BodyForm, body_Form := pmFormParams (pb_URLEncoded b)\<rparr>
      else if pb_Mode b = ''formdata'' then zero_body\<lparr>body_Type := BodyMultipart, body_Form := pmFormParams (pb_FormData b)\<rparr>
      else if pb_Mode b = ''graphql'' then
        (case pb_GraphQL b of
           None \<Rightarrow> body_with BodyNone []
         | Some g \<Rightarrow>
            (case graphql_payload (pg_Query g) (pg_Variables g) of
               None \<Rightarrow> body_with BodyText (pg_Query g) | Some out \<Rightarrow> body_with BodyJSON out))
      else body_with BodyNone [])"

definition pmMethod :: "string \<Rightarrow> string" where
  "pmMethod m = (if m = [] then ''GET'' else to_upper m)"

definition effectiveRaw :: "pmURL \<Rightarrow> string" where
  "effectiveRaw u =
     (if pu_Raw u \<noteq> [] then pu_Raw u
      else let host = join ''.'' (pu_Host u); path = join ''/'' (pu_Path u) in
        if host = [] then path else if path = [] then host else host @ ''/'' @ path)"

definition pmConvertRequest :: "(json \<Rightarrow> string) \<Rightarrow> string \<Rightarrow> string \<Rightarrow> pmRequest \<Rightarrow> request" where
  "pmConvertRequest sprint newID name rq =
     zero_request\<lparr>rq_ID := newID, rq_Name := stringOr name (pu_Raw (pr_URL rq)), rq_Method := pmMethod (pr_Method rq),
       rq_URL := effectiveRaw (pr_URL rq), rq_Docs := pr_Description rq,
       rq_Body := (case pr_Body rq of None \<Rightarrow> body_with BodyNone [] | Some b \<Rightarrow> pmConvertBody b),
       rq_Auth := pmConvertAuth sprint (pr_Auth rq),
       rq_Headers := map pm_key_value (pr_Header rq), rq_Params := map pm_key_value (pu_Query (pr_URL rq))\<rparr>"

text \<open>The folders and requests so far, and the number of identities drawn.\<close>

fun pmAppendItem :: "(json \<Rightarrow> string) \<Rightarrow> (nat \<Rightarrow> string) \<Rightarrow> pmItem \<Rightarrow> folder list \<times> request list \<Rightarrow> nat
    \<Rightarrow> (folder list \<times> request list) \<times> nat"
  and pmAppendItems :: "(json \<Rightarrow> string) \<Rightarrow> (nat \<Rightarrow> string) \<Rightarrow> pmItem list \<Rightarrow> folder list \<times> request list \<Rightarrow> nat
    \<Rightarrow> (folder list \<times> request list) \<times> nat" where
  "pmAppendItem sprint ids (PmItem name items req a) (fs, rs) n =
     (case req of
        Some rq \<Rightarrow> ((fs, rs @ [pmConvertRequest sprint (ids n) name rq]), Suc n)
      | None \<Rightarrow>
         (let ((cfs, crs), n1) = pmAppendItems sprint ids items ([], []) (Suc n)
          in ((fs @ [Folder (ids n) name cfs crs (pmConvertAuth sprint a) []], rs), n1)))"
| "pmAppendItems sprint ids [] acc n = (acc, n)"
| "pmAppendItems sprint ids (it # its) acc n =
     (let (acc1, n1) = pmAppendItem sprint ids it acc n in pmAppendItems sprint ids its acc1 n1)"

definition convert_collection :: "(json \<Rightarrow> string) \<Rightarrow> (nat \<Rightarrow> string) \<Rightarrow> pmCollection \<Rightarrow> collection" where
  "convert_collection sprint ids pc =
     (let ((fs, rs), n) = pmAppendItems sprint ids (pc_Item pc) ([], []) 1
      in zero_collection\<lparr>co_ID := ids 0, co_Name := stringOr (pc_Name pc) ''Imported Collection'',
           co_Auth := pmConvertAuth sprint (pc_Auth pc), co_Folders := fs, co_Requests := rs\<rparr>)"

text \<open>\<open>json_error\<close> is the message of \<open>json.Unmarshal\<close>.\<close>

definition FromPostman :: "(string \<Rightarrow> string) \<Rightarrow> (json \<Rightarrow> string) \<Rightarrow> (nat \<Rightarrow> string) \<Rightarrow> string \<Rightarrow> collection result" where
  "FromPostman json_error sprint ids data =
     (case Option.bind (Unmarshal data) collection_of_json of
        None \<Rightarrow> Inl (''postman parse: '' @ json_error data)
      | Some pc \<Rightarrow> Inr (convert_collection sprint ids pc))"

section \<open>Every request arrives once\<close>

text \<open>The request items of a document, in its order.\<close>

fun pm_leaves :: "pmItem \<Rightarrow> (string \<times> pmRequest) list" where
  "pm_leaves (PmItem name items req a) =
     (case req of Some rq \<Rightarrow> [(name, rq)] | None \<Rightarrow> concat (map pm_leaves items))"

text \<open>Everything of a request but its identity.\<close>

definition anonymous :: "request \<Rightarrow> request" where
  "anonymous r = r\<lparr>rq_ID := []\<rparr>"

lemma anonymous_convert: "anonymous (pmConvertRequest sprint i name rq) = pmConvertRequest sprint [] name rq"
  by (simp add: anonymous_def pmConvertRequest_def)

lemma append_item_leaves:
  "mset (map anonymous (tree_requests (fst (fst (pmAppendItem sprint ids it acc n))) (snd (fst (pmAppendItem sprint ids it acc n))))) =
     mset (map anonymous (tree_requests (fst acc) (snd acc))) +
     mset (map (\<lambda>(name, rq). pmConvertRequest sprint [] name rq) (pm_leaves it))"
  "mset (map anonymous (tree_requests (fst (fst (pmAppendItems sprint ids its acc n))) (snd (fst (pmAppendItems sprint ids its acc n))))) =
     mset (map anonymous (tree_requests (fst acc) (snd acc))) +
     mset (map (\<lambda>(name, rq). pmConvertRequest sprint [] name rq) (concat (map pm_leaves its)))"
proof (induction sprint ids it acc n and sprint ids its acc n rule: pmAppendItem_pmAppendItems.induct)
  case (1 sprint ids name items req a fs rs n)
  show ?case
  proof (cases req)
    case None
    obtain cfs crs n1 where r: "pmAppendItems sprint ids items ([], []) (Suc n) = ((cfs, crs), n1)" by (metis prod.exhaust)
    from "1.IH" [OF None] r None show ?thesis by (simp add: tree_requests_def)
  qed (simp add: tree_requests_def anonymous_convert)
next
  case (3 sprint ids it its acc n)
  obtain acc1 n1 where r: "pmAppendItem sprint ids it acc n = (acc1, n1)" by fastforce
  from "3.IH"(1) "3.IH"(2) [of "(acc1, n1)" acc1 n1] r show ?case by simp
qed simp

text \<open>
  C19 A Postman import keeps every request of the document: the requests of the collection, identities
  aside, are exactly the conversions of its request items, none lost and none doubled.
\<close>

theorem import_conserves:
  "mset (map anonymous (col_requests (convert_collection sprint ids pc))) =
   mset (map (\<lambda>(name, rq). pmConvertRequest sprint [] name rq) (concat (map pm_leaves (pc_Item pc))))"
  using append_item_leaves(2) [of sprint ids "pc_Item pc" "([], [])" 1]
  by (simp add: convert_collection_def col_requests_def tree_requests_def case_prod_unfold Let_def)

definition tree_ids :: "folder list \<Rightarrow> request list \<Rightarrow> string list" where
  "tree_ids fs rs = map rq_ID (tree_requests fs rs) @ concat (map folder_ids fs)"

lemma append_item_ids:
  "n \<le> snd (pmAppendItem sprint ids it acc n) \<and>
   mset (tree_ids (fst (fst (pmAppendItem sprint ids it acc n))) (snd (fst (pmAppendItem sprint ids it acc n)))) =
     mset (tree_ids (fst acc) (snd acc)) + mset (map ids [n..<snd (pmAppendItem sprint ids it acc n)])"
  "n \<le> snd (pmAppendItems sprint ids its acc n) \<and>
   mset (tree_ids (fst (fst (pmAppendItems sprint ids its acc n))) (snd (fst (pmAppendItems sprint ids its acc n)))) =
     mset (tree_ids (fst acc) (snd acc)) + mset (map ids [n..<snd (pmAppendItems sprint ids its acc n)])"
proof (induction sprint ids it acc n and sprint ids its acc n rule: pmAppendItem_pmAppendItems.induct)
  case (1 sprint ids name items req a fs rs n)
  show ?case
  proof (cases req)
    case None
    obtain cfs crs n1 where r: "pmAppendItems sprint ids items ([], []) (Suc n) = ((cfs, crs), n1)" by (metis prod.exhaust)
    with "1.IH" [OF None] have "[n..<n1] = n # [Suc n..<n1]" "Suc n \<le> n1" by (simp_all add: upt_conv_Cons)
    with "1.IH" [OF None] r None show ?thesis by (simp add: tree_requests_def tree_ids_def)
  qed (simp add: tree_requests_def tree_ids_def pmConvertRequest_def)
next
  case (3 sprint ids it its acc n)
  obtain acc1 n1 where r: "pmAppendItem sprint ids it acc n = (acc1, n1)" by fastforce
  obtain acc2 n2 where r2: "pmAppendItems sprint ids its acc1 n1 = (acc2, n2)" by fastforce
  from "3.IH"(1) "3.IH"(2) [of "(acc1, n1)" acc1 n1] r r2 have le: "n \<le> n1" "n1 \<le> n2" by auto
  then have "[n..<n2] = [n..<n1] @ [n1..<n2]" by (metis le_add_diff_inverse upt_add_eq_append)
  with "3.IH"(1) "3.IH"(2) [of "(acc1, n1)" acc1 n1] r r2 le show ?case by simp
qed simp

text \<open>
  Every identity of an imported collection, of itself, its folders and its requests, is a draw of its
  own: no draw is used twice and none is dropped.
\<close>

theorem import_identities:
  "\<exists>k. mset (co_ID (convert_collection sprint ids pc) # tree_ids (co_Folders (convert_collection sprint ids pc))
     (co_Requests (convert_collection sprint ids pc))) = mset (map ids [0..<k])"
proof -
  obtain fs rs k where r: "pmAppendItems sprint ids (pc_Item pc) ([], []) 1 = ((fs, rs), k)" by (metis prod.exhaust)
  with append_item_ids(2) [of 1 sprint ids "pc_Item pc" "([], [])"]
  have "1 \<le> k" "mset (tree_ids fs rs) = mset (map ids [1..<k])" by (simp_all add: tree_ids_def tree_requests_def)
  moreover from this have "[0..<k] = 0 # [1..<k]" by (simp add: upt_conv_Cons)
  ultimately have "mset (ids 0 # tree_ids fs rs) = mset (map ids [0..<k])" by simp
  with r show ?thesis by (auto simp: convert_collection_def)
qed

section \<open>Query parameters\<close>

text \<open>
  C40 A Postman document has the query of a URL twice, in the raw URL and as a list, and the import keeps both:
  since \<open>Build\<close> appends the list to the URL, an imported request sends every parameter twice.
\<close>

theorem import_doubles_query:
  assumes "Build env ra (pmConvertRequest sprint newID name rq) res = Inr b"
    and "pu_Raw (pr_URL rq) \<noteq> []" and "pr_Auth rq = None" and "be_Parse env (pu_Raw (pr_URL rq)) = Inr (user, u)"
    and "map (\<lambda>p. (pw_Key p, pw_Value p)) (filter (\<lambda>p. \<not> pw_Disabled p) (pu_Query (pr_URL rq))) = Query (rurl_RawQuery u)"
    and "\<forall>s\<in>{pu_Raw (pr_URL rq)} \<union> fst ` set (Query (rurl_RawQuery u)) \<union> snd ` set (Query (rurl_RawQuery u)).
      resolver_of res s = (s, [])"
    and "reparses env user (with_params (Query (rurl_RawQuery u)) u)"
  shows "Query (rurl_RawQuery (hr_URL (bt_Req b))) = Query (rurl_RawQuery u) @ Query (rurl_RawQuery u)"
proof -
  let ?r = "pmConvertRequest sprint newID name rq" and ?f = "resolver_of res"
  let ?on = "filter (\<lambda>p. \<not> pw_Disabled p) (pu_Query (pr_URL rq))"
  have on: "EnabledPairs (rq_Params ?r) = map pm_key_value ?on"
    by (simp add: pmConvertRequest_def EnabledPairs_def filter_map comp_def pm_key_value_def)
  have plain: "fst (?f (pw_Key p)) = pw_Key p \<and> fst (?f (pw_Value p)) = pw_Value p" if "p \<in> set ?on" for p
  proof -
    have "(pw_Key p, pw_Value p) \<in> set (Query (rurl_RawQuery u))" unfolding assms(5) [symmetric] using that by force
    then have "pw_Key p \<in> fst ` set (Query (rurl_RawQuery u))" "pw_Value p \<in> snd ` set (Query (rurl_RawQuery u))"
      by (metis fst_conv image_eqI, metis snd_conv image_eqI)
    then show ?thesis using assms(6) by simp
  qed
  have "resolved_rows ?f (rq_Params ?r) = map (\<lambda>p. (fst (?f (pw_Key p)), fst (?f (pw_Value p)))) ?on"
    unfolding resolved_rows_def on by (simp add: pm_key_value_def)
  also have "\<dots> = map (\<lambda>p. (pw_Key p, pw_Value p)) ?on" by (rule map_cong [OF refl]) (use plain in simp)
  finally have rows: "resolved_rows ?f (rq_Params ?r) = Query (rurl_RawQuery u)" by (simp only: assms(5))
  have url: "rq_URL ?r = pu_Raw (pr_URL rq)" "rq_PathParams ?r = []" "rq_Auth ?r = auth_of_type []"
    using assms(2,3) by (simp_all add: pmConvertRequest_def effectiveRaw_def zero_request_def pmConvertAuth_def)
  then have "auth_pairs (ResolveValues (rq_Auth ?r) (Some (\<lambda>s. fst (?f s)))) = []"
    by (simp add: ResolveValues_def auth_of_type_def auth_pairs_def go_defs)
  moreover have "fst (fill_path ?f (rq_PathParams ?r) (fst (?f (rq_URL ?r))) []) = pu_Raw (pr_URL rq)"
    using assms(6) url by (simp add: fill_path_def)
  ultimately show ?thesis
    using built_query [OF assms(1), of user u] assms(4,7) rows by (simp add: resolved_rows_def)
qed

definition page_request :: pmRequest where
  "page_request =
     \<lparr>pr_Method = [], pr_Header = [], pr_URL = \<lparr>pu_Raw = ''http://h/?page=2'', pu_Host = [], pu_Path = [],
       pu_Query = [\<lparr>pw_Key = ''page'', pw_Value = ''2'', pw_Disabled = False, pw_Description = []\<rparr>]\<rparr>,
      pr_Body = None, pr_Auth = None, pr_Description = []\<rparr>"

theorem import_doubles_query_witness:
  "\<exists>b. Build sample_env sample_rand (pmConvertRequest (\<lambda>_. []) ''i'' ''n'' page_request) None = Inr b \<and>
    Query (rurl_RawQuery (hr_URL (bt_Req b))) = [(''page'', ''2''), (''page'', ''2'')]"
proof -
  let ?u = "(hr_URL sample_http)\<lparr>rurl_RawQuery := ''page=2''\<rparr>"
  have "case Build sample_env sample_rand (pmConvertRequest (\<lambda>_. []) ''i'' ''n'' page_request) None of Inr _ \<Rightarrow> True | Inl _ \<Rightarrow> False"
    by code_simp
  then obtain b where b: "Build sample_env sample_rand (pmConvertRequest (\<lambda>_. []) ''i'' ''n'' page_request) None = Inr b"
    by (auto split: sum.splits)
  have q: "Query (rurl_RawQuery ?u) = [(''page'', ''2'')]" by code_simp
  have p: "be_Parse sample_env (pu_Raw (pr_URL page_request)) = Inr (None, ?u)" by code_simp
  have r: "resolver_of None ''page'' = (''page'', [])" "resolver_of None ''2'' = (''2'', [])"
    "resolver_of None ''http://h/?page=2'' = (''http://h/?page=2'', [])" by code_simp+
  have e: "reparses sample_env None (with_params [(''page'', ''2'')] ?u)" by code_simp
  from import_doubles_query [OF b _ _ p] b r e show ?thesis unfolding q by (simp add: page_request_def)
qed

end
