(* ===== verification/OpenApi.thy ===== *)
theory OpenApi
  imports Postman
begin

text \<open>
  \<open>internal/importer/openapi.go\<close> on a loaded document. The parser of the specification is the
  library kin-openapi: its loader is a parameter, and the records below are what the importer reads of its
  result. Schemas may refer to each other in cycles, so they live in a heap and a reference is an address;
  no address stands for a nil reference or one without a value. A Go map is a list of its pairs.
\<close>

section \<open>The document\<close>

record schema =
  sm_Example :: "json option"
  sm_Default :: "json option"
  sm_Const :: "json option"
  sm_Enum :: "json list"
  sm_AllOf :: "nat option list"
  sm_OneOf :: "nat option list"
  sm_AnyOf :: "nat option list"
  sm_Type :: "string list"
  sm_Properties :: "(string \<times> nat option) list"
  sm_Items :: "nat option"
  sm_ReadOnly :: bool
  sm_Format :: string

type_synonym schemas = "nat \<Rightarrow> schema"

record parameter =
  pm_In :: string
  pm_Name :: string
  pm_Description :: string
  pm_Required :: bool
  pm_Example :: "json option"
  pm_Default :: "json option"

record media_type =
  mt_Example :: "json option"
  mt_Examples :: "json option list"
  mt_Schema :: "nat option"

record operation =
  oo_Summary :: string
  oo_OperationID :: string
  oo_Tags :: "string list"
  oo_Parameters :: "parameter option list"
  oo_Content :: "(string \<times> media_type option) list"

record path_item =
  pi_Parameters :: "parameter option list"
  pi_Operations :: "(string \<times> operation) list"

record document =
  od_Title :: "string option"
  od_Servers :: "(string \<times> string) option list"
  od_Paths :: "(string \<times> path_item option) list"

definition sortedKeys :: "(string \<times> 'a) list \<Rightarrow> string list" where
  "sortedKeys m = sort (map fst m)"

section \<open>Examples\<close>

text \<open>\<open>num\<close> prints a number as \<open>encoding/json\<close> does.\<close>

definition formatExample :: "(string \<Rightarrow> string) \<Rightarrow> json \<Rightarrow> string" where
  "formatExample num v = (case v of JStr s \<Rightarrow> s | _ \<Rightarrow> indent_from (Out 0 False) (Marshal num v))"

definition placeholderString :: "schema \<Rightarrow> string" where
  "placeholderString s =
     (let f = sm_Format s in
      if f = ''date-time'' then ''2020-01-01T00:00:00Z''
      else if f = ''date'' then ''2020-01-01''
      else if f = ''email'' then ''user@example.com''
      else if f = ''uuid'' then ''00000000-0000-0000-0000-000000000000''
      else if f = ''uri'' \<or> f = ''url'' then ''https://example.com''
      else if f = ''hostname'' then ''example.com''
      else if f = ''ipv4'' then ''127.0.0.1''
      else ''string'')"

definition sampleMaxDepth :: nat where "sampleMaxDepth = 12"

text \<open>What a schema states explicitly.\<close>

definition stated :: "schema \<Rightarrow> json option" where
  "stated s =
     (case sm_Example s of Some v \<Rightarrow> Some v
      | None \<Rightarrow> (case sm_Default s of Some v \<Rightarrow> Some v
      | None \<Rightarrow> (case sm_Const s of Some v \<Rightarrow> Some v
      | None \<Rightarrow> (case sm_Enum s of v # _ \<Rightarrow> Some v | [] \<Rightarrow> None))))"

text \<open>Assigning the members of an object, later ones over earlier ones; other values are skipped.\<close>

definition merge_object :: "json \<Rightarrow> (string \<times> json) list \<Rightarrow> (string \<times> json) list" where
  "merge_object v m = (case v of JObj ms \<Rightarrow> fold (\<lambda>(k, x). AList.update k x) ms m | _ \<Rightarrow> m)"

definition writable :: "schemas \<Rightarrow> nat option \<Rightarrow> bool" where
  "writable heap p = (case p of Some i \<Rightarrow> \<not> sm_ReadOnly (heap i) | None \<Rightarrow> True)"

text \<open>
  \<open>sampleForSchema\<close>; \<open>JNull\<close> is Go's nil, \<open>path\<close> the schemas that are being sampled. The depth is
  the measure.
\<close>

function sampleForSchema :: "schemas \<Rightarrow> nat option \<Rightarrow> nat list \<Rightarrow> nat \<Rightarrow> json" where
  "sampleForSchema heap ref path depth =
     (case ref of
        None \<Rightarrow> JNull
      | Some i \<Rightarrow>
         if sampleMaxDepth < depth then JNull
         else
           let s = heap i; sub = (\<lambda>r. sampleForSchema heap r (i # path) (Suc depth)) in
           case stated s of
             Some v \<Rightarrow> v
           | None \<Rightarrow>
              if i \<in> set path then JNull
              else
                let merged = fold merge_object (map sub (sm_AllOf s)) [] in
                if merged \<noteq> [] then JObj merged
                else if sm_OneOf s \<noteq> [] then sub (hd (sm_OneOf s))
                else if sm_AnyOf s \<noteq> [] then sub (hd (sm_AnyOf s))
                else if ''object'' \<in> set (sm_Type s) \<or> sm_Properties s \<noteq> []
                then JObj (map (\<lambda>k. (k, sub (the (map_of (sm_Properties s) k))))
                       (filter (\<lambda>k. writable heap (the (map_of (sm_Properties s) k))) (sortedKeys (sm_Properties s))))
                else if ''array'' \<in> set (sm_Type s) then JArr [sub (sm_Items s)]
                else if ''boolean'' \<in> set (sm_Type s) then JBool False
                else if ''integer'' \<in> set (sm_Type s) \<or> ''number'' \<in> set (sm_Type s) then JNum ''0''
                else if ''string'' \<in> set (sm_Type s) then JStr (placeholderString s)
                else JNull)"
  by pat_completeness auto

termination
  by (relation "measure (\<lambda>(heap, ref, path, depth). Suc sampleMaxDepth - depth)") auto

declare sampleForSchema.simps [simp del]

definition synthesizeJSONBody :: "(string \<Rightarrow> string) \<Rightarrow> schemas \<Rightarrow> media_type \<Rightarrow> string" where
  "synthesizeJSONBody num heap mt =
     (let sample = sampleForSchema heap (mt_Schema mt) [] 0 in
      if mt_Schema mt = None \<or> sample = JNull then [] else formatExample num sample)"

text \<open>The examples are a map: the list has them in the order the loop meets them.\<close>

definition extractExample :: "(string \<Rightarrow> string) \<Rightarrow> schemas \<Rightarrow> media_type \<Rightarrow> string" where
  "extractExample num heap mt =
     (case mt_Example mt of
        Some v \<Rightarrow> formatExample num v
      | None \<Rightarrow>
         (case List.map_filter id (mt_Examples mt) of
            v # _ \<Rightarrow> formatExample num v
          | [] \<Rightarrow>
             (case mt_Schema mt of
                None \<Rightarrow> []
              | Some i \<Rightarrow> (case sm_Example (heap i) of Some v \<Rightarrow> formatExample num v | None \<Rightarrow> []))))"

definition bodyTypeFromContentType :: "string \<Rightarrow> string" where
  "bodyTypeFromContentType ct0 =
     (let ct = to_lower ct0 in
      if contains ct ''json'' then BodyJSON
      else if ct = ''*/*'' then BodyJSON
      else if contains ct ''xml'' then BodyXML
      else if contains ct ''form-urlencoded'' then BodyForm
      else if contains ct ''multipart'' then BodyMultipart
      else BodyText)"

section \<open>Requests\<close>

definition requestName :: "operation \<Rightarrow> string \<Rightarrow> string \<Rightarrow> string" where
  "requestName op method path =
     (if oo_Summary op \<noteq> [] then oo_Summary op
      else if oo_OperationID op \<noteq> [] then oo_OperationID op else method @ '' '' @ path)"

definition defaultParamValue :: "(string \<Rightarrow> string) \<Rightarrow> parameter \<Rightarrow> string" where
  "defaultParamValue num p =
     (case pm_Example p of Some v \<Rightarrow> formatExample num v
      | None \<Rightarrow> (case pm_Default p of Some v \<Rightarrow> formatExample num v | None \<Rightarrow> []))"

definition param_row :: "(string \<Rightarrow> string) \<Rightarrow> parameter \<Rightarrow> key_value" where
  "param_row num p =
     \<lparr>kv_Enabled = pm_Required p, kv_Key = pm_Name p, kv_Value = defaultParamValue num p, kv_Description = pm_Description p\<rparr>"

definition add_parameter :: "(string \<Rightarrow> string) \<Rightarrow> parameter \<Rightarrow> request \<Rightarrow> request" where
  "add_parameter num p r =
     (let kv = param_row num p in
      if pm_In p = ''query'' then r\<lparr>rq_Params := rq_Params r @ [kv]\<rparr>
      else if pm_In p = ''header'' then r\<lparr>rq_Headers := rq_Headers r @ [kv]\<rparr>
      else if pm_In p = ''path'' then r\<lparr>rq_PathParams := rq_PathParams r @ [kv\<lparr>kv_Enabled := True\<rparr>]\<rparr>
      else r)"

text \<open>The loop over the parameters; \<open>seen\<close> has the places and names that came before.\<close>

fun add_parameters :: "(string \<Rightarrow> string) \<Rightarrow> string list \<Rightarrow> parameter option list \<Rightarrow> request \<Rightarrow> request" where
  "add_parameters num seen [] r = r"
| "add_parameters num seen (None # ps) r = add_parameters num seen ps r"
| "add_parameters num seen (Some p # ps) r =
     (let k = pm_In p @ '':'' @ pm_Name p in
      if k \<in> set seen then add_parameters num seen ps r
      else add_parameters num (k # seen) ps (add_parameter num p r))"

text \<open>The first content type, in their order, whose media type is there.\<close>

fun body_of_content :: "(string \<Rightarrow> string) \<Rightarrow> schemas \<Rightarrow> (string \<times> media_type option) list \<Rightarrow> string list \<Rightarrow> body" where
  "body_of_content num heap content [] = zero_body\<lparr>body_Type := BodyNone\<rparr>"
| "body_of_content num heap content (ct # cts) =
     (case map_of content ct of
        Some (Some mt) \<Rightarrow>
          (let bt = bodyTypeFromContentType ct; example = extractExample num heap mt in
           body_with bt (if example = [] \<and> bt = BodyJSON then synthesizeJSONBody num heap mt else example))
      | _ \<Rightarrow> body_of_content num heap content cts)"

definition operation_url :: "bool \<Rightarrow> string \<Rightarrow> string" where
  "operation_url hasBaseVar path =
     (if hasBaseVar
      then [CHR 0x7B, CHR 0x7B] @ ''base_url'' @ [CHR 0x7D, CHR 0x7D] @
           (if path \<noteq> [] \<and> \<not> has_prefix path ''/'' then ''/'' @ path else path)
      else path)"

definition buildRequest :: "(string \<Rightarrow> string) \<Rightarrow> schemas \<Rightarrow> string \<Rightarrow> string \<Rightarrow> string \<Rightarrow> bool \<Rightarrow> operation \<Rightarrow> path_item \<Rightarrow> request" where
  "buildRequest num heap newID method path hasBaseVar op item =
     (let r = add_parameters num [] (pi_Parameters item @ oo_Parameters op)
                (zero_request\<lparr>rq_ID := newID, rq_Name := requestName op method path, rq_Method := method,
                   rq_URL := operation_url hasBaseVar path\<rparr>)
      in r\<lparr>rq_Body := body_of_content num heap (oo_Content op) (sortedKeys (oo_Content op))\<rparr>)"

section \<open>Collections\<close>

text \<open>The first server that names a URL: the URL without trailing slashes, and the name of its environment.\<close>

fun base_of :: "(string \<times> string) option list \<Rightarrow> string \<times> string" where
  "base_of [] = ([], ''Default'')"
| "base_of (None # ss) = base_of ss"
| "base_of (Some (url, description) # ss) =
     (let u = rev (dropWhile (\<lambda>c. c = CHR ''/'') (rev url)); d = trim_space description in
      if u \<noteq> [] then (u, if d \<noteq> [] then d else ''Default'') else base_of ss)"

definition base_environment :: "string \<Rightarrow> string \<Rightarrow> string \<Rightarrow> environment" where
  "base_environment newID name baseURL =
     \<lparr>env_ID = newID, env_Name = name,
      env_Variables = [\<lparr>vr_Enabled = True, vr_Key = ''base_url'', vr_Value = baseURL, vr_Secret = False\<rparr>]\<rparr>"

text \<open>The operations in the order of the two loops; a nil path item panics, which \<open>None\<close> stands for.\<close>

definition operations :: "document \<Rightarrow> (string \<times> string \<times> operation \<times> path_item) list option" where
  "operations doc =
     map_option concat (all_some (map (\<lambda>path.
       case map_of (od_Paths doc) path of
         Some (Some item) \<Rightarrow> Some (map (\<lambda>m. (path, m, the (map_of (pi_Operations item) m), item)) (sortedKeys (pi_Operations item)))
       | _ \<Rightarrow> None) (sortedKeys (od_Paths doc))))"

definition tag_of :: "operation \<Rightarrow> string" where
  "tag_of op = (case oo_Tags op of t # _ \<Rightarrow> t | [] \<Rightarrow> [])"

text \<open>The loop state: the untagged requests, the folders by tag in order of their first request, and the draws.\<close>

type_synonym import_state = "request list \<times> (string \<times> string \<times> request list) list \<times> nat"

definition add_operation :: "(nat \<Rightarrow> string) \<Rightarrow> (string \<Rightarrow> string) \<Rightarrow> schemas \<Rightarrow> bool
    \<Rightarrow> string \<times> string \<times> operation \<times> path_item \<Rightarrow> import_state \<Rightarrow> import_state" where
  "add_operation ids num heap hasBaseVar x st =
     (let (path, method, op, item) = x; (rs, fs, n) = st;
          req = buildRequest num heap (ids n) method path hasBaseVar op item; tag = tag_of op
      in if tag = [] then (rs @ [req], fs, Suc n)
         else if tag \<in> fst ` set fs
         then (rs, map (\<lambda>(t, i, qs). if t = tag then (t, i, qs @ [req]) else (t, i, qs)) fs, Suc n)
         else (rs, fs @ [(tag, ids (Suc n), [req])], Suc (Suc n)))"

definition convertOAS3 :: "(nat \<Rightarrow> string) \<Rightarrow> (string \<Rightarrow> string) \<Rightarrow> schemas \<Rightarrow> document \<Rightarrow> collection option" where
  "convertOAS3 ids num heap doc =
     (let (baseURL, envName) = base_of (od_Servers doc);
          n = (if baseURL = [] then 1 else 2)
      in map_option (\<lambda>ops.
           let (rs, fs, _) = fold (add_operation ids num heap (baseURL \<noteq> [])) ops ([], [], n) in
           zero_collection\<lparr>co_ID := ids 0,
             co_Name := (case od_Title doc of Some t \<Rightarrow> stringOr t ''Imported API'' | None \<Rightarrow> ''Imported API''),
             co_Environments := (if baseURL = [] then [] else [base_environment (ids 1) envName baseURL]),
             co_Requests := rs,
             co_Folders := map (\<lambda>(t, i, qs). Folder i t [] qs (auth_of_type []) []) fs\<rparr>) (operations doc))"

section \<open>Entry points\<close>

text \<open>
  The YAML converter, the two loaders and the message of a recovered panic. \<open>load2\<close> and \<open>load3\<close> are
  the Swagger 2 and OpenAPI 3 loaders on JSON.
\<close>

record oas_lib =
  ol_YAML :: "string \<Rightarrow> string result"
  ol_decode_error :: "string \<Rightarrow> string"
  ol_load2 :: "string \<Rightarrow> (schemas \<times> document) result"
  ol_load3 :: "string \<Rightarrow> (schemas \<times> document) result"
  ol_panic :: "document \<Rightarrow> string"

definition toJSON :: "oas_lib \<Rightarrow> string \<Rightarrow> string result" where
  "toJSON lib data = (if Unmarshal data \<noteq> None then Inr data else ol_YAML lib data)"

definition has_key :: "(string \<times> json) list \<Rightarrow> string \<Rightarrow> bool" where
  "has_key ms k \<longleftrightarrow> (case GoJson.member ms k of None \<Rightarrow> False | Some v \<Rightarrow> v \<noteq> JNull)"

definition load_document :: "oas_lib \<Rightarrow> string \<Rightarrow> (schemas \<times> document) result" where
  "load_document lib data =
     (case toJSON lib data of
        Inl e \<Rightarrow> Inl (''parse spec: '' @ e)
      | Inr asJSON \<Rightarrow>
         (case (case Unmarshal asJSON of Some (JObj ms) \<Rightarrow> Some ms | Some JNull \<Rightarrow> Some [] | _ \<Rightarrow> None) of
            None \<Rightarrow> Inl (''decode spec: '' @ ol_decode_error lib asJSON)
          | Some probe \<Rightarrow>
             if has_key probe ''swagger'' then ol_load2 lib asJSON
             else if has_key probe ''openapi'' then ol_load3 lib asJSON
             else Inl ''not an OpenAPI/Swagger document (no openapi or swagger key)''))"

definition FromOpenAPI :: "oas_lib \<Rightarrow> (nat \<Rightarrow> string) \<Rightarrow> (string \<Rightarrow> string) \<Rightarrow> string \<Rightarrow> collection result" where
  "FromOpenAPI lib ids num data =
     bind_result (load_document lib data) (\<lambda>(heap, doc).
       case convertOAS3 ids num heap doc of
         Some c \<Rightarrow> Inr c | None \<Rightarrow> Inl (''malformed spec: '' @ ol_panic lib doc))"

text \<open>\<open>from.go\<close>: what a document is, by its content.\<close>

fun looksLikeXML :: "string \<Rightarrow> bool" where
  "looksLikeXML [] = False"
| "looksLikeXML (b # data) = (if b \<in> {CHR '' '', CHR 0x09, CHR 0x0A, CHR 0x0D} then looksLikeXML data else b = CHR ''<'')"

definition import_From :: "(string \<Rightarrow> collection result) \<Rightarrow> (string \<Rightarrow> collection result) \<Rightarrow> (string \<Rightarrow> collection result)
    \<Rightarrow> string \<Rightarrow> collection result" where
  "import_From fromPostman fromWSDL fromOpenAPI data =
     (if looksLikePostman data then fromPostman data
      else if looksLikeXML data then fromWSDL data
      else fromOpenAPI data)"

end
