(* ===== verification/Wsdl.thy ===== *)
theory Wsdl
  imports OpenApi CurlImport
begin

text \<open>
  \<open>internal/importer/wsdl.go\<close> on a decoded document: a request per SOAP operation; and the import from a URL,
  \<open>url.go\<close>. The XML decoder is a parameter.
\<close>

record wsdlBindingOperation =
  wo_Name :: string
  wo_SoapAction :: string

record wsdlBinding =
  wb_Name :: string
  wb_Operations :: "wsdlBindingOperation list"

record wsdlPort =
  wp_Name :: string
  wp_Binding :: string
  wp_Location :: string

record wsdlService =
  wv_Name :: string
  wv_Ports :: "wsdlPort list"

record wsdlDefinitions =
  wd_TargetNamespace :: string
  wd_Services :: "wsdlService list"
  wd_Bindings :: "wsdlBinding list"

definition firstServiceName :: "wsdlService list \<Rightarrow> string" where
  "firstServiceName svcs = (case svcs of s # _ \<Rightarrow> wv_Name s | [] \<Rightarrow> [])"

definition localXMLName :: "string \<Rightarrow> string" where
  "localXMLName qname = (case index_byte qname CHR '':'' of Some i \<Rightarrow> drop (Suc i) qname | None \<Rightarrow> qname)"

definition line :: "string \<Rightarrow> string" where
  "line s = s @ [CHR 0x0A]"

definition soap_envelope :: "string \<Rightarrow> string \<Rightarrow> string" where
  "soap_envelope opName targetNS =
     (let prefix = (if targetNS \<noteq> [] then ''tns:'' else []) in
      line (''<?xml version='' @ dquote @ ''1.0'' @ dquote @ '' encoding='' @ dquote @ ''UTF-8'' @ dquote @ ''?>'') @
      ''<soapenv:Envelope xmlns:soapenv='' @ dquote @ ''http://schemas.xmlsoap.org/soap/envelope/'' @ dquote @
      (if targetNS \<noteq> [] then '' xmlns:tns='' @ quoted targetNS else []) @
      line ''>'' @
      line ''  <soapenv:Header/>'' @
      line ''  <soapenv:Body>'' @
      line (''    <'' @ prefix @ opName @ ''>'') @
      line ''      <!-- Fill in operation parameters here. -->'' @
      line (''    </'' @ prefix @ opName @ ''>'') @
      line ''  </soapenv:Body>'' @
      line ''</soapenv:Envelope>'')"

definition buildSOAPRequest :: "string \<Rightarrow> string \<Rightarrow> string \<Rightarrow> string \<Rightarrow> string \<Rightarrow> request" where
  "buildSOAPRequest newID opName endpoint soapAction targetNS =
     zero_request\<lparr>rq_ID := newID, rq_Name := opName, rq_Method := ''POST'', rq_URL := endpoint,
       rq_Headers := enabled_row ''Content-Type'' ''text/xml; charset=utf-8'' #
         (if soapAction \<noteq> [] then [enabled_row ''SOAPAction'' soapAction] else []),
       rq_Body := body_with BodyXML (soap_envelope opName targetNS)\<rparr>"

text \<open>The operations the three loops meet, each with its key and its endpoint. The last binding of a name counts.\<close>

definition soap_operations :: "wsdlDefinitions \<Rightarrow> (string \<times> wsdlBindingOperation \<times> string) list" where
  "soap_operations def =
     (let bindings = map_of (rev (map (\<lambda>b. (wb_Name b, b)) (wd_Bindings def))) in
      concat (map (\<lambda>svc. concat (map (\<lambda>port.
        case bindings (localXMLName (wp_Binding port)) of
          None \<Rightarrow> []
        | Some b \<Rightarrow> map (\<lambda>op. (wv_Name svc @ ''.'' @ wp_Name port @ ''.'' @ wo_Name op, op, wp_Location port)) (wb_Operations b))
        (wv_Ports svc))) (wd_Services def)))"

text \<open>The body of the innermost loop: a key that was seen is skipped.\<close>

definition add_soap :: "(nat \<Rightarrow> string) \<Rightarrow> string \<Rightarrow> string \<times> wsdlBindingOperation \<times> string
    \<Rightarrow> string list \<times> request list \<times> nat \<Rightarrow> string list \<times> request list \<times> nat" where
  "add_soap ids ns x st =
     (let (k, op, endpoint) = x; (seen, rs, n) = st in
      if k \<in> set seen then st
      else (seen @ [k], rs @ [buildSOAPRequest (ids n) (wo_Name op) endpoint (wo_SoapAction op) ns], Suc n))"

definition FromWSDL :: "(string \<Rightarrow> wsdlDefinitions result) \<Rightarrow> (nat \<Rightarrow> string) \<Rightarrow> string \<Rightarrow> collection result" where
  "FromWSDL decode ids data =
     (case decode data of
        Inl e \<Rightarrow> Inl (''parse wsdl: '' @ e)
      | Inr def \<Rightarrow>
         (let (seen, rs, n) = fold (add_soap ids (wd_TargetNamespace def)) (soap_operations def) ([], [], 1) in
          if rs = [] then Inl ''no SOAP operations found in WSDL''
          else Inr (zero_collection\<lparr>co_ID := ids 0,
                 co_Name := stringOr (firstServiceName (wd_Services def)) ''Imported SOAP service'', co_Requests := rs\<rparr>)))"

text \<open>\<open>url.go\<close>: a fetched document, of which at most 64 MiB are read. \<open>get\<close> is the HTTP client.\<close>

definition maxSpecBytes :: int where "maxSpecBytes = 64 * 2 ^ 20"

definition FromURL :: "(string \<Rightarrow> wire result) \<Rightarrow> (string \<Rightarrow> collection result) \<Rightarrow> string \<Rightarrow> collection result" where
  "FromURL get from url =
     (case get url of
        Inl e \<Rightarrow> Inl e
      | Inr w \<Rightarrow>
         if wi_StatusCode w < 200 \<or> 300 \<le> wi_StatusCode w then Inl (''fetch '' @ url @ '': '' @ wi_Status w)
         else (case ReadLimited maxSpecBytes w of (_, Some e) \<Rightarrow> Inl e | (body, None) \<Rightarrow> from body))"

section \<open>The operations of an import\<close>

fun first_by_key :: "'k list \<Rightarrow> ('k \<times> 'a) list \<Rightarrow> ('k \<times> 'a) list" where
  "first_by_key seen [] = []"
| "first_by_key seen (x # xs) = (if fst x \<in> set seen then first_by_key seen xs else x # first_by_key (fst x # seen) xs)"

lemma first_by_key_cong: "set a = set b \<Longrightarrow> first_by_key a xs = first_by_key b xs"
proof (induction xs arbitrary: a b)
  case (Cons x xs)
  from Cons.prems Cons.IH [of a b] Cons.IH [of "fst x # a" "fst x # b"] show ?case by simp
qed simp

lemma add_soap_fold:
  "fst (snd (fold (add_soap ids ns) xs (seen, rs, n))) =
   rs @ map (\<lambda>(i, k, op, endpoint). buildSOAPRequest (ids i) (wo_Name op) endpoint (wo_SoapAction op) ns)
     (zip [n..<n + length (first_by_key seen xs)] (first_by_key seen xs))"
proof (induction xs arbitrary: seen rs n)
  case (Cons x xs)
  obtain k op e where x: "x = (k, op, e)" by (metis prod.exhaust)
  have "first_by_key (seen @ [k]) xs = first_by_key (k # seen) xs" by (rule first_by_key_cong) simp
  then show ?case using Cons.IH by (simp add: x add_soap_def upt_conv_Cons del: upt_Suc)
qed simp

text \<open>
  A WSDL import has one request per distinct service, port and operation name, in the order of the
  document, with the endpoint of its port; it fails exactly when there is none.
\<close>

theorem wsdl_requests:
  "FromWSDL (\<lambda>_. Inr def) ids data =
    (let ops = first_by_key [] (soap_operations def) in
     if ops = [] then Inl ''no SOAP operations found in WSDL''
     else Inr (zero_collection\<lparr>co_ID := ids 0, co_Name := stringOr (firstServiceName (wd_Services def)) ''Imported SOAP service'',
       co_Requests := map (\<lambda>(i, k, op, endpoint). buildSOAPRequest (ids i) (wo_Name op) endpoint (wo_SoapAction op) (wd_TargetNamespace def))
         (zip [1..<1 + length ops] ops)\<rparr>))"
proof -
  let ?ops = "first_by_key [] (soap_operations def)"
  have "fst (snd (fold (add_soap ids (wd_TargetNamespace def)) (soap_operations def) ([], [], 1))) =
      map (\<lambda>(i, k, op, endpoint). buildSOAPRequest (ids i) (wo_Name op) endpoint (wo_SoapAction op) (wd_TargetNamespace def))
        (zip [1..<1 + length ?ops] ?ops)"
    using add_soap_fold by simp
  moreover have "map g (zip [1..<1 + length ?ops] ?ops) = [] \<longleftrightarrow> ?ops = []" for g :: "_ \<Rightarrow> request"
    by (cases ?ops) (simp_all add: upt_conv_Cons del: upt_Suc)
  ultimately show ?thesis by (simp add: FromWSDL_def Let_def case_prod_unfold del: upt_Suc)
qed

text \<open>The key joins the names with dots: an operation of another port can have the same key and is dropped.\<close>

definition dotted_wsdl :: wsdlDefinitions where
  "dotted_wsdl =
     \<lparr>wd_TargetNamespace = [], wd_Services = [\<lparr>wv_Name = ''S'', wv_Ports =
        [\<lparr>wp_Name = ''P'', wp_Binding = ''b'', wp_Location = ''http://h/1''\<rparr>, \<lparr>wp_Name = ''P.X'', wp_Binding = ''c'', wp_Location = ''http://h/2''\<rparr>]\<rparr>],
      wd_Bindings = [\<lparr>wb_Name = ''b'', wb_Operations = [\<lparr>wo_Name = ''X.Y'', wo_SoapAction = []\<rparr>]\<rparr>,
        \<lparr>wb_Name = ''c'', wb_Operations = [\<lparr>wo_Name = ''Y'', wo_SoapAction = []\<rparr>]\<rparr>]\<rparr>"

lemma dotted_operation_lost:
  "length (soap_operations dotted_wsdl) = 2 \<and>
   (case FromWSDL (\<lambda>_. Inr dotted_wsdl) ids [] of Inr c \<Rightarrow> map rq_Name (co_Requests c) = [''X.Y''] | Inl e \<Rightarrow> False)"
  by (simp add: dotted_wsdl_def soap_operations_def localXMLName_def FromWSDL_def add_soap_def buildSOAPRequest_def)

end
