(* ===== verification/OpenApiProps.thy ===== *)
theory OpenApiProps
  imports OpenApi
begin

text \<open>
  Results on OpenAPI imports: the grouping by tags, the parameters of a request, and the sample bodies.
\<close>

section \<open>Grouping\<close>

lemma dedupe_snoc: "dedupe_from seen (xs @ [x]) = dedupe_from seen xs @ (if x \<in> set seen \<union> set xs then [] else [x])"
  by (induction xs arbitrary: seen) auto

text \<open>The request of an operation, identity aside.\<close>

definition conversion :: "(string \<Rightarrow> string) \<Rightarrow> schemas \<Rightarrow> bool \<Rightarrow> string \<times> string \<times> operation \<times> path_item \<Rightarrow> request" where
  "conversion num heap hasBaseVar x = (case x of (path, method, op, item) \<Rightarrow> buildRequest num heap [] method path hasBaseVar op item)"

definition operation_tag :: "string \<times> string \<times> operation \<times> path_item \<Rightarrow> string" where
  "operation_tag x = (case x of (path, method, op, item) \<Rightarrow> tag_of op)"

lemma anonymous_add_parameters: "anonymous (add_parameters num seen ps r) = add_parameters num seen ps (anonymous r)"
proof (induction num seen ps r rule: add_parameters.induct)
  case (3 num seen p ps r)
  moreover have "anonymous (add_parameter num p r) = add_parameter num p (anonymous r)"
    by (simp add: add_parameter_def anonymous_def Let_def)
  ultimately show ?case by (simp add: Let_def)
qed simp_all

lemma anonymous_build: "anonymous (buildRequest num heap i method path b op item) = buildRequest num heap [] method path b op item"
proof -
  have "anonymous (r\<lparr>rq_Body := bd\<rparr>) = anonymous r\<lparr>rq_Body := bd\<rparr>" for r bd by (simp add: anonymous_def)
  then show ?thesis by (simp add: buildRequest_def anonymous_add_parameters Let_def) (simp add: anonymous_def zero_request_def)
qed

definition tag_names :: "(string \<times> string \<times> operation \<times> path_item) list \<Rightarrow> string list" where
  "tag_names ops = dedupe_from [] (filter (\<lambda>t. t \<noteq> []) (map operation_tag ops))"

definition grouped :: "(string \<Rightarrow> string) \<Rightarrow> schemas \<Rightarrow> bool \<Rightarrow> (string \<times> string \<times> operation \<times> path_item) list \<Rightarrow> string \<Rightarrow> request list" where
  "grouped num heap b ops t = map (conversion num heap b) (filter (\<lambda>x. operation_tag x = t) ops)"

lemma grouped_snoc: "grouped num heap b (ops @ [x]) t = grouped num heap b ops t @ (if operation_tag x = t then [conversion num heap b x] else [])"
  by (simp add: grouped_def)

lemma set_tag_names: "t \<in> set (tag_names ops) \<longleftrightarrow> t \<noteq> [] \<and> t \<in> operation_tag ` set ops"
  by (auto simp: tag_names_def set_dedupe_from)

lemma grouped_new: "t \<notin> operation_tag ` set ops \<Longrightarrow> grouped num heap b ops t = []"
  by (auto simp: grouped_def filter_empty_conv)

lemma add_operations:
  "case fold (add_operation ids num heap b) ops ([], [], n) of (rs, fs, _) \<Rightarrow>
     map anonymous rs = grouped num heap b ops [] \<and>
     map (\<lambda>(t, i, qs). (t, map anonymous qs)) fs = map (\<lambda>t. (t, grouped num heap b ops t)) (tag_names ops)"
proof (induction ops rule: rev_induct)
  case (snoc x ops)
  obtain rs fs m where st: "fold (add_operation ids num heap b) ops ([], [], n) = (rs, fs, m)" by (metis prod.exhaust)
  obtain path verb op item where x: "x = (path, verb, op, item)" by (metis prod.exhaust)
  let ?req = "buildRequest num heap (ids m) verb path b op item" and ?t = "operation_tag x"
  have t: "tag_of op = ?t" by (simp add: x operation_tag_def)
  have c: "anonymous ?req = conversion num heap b x" by (simp add: anonymous_build conversion_def x)
  have rs: "map anonymous rs = grouped num heap b ops []"
    and fs: "map (\<lambda>(t, i, qs). (t, map anonymous qs)) fs = map (\<lambda>t. (t, grouped num heap b ops t)) (tag_names ops)"
    using snoc.IH by (simp_all add: st)
  have names: "fst ` set fs = set (tag_names ops)"
    using arg_cong [OF fs, of "\<lambda>xs. fst ` set xs"] by (simp add: image_image case_prod_unfold)
  have more: "tag_names (ops @ [x]) = tag_names ops @ (if ?t = [] \<or> ?t \<in> set (tag_names ops) then [] else [?t])"
    using set_tag_names [of ?t ops] by (auto simp: tag_names_def dedupe_snoc)
  have step: "fold (add_operation ids num heap b) (ops @ [x]) ([], [], n) =
      (if ?t = [] then (rs @ [?req], fs, Suc m)
       else if ?t \<in> set (tag_names ops)
       then (rs, map (\<lambda>(t, i, qs). if t = ?t then (t, i, qs @ [?req]) else (t, i, qs)) fs, Suc m)
       else (rs, fs @ [(?t, ids (Suc m), [?req])], Suc (Suc m)))"
    using t by (simp add: st add_operation_def x names [symmetric])
  consider (none) "?t = []" | (old) "?t \<noteq> []" "?t \<in> set (tag_names ops)" | (new) "?t \<noteq> []" "?t \<notin> set (tag_names ops)" by blast
  then show ?case
  proof cases
    case none
    have "grouped num heap b (ops @ [x]) t = grouped num heap b ops t" if "t \<in> set (tag_names ops)" for t
      using that none by (auto simp: grouped_snoc set_tag_names)
    then show ?thesis unfolding step using none rs fs more c by (simp add: grouped_snoc)
  next
    case old
    let ?up = "\<lambda>(t, i, qs). if t = ?t then (t, i, qs @ [?req]) else (t, i, qs)"
    have "map (\<lambda>(t, i, qs). (t, map anonymous qs)) (map ?up fs) =
        map (\<lambda>(t, qs). (t, qs @ (if ?t = t then [conversion num heap b x] else []))) (map (\<lambda>(t, i, qs). (t, map anonymous qs)) fs)"
      using c by auto
    also have "\<dots> = map (\<lambda>t. (t, grouped num heap b (ops @ [x]) t)) (tag_names ops)" unfolding fs by (simp add: grouped_snoc)
    finally show ?thesis unfolding step using old rs more by (simp add: grouped_snoc)
  next
    case new
    then have "grouped num heap b ops ?t = []" by (simp add: grouped_new set_tag_names)
    moreover have "map (\<lambda>t. (t, grouped num heap b (ops @ [x]) t)) (tag_names ops) = map (\<lambda>t. (t, grouped num heap b ops t)) (tag_names ops)"
      using new by (auto simp: grouped_snoc)
    ultimately show ?thesis unfolding step using new rs fs more c by (simp add: grouped_snoc)
  qed
qed (simp add: grouped_def tag_names_def)


section \<open>Parameters\<close>

definition param_key :: "parameter \<Rightarrow> string" where
  "param_key p = pm_In p @ '':'' @ pm_Name p"

lemma add_parameters_skip:
  assumes "param_key q \<in> set seen \<or> (\<exists>p. Some p \<in> set ps \<and> param_key p = param_key q)"
  shows "add_parameters num seen (ps @ Some q # qs) r = add_parameters num seen (ps @ qs) r"
  using assms
proof (induction num seen ps r rule: add_parameters.induct)
  case (3 num seen p ps r)
  then show ?case by (auto simp: param_key_def Let_def)
qed (auto simp: param_key_def)

text \<open>
  A parameter of an operation is meant to override the one of its path with the same place and name;
  the import takes the one of the path, and the operation's own is ignored.
\<close>

theorem path_parameter_wins:
  assumes "Some p \<in> set (pi_Parameters item)" and "pm_In p = pm_In q" and "pm_Name p = pm_Name q"
    and "oo_Parameters op = qs1 @ Some q # qs2"
  shows "buildRequest num heap i method path b op item = buildRequest num heap i method path b (op\<lparr>oo_Parameters := qs1 @ qs2\<rparr>) item"
proof -
  have "add_parameters num [] ((pi_Parameters item @ qs1) @ Some q # qs2) r = add_parameters num [] ((pi_Parameters item @ qs1) @ qs2) r" for r
    by (rule add_parameters_skip) (use assms(1-3) in \<open>auto simp: param_key_def\<close>)
  moreover have "requestName (op\<lparr>oo_Parameters := qs1 @ qs2\<rparr>) method path = requestName op method path" by (simp add: requestName_def)
  ultimately show ?thesis by (simp add: buildRequest_def assms(4))
qed

definition limit_param :: "string \<Rightarrow> parameter" where
  "limit_param v = \<lparr>pm_In = ''query'', pm_Name = ''limit'', pm_Description = [], pm_Required = True,
     pm_Example = Some (JStr v), pm_Default = None\<rparr>"

definition plain_operation :: operation where
  "plain_operation = \<lparr>oo_Summary = [], oo_OperationID = [], oo_Tags = [], oo_Parameters = [Some (limit_param ''5'')], oo_Content = []\<rparr>"

theorem path_parameter_wins_witness:
  "map kv_Value (rq_Params (buildRequest id (\<lambda>_. undefined) ''i'' ''GET'' ''/a'' False plain_operation
     \<lparr>pi_Parameters = [Some (limit_param ''100'')], pi_Operations = []\<rparr>)) = [''100'']"
proof -
  have "buildRequest id (\<lambda>_. undefined) ''i'' ''GET'' ''/a'' False plain_operation
      \<lparr>pi_Parameters = [Some (limit_param ''100'')], pi_Operations = []\<rparr> =
    buildRequest id (\<lambda>_. undefined) ''i'' ''GET'' ''/a'' False (plain_operation\<lparr>oo_Parameters := [] @ []\<rparr>)
      \<lparr>pi_Parameters = [Some (limit_param ''100'')], pi_Operations = []\<rparr>"
    by (rule path_parameter_wins [of "limit_param ''100''" _ "limit_param ''5''"]) (simp_all add: limit_param_def plain_operation_def)
  then show ?thesis
    by (simp add: buildRequest_def add_parameter_def param_row_def limit_param_def defaultParamValue_def formatExample_def zero_request_def)
qed

section \<open>Sample bodies\<close>

text \<open>
  When a value fits a schema: anywhere a cut (\<open>JNull\<close>), else what the schema states, the merge of objects
  that fit parts of \<open>allOf\<close>, a value of the first alternative, or a value of the declared type; an object
  has exactly the members the schema names, without the read-only ones.
\<close>

inductive fits :: "schemas \<Rightarrow> nat option \<Rightarrow> json \<Rightarrow> bool" for heap where
  cut: "fits heap r JNull"
| stated: "stated (heap i) = Some v \<Longrightarrow> fits heap (Some i) v"
| all_of: "ms \<noteq> [] \<Longrightarrow> (\<And>k v. (k, v) \<in> set ms \<Longrightarrow> \<exists>r ps. r \<in> set (sm_AllOf (heap i)) \<and> fits heap r (JObj ps) \<and> (k, v) \<in> set ps) \<Longrightarrow>
    fits heap (Some i) (JObj ms)"
| one_of: "sm_OneOf (heap i) = r # rs \<Longrightarrow> fits heap r v \<Longrightarrow> fits heap (Some i) v"
| any_of: "sm_AnyOf (heap i) = r # rs \<Longrightarrow> fits heap r v \<Longrightarrow> fits heap (Some i) v"
| object: "''object'' \<in> set (sm_Type (heap i)) \<or> sm_Properties (heap i) \<noteq> [] \<Longrightarrow>
    map fst ms = filter (\<lambda>k. writable heap (the (map_of (sm_Properties (heap i)) k))) (sortedKeys (sm_Properties (heap i))) \<Longrightarrow>
    (\<And>k v. (k, v) \<in> set ms \<Longrightarrow> fits heap (the (map_of (sm_Properties (heap i)) k)) v) \<Longrightarrow> fits heap (Some i) (JObj ms)"
| array: "''array'' \<in> set (sm_Type (heap i)) \<Longrightarrow> fits heap (sm_Items (heap i)) v \<Longrightarrow> fits heap (Some i) (JArr [v])"
| boolean: "''boolean'' \<in> set (sm_Type (heap i)) \<Longrightarrow> fits heap (Some i) (JBool b)"
| number: "''integer'' \<in> set (sm_Type (heap i)) \<or> ''number'' \<in> set (sm_Type (heap i)) \<Longrightarrow> fits heap (Some i) (JNum n)"
| textual: "''string'' \<in> set (sm_Type (heap i)) \<Longrightarrow> fits heap (Some i) (JStr s)"

lemma merge_members: "x \<in> set (merge_object v m) \<Longrightarrow> x \<in> set m \<or> (\<exists>ps. v = JObj ps \<and> x \<in> set ps)"
proof (cases v)
  case (JObj ps)
  assume "x \<in> set (merge_object v m)"
  then have "x \<in> set (fold (\<lambda>(k, x). AList.update k x) ps m)" by (simp add: merge_object_def JObj)
  then have "x \<in> set m \<or> x \<in> set ps"
  proof (induction ps arbitrary: m)
    case (Cons p ps)
    have "set (AList.update k y m) \<subseteq> insert (k, y) (set m)" for k y
      by (induction m) auto
    with Cons show ?case by (cases p) fastforce
  qed simp
  with JObj show ?thesis by blast
qed (simp_all add: merge_object_def)

lemma merged_members:
  "x \<in> set (fold merge_object vs m) \<Longrightarrow> x \<in> set m \<or> (\<exists>ps. JObj ps \<in> set vs \<and> x \<in> set ps)"
proof (induction vs arbitrary: m)
  case (Cons v vs)
  from Cons.IH [of "merge_object v m"] Cons.prems merge_members [of x v m] show ?case by auto
qed simp

lemma fits_if: "(c \<Longrightarrow> fits heap r v) \<Longrightarrow> (\<not> c \<Longrightarrow> fits heap r w) \<Longrightarrow> fits heap r (if c then v else w)"
  by simp

lemma sample_fits_step:
  assumes IH: "\<And>r. fits heap r (sub r)" and s: "stated (heap i) = None"
  shows "fits heap (Some i)
    (let merged = fold merge_object (map sub (sm_AllOf (heap i))) [] in
     if merged \<noteq> [] then JObj merged
     else if sm_OneOf (heap i) \<noteq> [] then sub (hd (sm_OneOf (heap i)))
     else if sm_AnyOf (heap i) \<noteq> [] then sub (hd (sm_AnyOf (heap i)))
     else if ''object'' \<in> set (sm_Type (heap i)) \<or> sm_Properties (heap i) \<noteq> []
     then JObj (map (\<lambda>k. (k, sub (the (map_of (sm_Properties (heap i)) k))))
            (filter (\<lambda>k. writable heap (the (map_of (sm_Properties (heap i)) k))) (sortedKeys (sm_Properties (heap i)))))
     else if ''array'' \<in> set (sm_Type (heap i)) then JArr [sub (sm_Items (heap i))]
     else if ''boolean'' \<in> set (sm_Type (heap i)) then JBool False
     else if ''integer'' \<in> set (sm_Type (heap i)) \<or> ''number'' \<in> set (sm_Type (heap i)) then JNum ''0''
     else if ''string'' \<in> set (sm_Type (heap i)) then JStr (placeholderString (heap i))
     else JNull)"
proof -
  let ?m = "fold merge_object (map sub (sm_AllOf (heap i))) []"
  have all: "fits heap (Some i) (JObj ?m)" if "?m \<noteq> []"
  proof (rule fits.all_of [OF that])
    fix k v assume "(k, v) \<in> set ?m"
    from merged_members [OF this] obtain ps where "JObj ps \<in> sub ` set (sm_AllOf (heap i))" "(k, v) \<in> set ps" by auto
    then show "\<exists>r ps. r \<in> set (sm_AllOf (heap i)) \<and> fits heap r (JObj ps) \<and> (k, v) \<in> set ps"
      using IH by (metis imageE)
  qed
  have alternative: "fits heap (Some i) (sub (hd (sm_OneOf (heap i))))" if "sm_OneOf (heap i) \<noteq> []"
    using that IH by (cases "sm_OneOf (heap i)") (auto intro: fits.one_of)
  have alternative2: "fits heap (Some i) (sub (hd (sm_AnyOf (heap i))))" if "sm_AnyOf (heap i) \<noteq> []"
    using that IH by (cases "sm_AnyOf (heap i)") (auto intro: fits.any_of)
  have members: "fits heap (Some i) (JObj (map (\<lambda>k. (k, sub (the (map_of (sm_Properties (heap i)) k))))
      (filter (\<lambda>k. writable heap (the (map_of (sm_Properties (heap i)) k))) (sortedKeys (sm_Properties (heap i))))))"
    if "''object'' \<in> set (sm_Type (heap i)) \<or> sm_Properties (heap i) \<noteq> []"
    using that by (rule fits.object) (auto simp: comp_def IH)
  show ?thesis unfolding Let_def
    by (intro fits_if all alternative alternative2 members)
      (assumption | rule fits.array fits.boolean fits.number fits.textual fits.cut IH)+
qed


end
