(* ===== verification/UpdateCheck.thy ===== *)
theory UpdateCheck
  imports Postman
begin

text \<open>
  \<open>internal/updatecheck/updatecheck.go\<close>: the latest release as GitHub reports it, and the comparison of
  versions. The HTTP exchange is a parameter: the error, or the status code, the status text and the
  body.
\<close>

record Release =
  rl_Tag :: string
  rl_HTMLURL :: string

datatype update_status = StatusUnknown | StatusUpToDate | StatusUpdateAvailable | StatusAhead

definition GitHubLatestURL :: string where
  "GitHubLatestURL = ''https://api.github.com/repos/ideaconnect/helena/releases/latest''"

definition latestFromURL :: "(string \<Rightarrow> (int \<times> string \<times> string) result) \<Rightarrow> (string \<Rightarrow> string) \<Rightarrow> string \<Rightarrow> Release result" where
  "latestFromURL fetch json_error url =
     (case fetch url of
        Inl e \<Rightarrow> Inl e
      | Inr (code, status, body) \<Rightarrow>
         if code \<noteq> 200 then Inl (''github: unexpected status '' @ status)
         else
           let text = take (2 ^ 20) body;
               payload = dec_struct (\<lambda>ms. case (dec_string (json_field ms ''tag_name''), dec_string (json_field ms ''html_url'')) of
                 (Some t, Some u) \<Rightarrow> Some (t, u) | _ \<Rightarrow> None)
           in (case Option.bind (Decode text) payload of
                 None \<Rightarrow> Inl (''github: decode response: '' @ json_error text)
               | Some (t, u) \<Rightarrow>
                  if t = [] then Inl ''github: response had no tag_name''
                  else Inr \<lparr>rl_Tag = t, rl_HTMLURL = u\<rparr>))"

definition LatestGitHubRelease :: "(string \<Rightarrow> (int \<times> string \<times> string) result) \<Rightarrow> (string \<Rightarrow> string) \<Rightarrow> Release result" where
  "LatestGitHubRelease fetch json_error = latestFromURL fetch json_error GitHubLatestURL"

section \<open>Versions\<close>

definition upto_byte :: "char \<Rightarrow> string \<Rightarrow> string" where
  "upto_byte c s = (case index_byte s c of Some i \<Rightarrow> take i s | None \<Rightarrow> s)"

text \<open>The numbers of a version, and whether it is a pre-release; \<open>None\<close> is \<open>ok = false\<close>.\<close>

definition parseVersion :: "string \<Rightarrow> (int list \<times> bool) option" where
  "parseVersion s0 =
     (let s1 = upto_byte CHR ''+'' (trim_prefix (trim_space s0) ''v'');
          pre = (index_byte s1 CHR ''-'' \<noteq> None); s = upto_byte CHR ''-'' s1
      in if s = [] then None else map_option (\<lambda>ns. (ns, pre)) (all_some (map atoi (split_on CHR ''.'' s))))"

text \<open>Component by component, a missing one as 0.\<close>

fun cmpVersion :: "int list \<Rightarrow> int list \<Rightarrow> int" where
  "cmpVersion [] [] = 0"
| "cmpVersion (a # as) [] = (if a < 0 then -1 else if a > 0 then 1 else cmpVersion as [])"
| "cmpVersion [] (b # bs) = (if 0 < b then -1 else if 0 > b then 1 else cmpVersion [] bs)"
| "cmpVersion (a # as) (b # bs) = (if a < b then -1 else if a > b then 1 else cmpVersion as bs)"

definition Compare :: "string \<Rightarrow> string \<Rightarrow> update_status" where
  "Compare current latest =
     (case (parseVersion current, parseVersion latest) of
        (Some (cur, curPre), Some (lat, latPre)) \<Rightarrow>
          (let c = cmpVersion cur lat in
           if c \<noteq> 0 then (if c < 0 then StatusUpdateAvailable else StatusAhead)
           else if curPre \<and> \<not> latPre then StatusUpdateAvailable
           else if \<not> curPre \<and> latPre then StatusAhead
           else StatusUpToDate)
      | _ \<Rightarrow> StatusUnknown)"

section \<open>The comparison is a linear order\<close>

text \<open>The rank of a version: its numbers without trailing zeros, a release above its pre-releases.\<close>

fun trim_zeros :: "int list \<Rightarrow> int list" where
  "trim_zeros [] = []"
| "trim_zeros (a # as) = (let t = trim_zeros as in if a = 0 \<and> t = [] then [] else a # t)"

definition version_rank :: "string \<Rightarrow> (int list \<times> bool) option" where
  "version_rank s = map_option (\<lambda>(ns, pre). (trim_zeros ns, \<not> pre)) (parseVersion s)"

lemma cmpVersion_trim:
  assumes "\<forall>a\<in>set as. 0 \<le> a" and "\<forall>b\<in>set bs. 0 \<le> b"
  shows "cmpVersion as bs = (if trim_zeros as < trim_zeros bs then -1 else if trim_zeros bs < trim_zeros as then 1 else 0)"
  using assms
proof (induction as bs rule: cmpVersion.induct)
  case (2 a as)
  then show ?case by (cases "trim_zeros as") (auto simp: Let_def)
next
  case (3 b bs)
  then show ?case by (cases "trim_zeros bs") (auto simp: Let_def)
next
  case (4 a as b bs)
  then show ?case by (cases "trim_zeros as"; cases "trim_zeros bs") (auto simp: Let_def)
qed simp

lemma atoi_nonneg: "atoi s = Some n \<Longrightarrow> CHR ''-'' \<notin> set s \<Longrightarrow> 0 \<le> n"
  by (auto simp: atoi_def Let_def split: if_splits dest: set_mono_prefix)

lemma all_some_set: "all_some xs = Some ys \<Longrightarrow> y \<in> set ys \<Longrightarrow> Some y \<in> set xs"
  by (induction xs arbitrary: ys) (auto split: option.splits)

lemma set_join: "x \<in> set xs \<Longrightarrow> set x \<subseteq> set (join sep xs)"
  by (induction sep xs rule: join.induct) auto

lemma split_on_chars: "x \<in> set (split_on c s) \<Longrightarrow> set x \<subseteq> set s"
  using set_join [of x "split_on c s" "[c]"] by (simp add: join_split_on)

lemma upto_byte_absent: "c \<notin> set (upto_byte c s)"
  by (auto simp: upto_byte_def split: option.split dest: index_byte_Some)

lemma parseVersion_nonneg:
  assumes "parseVersion s = Some (ns, pre)" "n \<in> set ns"
  shows "0 \<le> n"
proof -
  obtain t where t: "all_some (map atoi (split_on CHR ''.'' (upto_byte CHR ''-'' t))) = Some ns"
    using assms(1) by (auto simp: parseVersion_def Let_def split: if_splits)
  from all_some_set [OF t assms(2)] obtain x where x: "x \<in> set (split_on CHR ''.'' (upto_byte CHR ''-'' t))" "atoi x = Some n" by auto
  with split_on_chars [OF x(1)] upto_byte_absent have "CHR ''-'' \<notin> set x" by blast
  with x(2) show ?thesis by (rule atoi_nonneg)
qed

text \<open>
  C21 \<open>Compare\<close> is a linear order: it compares ranks, that is the numbers without trailing zeros,
  lexicographically, and then puts a release above its pre-releases. So it is transitive, the
  opposite question has the opposite answer, and versions are up to date only with equal ranks.
\<close>

theorem Compare_by_rank:
  "Compare current latest =
    (case (version_rank current, version_rank latest) of
       (Some c, Some l) \<Rightarrow> if c < l then StatusUpdateAvailable else if l < c then StatusAhead else StatusUpToDate
     | _ \<Rightarrow> StatusUnknown)"
proof (cases "parseVersion current")
  case (Some x)
  show ?thesis
  proof (cases "parseVersion latest")
    case y: (Some y)
    obtain as p bs q where xy: "x = (as, p)" "y = (bs, q)" by fastforce
    have "cmpVersion as bs = (if trim_zeros as < trim_zeros bs then -1 else if trim_zeros bs < trim_zeros as then 1 else 0)"
      using Some y parseVersion_nonneg by (intro cmpVersion_trim) (auto simp: xy)
    then show ?thesis
      by (cases p; cases q) (auto simp: Compare_def version_rank_def Some y xy Let_def less_prod_def)
  qed (simp add: Compare_def version_rank_def Some case_prod_unfold)
qed (simp add: Compare_def version_rank_def)

text \<open>The pre-releases of one version are not told apart.\<close>

lemma prereleases_equal: "Compare ''v1.0.0-rc1'' ''v1.0.0-rc2'' = StatusUpToDate"
  by code_simp

end
