(* ===== verification/QuerySync.thy ===== *)
theory QuerySync
  imports AuthProps Vars
begin

text \<open>
  \<open>internal/ui/query.go\<close>: the URL field and the query table as two views of a request, and the edit of the
  URL field of \<open>ui/editor.go\<close>.
\<close>

definition splitURLQuery :: "string \<Rightarrow> string \<times> string \<times> string" where
  "splitURLQuery raw0 =
     (let (raw, fragment) = (case index_byte raw0 CHR ''#'' of Some i \<Rightarrow> (take i raw0, drop (Suc i) raw0) | None \<Rightarrow> (raw0, []))
      in case index_byte raw CHR ''?'' of
           Some i \<Rightarrow> (take i raw, drop (Suc i) raw, fragment) | None \<Rightarrow> (raw, [], fragment))"

definition withFragment :: "string \<Rightarrow> string \<Rightarrow> string" where
  "withFragment base fragment = (if fragment = [] then base else base @ ''#'' @ fragment)"

definition queryUnescape :: "string \<Rightarrow> string" where
  "queryUnescape s = (case QueryUnescape s of Some d \<Rightarrow> d | None \<Rightarrow> s)"

definition query_row :: "string \<Rightarrow> key_value option" where
  "query_row part =
     (case cut part CHR ''='' of (k, v, _) \<Rightarrow>
        if part = [] \<or> queryUnescape k = [] then None
        else Some \<lparr>kv_Enabled = True, kv_Key = queryUnescape k, kv_Value = queryUnescape v, kv_Description = []\<rparr>)"

definition parseQueryParams :: "string \<Rightarrow> key_value list" where
  "parseQueryParams query =
     (if query = [] then [] else List.map_filter query_row (split_on CHR ''&'' query))"

function encodeQueryComponent :: "string \<Rightarrow> string" where
  "encodeQueryComponent s =
     (case index_of s open2 of
        None \<Rightarrow> QueryEscape s
      | Some i \<Rightarrow>
         (let rest = drop i s in
          case index_of rest close2 of
            None \<Rightarrow> QueryEscape (take i s) @ QueryEscape rest
          | Some j \<Rightarrow> QueryEscape (take i s) @ take (j + 2) rest @ encodeQueryComponent (drop (j + 2) rest)))"
  by pat_completeness auto

termination
  by (relation "measure length") (auto simp: open2_def dest: index_of_Some)

declare encodeQueryComponent.simps [simp del]

definition buildQueryString :: "key_value list \<Rightarrow> string" where
  "buildQueryString params =
     join ''&'' (map (\<lambda>p. encodeQueryComponent (kv_Key p) @ ''='' @ encodeQueryComponent (kv_Value p))
       (filter (\<lambda>p. kv_Enabled p \<and> kv_Key p \<noteq> []) params))"

definition displayURL :: "string \<Rightarrow> key_value list \<Rightarrow> string" where
  "displayURL base params =
     (let (b, _, fragment) = splitURLQuery base; q = buildQueryString params
      in withFragment (if q \<noteq> [] then b @ ''?'' @ q else b) fragment)"

definition mergeQueryFromURL :: "key_value list \<Rightarrow> key_value list \<Rightarrow> key_value list" where
  "mergeQueryFromURL existing fromURL = fromURL @ filter (\<lambda>p. \<not> kv_Enabled p) existing"

definition applyURLEdit :: "string \<Rightarrow> request \<Rightarrow> request" where
  "applyURLEdit s r =
     (let (base, query, frag) = splitURLQuery s
      in r\<lparr>rq_URL := withFragment base frag, rq_Params := mergeQueryFromURL (rq_Params r) (parseQueryParams query)\<rparr>)"

section \<open>The two views agree\<close>

text \<open>A text whose placeholders, which are kept verbatim, have no character that means something in a query.\<close>

definition harmless :: "char \<Rightarrow> bool" where
  "harmless c \<longleftrightarrow> c \<notin> set ''%+&=#''"

function plain_placeholders :: "string \<Rightarrow> bool" where
  "plain_placeholders s =
     (case index_of s open2 of
        None \<Rightarrow> True
      | Some i \<Rightarrow>
         (let rest = drop i s in
          case index_of rest close2 of
            None \<Rightarrow> True
          | Some j \<Rightarrow> list_all harmless (take (j + 2) rest) \<and> plain_placeholders (drop (j + 2) rest)))"
  by pat_completeness auto

termination
  by (relation "measure length") (auto simp: open2_def dest: index_of_Some)

declare plain_placeholders.simps [simp del]

lemma unescape_escaped: "QueryUnescape (QueryEscape a @ t) = map_option ((@) a) (QueryUnescape t)"
proof (induction a)
  case (Cons c a)
  then show ?case
    by (auto simp: QueryEscape_def QueryUnescape_percent unreserved_plain option.map_comp comp_def)
qed (simp add: QueryEscape_def option.map_ident)

lemma unescape_verbatim: "list_all harmless v \<Longrightarrow> QueryUnescape (v @ t) = map_option ((@) v) (QueryUnescape t)"
proof (induction v)
  case Nil
  show ?case by (cases "QueryUnescape t") simp_all
next
  case (Cons c v)
  then show ?case by (cases "QueryUnescape t") (simp_all add: harmless_def)
qed

lemma unescape_encoded:
  "plain_placeholders s \<Longrightarrow> QueryUnescape (encodeQueryComponent s @ t) = map_option ((@) s) (QueryUnescape t)"
proof (induction s arbitrary: t rule: encodeQueryComponent.induct)
  case (1 s)
  show ?case
  proof (cases "index_of s open2")
    case None
    then show ?thesis by (simp add: encodeQueryComponent.simps [of s] unescape_escaped)
  next
    case i: (Some i)
    show ?thesis
    proof (cases "index_of (drop i s) close2")
      case None
      have "map_option ((@) (take i s)) (map_option ((@) (drop i s)) x) = map_option ((@) s) x" for x
        by (simp add: option.map_comp comp_def flip: append_assoc)
      with None i show ?thesis by (simp add: encodeQueryComponent.simps [of s] unescape_escaped Let_def)
    next
      case (Some j)
      let ?v = "take (j + 2) (drop i s)" and ?r = "drop (j + 2) (drop i s)"
      have v: "list_all harmless ?v" "plain_placeholders ?r"
        using "1.prems" i Some by (simp_all add: plain_placeholders.simps [of s] Let_def)
      have "take i s @ ?v @ ?r = s" by (metis append_take_drop_id)
      then have "take i s @ ?v @ ?r @ x = s @ x" for x by (metis append_assoc)
      then have "map_option ((@) (take i s)) (map_option ((@) ?v) (map_option ((@) ?r) x)) = map_option ((@) s) x" for x
        by (cases x) (simp_all del: append_assoc drop_drop)
      with "1.IH" [OF i refl Some v(2)] v(1) show ?thesis
        by (simp add: encodeQueryComponent.simps [of s] i Some Let_def unescape_escaped unescape_verbatim)
    qed
  qed
qed

lemma escaped_harmless: "c \<in> set (QueryEscape s) \<Longrightarrow> c \<notin> set ''&=#''"
  by (auto simp: QueryEscape_def unreserved_def alnum_def between_def split: if_splits dest!: percent_byte_set)

lemma encoded_harmless: "plain_placeholders s \<Longrightarrow> c \<in> set (encodeQueryComponent s) \<Longrightarrow> c \<notin> set ''&=#''"
proof (induction s rule: encodeQueryComponent.induct)
  case (1 s)
  then show ?case
    by (auto simp: encodeQueryComponent.simps [of s] plain_placeholders.simps [of s] Let_def list_all_iff harmless_def
        dest!: escaped_harmless split: option.splits)
qed

lemma encodeQueryComponent_Nil [simp]: "encodeQueryComponent [] = []"
  by (simp add: encodeQueryComponent.simps open2_def QueryEscape_def)

lemma queryUnescape_encoded: "plain_placeholders s \<Longrightarrow> queryUnescape (encodeQueryComponent s) = s"
  using unescape_encoded [of s "[]"] by (simp add: queryUnescape_def)

definition shown :: "key_value \<Rightarrow> bool" where
  "shown p \<longleftrightarrow> kv_Enabled p \<and> kv_Key p \<noteq> []"

definition plain_row :: "key_value \<Rightarrow> bool" where
  "plain_row p \<longleftrightarrow> plain_placeholders (kv_Key p) \<and> plain_placeholders (kv_Value p)"

definition encoded_row :: "key_value \<Rightarrow> string" where
  "encoded_row p = encodeQueryComponent (kv_Key p) @ ''='' @ encodeQueryComponent (kv_Value p)"

lemma query_row_encoded:
  assumes "plain_row p" "shown p"
  shows "query_row (encoded_row p) = Some (p\<lparr>kv_Description := []\<rparr>)" "CHR ''&'' \<notin> set (encoded_row p)" "CHR ''#'' \<notin> set (encoded_row p)"
proof -
  have "CHR ''='' \<notin> set (encodeQueryComponent (kv_Key p))" using encoded_harmless assms(1) by (auto simp: plain_row_def)
  then have "cut (encoded_row p) CHR ''='' = (encodeQueryComponent (kv_Key p), encodeQueryComponent (kv_Value p), True)"
    unfolding encoded_row_def by (simp add: cut_append)
  then show "query_row (encoded_row p) = Some (p\<lparr>kv_Description := []\<rparr>)"
    using assms queryUnescape_encoded by (auto simp: query_row_def plain_row_def shown_def encoded_row_def)
  show "CHR ''&'' \<notin> set (encoded_row p)" "CHR ''#'' \<notin> set (encoded_row p)"
    using encoded_harmless assms(1) by (auto simp: encoded_row_def plain_row_def)
qed

lemma parse_build:
  assumes "\<forall>p\<in>set params. shown p \<longrightarrow> plain_row p"
  shows "parseQueryParams (buildQueryString params) = map (\<lambda>p. p\<lparr>kv_Description := []\<rparr>) (filter shown params)"
    and "CHR ''#'' \<notin> set (buildQueryString params)"
proof -
  let ?on = "filter shown params"
  have b: "buildQueryString params = join ''&'' (map encoded_row ?on)"
    by (simp add: buildQueryString_def encoded_row_def [abs_def] shown_def [abs_def])
  have on: "query_row (encoded_row p) = Some (p\<lparr>kv_Description := []\<rparr>)" "CHR ''&'' \<notin> set (encoded_row p)" "CHR ''#'' \<notin> set (encoded_row p)"
    if "p \<in> set ?on" for p
    using that assms query_row_encoded [of p] by auto
  have rows: "List.map_filter query_row (map encoded_row ps) = map (\<lambda>p. p\<lparr>kv_Description := []\<rparr>) ps" if "set ps \<subseteq> set ?on" for ps
    using that on(1) by (induction ps) (simp_all add: map_filter_simps)
  show "CHR ''#'' \<notin> set (buildQueryString params)"
  proof -
    have "CHR ''#'' \<notin> set (join ''&'' ws)" if "\<forall>w\<in>set ws. CHR ''#'' \<notin> set w" for ws
      using that by (induction "''&''" ws rule: join.induct) auto
    then show ?thesis unfolding b using on(3) by auto
  qed
  show "parseQueryParams (buildQueryString params) = map (\<lambda>p. p\<lparr>kv_Description := []\<rparr>) ?on"
  proof (cases "?on = []")
    case False
    have "split_on CHR ''&'' (join ''&'' (map encoded_row ?on)) = map encoded_row ?on"
      using False on(2) by (intro split_on_join) auto
    moreover have "join ''&'' (map encoded_row ?on) \<noteq> []"
      using False by (cases ?on; cases "tl ?on") (auto simp: encoded_row_def)
    ultimately show ?thesis unfolding b parseQueryParams_def using rows [of ?on] by simp
  qed (simp add: b parseQueryParams_def)
qed

lemma splitURLQuery_cut:
  "splitURLQuery s = (case cut s CHR ''#'' of (raw, f, _) \<Rightarrow> case cut raw CHR ''?'' of (b, q, _) \<Rightarrow> (b, q, f))"
proof -
  have "(case index_byte r c of Some i \<Rightarrow> (take i r, drop (Suc i) r, f) | None \<Rightarrow> (r, [], f)) =
      (case cut r c of (b, q, _) \<Rightarrow> (b, q, f))" for r c and f :: string
    by (simp add: cut_def del: index_byte_None split: option.split)
  moreover have "(case index_byte s c of Some i \<Rightarrow> (take i s, drop (Suc i) s) | None \<Rightarrow> (s, [])) =
      (fst (cut s c), fst (snd (cut s c)))" for c
    by (simp add: cut_def del: index_byte_None split: option.split)
  ultimately show ?thesis by (simp add: splitURLQuery_def case_prod_unfold Let_def)
qed

lemma splitURLQuery_joined:
  assumes "CHR ''#'' \<notin> set b" "CHR ''?'' \<notin> set b" "CHR ''#'' \<notin> set q"
  shows "splitURLQuery (withFragment (if q \<noteq> [] then b @ ''?'' @ q else b) f) = (b, q, f)"
proof -
  let ?u = "if q \<noteq> [] then b @ ''?'' @ q else b"
  have u: "CHR ''#'' \<notin> set ?u" using assms by auto
  have "cut (withFragment ?u f) CHR ''#'' = (?u, f, f \<noteq> [])"
    using cut_append [OF u, of f] cut_absent [OF u] by (cases "f = []") (simp_all only: withFragment_def if_True if_False append.simps refl not_False_eq_True not_True_eq_False simp_thms)
  moreover have "cut ?u CHR ''?'' = (b, q, q \<noteq> [])"
    using cut_append [OF assms(2), of q] cut_absent [OF assms(2)] by simp
  ultimately show ?thesis by (simp only: splitURLQuery_cut prod.case)
qed

lemma cut_before: "cut s c = (a, b, t) \<Longrightarrow> c \<notin> set a \<and> set a \<subseteq> set s"
  by (auto simp: cut_def split: option.splits dest: index_byte_Some in_set_takeD)

lemma splitURLQuery_parts:
  assumes "splitURLQuery s = (b, q, f)"
  shows "CHR ''#'' \<notin> set b" "CHR ''?'' \<notin> set b"
proof -
  obtain raw t where c: "cut s CHR ''#'' = (raw, f, t)" and d: "cut raw CHR ''?'' = (b, q, snd (snd (cut raw CHR ''?'')))"
    using assms by (auto simp: splitURLQuery_cut split: prod.splits)
  from cut_before [OF c] cut_before [OF d] show "CHR ''#'' \<notin> set b" "CHR ''?'' \<notin> set b" by auto
qed


definition sample_rows :: "key_value list" where
  "sample_rows =
     [\<lparr>kv_Enabled = False, kv_Key = ''off'', kv_Value = [], kv_Description = ''d''\<rparr>,
      \<lparr>kv_Enabled = True, kv_Key = ''q'', kv_Value = ''a&b='' @ open2 @ ''v'' @ close2, kv_Description = ''d''\<rparr>]"


end
