(* ===== verification/Spec2Isabelle.thy ===== *)
theory Spec2Isabelle
  imports Prelude GoStrings ApiModel GoNet GoHttp GoScan GoJson Vars VarsRef PathParam Chain ChainVars
    Config CookieJar SessionTree SessionSearch Session SessionEnv SessionInv SessionItems ItemLemmas
    ItemProps ItemIds EnvText Auth AuthProps SessionFinder Secrets History Assertion Scripting Exec
    Runner RunnerTree RunnerProps OpenCollection Store StoreSave StoreLoad StoreRoundtrip StoreProps WebSocket EventStream Report
    CurlImport Exporter CurlRoundtrip OAuth2 OAuth2Flight NTLM HttpClient HttpClientProps Responsefmt Postman OpenApi Wsdl OpenApiProps
    UpdateCheck QuerySync
begin

text \<open>
  A verification development for Helena, a desktop API client written in Go. The program keeps
  collections of HTTP requests in a tree of folders, resolves variables in them, runs the requests
  they depend on first, sends them, runs scripts before and after, checks the answers and records
  what was sent. File names below are under \<open>src/internal\<close>.

  \<^bold>\<open>How the parts interact.\<close> A session (\<open>session\<close>) holds the configuration (\<open>config\<close>), the loaded
  collections (\<open>model\<close>) and the cookie jar. A send or a run (\<open>runner\<close>) picks requests of the tree,
  lets \<open>chain\<close> execute the before-requests of each, gives every one of them to an executor which
  resolves templates (\<open>vars\<close>, \<open>pathparam\<close>), applies the inherited authentication (\<open>auth\<close>) and calls
  the scripts (\<open>scripting\<close>), and checks the answer (\<open>assertion\<close>). The UI keeps a record in
  \<open>history\<close>. Secret fields are split from a collection before it is written (\<open>storage\<close>).

  \<^bold>\<open>Conventions.\<close> Go strings are byte lists. Go \<open>int\<close> values are \<open>int\<close>, or \<open>nat\<close> for the lengths and
  counters that never become negative; where a computation can leave 64 bits the reduction is
  written out. An error is \<open>Inl\<close> of its message. A method with a pointer receiver takes the
  state last and returns it with its result. A Go map is a partial function, and where the code
  ranges over one, the order is an argument. What the code takes from outside (files, network,
  clock, random values, hash functions, regular expressions, the JavaScript engine) is a
  parameter: a record of functions (\<open>session_io\<close>, \<open>history_io\<close>, \<open>exec_env\<close>, \<open>engines\<close>,
  \<open>js_host\<close>). Mutexes are not modelled: each exported method is one atomic step.

  \<^bold>\<open>Foundations.\<close> \<open>Prelude\<close> has the locales for state-preserving operations, systems of operations,
  simulations and cells, and the shared list lemmas. \<open>GoStrings\<close>, \<open>GoScan\<close>, \<open>GoNet\<close>, \<open>GoHttp\<close> and
  \<open>GoJson\<close> model what the program uses of the standard library: string functions, the line scanner
  with its token limit, address parsing, header and query handling, and the JSON decoder as a stack
  machine with the nesting limit of 10000 of \<open>encoding/json\<close>.

  \<^bold>\<open>Data.\<close> \<open>ApiModel\<close> is \<open>model/model.go\<close> and \<open>model/auth.go\<close>. \<open>Config\<close> is \<open>config/config.go\<close> on a decoded
  file: the schema migrations and the repair of a loaded configuration.

  \<^bold>\<open>Variables.\<close> \<open>Vars\<close> is \<open>vars/vars.go\<close> and \<open>vars/prompt.go\<close>: the scanner, the scopes and the
  memoising resolver. The fuel of the resolver is the number of names that can be on its stack, as
  the cycle guard keeps each at most once. \<open>VarsRef\<close> shows that it computes what a resolver
  without memo table computes. \<open>PathParam\<close> is \<open>pathparam/pathparam.go\<close>.

  \<^bold>\<open>Session.\<close> \<open>SessionTree\<close> and \<open>SessionSearch\<close> are \<open>session/tree.go\<close>: positional node IDs such as
  \<open>0/f1/r2\<close>, navigation, and the search marks. \<open>Session\<close> and \<open>SessionEnv\<close> are \<open>session/session.go\<close>,
  \<open>session/workspace.go\<close>: state, reload, save with rollback, environments, overlay, workspaces.
  \<open>SessionInv\<close> has the step system of all these operations and its invariant. \<open>SessionItems\<close> is
  \<open>session/items.go\<close> (add, rename, delete, undo, duplicate, move); \<open>ItemLemmas\<close>, \<open>ItemProps\<close> and
  \<open>ItemIds\<close> show that no request is lost or doubled and that references follow a rename.
  \<open>SessionFinder\<close> is the lookup part of \<open>session/session.go\<close>. \<open>EnvText\<close> is \<open>session/env.go\<close> and
  \<open>session/dotenv.go\<close>, with the round trips of both formats.

  \<^bold>\<open>Requests.\<close> \<open>Auth\<close> and \<open>AuthProps\<close> are \<open>auth/auth.go\<close>, \<open>auth/digest.go\<close>, \<open>auth/oauth1.go\<close> and
  \<open>auth/awssigv4.go\<close>. \<open>CookieJar\<close> is \<open>cookiejar/cookiejar.go\<close>. \<open>Chain\<close> is \<open>chain/chain.go\<close> with
  its caps of 8 levels and 32 steps, the depth being the fuel; \<open>ChainVars\<close> is \<open>chain/chainvars.go\<close>.
  \<open>Assertion\<close> is \<open>assertion/assertion.go\<close>.

  \<^bold>\<open>Execution.\<close> \<open>Scripting\<close> is the host side of \<open>scripting\<close>: a script is a tree of host calls chosen by the
  engine, so every result holds for every script. \<open>Exec\<close> has the two executors, of
  \<open>runner/exec.go\<close> and of \<open>ui/execution.go\<close>; \<open>Runner\<close> is \<open>runner/runner.go\<close>; \<open>RunnerTree\<close> gives the
  requests of a run by recursion over the tree; \<open>RunnerProps\<close> has the results on whole runs.

  \<^bold>\<open>Records.\<close> \<open>Secrets\<close> is \<open>storage/secrets.go\<close>. \<open>History\<close> is \<open>history/history.go\<close> with the recording
  in \<open>ui/send.go\<close>; a simulation shows that it refines an unbounded log.

  \<^bold>\<open>Storage.\<close> \<open>OpenCollection\<close> has the file records of \<open>storage/opencollection.go\<close>, the unknown keys of
  other tools included, and both conversions. \<open>Store\<close> is \<open>storage/store.go\<close> on a file system of
  named entries: the writer with its file names, its merge of unknown keys and its sweep, the
  staging and the swap, and the loader. The YAML codec is the parameter \<open>codec\<close>; which disk
  operations fail is a set of clock ticks (\<open>bad\<close>), one tick for each operation. \<open>StoreSave\<close> shows that a
  save is all or nothing, \<open>StoreLoad\<close>, \<open>StoreRoundtrip\<close> and \<open>StoreProps\<close> that a saved collection loads as
  it was, and what the format loses. A failing write leaves its file as it was, a failing removal
  its directory; unreadable directories are not modelled.

  \<^bold>\<open>Connections.\<close> \<open>WebSocket\<close> is \<open>websocket/frame.go\<close>, \<open>conn.go\<close> and \<open>handshake.go\<close>: the frame codec on
  8-bit words, message reassembly, control frames and the handshake. The reader's loop ends as
  every turn consumes input.
  \<open>EventStream\<close> is \<open>sse/sse.go\<close>: the
  split function, the scanner over arbitrary reads with its line limit, and the parser; its output
  depends on the lines of the stream only, and written events come back. \<open>OAuth2\<close> is \<open>auth/oauth2.go\<close>
  and \<open>auth/oauth2_authcode.go\<close>: the token cache, both grants, the refresh and the callback
  server, with the token endpoint, the browser and the clock in \<open>oauth_env\<close>; a returned token was cached,
  refreshed, or exchanged for a code whose callback carried the state of the opened URL.
  \<open>OAuth2Flight\<close> interleaves the steps of many clients of one key: one of them fetches. \<open>NTLM\<close> is
  \<open>auth/ntlm.go\<close> on bytes: MD4, the responses, and the three messages; the fields of the last can be
  read back through its references.

  \<^bold>\<open>Sending.\<close> \<open>HttpClient\<close> is \<open>httpclient/httpclient.go\<close>: \<open>Build\<close> with its bodies, the redirect policy, the
  capped read, \<open>Do\<close> (\<open>client_send\<close>) with the digest and NTLM retries, and the loop of \<open>Stream\<close>. The transport is
  a function on an outside world, which also gives the random draws (\<open>rand\<close>). \<open>HttpClientProps\<close> has what is
  on the wire: the query, the missing names, the headers a redirect forwards, the number of
  exchanges and the size of an answer. The executors of \<open>Exec\<close> take \<open>Do\<close> as a parameter, so their
  results hold for this client and any other.

  \<^bold>\<open>In and out.\<close> \<open>CurlImport\<close> is \<open>importer/curl.go\<close>: the shell tokenizer, the flags and the body detection.
  \<open>Exporter\<close> is \<open>exporter/exporter.go\<close> and \<open>codegen.go\<close> on a built request. \<open>CurlRoundtrip\<close> composes
  them: an exported command is imported as the request it came from. \<open>Postman\<close> is
  \<open>importer/postman.go\<close> from the JSON value on; \<open>OpenApi\<close> is \<open>openapi.go\<close> and \<open>from.go\<close> on a loaded document
  whose schemas are a heap, with the depth limit 12 of the code as the measure; \<open>Wsdl\<close> is \<open>wsdl.go\<close> and
  \<open>url.go\<close>. The results say that no operation is lost or doubled, and that a made-up body fits its schema.
  \<open>Report\<close> is \<open>runner/report.go\<close>: the JSON and JUnit documents of a run, which agree in their results and
  verdict. \<open>Responsefmt\<close> is \<open>responsefmt/responsefmt.go\<close>, \<open>QuerySync\<close> is \<open>ui/query.go\<close>, the URL field and the
  query table as views of one request, and \<open>UpdateCheck\<close> is \<open>updatecheck/updatecheck.go\<close>.

  \<^bold>\<open>Not modelled.\<close> The time limits of scripts and the goroutines they leave behind, the timer of
  \<open>Stream\<close>, cancellation, and data races; the widgets of \<open>ui\<close>, its tabs and drag gestures; \<open>net/http\<close> below
  the client; the YAML and XML codecs and the loader of OpenAPI documents; \<open>PrettyXML\<close>; the commands,
  logging and packaging. Case folding is that of ASCII.
\<close>

end
